(* ===== verification/Prelude.thy ===== *)
theory Prelude
  imports Main
begin

text \<open>
  Shared vocabulary of the development: the state-and-exception computations in which the
  asynchronous functions of the control plane and of the agent are written, the invariant and
  frame rules for them, the row operations of a database table, decimal printing of numbers,
  and the named collections the component theories extend.

  A computation \<open>('s, 'e, 'a) run\<close> takes a state and gives the value or the exception together
  with the state at that moment: an \<open>await\<close> that throws leaves every earlier write in
  place, which is what the sources do outside a transaction.
\<close>

named_theorems run_simps "evaluation rules of computations"
named_theorems keeps_intros "preservation rules for invariants"

subsection \<open>Computations with state and exceptions\<close>

type_synonym ('s, 'e, 'a) run = "'s \<Rightarrow> ('e + 'a) \<times> 's"

definition ret :: "'a \<Rightarrow> ('s, 'e, 'a) run" where
  "ret x = (\<lambda>s. (Inr x, s))"

definition raise :: "'e \<Rightarrow> ('s, 'e, 'a) run" where
  "raise e = (\<lambda>s. (Inl e, s))"

definition andThen :: "('s, 'e, 'a) run \<Rightarrow> ('a \<Rightarrow> ('s, 'e, 'b) run) \<Rightarrow> ('s, 'e, 'b) run" where
  "andThen m k = (\<lambda>s. case m s of (Inl e, s') \<Rightarrow> (Inl e, s') | (Inr x, s') \<Rightarrow> k x s')"

definition gets :: "('s \<Rightarrow> 'a) \<Rightarrow> ('s, 'e, 'a) run" where
  "gets f = (\<lambda>s. (Inr (f s), s))"

definition modify :: "('s \<Rightarrow> 's) \<Rightarrow> ('s, 'e, unit) run" where
  "modify g = (\<lambda>s. (Inr (), g s))"

text \<open>\<open>promise.catch(() => {})\<close>: the exception is dropped, the writes made before it stay.\<close>

definition catching :: "('s, 'e, unit) run \<Rightarrow> ('s, 'e, unit) run" where
  "catching m = (\<lambda>s. (Inr (), snd (m s)))"

text \<open>\<open>db.$transaction(async (tx) => \<dots>)\<close>: an exception rolls every write of the body back.\<close>

definition transaction :: "('s, 'e, 'a) run \<Rightarrow> ('s, 'e, 'a) run" where
  "transaction m = (\<lambda>s. case m s of (Inl e, s') \<Rightarrow> (Inl e, s) | (Inr x, s') \<Rightarrow> (Inr x, s'))"

text \<open>\<open>for (const x of xs)\<close> with an accumulator; an exception ends the loop.\<close>

fun forEach :: "'x list \<Rightarrow> 'acc \<Rightarrow> ('x \<Rightarrow> 'acc \<Rightarrow> ('s, 'e, 'acc) run) \<Rightarrow> ('s, 'e, 'acc) run" where
  "forEach [] acc body = ret acc"
| "forEach (x # xs) acc body = andThen (body x acc) (\<lambda>acc'. forEach xs acc' body)"

lemma ret_run [run_simps]: "ret x s = (Inr x, s)"
  by (simp add: ret_def)

lemma raise_run [run_simps]: "raise e s = (Inl e, s)"
  by (simp add: raise_def)

lemma gets_run [run_simps]: "gets f s = (Inr (f s), s)"
  by (simp add: gets_def)

lemma modify_run [run_simps]: "modify g s = (Inr (), g s)"
  by (simp add: modify_def)

lemma catching_run [run_simps]: "catching m s = (Inr (), snd (m s))"
  by (simp add: catching_def)

lemma andThen_ret [run_simps]: "andThen (ret x) k = k x"
  by (simp add: andThen_def ret_def)

lemma andThen_raise [run_simps]: "andThen (raise e) k = raise e"
  by (simp add: andThen_def raise_def)

lemma andThen_gets [run_simps]: "andThen (gets f) k s = k (f s) s"
  by (simp add: andThen_def gets_def)

lemma andThen_modify [run_simps]: "andThen (modify g) k s = k () (g s)"
  by (simp add: andThen_def modify_def)

lemma andThen_catching [run_simps]: "andThen (catching m) k s = k () (snd (m s))"
  by (simp add: andThen_def catching_def)

lemma andThen_assoc [run_simps]:
  "andThen (andThen m k) l = andThen m (\<lambda>x. andThen (k x) l)"
  by (rule ext) (auto simp: andThen_def split: prod.splits sum.splits)

lemma andThen_Inr: "m s = (Inr x, s') \<Longrightarrow> andThen m k s = k x s'"
  by (simp add: andThen_def)

lemma andThen_Inl: "m s = (Inl e, s') \<Longrightarrow> andThen m k s = (Inl e, s')"
  by (simp add: andThen_def)

lemma andThen_InrE:
  assumes "andThen m k s = (Inr y, t)"
  obtains x s' where "m s = (Inr x, s')" and "k x s' = (Inr y, t)"
  using assms by (auto simp: andThen_def split: prod.splits sum.splits)

subsection \<open>Invariants and frames of computations\<close>

text \<open>
  \<open>keeps I m\<close>: whatever \<open>m\<close> returns or throws, it leads from a state that satisfies \<open>I\<close> to
  one that does. The rules decompose a handler along its own structure.
\<close>

definition keeps :: "('s \<Rightarrow> bool) \<Rightarrow> ('s, 'e, 'a) run \<Rightarrow> bool" where
  "keeps I m \<longleftrightarrow> (\<forall>s. I s \<longrightarrow> I (snd (m s)))"

lemma keepsI: "(\<And>s. I s \<Longrightarrow> I (snd (m s))) \<Longrightarrow> keeps I m"
  by (simp add: keeps_def)

lemma keepsD: "keeps I m \<Longrightarrow> I s \<Longrightarrow> I (snd (m s))"
  by (simp add: keeps_def)

lemma keeps_result: "keeps I m \<Longrightarrow> I s \<Longrightarrow> m s = (r, t) \<Longrightarrow> I t"
  by (metis keepsD snd_conv)

lemma keeps_ret [keeps_intros]: "keeps I (ret x)"
  by (simp add: keeps_def ret_def)

lemma keeps_raise [keeps_intros]: "keeps I (raise e)"
  by (simp add: keeps_def raise_def)

lemma keeps_gets [keeps_intros]: "keeps I (gets f)"
  by (simp add: keeps_def gets_def)

lemma keeps_modify: "(\<And>s. I s \<Longrightarrow> I (g s)) \<Longrightarrow> keeps I (modify g)"
  by (simp add: keeps_def modify_def)

lemma keeps_andThen [keeps_intros]:
  "keeps I m \<Longrightarrow> (\<And>x. keeps I (k x)) \<Longrightarrow> keeps I (andThen m k)"
  by (fastforce simp: keeps_def andThen_def split: prod.splits sum.splits)

lemma keeps_catching [keeps_intros]: "keeps I m \<Longrightarrow> keeps I (catching m)"
  by (simp add: keeps_def catching_def)

lemma keeps_transaction [keeps_intros]: "keeps I m \<Longrightarrow> keeps I (transaction m)"
  by (fastforce simp: keeps_def transaction_def split: prod.splits sum.splits)

lemma keeps_if [keeps_intros]:
  "(b \<Longrightarrow> keeps I m) \<Longrightarrow> (\<not> b \<Longrightarrow> keeps I m') \<Longrightarrow> keeps I (if b then m else m')"
  by simp

lemma keeps_option [keeps_intros]:
  "keeps I m \<Longrightarrow> (\<And>x. keeps I (k x)) \<Longrightarrow> keeps I (case v of None \<Rightarrow> m | Some x \<Rightarrow> k x)"
  by (cases v) auto

lemma keeps_sum [keeps_intros]:
  "(\<And>x. keeps I (k x)) \<Longrightarrow> (\<And>y. keeps I (l y)) \<Longrightarrow> keeps I (case v of Inl x \<Rightarrow> k x | Inr y \<Rightarrow> l y)"
  by (cases v) auto

lemma keeps_prod [keeps_intros]:
  "(\<And>x y. keeps I (k x y)) \<Longrightarrow> keeps I (case v of (x, y) \<Rightarrow> k x y)"
  by (cases v) auto

lemma keeps_let [keeps_intros]: "(\<And>x. keeps I (k x)) \<Longrightarrow> keeps I (let x = v in k x)"
  by (simp add: Let_def)

lemma keeps_forEach [keeps_intros]:
  "(\<And>x acc. keeps I (body x acc)) \<Longrightarrow> keeps I (forEach xs acc body)"
  by (induction xs arbitrary: acc) (auto intro: keeps_intros)

text \<open>
  \<open>leads P Q m\<close>: from a state in \<open>P\<close> the computation ends, normally or not, in \<open>Q\<close>. A prefix that
  keeps \<open>P\<close> can be split off when \<open>P\<close> is part of \<open>Q\<close>.
\<close>

definition leads :: "('s \<Rightarrow> bool) \<Rightarrow> ('s \<Rightarrow> bool) \<Rightarrow> ('s, 'e, 'a) run \<Rightarrow> bool" where
  "leads P Q m \<longleftrightarrow> (\<forall>s. P s \<longrightarrow> Q (snd (m s)))"

lemma leadsI: "(\<And>s. P s \<Longrightarrow> Q (snd (m s))) \<Longrightarrow> leads P Q m"
  by (simp add: leads_def)

lemma leadsD: "leads P Q m \<Longrightarrow> P s \<Longrightarrow> Q (snd (m s))"
  by (simp add: leads_def)

lemma leads_andThen:
  assumes "keeps P m" "\<And>s. P s \<Longrightarrow> Q s" "\<And>x. leads P Q (k x)"
  shows "leads P Q (andThen m k)"
  using assms
  by (fastforce simp: leads_def keeps_def andThen_def split: prod.splits sum.splits)

lemma leads_modify: "leads P' Q k \<Longrightarrow> (\<And>s. P s \<Longrightarrow> P' (g s)) \<Longrightarrow> leads P Q (andThen (modify g) (\<lambda>_. k))"
  by (simp add: leads_def andThen_def modify_def)

lemma leads_keeps: "keeps P m \<Longrightarrow> (\<And>s. P s \<Longrightarrow> Q s) \<Longrightarrow> leads P Q m"
  by (simp add: leads_def keeps_def)

text \<open>A computation that never throws.\<close>

definition total_run :: "('s, 'e, 'a) run \<Rightarrow> bool" where
  "total_run m \<longleftrightarrow> (\<forall>s. \<exists>x t. m s = (Inr x, t))"

lemma total_runE:
  assumes "total_run m"
  obtains x t where "m s = (Inr x, t)"
  using assms unfolding total_run_def by blast

lemma forEach_append:
  "forEach (xs @ ys) acc body = andThen (forEach xs acc body) (\<lambda>acc'. forEach ys acc' body)"
  by (induction xs arbitrary: acc) (auto simp: run_simps)

subsection \<open>Rows of a table\<close>

text \<open>
  A table is the list of its rows in insertion order. \<open>findBy\<close> is Prisma's lookup by a unique
  column, \<open>updateWhere\<close> its \<open>updateMany\<close>: every row that satisfies the filter is rewritten.
\<close>

definition findBy :: "('r \<Rightarrow> 'k) \<Rightarrow> 'k \<Rightarrow> 'r list \<Rightarrow> 'r option" where
  "findBy key k rows = find (\<lambda>r. key r = k) rows"

definition updateWhere :: "('r \<Rightarrow> bool) \<Rightarrow> ('r \<Rightarrow> 'r) \<Rightarrow> 'r list \<Rightarrow> 'r list" where
  "updateWhere p g rows = map (\<lambda>r. if p r then g r else r) rows"

lemma findBy_simps [simp]:
  "findBy key k [] = None"
  "findBy key k (r # rows) = (if key r = k then Some r else findBy key k rows)"
  by (simp_all add: findBy_def)

lemma updateWhere_simps [simp]:
  "updateWhere p g [] = []"
  "updateWhere p g (r # rows) = (if p r then g r else r) # updateWhere p g rows"
  by (simp_all add: updateWhere_def)

lemma findD: "find P xs = Some x \<Longrightarrow> x \<in> set xs \<and> P x"
  by (induction xs) (auto split: if_splits)

lemma findBy_key: "findBy key k rows = Some r \<Longrightarrow> key r = k"
  by (induction rows) (auto split: if_splits)

lemma findBy_in: "findBy key k rows = Some r \<Longrightarrow> r \<in> set rows"
  by (induction rows) (auto split: if_splits)

lemma findBy_None: "findBy key k rows = None \<longleftrightarrow> k \<notin> key ` set rows"
  by (induction rows) auto

lemma findBy_Some_distinct:
  "distinct (map key rows) \<Longrightarrow> r \<in> set rows \<Longrightarrow> findBy key (key r) rows = Some r"
  by (induction rows) auto

lemma findBy_append:
  "findBy key k (rows @ rows') = (case findBy key k rows of None \<Rightarrow> findBy key k rows' | Some r \<Rightarrow> Some r)"
  by (induction rows) auto

lemma updateWhere_keys:
  "(\<And>r. key (g r) = key r) \<Longrightarrow> map key (updateWhere p g rows) = map key rows"
  by (induction rows) auto

lemma findBy_updateWhere:
  assumes "\<And>r. key (g r) = key r"
  shows "findBy key k (updateWhere p g rows) =
    map_option (\<lambda>r. if p r then g r else r) (findBy key k rows)"
  by (induction rows) (auto simp: assms)

lemma updateWhere_other:
  "(\<And>r. r \<in> set rows \<Longrightarrow> \<not> p r) \<Longrightarrow> updateWhere p g rows = rows"
  by (induction rows) auto

lemma length_updateWhere [simp]: "length (updateWhere p g rows) = length rows"
  by (simp add: updateWhere_def)

lemma set_updateWhere:
  "set (updateWhere p g rows) = {if p r then g r else r | r. r \<in> set rows}"
  by (auto simp: updateWhere_def)

lemma updateWhere_append [simp]: "updateWhere p g (rows @ rows') = updateWhere p g rows @ updateWhere p g rows'"
  by (simp add: updateWhere_def)

lemma updateWhere_all:
  "(\<And>r. r \<in> set rows \<Longrightarrow> Q r) \<Longrightarrow> (\<And>r. Q r \<Longrightarrow> p r \<Longrightarrow> Q (g r)) \<Longrightarrow>
   r \<in> set (updateWhere p g rows) \<Longrightarrow> Q r"
  by (auto simp: set_updateWhere)

lemma filter_updateWhere_length:
  "(\<And>r. p r \<Longrightarrow> q (g r) = q r) \<Longrightarrow>
   length (filter q (updateWhere p g rows)) = length (filter q rows)"
  by (induction rows) auto

subsection \<open>Decimal notation\<close>

definition digit_char :: "nat \<Rightarrow> char" where
  "digit_char d = char_of (48 + d)"

fun show_nat :: "nat \<Rightarrow> string" where
  "show_nat n = (if n < 10 then [digit_char n] else show_nat (n div 10) @ [digit_char (n mod 10)])"

declare show_nat.simps [simp del]

definition show_int :: "int \<Rightarrow> string" where
  "show_int i = (if i < 0 then ''-'' @ show_nat (nat (- i)) else show_nat (nat i))"

text \<open>Joining strings with a separator, \<open>xs.join(sep)\<close>.\<close>

text \<open>\<open>String.prototype.trim\<close>.\<close>

definition is_space :: "char \<Rightarrow> bool" where
  "is_space c \<longleftrightarrow> c \<in> {CHR '' '', CHR 0x09, CHR 0x0A, CHR 0x0B, CHR 0x0C, CHR 0x0D, CHR 0xA0}"

definition trim :: "string \<Rightarrow> string" where
  "trim s = rev (dropWhile is_space (rev (dropWhile is_space s)))"

fun join_with :: "string \<Rightarrow> string list \<Rightarrow> string" where
  "join_with sep [] = ''''"
| "join_with sep [x] = x"
| "join_with sep (x # y # xs) = x @ sep @ join_with sep (y # xs)"

text \<open>\<open>s.split(c)\<close> on a one-character separator.\<close>

fun split_on :: "'a \<Rightarrow> 'a list \<Rightarrow> 'a list list" where
  "split_on c [] = [[]]"
| "split_on c (x # xs) =
     (if x = c then [] # split_on c xs
      else (case split_on c xs of [] \<Rightarrow> [[x]] | y # ys \<Rightarrow> (x # y) # ys))"

lemma split_on_nonempty [simp]: "split_on c xs \<noteq> []"
  by (induction xs) (auto split: list.splits)

lemma split_on_join:
  assumes "c \<notin> set x"
  shows "split_on c (x @ c # rest) = x # split_on c rest"
  using assms by (induction x) auto

lemma split_on_none: "c \<notin> set x \<Longrightarrow> split_on c x = [x]"
  by (induction x) auto

lemma list_all2_partner: "list_all2 P xs ys \<Longrightarrow> x \<in> set xs \<Longrightarrow> \<exists>y\<in>set ys. P x y"
  by (induction rule: list_all2_induct) auto

end
