(* ===== verification/Replay_Guard.thy ===== *)
theory Replay_Guard
  imports Prelude
begin

text \<open>
  \<open>packages/protocol/src/replay-guard.ts\<close>: the in-memory guard. The \<open>Map\<close> of the class is the list
  of its entries in insertion order; \<open>checkAndRecord\<close> returns the answer and the new map.
\<close>

record replay_guard =
  rg_seenAt :: "(string \<times> int) list"
  rg_ttlMs :: int

definition default_ttlMs :: int where
  "default_ttlMs = 5 * 60 * 1000"

definition newReplayGuard :: "int option \<Rightarrow> replay_guard" where
  "newReplayGuard ttl = \<lparr>rg_seenAt = [], rg_ttlMs = (case ttl of None \<Rightarrow> default_ttlMs | Some t \<Rightarrow> t)\<rparr>"

definition evictExpired :: "int \<Rightarrow> replay_guard \<Rightarrow> replay_guard" where
  "evictExpired now g = g\<lparr>rg_seenAt := filter (\<lambda>(i, seenAt). \<not> (now - seenAt > rg_ttlMs g)) (rg_seenAt g)\<rparr>"

definition checkAndRecord :: "string \<Rightarrow> int \<Rightarrow> replay_guard \<Rightarrow> bool \<times> replay_guard" where
  "checkAndRecord messageId receivedAt g =
     (let g' = evictExpired receivedAt g;
          alreadySeen = messageId \<in> fst ` set (rg_seenAt g')
      in (alreadySeen,
          if alreadySeen then g' else g'\<lparr>rg_seenAt := rg_seenAt g' @ [(messageId, receivedAt)]\<rparr>))"

definition guard_size :: "replay_guard \<Rightarrow> nat" where
  "guard_size g = length (rg_seenAt g)"

text \<open>A run of deliveries \<open>(messageId, receivedAt)\<close>, with the answer of each.\<close>

fun deliveries :: "(string \<times> int) list \<Rightarrow> replay_guard \<Rightarrow> bool list \<times> replay_guard" where
  "deliveries [] g = ([], g)"
| "deliveries ((m, t) # ds) g =
     (let (b, g') = checkAndRecord m t g; (bs, g'') = deliveries ds g' in (b # bs, g''))"

subsection \<open>The map keeps one entry per id, none expired\<close>

definition guard_ok :: "int \<Rightarrow> replay_guard \<Rightarrow> bool" where
  "guard_ok now g \<longleftrightarrow> distinct (map fst (rg_seenAt g)) \<and> (\<forall>(m, t)\<in>set (rg_seenAt g). t \<le> now)"

lemma ttl_checkAndRecord [simp]: "rg_ttlMs (snd (checkAndRecord m t g)) = rg_ttlMs g"
  by (simp add: checkAndRecord_def evictExpired_def Let_def)

lemma guard_ok_evict: "guard_ok now g \<Longrightarrow> guard_ok now (evictExpired t g)"
  by (auto simp: guard_ok_def evictExpired_def distinct_map_filter)

lemma guard_ok_later: "guard_ok now g \<Longrightarrow> now \<le> now' \<Longrightarrow> guard_ok now' g"
  by (fastforce simp: guard_ok_def)

lemma guard_ok_new: "guard_ok now (newReplayGuard ttl)"
  by (simp add: guard_ok_def newReplayGuard_def)

lemma guard_ok_checkAndRecord:
  assumes "guard_ok now g" "now \<le> t"
  shows "guard_ok t (snd (checkAndRecord m t g))"
proof -
  have "guard_ok t (evictExpired t g)" using assms guard_ok_later guard_ok_evict by blast
  then show ?thesis
    by (auto simp: checkAndRecord_def Let_def guard_ok_def image_iff)
qed

lemma size_bound:
  assumes "guard_ok now g"
  shows "guard_size g = card (fst ` set (rg_seenAt g))"
  using assms by (metis distinct_card guard_ok_def guard_size_def image_set length_map)

text \<open>What one delivery answers, and what it keeps.\<close>

lemma check_seen_iff:
  "fst (checkAndRecord m t g) \<longleftrightarrow> (\<exists>t0. (m, t0) \<in> set (rg_seenAt g) \<and> t - t0 \<le> rg_ttlMs g)"
  by (force simp: checkAndRecord_def evictExpired_def Let_def)

lemma check_entries:
  "(m', t') \<in> set (rg_seenAt (snd (checkAndRecord m t g))) \<longleftrightarrow>
     (m', t') \<in> set (rg_seenAt g) \<and> t - t' \<le> rg_ttlMs g
   \<or> \<not> fst (checkAndRecord m t g) \<and> m' = m \<and> t' = t"
  by (auto simp: checkAndRecord_def evictExpired_def Let_def)

text \<open>The entry of an id stays while it is within its window, whatever else is delivered.\<close>

lemma entry_stays:
  "(m, t0) \<in> set (rg_seenAt g) \<Longrightarrow> (\<And>d. d \<in> set ds \<Longrightarrow> snd d - t0 \<le> rg_ttlMs g) \<Longrightarrow>
   (m, t0) \<in> set (rg_seenAt (snd (deliveries ds g)))"
proof (induction ds arbitrary: g)
  case (Cons d ds)
  obtain m' t' where d: "d = (m', t')" by (cases d)
  have "(m, t0) \<in> set (rg_seenAt (snd (checkAndRecord m' t' g)))"
    using Cons.prems d by (fastforce simp: check_entries)
  with Cons.IH [of "snd (checkAndRecord m' t' g)"] Cons.prems d show ?case
    by (auto simp: case_prod_beta)
qed simp

lemma ttl_deliveries [simp]: "rg_ttlMs (snd (deliveries ds g)) = rg_ttlMs g"
  by (induction ds arbitrary: g) (auto simp: case_prod_beta)

text \<open>
  C19: a message id that was let through is rejected on every delivery within the time to live of
  its first acceptance, whatever other messages come between: with the guard answering "not seen"
  at time \<open>t0\<close> and any deliveries up to the redelivery, all within the window, the redelivery is
  answered "seen".
\<close>
theorem replay_rejected:
  assumes "\<not> fst (checkAndRecord m t0 g)"
    and "\<And>d. d \<in> set ds \<Longrightarrow> snd d - t0 \<le> rg_ttlMs g" and "t1 - t0 \<le> rg_ttlMs g"
  shows "fst (checkAndRecord m t1 (snd (deliveries ds (snd (checkAndRecord m t0 g)))))"
proof -
  have "(m, t0) \<in> set (rg_seenAt (snd (checkAndRecord m t0 g)))"
    using assms(1) by (simp add: check_entries)
  then have "(m, t0) \<in> set (rg_seenAt (snd (deliveries ds (snd (checkAndRecord m t0 g)))))"
    by (rule entry_stays) (use assms(2) in simp)
  with assms(3) show ?thesis by (auto simp: check_seen_iff)
qed

theorem replay_rejected_witness:
  "fst (checkAndRecord ''m1'' 300000 (snd (deliveries [(''m2'', 5)] (snd (checkAndRecord ''m1'' 0 (newReplayGuard None))))))"
  by (rule replay_rejected)
    (simp_all add: checkAndRecord_def evictExpired_def newReplayGuard_def default_ttlMs_def)

text \<open>
  The guard's memory is bounded by what was delivered recently: after deliveries at
  non-decreasing times, every entry is a delivery accepted within the time to live before the last
  one, and each id has one entry.
\<close>
theorem guard_forgets:
  assumes "guard_ok now g" "now \<le> t"
  shows "guard_ok t (snd (checkAndRecord m t g))
    \<and> (\<forall>(m', t')\<in>set (rg_seenAt (snd (checkAndRecord m t g))). t - t' \<le> max 0 (rg_ttlMs g))
    \<and> guard_size (snd (checkAndRecord m t g)) \<le> Suc (guard_size g)"
proof -
  have "guard_size (evictExpired t g) \<le> guard_size g"
    by (simp add: guard_size_def evictExpired_def)
  then have "guard_size (snd (checkAndRecord m t g)) \<le> Suc (guard_size g)"
    by (auto simp: guard_size_def checkAndRecord_def Let_def)
  moreover have "\<forall>(m', t')\<in>set (rg_seenAt (snd (checkAndRecord m t g))). t - t' \<le> max 0 (rg_ttlMs g)"
    by (auto simp: check_entries)
  ultimately show ?thesis using guard_ok_checkAndRecord [OF assms] by blast
qed

theorem guard_forgets_witness:
  "guard_ok 7 (snd (checkAndRecord ''m1'' 7 (newReplayGuard None)))"
  using guard_forgets [OF guard_ok_new, of 0 7 "''m1''" None] by simp

end
