(* ===== verification/Zod.thy ===== *)
theory Zod
  imports Complex_Main Prelude
begin

text \<open>
  JSON values and the schema language of the sources. The schemas of the program are data of
  type \<open>schema\<close>, built with the same chain of checks as the \<open>z.\<dots>\<close> expressions they translate.
  The validator itself, the zod package, is not part of the repository: it is the parameter
  \<open>safeParse\<close> of the locale \<open>zod\<close>, whose laws are the documented meaning of the constructors
  the sources use: which values conform, and which value a successful parse returns (unknown keys
  of an object stripped, defaults filled in). Issue texts are left open.
\<close>

datatype json =
  JNull | JBool bool | JNum rat | JStr string | JArr "json list" | JObj "(string \<times> json) list"

datatype fmt = AnyText | Uuid | IsoDatetime | Url

datatype len_check = AtLeast nat | AtMost nat

datatype num_check = IsInt | Positive | NonNegative | MinNum rat | MaxNum rat

datatype schema =
  SStr "len_check list" fmt
| SNum "num_check list"
| SBool
| SEnum "string list"
| SLit string
| SUnknown
| SArr schema "len_check list"
| SRec schema
| SObj "field list" "schema option"
| SUnion string "variant list"
| SOpt schema
| SNullable schema
| SDefault schema json
and field = Field string schema
and variant = Variant string "field list"

type_synonym issue = "string \<times> string"

fun len_ok :: "nat \<Rightarrow> len_check \<Rightarrow> bool" where
  "len_ok n (AtLeast k) \<longleftrightarrow> k \<le> n"
| "len_ok n (AtMost k) \<longleftrightarrow> n \<le> k"

fun num_ok :: "rat \<Rightarrow> num_check \<Rightarrow> bool" where
  "num_ok x IsInt \<longleftrightarrow> of_int \<lfloor>x\<rfloor> = x \<and> \<bar>x\<bar> < 2 ^ 53"
| "num_ok x Positive \<longleftrightarrow> 0 < x"
| "num_ok x NonNegative \<longleftrightarrow> 0 \<le> x"
| "num_ok x (MinNum k) \<longleftrightarrow> k \<le> x"
| "num_ok x (MaxNum k) \<longleftrightarrow> x \<le> k"

fun field_names :: "field list \<Rightarrow> string list" where
  "field_names [] = []"
| "field_names (Field k s # fs) = k # field_names fs"

fun is_string :: "json \<Rightarrow> bool" where
  "is_string (JStr s) = True"
| "is_string _ = False"

text \<open>An absent property is \<open>None\<close>, JavaScript's \<open>undefined\<close>.\<close>

fun conforms :: "(fmt \<Rightarrow> string \<Rightarrow> bool) \<Rightarrow> schema \<Rightarrow> json option \<Rightarrow> bool"
and conforms_fields :: "(fmt \<Rightarrow> string \<Rightarrow> bool) \<Rightarrow> field list \<Rightarrow> (string \<times> json) list \<Rightarrow> bool"
and conforms_variants :: "(fmt \<Rightarrow> string \<Rightarrow> bool) \<Rightarrow> string \<Rightarrow> variant list \<Rightarrow> (string \<times> json) list \<Rightarrow> bool"
where
  "conforms F (SStr cs f) v =
     (case v of Some (JStr s) \<Rightarrow> list_all (len_ok (length s)) cs \<and> (f = AnyText \<or> F f s) | _ \<Rightarrow> False)"
| "conforms F (SNum cs) v = (case v of Some (JNum x) \<Rightarrow> list_all (num_ok x) cs | _ \<Rightarrow> False)"
| "conforms F SBool v = (case v of Some (JBool b) \<Rightarrow> True | _ \<Rightarrow> False)"
| "conforms F (SEnum ss) v = (case v of Some (JStr s) \<Rightarrow> s \<in> set ss | _ \<Rightarrow> False)"
| "conforms F (SLit l) v = (v = Some (JStr l))"
| "conforms F SUnknown v = True"
| "conforms F (SArr s cs) v =
     (case v of Some (JArr xs) \<Rightarrow> list_all (len_ok (length xs)) cs \<and> list_all (\<lambda>x. conforms F s (Some x)) xs
      | _ \<Rightarrow> False)"
| "conforms F (SRec s) v =
     (case v of Some (JObj kvs) \<Rightarrow> list_all (\<lambda>kv. conforms F s (Some (snd kv))) kvs | _ \<Rightarrow> False)"
| "conforms F (SObj fs None) v =
     (case v of Some (JObj kvs) \<Rightarrow> conforms_fields F fs kvs | _ \<Rightarrow> False)"
| "conforms F (SObj fs (Some c)) v =
     (case v of Some (JObj kvs) \<Rightarrow> conforms_fields F fs kvs
          \<and> list_all (\<lambda>kv. fst kv \<in> set (field_names fs) \<or> conforms F c (Some (snd kv))) kvs
      | _ \<Rightarrow> False)"
| "conforms F (SUnion d vs) v =
     (case v of Some (JObj kvs) \<Rightarrow> conforms_variants F d vs kvs | _ \<Rightarrow> False)"
| "conforms F (SOpt s) v = (v = None \<or> conforms F s v)"
| "conforms F (SNullable s) v = (v = Some JNull \<or> conforms F s v)"
| "conforms F (SDefault s d) v = (v = None \<or> conforms F s v)"
| "conforms_fields F [] kvs = True"
| "conforms_fields F (Field k s # fs) kvs = (conforms F s (map_of kvs k) \<and> conforms_fields F fs kvs)"
| "conforms_variants F d [] kvs = False"
| "conforms_variants F d (Variant t fs # vs) kvs =
     (if map_of kvs d = Some (JStr t) then conforms_fields F fs kvs else conforms_variants F d vs kvs)"

fun parsed :: "schema \<Rightarrow> json option \<Rightarrow> json option"
and parsed_fields :: "field list \<Rightarrow> (string \<times> json) list \<Rightarrow> (string \<times> json) list"
and parsed_variants :: "string \<Rightarrow> variant list \<Rightarrow> (string \<times> json) list \<Rightarrow> (string \<times> json) list"
where
  "parsed (SStr cs f) v = v"
| "parsed (SNum cs) v = v"
| "parsed SBool v = v"
| "parsed (SEnum ss) v = v"
| "parsed (SLit l) v = v"
| "parsed SUnknown v = v"
| "parsed (SArr s cs) v =
     (case v of Some (JArr xs) \<Rightarrow> Some (JArr (map (\<lambda>x. case parsed s (Some x) of Some y \<Rightarrow> y | None \<Rightarrow> JNull) xs))
      | _ \<Rightarrow> v)"
| "parsed (SRec s) v =
     (case v of Some (JObj kvs) \<Rightarrow>
        Some (JObj (map (\<lambda>kv. (fst kv, case parsed s (Some (snd kv)) of Some y \<Rightarrow> y | None \<Rightarrow> JNull)) kvs))
      | _ \<Rightarrow> v)"
| "parsed (SObj fs None) v =
     (case v of Some (JObj kvs) \<Rightarrow> Some (JObj (parsed_fields fs kvs)) | _ \<Rightarrow> v)"
| "parsed (SObj fs (Some c)) v =
     (case v of Some (JObj kvs) \<Rightarrow>
        Some (JObj (parsed_fields fs kvs
          @ map (\<lambda>kv. (fst kv, case parsed c (Some (snd kv)) of Some y \<Rightarrow> y | None \<Rightarrow> JNull))
              (filter (\<lambda>kv. fst kv \<notin> set (field_names fs)) kvs)))
      | _ \<Rightarrow> v)"
| "parsed (SUnion d vs) v =
     (case v of Some (JObj kvs) \<Rightarrow> Some (JObj (parsed_variants d vs kvs)) | _ \<Rightarrow> v)"
| "parsed (SOpt s) v = (case v of None \<Rightarrow> None | Some x \<Rightarrow> parsed s (Some x))"
| "parsed (SNullable s) v = (if v = Some JNull then v else parsed s v)"
| "parsed (SDefault s d) v = (case v of None \<Rightarrow> Some d | Some x \<Rightarrow> parsed s (Some x))"
| "parsed_fields [] kvs = []"
| "parsed_fields (Field k s # fs) kvs =
     (case parsed s (map_of kvs k) of Some y \<Rightarrow> (k, y) # parsed_fields fs kvs | None \<Rightarrow> parsed_fields fs kvs)"
| "parsed_variants d [] kvs = []"
| "parsed_variants d (Variant t fs # vs) kvs =
     (if map_of kvs d = Some (JStr t) then (d, JStr t) # parsed_fields fs kvs else parsed_variants d vs kvs)"

subsection \<open>The validator\<close>

locale zod =
  fixes safeParse :: "schema \<Rightarrow> json option \<Rightarrow> issue list + json option"
    and F :: "fmt \<Rightarrow> string \<Rightarrow> bool"
  assumes accepts: "conforms F s v \<Longrightarrow> safeParse s v = Inr (parsed s v)"
    and rejects: "\<not> conforms F s v \<Longrightarrow> \<exists>i is. safeParse s v = Inl (i # is)"
begin

lemma parse_ok_iff: "safeParse s v = Inr w \<longleftrightarrow> conforms F s v \<and> w = parsed s v"
  using accepts rejects by (metis Inl_Inr_False sum.inject(2))

lemma parse_fails_iff: "(\<exists>is. safeParse s v = Inl is) \<longleftrightarrow> \<not> conforms F s v"
  using accepts rejects by (metis Inl_Inr_False)

lemma parse_cases:
  obtains "conforms F s v" "safeParse s v = Inr (parsed s v)"
  | i "is" where "\<not> conforms F s v" "safeParse s v = Inl (i # is)"
  using accepts rejects by metis

end

text \<open>
  A validator that meets the laws, with the formats given by \<open>F\<close>: the laws can be met, and
  witnesses run on it.
\<close>

definition plain_validator :: "(fmt \<Rightarrow> string \<Rightarrow> bool) \<Rightarrow> schema \<Rightarrow> json option \<Rightarrow> issue list + json option" where
  "plain_validator F s v = (if conforms F s v then Inr (parsed s v) else Inl [(''path'', ''invalid'')])"

interpretation plain: zod "plain_validator F" F
  by unfold_locales (simp_all add: plain_validator_def)

subsection \<open>A parsed value parses to itself\<close>

text \<open>
  A schema is well formed when the fields of its objects have distinct names, a discriminator is
  not a field of its variants, and its defaults conform and are complete.
\<close>

fun wf_schema :: "(fmt \<Rightarrow> string \<Rightarrow> bool) \<Rightarrow> schema \<Rightarrow> bool"
and wf_fields :: "(fmt \<Rightarrow> string \<Rightarrow> bool) \<Rightarrow> field list \<Rightarrow> bool"
and wf_variants :: "(fmt \<Rightarrow> string \<Rightarrow> bool) \<Rightarrow> string \<Rightarrow> variant list \<Rightarrow> bool"
where
  "wf_schema F (SArr s cs) \<longleftrightarrow> wf_schema F s"
| "wf_schema F (SRec s) \<longleftrightarrow> wf_schema F s"
| "wf_schema F (SObj fs None) \<longleftrightarrow> wf_fields F fs"
| "wf_schema F (SObj fs (Some c)) \<longleftrightarrow> wf_fields F fs \<and> wf_schema F c"
| "wf_schema F (SUnion d vs) \<longleftrightarrow> wf_variants F d vs"
| "wf_schema F (SOpt s) \<longleftrightarrow> wf_schema F s"
| "wf_schema F (SNullable s) \<longleftrightarrow> wf_schema F s"
| "wf_schema F (SDefault s d) \<longleftrightarrow> wf_schema F s \<and> conforms F s (Some d) \<and> parsed s (Some d) = Some d"
| "wf_schema F _ \<longleftrightarrow> True"
| "wf_fields F [] \<longleftrightarrow> True"
| "wf_fields F (Field k s # fs) \<longleftrightarrow> k \<notin> set (field_names fs) \<and> wf_schema F s \<and> wf_fields F fs"
| "wf_variants F d [] \<longleftrightarrow> True"
| "wf_variants F d (Variant t fs # vs) \<longleftrightarrow> d \<notin> set (field_names fs) \<and> wf_fields F fs \<and> wf_variants F d vs"

lemmas parsed_induct = parsed_parsed_fields_parsed_variants.induct

lemma parsed_present_aux: "v \<noteq> None \<Longrightarrow> parsed s v \<noteq> None"
  by (induction s v rule: parsed_induct(1) [where Q = "\<lambda>_ _. True" and R = "\<lambda>_ _ _. True"])
    (auto split: json.splits option.splits)

lemma parsed_present: "\<exists>y. parsed s (Some x) = Some y"
  using parsed_present_aux [of "Some x" s] by simp

lemma parsed_fields_fresh: "k \<notin> set (field_names fs) \<Longrightarrow> map_of (parsed_fields fs kvs) k = None"
  by (induction fs kvs rule: parsed_induct(2) [where P = "\<lambda>_ _. True" and R = "\<lambda>_ _ _. True"])
    (auto split: option.splits)

lemma parsed_fields_names: "kv \<in> set (parsed_fields fs kvs) \<Longrightarrow> fst kv \<in> set (field_names fs)"
  by (induction fs kvs rule: parsed_induct(2) [where P = "\<lambda>_ _. True" and R = "\<lambda>_ _ _. True"])
    (auto split: option.splits)

text \<open>
  The three parts of the statement: for a value, for the fields of an object (read in any object
  that agrees with the parsed one on these fields), and for the variants of a union.
\<close>

definition stable :: "(fmt \<Rightarrow> string \<Rightarrow> bool) \<Rightarrow> schema \<Rightarrow> json option \<Rightarrow> bool" where
  "stable F s v \<longleftrightarrow> (wf_schema F s \<longrightarrow> conforms F s v \<longrightarrow>
     conforms F s (parsed s v) \<and> parsed s (parsed s v) = parsed s v)"

definition stable_fields :: "(fmt \<Rightarrow> string \<Rightarrow> bool) \<Rightarrow> field list \<Rightarrow> (string \<times> json) list \<Rightarrow> bool" where
  "stable_fields F fs kvs \<longleftrightarrow> (wf_fields F fs \<longrightarrow> conforms_fields F fs kvs \<longrightarrow>
     (\<forall>kvs'. (\<forall>k\<in>set (field_names fs). map_of kvs' k = map_of (parsed_fields fs kvs) k) \<longrightarrow>
        conforms_fields F fs kvs' \<and> parsed_fields fs kvs' = parsed_fields fs kvs))"

definition stable_variants ::
    "(fmt \<Rightarrow> string \<Rightarrow> bool) \<Rightarrow> string \<Rightarrow> variant list \<Rightarrow> (string \<times> json) list \<Rightarrow> bool" where
  "stable_variants F d vs kvs \<longleftrightarrow> (wf_variants F d vs \<longrightarrow> conforms_variants F d vs kvs \<longrightarrow>
     conforms_variants F d vs (parsed_variants d vs kvs)
   \<and> parsed_variants d vs (parsed_variants d vs kvs) = parsed_variants d vs kvs)"

definition present :: "schema \<Rightarrow> json \<Rightarrow> json" where
  "present s x = (case parsed s (Some x) of Some y \<Rightarrow> y | None \<Rightarrow> JNull)"

lemma parsed_Some: "parsed s (Some x) = Some (present s x)"
  using parsed_present [of s x] by (auto simp: present_def)

lemma stableI:
  "(wf_schema F s \<Longrightarrow> conforms F s v \<Longrightarrow> conforms F s (parsed s v) \<and> parsed s (parsed s v) = parsed s v)
   \<Longrightarrow> stable F s v"
  by (simp add: stable_def)

lemma stableD:
  "stable F s v \<Longrightarrow> wf_schema F s \<Longrightarrow> conforms F s v \<Longrightarrow>
   conforms F s (parsed s v) \<and> parsed s (parsed s v) = parsed s v"
  by (simp add: stable_def)

lemma stable_fieldsD:
  "stable_fields F fs kvs \<Longrightarrow> wf_fields F fs \<Longrightarrow> conforms_fields F fs kvs \<Longrightarrow>
   (\<And>k. k \<in> set (field_names fs) \<Longrightarrow> map_of kvs' k = map_of (parsed_fields fs kvs) k) \<Longrightarrow>
   conforms_fields F fs kvs' \<and> parsed_fields fs kvs' = parsed_fields fs kvs"
  unfolding stable_fields_def by blast

lemma stable_present:
  "stable F s (Some x) \<Longrightarrow> wf_schema F s \<Longrightarrow> conforms F s (Some x) \<Longrightarrow>
   conforms F s (Some (present s x)) \<and> present s (present s x) = present s x"
  using stableD [of F s "Some x"] unfolding parsed_Some [of s x] parsed_Some [of s "present s x"] by simp

lemma parsed_SArr: "parsed (SArr s cs) (Some (JArr xs)) = Some (JArr (map (present s) xs))"
  by (simp add: present_def)

lemma parsed_SRec: "parsed (SRec s) (Some (JObj kvs)) = Some (JObj (map (\<lambda>kv. (fst kv, present s (snd kv))) kvs))"
  by (simp add: present_def)

lemma parsed_SObj_catchall:
  "parsed (SObj fs (Some c)) (Some (JObj kvs)) =
     Some (JObj (parsed_fields fs kvs @ map (\<lambda>kv. (fst kv, present c (snd kv)))
       (filter (\<lambda>kv. fst kv \<notin> set (field_names fs)) kvs)))"
  by (simp add: present_def)

lemma stable_arr:
  assumes "\<And>x. x \<in> set xs \<Longrightarrow> stable F s (Some x)"
  shows "stable F (SArr s cs) (Some (JArr xs))"
proof (rule stableI)
  assume wf: "wf_schema F (SArr s cs)" and ok: "conforms F (SArr s cs) (Some (JArr xs))"
  have each: "conforms F s (Some (present s x)) \<and> present s (present s x) = present s x" if "x \<in> set xs" for x
    using stable_present [OF assms [OF that]] wf ok that by (simp add: list_all_iff)
  then show "conforms F (SArr s cs) (parsed (SArr s cs) (Some (JArr xs))) \<and>
      parsed (SArr s cs) (parsed (SArr s cs) (Some (JArr xs))) = parsed (SArr s cs) (Some (JArr xs))"
    using ok unfolding parsed_SArr by (simp add: list_all_iff)
qed

lemma stable_rec:
  assumes "\<And>kv. kv \<in> set kvs \<Longrightarrow> stable F s (Some (snd kv))"
  shows "stable F (SRec s) (Some (JObj kvs))"
proof (rule stableI)
  assume wf: "wf_schema F (SRec s)" and ok: "conforms F (SRec s) (Some (JObj kvs))"
  have each: "conforms F s (Some (present s (snd kv))) \<and> present s (present s (snd kv)) = present s (snd kv)"
    if "kv \<in> set kvs" for kv
    using stable_present [OF assms [OF that]] wf ok that by (simp add: list_all_iff)
  then show "conforms F (SRec s) (parsed (SRec s) (Some (JObj kvs))) \<and>
      parsed (SRec s) (parsed (SRec s) (Some (JObj kvs))) = parsed (SRec s) (Some (JObj kvs))"
    unfolding parsed_SRec by (simp add: list_all_iff)
qed

lemma stable_obj: "stable_fields F fs kvs \<Longrightarrow> stable F (SObj fs None) (Some (JObj kvs))"
  by (rule stableI) (use stable_fieldsD [of F fs kvs "parsed_fields fs kvs"] in simp)

lemma stable_obj_catchall:
  assumes "stable_fields F fs kvs"
    and "\<And>kv. kv \<in> set kvs \<Longrightarrow> fst kv \<notin> set (field_names fs) \<Longrightarrow> stable F c (Some (snd kv))"
  shows "stable F (SObj fs (Some c)) (Some (JObj kvs))"
proof (rule stableI)
  assume wf: "wf_schema F (SObj fs (Some c))" and ok: "conforms F (SObj fs (Some c)) (Some (JObj kvs))"
  let ?new = "\<lambda>kv. fst kv \<notin> set (field_names fs)"
  define extra where "extra = map (\<lambda>kv. (fst kv, present c (snd kv))) (filter ?new kvs)"
  let ?out = "parsed_fields fs kvs @ extra"
  have each: "conforms F c (Some (present c (snd kv))) \<and> present c (present c (snd kv)) = present c (snd kv)"
    if "kv \<in> set (filter ?new kvs)" for kv
  proof -
    have "stable F c (Some (snd kv))" using assms(2) [of kv] that by simp
    then show ?thesis by (rule stable_present) (use wf ok that in \<open>auto simp: list_all_iff\<close>)
  qed
  have new: "\<forall>kv\<in>set extra. ?new kv \<and> conforms F c (Some (snd kv)) \<and> present c (snd kv) = snd kv"
    unfolding extra_def using each by auto
  then have "map_of extra k = None" if "k \<in> set (field_names fs)" for k
    using that by (auto simp: map_of_eq_None_iff)
  then have "map_of ?out k = map_of (parsed_fields fs kvs) k" if "k \<in> set (field_names fs)" for k
    using that by (simp add: map_add_def split: option.split)
  then have "conforms_fields F fs ?out \<and> parsed_fields fs ?out = parsed_fields fs kvs"
    by (intro stable_fieldsD [OF assms(1)]) (use wf ok in simp_all)
  then have fields: "conforms_fields F fs ?out" "parsed_fields fs ?out = parsed_fields fs kvs" by blast+
  have "filter ?new (parsed_fields fs kvs) = []"
    by (auto simp: filter_empty_conv dest: parsed_fields_names)
  moreover have "filter ?new extra = extra" using new by (simp add: filter_id_conv)
  ultimately have filt: "filter ?new ?out = extra" by simp
  have "map (\<lambda>kv. (fst kv, present c (snd kv))) extra = extra"
    using new by (simp add: map_idI)
  moreover have "\<forall>kv\<in>set ?out. fst kv \<in> set (field_names fs) \<or> conforms F c (Some (snd kv))"
    using parsed_fields_names new by auto
  ultimately show "conforms F (SObj fs (Some c)) (parsed (SObj fs (Some c)) (Some (JObj kvs)))
      \<and> parsed (SObj fs (Some c)) (parsed (SObj fs (Some c)) (Some (JObj kvs)))
        = parsed (SObj fs (Some c)) (Some (JObj kvs))"
    using fields filt unfolding parsed_SObj_catchall extra_def [symmetric]
    by (simp add: list_all_iff)
qed

lemma stable_field_cons:
  assumes "stable F s (map_of kvs k)" "stable_fields F fs kvs"
  shows "stable_fields F (Field k s # fs) kvs"
  unfolding stable_fields_def
proof (intro impI allI)
  fix kvs'
  assume wf: "wf_fields F (Field k s # fs)" and ok: "conforms_fields F (Field k s # fs) kvs"
    and agree: "\<forall>k'\<in>set (field_names (Field k s # fs)).
      map_of kvs' k' = map_of (parsed_fields (Field k s # fs) kvs) k'"
  have "map_of kvs' k = parsed s (map_of kvs k)"
    using agree wf parsed_fields_fresh [of k fs kvs] by (cases "parsed s (map_of kvs k)") simp_all
  with stableD [OF assms(1)] wf ok
  have head: "conforms F s (map_of kvs' k)" "parsed s (map_of kvs' k) = parsed s (map_of kvs k)"
    by simp_all
  have "map_of kvs' k' = map_of (parsed_fields fs kvs) k'" if "k' \<in> set (field_names fs)" for k'
    using agree wf that by (cases "parsed s (map_of kvs k)") auto
  then have "conforms_fields F fs kvs' \<and> parsed_fields fs kvs' = parsed_fields fs kvs"
    by (intro stable_fieldsD [OF assms(2)]) (use wf ok in simp_all)
  with head show "conforms_fields F (Field k s # fs) kvs'
      \<and> parsed_fields (Field k s # fs) kvs' = parsed_fields (Field k s # fs) kvs"
    unfolding parsed.simps conforms_fields.simps parsed_fields.simps by metis
qed

lemma parsed_variants_tag:
  "conforms_variants F d vs kvs \<Longrightarrow> map_of (parsed_variants d vs kvs) d = map_of kvs d"
  by (induction d vs kvs rule: parsed_induct(3) [where P = "\<lambda>_ _. True" and Q = "\<lambda>_ _. True"])
    (auto split: if_splits)

lemma stable_variant_cons:
  assumes "map_of kvs d = Some (JStr t) \<Longrightarrow> stable_fields F fs kvs"
    and "map_of kvs d \<noteq> Some (JStr t) \<Longrightarrow> stable_variants F d vs kvs"
  shows "stable_variants F d (Variant t fs # vs) kvs"
proof (cases "map_of kvs d = Some (JStr t)")
  case True
  show ?thesis
    unfolding stable_variants_def
  proof (intro impI)
    assume wf: "wf_variants F d (Variant t fs # vs)" and ok: "conforms_variants F d (Variant t fs # vs) kvs"
    have "map_of ((d, JStr t) # parsed_fields fs kvs) k = map_of (parsed_fields fs kvs) k"
      if "k \<in> set (field_names fs)" for k
      using that wf by auto
    with stable_fieldsD [OF assms(1) [OF True], of "(d, JStr t) # parsed_fields fs kvs"] wf ok True
    show "conforms_variants F d (Variant t fs # vs) (parsed_variants d (Variant t fs # vs) kvs)
      \<and> parsed_variants d (Variant t fs # vs) (parsed_variants d (Variant t fs # vs) kvs)
        = parsed_variants d (Variant t fs # vs) kvs" by simp
  qed
next
  case False
  with assms(2) parsed_variants_tag [of F d vs kvs] show ?thesis
    by (auto simp: stable_variants_def)
qed

lemma stable_opt: "(\<And>x. v = Some x \<Longrightarrow> stable F s (Some x)) \<Longrightarrow> stable F (SOpt s) v"
  unfolding stable_def
  by (cases v) (simp_all add: parsed_Some [of s])

lemma stable_default: "(\<And>x. v = Some x \<Longrightarrow> stable F s (Some x)) \<Longrightarrow> stable F (SDefault s d) v"
  unfolding stable_def
  by (cases v) (simp_all add: parsed_Some [of s])

lemma parsed_stable_all:
  "stable F s v" "stable_fields F fs kvs" "stable_variants F d vs kvs"
proof (induction s v and fs kvs and d vs kvs rule: parsed_induct)
  case (7 s cs v)
  show ?case
  proof (cases "\<exists>xs. v = Some (JArr xs)")
    case True
    with 7 show ?thesis by (auto intro: stable_arr)
  qed (auto simp: stable_def split: option.splits json.splits)
next
  case (8 s v)
  show ?case
  proof (cases "\<exists>kvs. v = Some (JObj kvs)")
    case True
    with 8 show ?thesis by (auto intro: stable_rec)
  qed (auto simp: stable_def split: option.splits json.splits)
next
  case (9 fs v)
  show ?case
  proof (cases "\<exists>kvs. v = Some (JObj kvs)")
    case True
    with 9 show ?thesis by (auto intro: stable_obj)
  qed (auto simp: stable_def split: option.splits json.splits)
next
  case (10 fs c v)
  show ?case
  proof (cases "\<exists>kvs. v = Some (JObj kvs)")
    case True
    with 10 show ?thesis by (auto intro!: stable_obj_catchall)
  qed (auto simp: stable_def split: option.splits json.splits)
next
  case (11 d vs v)
  show ?case
  proof (cases "\<exists>kvs. v = Some (JObj kvs)")
    case True
    with 11 show ?thesis by (auto simp: stable_def stable_variants_def)
  qed (auto simp: stable_def split: option.splits json.splits)
next
  case (12 s v)
  then show ?case by (intro stable_opt) simp
next
  case (13 s v)
  then show ?case by (auto simp: stable_def)
next
  case (14 s d v)
  then show ?case by (intro stable_default) simp
next
  case (15 kvs)
  then show ?case by (simp add: stable_fields_def)
next
  case (16 k s fs kvs)
  then show ?case by (cases "parsed s (map_of kvs k)") (auto intro: stable_field_cons)
next
  case (17 d kvs)
  then show ?case by (simp add: stable_variants_def)
next
  case (18 d t fs vs kvs)
  then show ?case by (rule stable_variant_cons)
qed (auto simp: stable_def)

lemma parsed_conforms: "wf_schema F s \<Longrightarrow> conforms F s v \<Longrightarrow> conforms F s (parsed s v)"
  and parsed_idempotent: "wf_schema F s \<Longrightarrow> conforms F s v \<Longrightarrow> parsed s (parsed s v) = parsed s v"
  using stableD [OF parsed_stable_all(1)] by blast+

subsection \<open>Reading single fields\<close>

fun field_schema :: "field list \<Rightarrow> string \<Rightarrow> schema option" where
  "field_schema [] k = None"
| "field_schema (Field k' s # fs) k = (if k' = k then Some s else field_schema fs k)"

lemma field_schema_name: "field_schema fs k = Some s \<Longrightarrow> k \<in> set (field_names fs)"
  by (induction fs k rule: field_schema.induct) (auto split: if_splits)

lemma conforms_field: "conforms_fields F fs kvs \<Longrightarrow> field_schema fs k = Some s \<Longrightarrow> conforms F s (map_of kvs k)"
  by (induction fs k rule: field_schema.induct) (auto split: if_splits)

lemma map_of_parsed_fields:
  "distinct (field_names fs) \<Longrightarrow> field_schema fs k = Some s \<Longrightarrow>
   map_of (parsed_fields fs kvs) k = parsed s (map_of kvs k)"
proof (induction fs k rule: field_schema.induct)
  case (2 k' s' fs k)
  show ?case
  proof (cases "k' = k")
    case True
    with 2 parsed_fields_fresh [of k fs kvs] show ?thesis
      by (cases "parsed s' (map_of kvs k')") auto
  next
    case False
    with 2 show ?thesis by (cases "parsed s' (map_of kvs k')") auto
  qed
qed simp

lemma conforms_SObj_iff:
  "conforms F (SObj fs None) v \<longleftrightarrow> (\<exists>kvs. v = Some (JObj kvs) \<and> conforms_fields F fs kvs)"
  by (simp split: option.splits json.splits)

lemma conforms_SStrD: "conforms F (SStr cs f) v \<Longrightarrow> \<exists>s. v = Some (JStr s)"
  by (simp split: option.splits json.splits)

lemma conforms_SNumD: "conforms F (SNum cs) v \<Longrightarrow> \<exists>x. v = Some (JNum x)"
  by (simp split: option.splits json.splits)

end
