(* ===== verification/Protocol.thy ===== *)
theory Protocol
  imports Zod
begin

text \<open>
  The wire protocol, \<open>packages/protocol/src\<close>: the schemas of \<open>common.ts\<close>, the two message
  catalogs (\<open>agent-to-control-plane.ts\<close>, \<open>control-plane-to-agent.ts\<close>), the envelope
  (\<open>envelope.ts\<close>, \<open>version.ts\<close>), the constructors of \<open>create-message.ts\<close> and the parsers of
  \<open>parse.ts\<close>. The validator is the parameter \<open>safeParse\<close>, with the laws of the locale \<open>zod\<close>;
  \<open>randomUUID()\<close> and \<open>new Date().toISOString()\<close> are arguments of the constructors.
\<close>

subsection \<open>Common schemas\<close>

abbreviation str :: "len_check list \<Rightarrow> schema" where
  "str cs \<equiv> SStr cs AnyText"

abbreviation fld :: "string \<Rightarrow> schema \<Rightarrow> field" where
  "fld k s \<equiv> Field k s"

abbreviation opt :: "string \<Rightarrow> schema \<Rightarrow> field" where
  "opt k s \<equiv> Field k (SOpt s)"

definition agentCapabilitySchema :: schema where
  "agentCapabilitySchema =
     SEnum [''node'', ''pm2'', ''docker'', ''discordjs'', ''eris'', ''ai-worker'', ''custom-executable'']"

definition agentLabelsSchema :: schema where
  "agentLabelsSchema = SObj
     [opt ''region'' (str [AtMost 64]), opt ''environment'' (str [AtMost 64]), opt ''runner'' (str [AtMost 64]),
      opt ''tier'' (str [AtMost 64]), opt ''architecture'' (str [AtMost 64]), opt ''storageClass'' (str [AtMost 64])]
     (Some (str [AtMost 256]))"

definition agentStatusSchema :: schema where
  "agentStatusSchema =
     SEnum [''enrolling'', ''online'', ''degraded'', ''disconnected'', ''draining'', ''maintenance'', ''disabled'']"

definition resourceSnapshotSchema :: schema where
  "resourceSnapshotSchema = SObj
     [fld ''cpuUsagePercent'' (SNum [MinNum 0, MaxNum 100]),
      fld ''memoryTotalMb'' (SNum [IsInt, NonNegative]),
      fld ''memoryAvailableMb'' (SNum [IsInt, NonNegative]),
      opt ''diskTotalMb'' (SNum [IsInt, NonNegative]),
      opt ''diskAvailableMb'' (SNum [IsInt, NonNegative]),
      opt ''loadAverage1m'' (SNum [NonNegative]),
      opt ''loadAverage5m'' (SNum [NonNegative]),
      opt ''loadAverage15m'' (SNum [NonNegative])] None"

definition botRuntimeStatusSchema :: schema where
  "botRuntimeStatusSchema =
     SEnum [''starting'', ''online'', ''stopping'', ''offline'', ''failed'', ''rate_limited'']"

definition shardRuntimeStatusSchema :: schema where
  "shardRuntimeStatusSchema = SEnum [''connected'', ''connecting'', ''disconnected'', ''reconnecting'']"

definition drainModeSchema :: schema where
  "drainModeSchema = SEnum [''graceful'', ''immediate'', ''maintenance-window'']"

definition logLevelSchema :: schema where
  "logLevelSchema = SEnum [''debug'', ''info'', ''warn'', ''error'']"

definition idempotencyKeySchema :: schema where
  "idempotencyKeySchema = str [AtLeast 1, AtMost 128]"

lemmas common_schemas =
  agentCapabilitySchema_def agentLabelsSchema_def agentStatusSchema_def resourceSnapshotSchema_def
  botRuntimeStatusSchema_def shardRuntimeStatusSchema_def drainModeSchema_def logLevelSchema_def
  idempotencyKeySchema_def

subsection \<open>Messages of an agent\<close>

type_synonym payload_shape = "field list"

definition agentEnrollPayload :: payload_shape where
  "agentEnrollPayload =
     [fld ''enrollmentToken'' (str [AtLeast 1]), fld ''agentName'' (str [AtLeast 1, AtMost 128]),
      fld ''hostname'' (str [AtLeast 1, AtMost 256]), fld ''architecture'' (str [AtLeast 1, AtMost 64]),
      fld ''operatingSystem'' (str [AtLeast 1, AtMost 128]), fld ''agentVersion'' (str [AtLeast 1, AtMost 64]),
      fld ''capabilities'' (SArr agentCapabilitySchema [AtLeast 1]),
      fld ''labels'' agentLabelsSchema, opt ''publicKey'' (str [AtMost 8192])]"

definition agentHeartbeatPayload :: payload_shape where
  "agentHeartbeatPayload =
     [fld ''agentId'' (str [AtLeast 1]), fld ''status'' agentStatusSchema,
      fld ''resources'' resourceSnapshotSchema, fld ''workloadCount'' (SNum [IsInt, NonNegative])]"

definition inventoryEntryShape :: payload_shape where
  "inventoryEntryShape =
     [fld ''workloadId'' (str [AtLeast 1]), fld ''botId'' (str [AtLeast 1]),
      fld ''generation'' (SNum [IsInt, Positive]), fld ''runtimeStatus'' botRuntimeStatusSchema]"

definition agentInventoryPayload :: payload_shape where
  "agentInventoryPayload =
     [fld ''agentId'' (str [AtLeast 1]), fld ''workloads'' (SArr (SObj inventoryEntryShape None) [])]"

definition metricSampleShape :: payload_shape where
  "metricSampleShape =
     [fld ''metric'' (str [AtLeast 1, AtMost 128]), fld ''value'' (SNum []), opt ''unit'' (str [AtMost 32])]"

definition agentMetricsPayload :: payload_shape where
  "agentMetricsPayload =
     [fld ''agentId'' (str [AtLeast 1]), fld ''samples'' (SArr (SObj metricSampleShape None) [AtMost 500])]"

definition agentCommandAckPayload :: payload_shape where
  "agentCommandAckPayload =
     [fld ''agentId'' (str [AtLeast 1]), fld ''commandId'' (str [AtLeast 1]),
      fld ''idempotencyKey'' (str [AtLeast 1, AtMost 128])]"

definition agentCommandResultPayload :: payload_shape where
  "agentCommandResultPayload =
     [fld ''agentId'' (str [AtLeast 1]), fld ''commandId'' (str [AtLeast 1]),
      fld ''idempotencyKey'' (str [AtLeast 1, AtMost 128]), fld ''status'' (SEnum [''succeeded'', ''failed'']),
      opt ''safeError'' (str [AtMost 2000])]"

definition botStatusPayload :: payload_shape where
  "botStatusPayload = [fld ''botId'' (str [AtLeast 1]), fld ''status'' botRuntimeStatusSchema]"

definition botHeartbeatPayload :: payload_shape where
  "botHeartbeatPayload =
     [fld ''botId'' (str [AtLeast 1]), fld ''shardCount'' (SNum [IsInt, NonNegative]),
      fld ''guildCount'' (SNum [IsInt, NonNegative]), opt ''pingMs'' (SNum [IsInt, NonNegative])]"

definition botReadyPayload :: payload_shape where
  "botReadyPayload =
     [fld ''botId'' (str [AtLeast 1]), fld ''guildCount'' (SNum [IsInt, NonNegative]),
      fld ''shardCount'' (SNum [IsInt, NonNegative]), opt ''version'' (str [AtMost 64])]"

definition botStoppedPayload :: payload_shape where
  "botStoppedPayload = [fld ''botId'' (str [AtLeast 1]), opt ''reason'' (str [AtMost 500])]"

definition botCrashedPayload :: payload_shape where
  "botCrashedPayload = [fld ''botId'' (str [AtLeast 1]), fld ''safeError'' (str [AtMost 2000])]"

definition botMetricsPayload :: payload_shape where
  "botMetricsPayload =
     [fld ''botId'' (str [AtLeast 1]), fld ''metric'' (str [AtLeast 1, AtMost 128]),
      fld ''value'' (SNum []), opt ''unit'' (str [AtMost 32])]"

definition botLogPayload :: payload_shape where
  "botLogPayload =
     [fld ''botId'' (str [AtLeast 1]), fld ''level'' logLevelSchema,
      fld ''message'' (str [AtLeast 1, AtMost 2000])]"

definition shardStatusPayload :: payload_shape where
  "shardStatusPayload =
     [fld ''botId'' (str [AtLeast 1]), fld ''shardId'' (SNum [IsInt, NonNegative]),
      fld ''status'' shardRuntimeStatusSchema, fld ''guildCount'' (SNum [IsInt, NonNegative]),
      opt ''pingMs'' (SNum [IsInt, NonNegative])]"

definition deploymentProgressPayload :: payload_shape where
  "deploymentProgressPayload =
     [fld ''deploymentId'' (str [AtLeast 1]), fld ''workloadId'' (str [AtLeast 1]),
      fld ''phase'' (str [AtLeast 1, AtMost 64]), opt ''message'' (str [AtMost 500])]"

definition deploymentResultPayload :: payload_shape where
  "deploymentResultPayload =
     [fld ''deploymentId'' (str [AtLeast 1]), fld ''workloadId'' (str [AtLeast 1]),
      fld ''status'' (SEnum [''succeeded'', ''failed'', ''rolled_back'']),
      opt ''safeError'' (str [AtMost 2000])]"

text \<open>A catalog lists the message types with the shapes of their payloads.\<close>

type_synonym catalog = "(string \<times> payload_shape) list"

definition catalog_schema :: "catalog \<Rightarrow> schema" where
  "catalog_schema c = SUnion ''type'' (map (\<lambda>(t, fs). Variant t [Field ''payload'' (SObj fs None)]) c)"

definition agentToControlPlaneCatalog :: catalog where
  "agentToControlPlaneCatalog =
     [(''agent.enroll'', agentEnrollPayload),
      (''agent.heartbeat'', agentHeartbeatPayload),
      (''agent.inventory'', agentInventoryPayload),
      (''agent.metrics'', agentMetricsPayload),
      (''agent.command_ack'', agentCommandAckPayload),
      (''agent.command_result'', agentCommandResultPayload),
      (''bot.status'', botStatusPayload),
      (''bot.heartbeat'', botHeartbeatPayload),
      (''bot.ready'', botReadyPayload),
      (''bot.stopped'', botStoppedPayload),
      (''bot.crashed'', botCrashedPayload),
      (''bot.metrics'', botMetricsPayload),
      (''bot.log'', botLogPayload),
      (''shard.status'', shardStatusPayload),
      (''deployment.progress'', deploymentProgressPayload),
      (''deployment.result'', deploymentResultPayload)]"

definition agentToControlPlaneMessageSchema :: schema where
  "agentToControlPlaneMessageSchema = catalog_schema agentToControlPlaneCatalog"

definition AGENT_TO_CONTROL_PLANE_TYPES :: "string list" where
  "AGENT_TO_CONTROL_PLANE_TYPES = map fst agentToControlPlaneCatalog"

subsection \<open>Messages of the control plane\<close>

definition agentAcceptedPayload :: payload_shape where
  "agentAcceptedPayload =
     [fld ''agentId'' (str [AtLeast 1]), fld ''agentCredentialFingerprint'' (str [AtLeast 1]),
      fld ''heartbeatIntervalMs'' (SNum [IsInt, Positive]), opt ''credentialSecret'' (str [AtLeast 1])]"

definition agentRotateCertificatePayload :: payload_shape where
  "agentRotateCertificatePayload =
     [fld ''agentId'' (str [AtLeast 1]), fld ''newCertificateRef'' (str [AtLeast 1])]"

definition workloadCommandPayload :: payload_shape where
  "workloadCommandPayload =
     [fld ''workloadId'' (str [AtLeast 1]), fld ''botId'' (str [AtLeast 1]),
      fld ''generation'' (SNum [IsInt, Positive]), fld ''idempotencyKey'' idempotencyKeySchema]"

definition botMovePayload :: payload_shape where
  "botMovePayload = workloadCommandPayload @ [fld ''targetAgentId'' (str [AtLeast 1])]"

definition botUpdatePayload :: payload_shape where
  "botUpdatePayload = workloadCommandPayload @ [fld ''specification'' (SRec SUnknown)]"

definition workerDrainPayload :: payload_shape where
  "workerDrainPayload =
     [fld ''agentId'' (str [AtLeast 1]), fld ''mode'' drainModeSchema, fld ''idempotencyKey'' idempotencyKeySchema]"

definition deploymentPreparePayload :: payload_shape where
  "deploymentPreparePayload =
     [fld ''deploymentId'' (str [AtLeast 1]), fld ''workloadId'' (str [AtLeast 1]),
      fld ''artifactRef'' (str [AtLeast 1]), fld ''idempotencyKey'' idempotencyKeySchema]"

definition deploymentExecutePayload :: payload_shape where
  "deploymentExecutePayload =
     [fld ''deploymentId'' (str [AtLeast 1]), fld ''workloadId'' (str [AtLeast 1]),
      fld ''idempotencyKey'' idempotencyKeySchema]"

definition deploymentRollbackPayload :: payload_shape where
  "deploymentRollbackPayload =
     [fld ''deploymentId'' (str [AtLeast 1]), fld ''workloadId'' (str [AtLeast 1]),
      fld ''targetReleaseId'' (str [AtLeast 1]), fld ''idempotencyKey'' idempotencyKeySchema]"

definition configurationRefreshPayload :: payload_shape where
  "configurationRefreshPayload = [fld ''agentId'' (str [AtLeast 1])]"

definition controlPlaneToAgentCatalog :: catalog where
  "controlPlaneToAgentCatalog =
     [(''agent.accepted'', agentAcceptedPayload),
      (''agent.rotate_certificate'', agentRotateCertificatePayload),
      (''bot.start'', workloadCommandPayload),
      (''bot.stop'', workloadCommandPayload),
      (''bot.restart'', workloadCommandPayload),
      (''bot.move'', botMovePayload),
      (''bot.update'', botUpdatePayload),
      (''worker.drain'', workerDrainPayload),
      (''deployment.prepare'', deploymentPreparePayload),
      (''deployment.execute'', deploymentExecutePayload),
      (''deployment.rollback'', deploymentRollbackPayload),
      (''configuration.refresh'', configurationRefreshPayload)]"

definition controlPlaneToAgentMessageSchema :: schema where
  "controlPlaneToAgentMessageSchema = catalog_schema controlPlaneToAgentCatalog"

definition CONTROL_PLANE_TO_AGENT_TYPES :: "string list" where
  "CONTROL_PLANE_TO_AGENT_TYPES = map fst controlPlaneToAgentCatalog"

subsection \<open>Envelope and version\<close>

definition PROTOCOL_VERSION :: int where
  "PROTOCOL_VERSION = 1"

definition SUPPORTED_PROTOCOL_VERSIONS :: "int list" where
  "SUPPORTED_PROTOCOL_VERSIONS = [PROTOCOL_VERSION]"

definition isSupportedProtocolVersion :: "rat \<Rightarrow> bool" where
  "isSupportedProtocolVersion version \<longleftrightarrow> version \<in> set (map of_int SUPPORTED_PROTOCOL_VERSIONS)"

definition envelopeFields :: "field list" where
  "envelopeFields =
     [fld ''protocolVersion'' (SNum [IsInt, Positive]), fld ''messageId'' (SStr [] Uuid),
      fld ''timestamp'' (SStr [] IsoDatetime), fld ''senderId'' (str [AtLeast 1, AtMost 256]),
      opt ''correlationId'' (SStr [] Uuid), fld ''type'' (str [AtLeast 1]), fld ''payload'' SUnknown,
      opt ''signature'' (str [AtMost 4096])]"

definition envelopeSchema :: schema where
  "envelopeSchema = SObj envelopeFields None"

datatype parse_result =
  ParseOk "(string \<times> json) list"
| MalformedEnvelope "string list"
| UnsupportedVersion rat
| UnknownType string
| MalformedPayload string "string list"

definition issue_text :: "issue \<Rightarrow> string" where
  "issue_text i = fst i @ '': '' @ snd i"

text \<open>Reading a parsed object. The last cases of the readers do not arise on a parsed envelope.\<close>

fun entries_of :: "json option \<Rightarrow> (string \<times> json) list" where
  "entries_of (Some (JObj kvs)) = kvs"
| "entries_of _ = []"

definition str_prop :: "string \<Rightarrow> (string \<times> json) list \<Rightarrow> string" where
  "str_prop k kvs = (case map_of kvs k of Some (JStr s) \<Rightarrow> s | _ \<Rightarrow> [])"

definition num_prop :: "string \<Rightarrow> (string \<times> json) list \<Rightarrow> rat" where
  "num_prop k kvs = (case map_of kvs k of Some (JNum x) \<Rightarrow> x | _ \<Rightarrow> 0)"

text \<open>\<open>{ ...a, ...b }\<close>.\<close>

definition spread :: "(string \<times> json) list \<Rightarrow> (string \<times> json) list \<Rightarrow> (string \<times> json) list" where
  "spread a b = map (\<lambda>(k, x). (k, case map_of b k of Some y \<Rightarrow> y | None \<Rightarrow> x)) a
              @ filter (\<lambda>(k, x). k \<notin> fst ` set a) b"

lemma map_of_spread: "map_of (spread a b) k = (case map_of b k of Some y \<Rightarrow> Some y | None \<Rightarrow> map_of a k)"
proof -
  have "map_of (map (\<lambda>(k, x). (k, case map_of b k of Some y \<Rightarrow> y | None \<Rightarrow> x)) a) k =
      map_option (\<lambda>x. case map_of b k of Some y \<Rightarrow> y | None \<Rightarrow> x) (map_of a k)"
    by (induction a) (auto split: option.splits)
  moreover have "map_of (filter (\<lambda>(k, x). k \<notin> S) b) k = (if k \<in> S then None else map_of b k)" for S
    by (induction b) auto
  moreover have "k \<in> fst ` set a \<longleftrightarrow> map_of a k \<noteq> None"
    by (simp add: map_of_eq_None_iff)
  ultimately show ?thesis
    by (auto simp: spread_def map_add_def split: option.splits)
qed

subsection \<open>Parsing\<close>

definition parseEnvelope ::
    "(schema \<Rightarrow> json option \<Rightarrow> issue list + json option) \<Rightarrow> json \<Rightarrow> parse_result" where
  "parseEnvelope safeParse raw = (case safeParse envelopeSchema (Some raw) of
     Inl issues \<Rightarrow> MalformedEnvelope (map issue_text issues)
   | Inr data \<Rightarrow>
       if \<not> isSupportedProtocolVersion (num_prop ''protocolVersion'' (entries_of data))
       then UnsupportedVersion (num_prop ''protocolVersion'' (entries_of data))
       else ParseOk (entries_of data))"

definition parse_message ::
    "(schema \<Rightarrow> json option \<Rightarrow> issue list + json option) \<Rightarrow> catalog \<Rightarrow> json \<Rightarrow> parse_result" where
  "parse_message safeParse c raw = (case parseEnvelope safeParse raw of
     ParseOk env \<Rightarrow> (case safeParse (catalog_schema c) (Some (JObj env)) of
       Inl issues \<Rightarrow>
         if \<not> list_ex (\<lambda>t. t = str_prop ''type'' env) (map fst c)
         then UnknownType (str_prop ''type'' env)
         else MalformedPayload (str_prop ''type'' env) (map issue_text issues)
     | Inr data \<Rightarrow> ParseOk (spread env (entries_of data)))
   | failure \<Rightarrow> failure)"

definition parseAgentToControlPlaneMessage ::
    "(schema \<Rightarrow> json option \<Rightarrow> issue list + json option) \<Rightarrow> json \<Rightarrow> parse_result" where
  "parseAgentToControlPlaneMessage safeParse raw = parse_message safeParse agentToControlPlaneCatalog raw"

definition parseControlPlaneToAgentMessage ::
    "(schema \<Rightarrow> json option \<Rightarrow> issue list + json option) \<Rightarrow> json \<Rightarrow> parse_result" where
  "parseControlPlaneToAgentMessage safeParse raw = parse_message safeParse controlPlaneToAgentCatalog raw"

subsection \<open>Constructing\<close>

record envelope_fields =
  ef_senderId :: string
  ef_correlationId :: "string option"

definition create_message ::
    "string \<Rightarrow> string \<Rightarrow> string \<Rightarrow> json \<Rightarrow> envelope_fields \<Rightarrow> (string \<times> json) list" where
  "create_message uuid timestamp t payload e =
     [(''protocolVersion'', JNum (of_int PROTOCOL_VERSION)),
      (''messageId'', JStr uuid),
      (''timestamp'', JStr timestamp),
      (''senderId'', JStr (ef_senderId e))]
   @ (case ef_correlationId e of
        Some (c # cs) \<Rightarrow> [(''correlationId'', JStr (c # cs))]
      | _ \<Rightarrow> [])
   @ [(''type'', JStr t), (''payload'', payload)]"

definition createAgentToControlPlaneMessage ::
    "string \<Rightarrow> string \<Rightarrow> string \<Rightarrow> json \<Rightarrow> envelope_fields \<Rightarrow> (string \<times> json) list" where
  "createAgentToControlPlaneMessage uuid timestamp t payload e = create_message uuid timestamp t payload e"

definition createControlPlaneToAgentMessage ::
    "string \<Rightarrow> string \<Rightarrow> string \<Rightarrow> json \<Rightarrow> envelope_fields \<Rightarrow> (string \<times> json) list" where
  "createControlPlaneToAgentMessage uuid timestamp t payload e = create_message uuid timestamp t payload e"

subsection \<open>Lemmas on catalogs and envelopes\<close>

lemma conforms_variants_catalog:
  "conforms_variants F ''type'' (map (\<lambda>(t, fs). Variant t [Field ''payload'' (SObj fs None)]) c) kvs \<longleftrightarrow>
     (\<exists>t fs. map_of kvs ''type'' = Some (JStr t) \<and> map_of c t = Some fs
        \<and> conforms F (SObj fs None) (map_of kvs ''payload''))"
proof (induction c)
  case (Cons tf c)
  obtain t fs where "tf = (t, fs)" by (cases tf)
  with Cons.IH show ?case
    by (cases "map_of kvs ''type'' = Some (JStr t)") auto
qed simp

lemma conforms_catalog:
  "conforms F (catalog_schema c) (Some (JObj kvs)) \<longleftrightarrow>
     (\<exists>t fs. map_of kvs ''type'' = Some (JStr t) \<and> map_of c t = Some fs
        \<and> conforms F (SObj fs None) (map_of kvs ''payload''))"
  by (simp add: catalog_schema_def conforms_variants_catalog del: conforms.simps(9))

lemma parsed_catalog:
  assumes "map_of kvs ''type'' = Some (JStr t)" "map_of c t = Some fs" "map_of kvs ''payload'' = Some (JObj p)"
  shows "parsed (catalog_schema c) (Some (JObj kvs)) =
    Some (JObj [(''type'', JStr t), (''payload'', JObj (parsed_fields fs p))])"
  using assms unfolding catalog_schema_def by (induction c) auto

lemma conforms_envelope:
  "conforms F envelopeSchema (Some raw) \<longleftrightarrow> (\<exists>kvs. raw = JObj kvs \<and> conforms_fields F envelopeFields kvs)"
  by (cases raw) (simp_all add: envelopeSchema_def)

lemma parsed_envelope:
  "parsed envelopeSchema (Some (JObj kvs)) = Some (JObj (parsed_fields envelopeFields kvs))"
  by (simp add: envelopeSchema_def)

text \<open>The envelope fields have no defaults and no nested objects: parsing only drops other keys.\<close>

lemma envelope_names: "distinct (field_names envelopeFields)"
  by (simp add: envelopeFields_def)

lemma envelope_schemas:
  "field_schema envelopeFields ''type'' = Some (str [AtLeast 1])"
  "field_schema envelopeFields ''payload'' = Some SUnknown"
  "field_schema envelopeFields ''protocolVersion'' = Some (SNum [IsInt, Positive])"
  "field_schema envelopeFields ''messageId'' = Some (SStr [] Uuid)"
  "field_schema envelopeFields ''senderId'' = Some (str [AtLeast 1, AtMost 256])"
  by (simp_all add: envelopeFields_def)

lemmas envelope_field = envelope_schemas [THEN map_of_parsed_fields [OF envelope_names], unfolded parsed.simps]

lemma envelope_has_type:
  assumes "conforms_fields F envelopeFields kvs"
  obtains t where "map_of kvs ''type'' = Some (JStr t)"
  using conforms_SStrD [OF conforms_field [OF assms envelope_schemas(1)]] by blast

lemma num_prop_kept: "num_prop ''protocolVersion'' (parsed_fields envelopeFields kvs) = num_prop ''protocolVersion'' kvs"
  and str_prop_kept: "str_prop ''type'' (parsed_fields envelopeFields kvs) = str_prop ''type'' kvs"
  by (simp_all add: num_prop_def str_prop_def envelope_field)

lemma supported_iff: "isSupportedProtocolVersion x \<longleftrightarrow> x = 1"
  by (simp add: isSupportedProtocolVersion_def SUPPORTED_PROTOCOL_VERSIONS_def PROTOCOL_VERSION_def)

text \<open>What a parser answers, by the first check that fails.\<close>

definition parse_answer ::
    "(fmt \<Rightarrow> string \<Rightarrow> bool) \<Rightarrow> catalog \<Rightarrow> json \<Rightarrow> parse_result \<Rightarrow> bool" where
  "parse_answer F c raw r =
     (case raw of
        JObj kvs \<Rightarrow>
          if \<not> conforms_fields F envelopeFields kvs then (\<exists>is. r = MalformedEnvelope is)
          else if num_prop ''protocolVersion'' kvs \<noteq> 1 then r = UnsupportedVersion (num_prop ''protocolVersion'' kvs)
          else (case map_of c (str_prop ''type'' kvs) of
              None \<Rightarrow> r = UnknownType (str_prop ''type'' kvs)
            | Some fs \<Rightarrow>
                if conforms F (SObj fs None) (map_of kvs ''payload'')
                then r = ParseOk (spread (parsed_fields envelopeFields kvs)
                       [(''type'', JStr (str_prop ''type'' kvs)),
                        (''payload'', JObj (parsed_fields fs (entries_of (map_of kvs ''payload''))))])
                else (\<exists>is. r = MalformedPayload (str_prop ''type'' kvs) is))
      | _ \<Rightarrow> (\<exists>is. r = MalformedEnvelope is))"

context zod
begin

lemma parse_envelope_rejects:
  "\<not> conforms F envelopeSchema (Some raw) \<Longrightarrow> \<exists>is. parseEnvelope safeParse raw = MalformedEnvelope is"
  using rejects [of envelopeSchema "Some raw"] by (auto simp: parseEnvelope_def)

lemma parse_envelope_accepts:
  "conforms_fields F envelopeFields kvs \<Longrightarrow>
   parseEnvelope safeParse (JObj kvs) =
     (if num_prop ''protocolVersion'' kvs = 1 then ParseOk (parsed_fields envelopeFields kvs)
      else UnsupportedVersion (num_prop ''protocolVersion'' kvs))"
  using accepts [of envelopeSchema "Some (JObj kvs)"]
  by (simp add: parseEnvelope_def conforms_envelope parsed_envelope num_prop_kept supported_iff)

lemma parse_message_answer: "parse_answer F c raw (parse_message safeParse c raw)"
proof (cases "\<exists>kvs. raw = JObj kvs \<and> conforms_fields F envelopeFields kvs")
  case False
  with parse_envelope_rejects [of raw] show ?thesis
    by (auto simp: parse_answer_def parse_message_def conforms_envelope split: json.splits)
next
  case True
  then obtain kvs where raw: "raw = JObj kvs" and ok: "conforms_fields F envelopeFields kvs" by blast
  let ?env = "parsed_fields envelopeFields kvs"
  obtain t where t: "map_of kvs ''type'' = Some (JStr t)" using ok by (rule envelope_has_type)
  then have str: "str_prop ''type'' kvs = t" by (simp add: str_prop_def)
  have kept: "map_of ?env ''type'' = Some (JStr t)" "map_of ?env ''payload'' = map_of kvs ''payload''"
    using t by (simp_all add: envelope_field)
  show ?thesis
  proof (cases "num_prop ''protocolVersion'' kvs = 1")
    case False
    with raw ok show ?thesis
      by (simp add: parse_answer_def parse_message_def parse_envelope_accepts)
  next
    case version: True
    show ?thesis
    proof (cases "conforms F (catalog_schema c) (Some (JObj ?env))")
      case True
      then obtain fs p where fs: "map_of c t = Some fs" "map_of kvs ''payload'' = Some (JObj p)"
          "conforms_fields F fs p"
        using kept unfolding conforms_catalog conforms_SObj_iff by auto
      with accepts [OF True] parsed_catalog [of ?env t c fs p] kept raw ok version str show ?thesis
        by (simp add: parse_answer_def parse_message_def parse_envelope_accepts)
    next
      case bad: False
      from rejects [OF bad] obtain i "is" where inl: "safeParse (catalog_schema c) (Some (JObj ?env)) = Inl (i # is)"
        by blast
      have known: "list_ex (\<lambda>u. u = t) (map fst c) \<longleftrightarrow> map_of c t \<noteq> None"
        by (auto simp: list_ex_iff map_of_eq_None_iff)
      have no_payload: "\<not> conforms F (SObj fs None) (map_of kvs ''payload'')" if "map_of c t = Some fs" for fs
        using bad that kept unfolding conforms_catalog by simp
      show ?thesis
        using raw ok version str inl known no_payload
        by (cases "map_of c t")
          (simp_all add: parse_answer_def parse_message_def parse_envelope_accepts str_prop_kept)
    qed
  qed
qed

end

subsection \<open>The parsers classify every input; constructed messages parse\<close>

text \<open>
  For every raw value, each parser gives the answer of the first check that fails, in the order
  envelope, protocol version, message type, payload, and otherwise the message with the fields of
  the envelope and the parsed payload. In particular nothing is accepted whose envelope or payload
  does not conform to the schema of its type.
\<close>
theorem parse_classifies:
  assumes "zod safeParse F"
  shows "parse_answer F agentToControlPlaneCatalog raw (parseAgentToControlPlaneMessage safeParse raw)
       \<and> parse_answer F controlPlaneToAgentCatalog raw (parseControlPlaneToAgentMessage safeParse raw)"
  unfolding parseAgentToControlPlaneMessage_def parseControlPlaneToAgentMessage_def
  using zod.parse_message_answer [OF assms] by blast

definition any_format :: "fmt \<Rightarrow> string \<Rightarrow> bool" where
  "any_format f s = True"

definition stop_payload :: "(string \<times> json) list" where
  "stop_payload = [(''workloadId'', JStr ''w1''), (''botId'', JStr ''b1''), (''generation'', JNum 3),
     (''idempotencyKey'', JStr ''fence-w1'')]"

theorem parse_classifies_witness:
  "\<exists>is. parseAgentToControlPlaneMessage (plain_validator any_format) JNull = MalformedEnvelope is"
  using parse_classifies [OF plain.zod_axioms, of any_format JNull]
  by (simp add: parse_answer_def)

lemma conforms_created:
  assumes "F Uuid uuid" "F IsoDatetime ts" "1 \<le> length (ef_senderId e)" "length (ef_senderId e) \<le> 256"
    and "\<And>c. ef_correlationId e = Some c \<Longrightarrow> c = '''' \<or> F Uuid c" and "t \<noteq> ''''"
  shows "conforms_fields F envelopeFields (create_message uuid ts t p e)"
  using assms(1-4,6) assms(5) [of "the (ef_correlationId e)"]
  by (cases "ef_correlationId e")
    (auto simp: envelopeFields_def create_message_def PROTOCOL_VERSION_def Suc_le_eq split: list.splits)

lemma created_fields:
  "map_of (create_message uuid ts t p e) ''type'' = Some (JStr t)"
  "map_of (create_message uuid ts t p e) ''payload'' = Some p"
  "map_of (create_message uuid ts t p e) ''senderId'' = Some (JStr (ef_senderId e))"
  "map_of (create_message uuid ts t p e) ''messageId'' = Some (JStr uuid)"
  "map_of (create_message uuid ts t p e) ''protocolVersion'' = Some (JNum 1)"
  by (auto simp: create_message_def PROTOCOL_VERSION_def split: option.splits list.splits)

lemma created_message_answer:
  assumes answer: "parse_answer F c (JObj (create_message uuid ts t (JObj p) e)) r"
    and ok: "conforms_fields F envelopeFields (create_message uuid ts t (JObj p) e)"
    and fs: "map_of c t = Some fs" "conforms_fields F fs p"
  shows "\<exists>m. r = ParseOk m \<and> map_of m ''type'' = Some (JStr t)
    \<and> map_of m ''payload'' = Some (JObj (parsed_fields fs p))
    \<and> map_of m ''senderId'' = Some (JStr (ef_senderId e)) \<and> map_of m ''messageId'' = Some (JStr uuid)"
  using answer ok fs
  by (auto simp: parse_answer_def created_fields num_prop_def str_prop_def map_of_spread envelope_field)

text \<open>
  A message made by a constructor of the protocol from a payload of the right shape is accepted
  by the parser of the other side, which reads the same type, sender and message id and the same
  payload (unknown keys dropped). The only demands on the environment are that \<open>randomUUID\<close> gives
  a UUID, \<open>toISOString\<close> a date-time and the sender id has 1 to 256 characters.
\<close>
theorem created_message_parses:
  assumes "zod safeParse F" "F Uuid uuid" "F IsoDatetime ts"
    and "1 \<le> length (ef_senderId e)" "length (ef_senderId e) \<le> 256"
    and "\<And>c. ef_correlationId e = Some c \<Longrightarrow> c = '''' \<or> F Uuid c"
    and "t \<noteq> ''''" "map_of controlPlaneToAgentCatalog t = Some fs" "conforms_fields F fs p"
  shows "\<exists>m. parseControlPlaneToAgentMessage safeParse
        (JObj (createControlPlaneToAgentMessage uuid ts t (JObj p) e)) = ParseOk m
    \<and> map_of m ''type'' = Some (JStr t) \<and> map_of m ''payload'' = Some (JObj (parsed_fields fs p))
    \<and> map_of m ''senderId'' = Some (JStr (ef_senderId e)) \<and> map_of m ''messageId'' = Some (JStr uuid)"
  unfolding parseControlPlaneToAgentMessage_def createControlPlaneToAgentMessage_def
  using created_message_answer [OF zod.parse_message_answer [OF assms(1)] conforms_created assms(8,9)] assms
  by blast

theorem created_message_parses_witness:
  "\<exists>m. parseControlPlaneToAgentMessage (plain_validator any_format)
        (JObj (createControlPlaneToAgentMessage ''u'' ''now'' ''bot.stop'' (JObj stop_payload)
           \<lparr>ef_senderId = ''control-plane'', ef_correlationId = None\<rparr>)) = ParseOk m
    \<and> map_of m ''type'' = Some (JStr ''bot.stop'')
    \<and> map_of m ''payload'' = Some (JObj (parsed_fields workloadCommandPayload stop_payload))
    \<and> map_of m ''senderId'' = Some (JStr ''control-plane'') \<and> map_of m ''messageId'' = Some (JStr ''u'')"
  using created_message_parses [OF plain.zod_axioms, of any_format "''u''" "''now''"
      "\<lparr>ef_senderId = ''control-plane'', ef_correlationId = None\<rparr>" "''bot.stop''"
      workloadCommandPayload stop_payload]
  by (simp add: any_format_def controlPlaneToAgentCatalog_def workloadCommandPayload_def stop_payload_def
      idempotencyKeySchema_def)

end
