(* ===== verification/Workload_Spec.thy ===== *)
theory Workload_Spec
  imports Protocol
begin

text \<open>
  \<open>packages/workload-spec/src/schema.ts\<close>: the declarative workload specification, its defaults and
  its only entry point \<open>parseWorkloadSpec\<close>, and the reading of a parsed specification.
\<close>

definition WORKLOAD_SPEC_API_VERSION :: string where
  "WORKLOAD_SPEC_API_VERSION = ''botfleet.io/v1''"

definition runtimeSchema :: schema where
  "runtimeSchema = SUnion ''type''
     [Variant ''node''
        [fld ''command'' (str [AtLeast 1]), fld ''args'' (SDefault (SArr (str []) []) (JArr [])),
         opt ''workingDirectory'' (str [AtLeast 1])],
      Variant ''docker''
        [fld ''image'' (str [AtLeast 1]), fld ''args'' (SDefault (SArr (str []) []) (JArr []))]]"

definition envVarSchema :: schema where
  "envVarSchema = SObj
     [fld ''name'' (str [AtLeast 1, AtMost 128]), opt ''value'' (str [AtMost 4096]),
      opt ''secretRef'' (str [AtMost 256])] None"

definition runnerSchema :: schema where
  "runnerSchema = SObj [fld ''type'' (SEnum [''pm2'', ''docker'', ''node''])] None"

definition resourcesSchema :: schema where
  "resourcesSchema = SObj
     [opt ''memoryMb'' (SNum [IsInt, Positive, MaxNum 65536]),
      opt ''cpuShares'' (SNum [IsInt, Positive, MaxNum 64])] None"

definition restartPolicySchema :: schema where
  "restartPolicySchema = SEnum [''always'', ''on-failure'', ''never'']"

definition healthSchema :: schema where
  "healthSchema = SObj
     [fld ''startupTimeoutSeconds'' (SDefault (SNum [IsInt, Positive, MaxNum 3600]) (JNum 60)),
      fld ''heartbeatTimeoutSeconds'' (SDefault (SNum [IsInt, Positive, MaxNum 3600]) (JNum 30)),
      fld ''gracefulShutdownTimeoutSeconds'' (SDefault (SNum [IsInt, Positive, MaxNum 300]) (JNum 10)),
      fld ''restartPolicy'' (SDefault restartPolicySchema (JStr ''on-failure'')),
      fld ''maxRestartAttempts'' (SDefault (SNum [IsInt, NonNegative, MaxNum 100]) (JNum 5))] None"

definition placementSchema :: schema where
  "placementSchema = SObj
     [fld ''requiredLabels'' (SDefault (SRec (str [])) (JObj [])),
      fld ''preferredLabels'' (SDefault (SRec (str [])) (JObj []))] None"

definition health_default :: json where
  "health_default = JObj
     [(''startupTimeoutSeconds'', JNum 60), (''heartbeatTimeoutSeconds'', JNum 30),
      (''gracefulShutdownTimeoutSeconds'', JNum 10), (''restartPolicy'', JStr ''on-failure''),
      (''maxRestartAttempts'', JNum 5)]"

definition placement_default :: json where
  "placement_default = JObj [(''requiredLabels'', JObj []), (''preferredLabels'', JObj [])]"

definition workloadSpecBodySchema :: schema where
  "workloadSpecBodySchema = SObj
     [fld ''runtime'' runtimeSchema,
      fld ''runner'' runnerSchema,
      fld ''env'' (SDefault (SArr envVarSchema [AtMost 100]) (JArr [])),
      fld ''resources'' (SDefault (SOpt resourcesSchema) (JObj [])),
      fld ''health'' (SDefault (SOpt healthSchema) health_default),
      fld ''placement'' (SDefault (SOpt placementSchema) placement_default)] None"

definition workloadSpecSchema :: schema where
  "workloadSpecSchema = SObj
     [fld ''apiVersion'' (SLit WORKLOAD_SPEC_API_VERSION),
      fld ''kind'' (SLit ''DiscordBot''),
      fld ''metadata'' (SObj [fld ''name'' (str [AtLeast 1, AtMost 128])] None),
      fld ''spec'' workloadSpecBodySchema] None"

lemmas spec_schemas =
  WORKLOAD_SPEC_API_VERSION_def runtimeSchema_def envVarSchema_def runnerSchema_def resourcesSchema_def
  restartPolicySchema_def healthSchema_def placementSchema_def health_default_def placement_default_def
  workloadSpecBodySchema_def workloadSpecSchema_def

datatype spec_result = SpecOk json | SpecIssues "string list"

definition parseWorkloadSpec ::
    "(schema \<Rightarrow> json option \<Rightarrow> issue list + json option) \<Rightarrow> json \<Rightarrow> spec_result" where
  "parseWorkloadSpec safeParse raw = (case safeParse workloadSpecSchema (Some raw) of
     Inl issues \<Rightarrow> SpecIssues (map issue_text issues)
   | Inr (Some data) \<Rightarrow> SpecOk data
   | Inr None \<Rightarrow> SpecOk JNull)"

subsection \<open>Reading a specification\<close>

text \<open>\<open>v.k\<close>: \<open>None\<close> is \<open>undefined\<close>.\<close>

fun propOf :: "string \<Rightarrow> json option \<Rightarrow> json option" where
  "propOf k (Some (JObj kvs)) = map_of kvs k"
| "propOf k _ = None"

fun as_string :: "json option \<Rightarrow> string option" where
  "as_string (Some (JStr s)) = Some s"
| "as_string _ = None"

fun as_int :: "json option \<Rightarrow> int option" where
  "as_int (Some (JNum x)) = Some \<lfloor>x\<rfloor>"
| "as_int _ = None"

fun as_list :: "json option \<Rightarrow> json list" where
  "as_list (Some (JArr xs)) = xs"
| "as_list _ = []"

fun as_entries :: "json option \<Rightarrow> (string \<times> string) list" where
  "as_entries (Some (JObj kvs)) = map (\<lambda>(k, v). (k, case v of JStr s \<Rightarrow> s | _ \<Rightarrow> [])) kvs"
| "as_entries _ = []"

subsection \<open>Well-formedness and re-validation\<close>

lemma wf_runtime: "wf_schema F runtimeSchema"
  by (simp add: runtimeSchema_def)

lemma wf_health: "wf_schema F healthSchema"
  by (simp add: healthSchema_def restartPolicySchema_def)

lemma health_default_ok: "conforms F healthSchema (Some health_default)"
    "parsed healthSchema (Some health_default) = Some health_default"
  by (simp_all add: healthSchema_def health_default_def restartPolicySchema_def)

lemma placement_default_ok: "conforms F placementSchema (Some placement_default)"
    "parsed placementSchema (Some placement_default) = Some placement_default"
  by (simp_all add: placementSchema_def placement_default_def)

lemma wf_workloadSpec: "wf_schema F workloadSpecSchema"
  using health_default_ok placement_default_ok wf_runtime wf_health
  by (simp add: workloadSpecSchema_def workloadSpecBodySchema_def runnerSchema_def envVarSchema_def
      resourcesSchema_def placementSchema_def)

context zod
begin

lemma parse_spec_iff:
  "parseWorkloadSpec safeParse raw = SpecOk s \<longleftrightarrow>
     conforms F workloadSpecSchema (Some raw) \<and> parsed workloadSpecSchema (Some raw) = Some s"
proof (cases "conforms F workloadSpecSchema (Some raw)")
  case True
  obtain y where "parsed workloadSpecSchema (Some raw) = Some y" using parsed_present by blast
  with accepts [OF True] True show ?thesis by (simp add: parseWorkloadSpec_def)
next
  case False
  with rejects [OF False] show ?thesis by (auto simp: parseWorkloadSpec_def)
qed

lemma parse_spec_again:
  assumes "parseWorkloadSpec safeParse raw = SpecOk s"
  shows "parseWorkloadSpec safeParse s = SpecOk s"
  using assms parsed_conforms [OF wf_workloadSpec, of F "Some raw"]
    parsed_idempotent [OF wf_workloadSpec, of F "Some raw"]
  by (simp add: parse_spec_iff)

end

definition sample_spec :: json where
  "sample_spec = JObj
     [(''apiVersion'', JStr ''botfleet.io/v1''), (''kind'', JStr ''DiscordBot''),
      (''metadata'', JObj [(''name'', JStr ''music'')]),
      (''spec'', JObj [(''runtime'', JObj [(''type'', JStr ''node''), (''command'', JStr ''node'')]),
                       (''runner'', JObj [(''type'', JStr ''pm2'')])])]"

lemma sample_spec_conforms: "conforms F workloadSpecSchema (Some sample_spec)"
  by (simp add: sample_spec_def spec_schemas)

text \<open>
  Validating twice is validating once: a specification that \<open>parseWorkloadSpec\<close> returns is
  accepted again, unchanged. The control plane validates a specification and stores the result, and
  validates the stored value again before an assignment; the agent validates what it is sent. All
  of them see the same specification.
\<close>
theorem spec_revalidates:
  assumes "zod safeParse F" "parseWorkloadSpec safeParse raw = SpecOk s"
  shows "parseWorkloadSpec safeParse s = SpecOk s"
  using zod.parse_spec_again [OF assms] .

theorem spec_revalidates_witness:
  "\<exists>s. parseWorkloadSpec (plain_validator any_format) sample_spec = SpecOk s
     \<and> parseWorkloadSpec (plain_validator any_format) s = SpecOk s"
proof -
  obtain s where "parseWorkloadSpec (plain_validator any_format) sample_spec = SpecOk s"
    using parsed_present [of workloadSpecSchema sample_spec] sample_spec_conforms [of any_format]
    by (auto simp: plain.parse_spec_iff)
  with spec_revalidates [OF plain.zod_axioms this] show ?thesis by blast
qed

end
