(* ===== verification/Doubles.thy ===== *)
theory Doubles
  imports Complex_Main Prelude
begin

text \<open>
  The number type of the sources: IEEE 754 double precision, as far as the program uses it.
  Counts, sizes and times in milliseconds are integers far below \<open>2 ^ 53\<close> and are kept as
  \<open>int\<close>; a division is rounded to the nearest double, ties to even (\<open>dbl\<close>), and
  \<open>Math.round\<close> and \<open>toFixed(0)\<close> read the rounded value. Overflow, infinities, NaN and
  subnormal results do not arise from the quotients the program forms. The locale
  \<open>rounding\<close> is what the arithmetic of the scorers relies on.
\<close>

subsection \<open>Rounding to 53 bits\<close>

fun nat_log2 :: "nat \<Rightarrow> nat" where
  "nat_log2 n = (if n \<le> 1 then 0 else Suc (nat_log2 (n div 2)))"

declare nat_log2.simps [simp del]

text \<open>The exponent of a positive rational: \<open>2 ^ ilog2 x \<le> x < 2 ^ (ilog2 x + 1)\<close>.\<close>

definition ilog2 :: "rat \<Rightarrow> int" where
  "ilog2 x = (if 1 \<le> x then int (nat_log2 (nat \<lfloor>x\<rfloor>))
              else - int (nat_log2 (nat (\<lceil>1 / x\<rceil> - 1)) + 1))"

definition round_half_even :: "rat \<Rightarrow> int" where
  "round_half_even x =
     (let n = \<lfloor>x\<rfloor>; d = x - of_int n in
      if d < 1 / 2 then n else if 1 / 2 < d then n + 1 else if even n then n else n + 1)"

definition dbl_pos :: "rat \<Rightarrow> rat" where
  "dbl_pos x = (let e = ilog2 x - 52 in of_int (round_half_even (x / 2 powi e)) * 2 powi e)"

definition dbl :: "rat \<Rightarrow> rat" where
  "dbl x = (if x = 0 then 0 else if x < 0 then - dbl_pos (- x) else dbl_pos x)"

text \<open>\<open>Math.round\<close>: to the nearest integer, a tie upwards.\<close>

definition math_round :: "rat \<Rightarrow> int" where
  "math_round x = \<lfloor>x + 1 / 2\<rfloor>"

text \<open>\<open>x.toFixed(0)\<close>; a negative value that rounds to zero prints as \<open>-0\<close>.\<close>

definition to_fixed0 :: "rat \<Rightarrow> string" where
  "to_fixed0 x = (if x < 0 then ''-'' @ show_int (math_round (- x)) else show_int (math_round x))"

subsection \<open>Exponents\<close>

lemma nat_log2_1 [simp]: "nat_log2 (Suc 0) = 0"
  by (simp add: nat_log2.simps [of "Suc 0"])

lemma nat_log2_bounds: "1 \<le> n \<Longrightarrow> 2 ^ nat_log2 n \<le> n \<and> n < 2 ^ Suc (nat_log2 n)"
proof (induction n rule: nat_log2.induct)
  case (1 n)
  show ?case
  proof (cases "n \<le> 1")
    case True
    with "1.prems" have "n = Suc 0" by simp
    then show ?thesis by simp
  next
    case False
    with "1.IH" have "2 ^ nat_log2 (n div 2) \<le> n div 2" "n div 2 < 2 ^ Suc (nat_log2 (n div 2))"
      by auto
    then have "2 * 2 ^ nat_log2 (n div 2) \<le> n" "n < 2 * 2 ^ Suc (nat_log2 (n div 2))"
      by linarith+
    with False show ?thesis by (simp add: nat_log2.simps [of n])
  qed
qed

lemma powi_neg: "(2 :: rat) powi (- int k) = 1 / 2 ^ k"
  by (simp add: power_int_minus divide_inverse)

lemma powi_pos [simp]: "0 < (2 :: rat) powi m" "\<not> (2 :: rat) powi m < 0"
  by (simp_all add: not_less)

lemma ilog2_bounds:
  assumes "0 < x"
  shows "2 powi ilog2 x \<le> x \<and> x < 2 powi (ilog2 x + 1)"
proof (cases "1 \<le> x")
  case True
  let ?n = "nat \<lfloor>x\<rfloor>"
  from True have n: "1 \<le> ?n" by (simp add: le_nat_iff)
  from True have fn: "(of_nat ?n :: rat) = of_int \<lfloor>x\<rfloor>" by (simp add: of_nat_nat)
  have fl: "of_nat ?n \<le> x" "x < of_nat ?n + 1"
    unfolding fn by linarith+
  from nat_log2_bounds [OF n] have "2 ^ nat_log2 ?n \<le> ?n" "?n + 1 \<le> 2 ^ Suc (nat_log2 ?n)"
    by auto
  then have "(2 :: rat) ^ nat_log2 ?n \<le> of_nat ?n" "(of_nat ?n :: rat) + 1 \<le> 2 ^ Suc (nat_log2 ?n)"
    using of_nat_le_numeral_power_cancel_iff numeral_power_le_of_nat_cancel_iff
    by (metis, metis Suc_eq_plus1 of_nat_Suc add.commute of_nat_le_numeral_power_cancel_iff)
  with fl have "2 ^ nat_log2 ?n \<le> x" "x < 2 ^ Suc (nat_log2 ?n)"
    by linarith+
  with True show ?thesis
    by (simp add: ilog2_def power_int_def nat_add_distrib)
next
  case False
  let ?c = "\<lceil>1 / x\<rceil>" and ?m = "nat (\<lceil>1 / x\<rceil> - 1)"
  from False assms have "1 < 1 / x" by (simp add: field_simps)
  then have c: "2 \<le> ?c" by linarith
  then have m: "1 \<le> ?m" by linarith
  have ceil: "1 / x \<le> of_int ?c" "of_int ?c < 1 / x + 1" by linarith+
  have "int ?m = ?c - 1" using c by linarith
  then have "(of_nat ?m :: rat) = of_int (?c - 1)" by (metis of_int_of_nat_eq)
  then have cm: "(of_int ?c :: rat) = of_nat ?m + 1" by simp
  let ?k = "nat_log2 ?m"
  from nat_log2_bounds [OF m] have "2 ^ ?k \<le> ?m" "?m + 1 \<le> 2 ^ Suc ?k" by auto
  then have "(of_nat (2 ^ ?k) :: rat) \<le> of_nat ?m" "(of_nat (?m + 1) :: rat) \<le> of_nat (2 ^ Suc ?k)"
    using of_nat_mono by blast+
  then have k: "(2 :: rat) ^ ?k \<le> of_nat ?m" "of_nat ?m + 1 \<le> (2 :: rat) ^ Suc ?k"
    by (metis of_nat_numeral of_nat_power, metis of_nat_1 of_nat_add of_nat_numeral of_nat_power)
  with ceil cm have "1 / x \<le> 2 ^ Suc ?k" "2 ^ ?k < 1 / x" by linarith+
  with assms have "1 / 2 ^ Suc ?k \<le> x" "x < 1 / 2 ^ ?k"
    by (simp_all add: field_simps)
  moreover have il: "ilog2 x = - int (Suc ?k)" using False by (simp add: ilog2_def)
  moreover have "- int (Suc ?k) + 1 = - int ?k" by simp
  ultimately show ?thesis unfolding il by (simp only: powi_neg)
qed

lemma ilog2_mono:
  assumes "0 < x" "x \<le> y"
  shows "ilog2 x \<le> ilog2 y"
proof (rule ccontr)
  assume "\<not> ilog2 x \<le> ilog2 y"
  then have "ilog2 y + 1 \<le> ilog2 x" by simp
  then have "(2 :: rat) powi (ilog2 y + 1) \<le> 2 powi ilog2 x"
    by (intro power_int_increasing) auto
  with ilog2_bounds [of x] ilog2_bounds [of y] assms show False by linarith
qed

subsection \<open>Rounding is monotone and exact on 53-bit integers\<close>

lemma round_half_even_mono: "x \<le> y \<Longrightarrow> round_half_even x \<le> round_half_even y"
proof -
  assume xy: "x \<le> y"
  then have fl: "\<lfloor>x\<rfloor> \<le> \<lfloor>y\<rfloor>" by (rule floor_mono)
  show ?thesis
  proof (cases "\<lfloor>x\<rfloor> = \<lfloor>y\<rfloor>")
    case True
    with xy show ?thesis by (auto simp: round_half_even_def Let_def)
  next
    case False
    with fl have "\<lfloor>x\<rfloor> + 1 \<le> \<lfloor>y\<rfloor>" by simp
    then show ?thesis by (auto simp: round_half_even_def Let_def)
  qed
qed

lemma round_half_even_int [simp]: "round_half_even (of_int n) = n"
  by (simp add: round_half_even_def)

lemma dbl_pos_bounds:
  assumes "0 < x"
  shows "2 powi ilog2 x \<le> dbl_pos x" and "dbl_pos x \<le> 2 powi (ilog2 x + 1)"
proof -
  let ?e = "ilog2 x - 52"
  have split: "(2 :: rat) powi ilog2 x = 2 ^ 52 * 2 powi ?e"
    "(2 :: rat) powi (ilog2 x + 1) = 2 ^ 53 * 2 powi ?e"
    by (simp_all add: power_int_diff power_int_add)
  from ilog2_bounds [OF assms] have "of_int (2 ^ 52) \<le> x / 2 powi ?e" "x / 2 powi ?e \<le> of_int (2 ^ 53)"
    unfolding split by (simp_all add: field_simps)
  then have "2 ^ 52 \<le> round_half_even (x / 2 powi ?e)" "round_half_even (x / 2 powi ?e) \<le> 2 ^ 53"
    using round_half_even_mono [of "of_int (2 ^ 52)" "x / 2 powi ?e"]
      round_half_even_mono [of "x / 2 powi ?e" "of_int (2 ^ 53)"]
    by (simp_all only: round_half_even_int)
  then have "(of_int (2 ^ 52) :: rat) \<le> of_int (round_half_even (x / 2 powi ?e))"
    "of_int (round_half_even (x / 2 powi ?e)) \<le> (of_int (2 ^ 53) :: rat)"
    by (simp_all only: of_int_le_iff)
  then have "(2 :: rat) ^ 52 \<le> of_int (round_half_even (x / 2 powi ?e))"
    "of_int (round_half_even (x / 2 powi ?e)) \<le> (2 :: rat) ^ 53"
    by simp_all
  then show "2 powi ilog2 x \<le> dbl_pos x" and "dbl_pos x \<le> 2 powi (ilog2 x + 1)"
    unfolding split dbl_pos_def Let_def by (auto intro!: mult_right_mono)
qed

lemma dbl_pos_positive: "0 < x \<Longrightarrow> 0 < dbl_pos x"
  using dbl_pos_bounds(1) [of x] zero_less_power_int [of "2 :: rat" "ilog2 x"] by linarith

lemma dbl_pos_mono:
  assumes "0 < x" "x \<le> y"
  shows "dbl_pos x \<le> dbl_pos y"
proof (cases "ilog2 x = ilog2 y")
  case True
  then have "x / 2 powi (ilog2 x - 52) \<le> y / 2 powi (ilog2 y - 52)"
    using assms by (simp add: divide_right_mono)
  from round_half_even_mono [OF this] True show ?thesis
    by (auto simp: dbl_pos_def Let_def intro!: mult_right_mono)
next
  case False
  with ilog2_mono [OF assms] have "ilog2 x + 1 \<le> ilog2 y" by simp
  then have "(2 :: rat) powi (ilog2 x + 1) \<le> 2 powi ilog2 y"
    by (intro power_int_increasing) auto
  with dbl_pos_bounds [of x] dbl_pos_bounds [of y] assms show ?thesis by linarith
qed

lemma dbl_mono: "x \<le> y \<Longrightarrow> dbl x \<le> dbl y"
  using dbl_pos_mono [of x y] dbl_pos_mono [of "- y" "- x"] dbl_pos_positive [of "- x"]
    dbl_pos_positive [of y]
  by (auto simp: dbl_def)

text \<open>A number with at most 53 significant bits is its own double.\<close>

lemma dbl_pos_exact:
  assumes "0 < n" "n < 2 ^ 53"
  shows "dbl_pos (of_int n * 2 powi m) = of_int n * 2 powi m"
proof -
  let ?x = "of_int n * 2 powi m :: rat"
  from assms have pos: "0 < ?x" by simp
  have "(of_int n :: rat) < of_int (2 ^ 53)" using assms(2) by (simp only: of_int_less_iff)
  then have "(of_int n :: rat) < 2 ^ 53" by simp
  then have "?x < 2 ^ 53 * 2 powi m" by simp
  then have "?x < 2 powi (53 + m)" by (simp add: power_int_add)
  with ilog2_bounds [OF pos] have "(2 :: rat) powi ilog2 ?x < 2 powi (53 + m)" by linarith
  then have "ilog2 ?x - 52 \<le> m"
    using power_int_increasing [of "53 + m" "ilog2 ?x" "2 :: rat"] by fastforce
  then obtain k :: nat where k: "ilog2 ?x - 52 = m - int k"
    by (metis add_diff_cancel_left' diff_add_cancel zle_iff_zadd)
  have "?x / 2 powi (m - int k) = of_int (n * 2 ^ k)"
    by (simp add: power_int_diff)
  then show ?thesis
    by (simp only: dbl_pos_def Let_def k round_half_even_int) (simp add: power_int_diff)
qed

lemma dbl_exact: "\<bar>n\<bar> < 2 ^ 53 \<Longrightarrow> dbl (of_int n * 2 powi m) = of_int n * 2 powi m"
  using dbl_pos_exact [of n m] dbl_pos_exact [of "- n" m]
  by (auto simp: dbl_def mult_less_0_iff)

lemma dbl_int: "\<bar>n\<bar> < 2 ^ 53 \<Longrightarrow> dbl (of_int n) = of_int n"
  using dbl_exact [of n 0] by simp

lemma dbl_numerals [simp]:
  "dbl 0 = 0" "dbl 1 = 1"
  "numeral k < (2 :: int) ^ 53 \<Longrightarrow> dbl (numeral k) = numeral k"
  "numeral k < (2 :: int) ^ 53 \<Longrightarrow> dbl (- numeral k) = - numeral k"
  using dbl_int [of 0] dbl_int [of 1] dbl_int [of "numeral k"] dbl_int [of "- numeral k"]
  by simp_all

lemma dbl_half [simp]: "dbl (1 / 2) = 1 / 2"
  using dbl_exact [of 1 "- 1"] by simp

lemma math_round_mono: "x \<le> y \<Longrightarrow> math_round x \<le> math_round y"
  by (simp add: math_round_def floor_mono)

lemma math_round_int [simp]: "math_round (of_int n) = n"
  unfolding math_round_def by linarith

subsection \<open>The interface the scorers use\<close>

text \<open>
  What the scoring of placements needs of the arithmetic: rounding is monotone and leaves small
  integers alone. A share of a whole then stays between the ends of its scale, and a larger share
  never scores less, whatever the rounding does in between.
\<close>

locale rounding =
  fixes rnd :: "rat \<Rightarrow> rat"
  assumes rnd_mono: "x \<le> y \<Longrightarrow> rnd x \<le> rnd y"
    and rnd_int: "\<bar>n\<bar> < 2 ^ 53 \<Longrightarrow> rnd (of_int n) = of_int n"
begin

lemma rnd_between:
  assumes "of_int a \<le> x" "x \<le> of_int b" "\<bar>a\<bar> < 2 ^ 53" "\<bar>b\<bar> < 2 ^ 53"
  shows "of_int a \<le> rnd x \<and> rnd x \<le> of_int b"
  using rnd_mono [OF assms(1)] rnd_mono [OF assms(2)] rnd_int [OF assms(3)] rnd_int [OF assms(4)]
  by simp

lemma rnd_unit: "0 \<le> x \<Longrightarrow> x \<le> 1 \<Longrightarrow> 0 \<le> rnd x \<and> rnd x \<le> 1"
  using rnd_between [of 0 x 1] by simp

lemma rnd_0: "rnd 0 = 0" and rnd_1: "rnd 1 = 1"
  using rnd_int [of 0] rnd_int [of 1] by simp_all

lemma share_points:
  assumes "0 \<le> x" "x \<le> 1" "0 \<le> m" "m < 2 ^ 53"
  shows "0 \<le> math_round (rnd (x * of_int m)) \<and> math_round (rnd (x * of_int m)) \<le> m"
proof -
  from assms have "0 \<le> x * of_int m" "x * of_int m \<le> of_int m"
    by (simp_all add: mult_left_le_one_le)
  with assms rnd_between [of 0 "x * of_int m" m]
  have "(of_int 0 :: rat) \<le> rnd (x * of_int m)" "rnd (x * of_int m) \<le> of_int m"
    by simp_all
  from math_round_mono [OF this(1)] math_round_mono [OF this(2)] show ?thesis
    by (simp only: math_round_int)
qed

lemma share_points_mono:
  "x \<le> y \<Longrightarrow> 0 \<le> m \<Longrightarrow> math_round (rnd (x * of_int m)) \<le> math_round (rnd (y * of_int m))"
  by (intro math_round_mono rnd_mono mult_right_mono) simp_all

end

interpretation ieee: rounding dbl
  by unfold_locales (simp_all add: dbl_mono dbl_int)

end
