(* ===== verification/Stable_Sort.thy ===== *)
theory Stable_Sort
  imports Prelude "HOL-Library.Multiset"
begin

text \<open>
  \<open>Array.prototype.sort\<close> with a comparator. The language fixes the result for a consistent
  comparator: the array is ordered by it and elements that compare equal keep their order. The
  model is an insertion sort on the relation \<open>le a b\<close>, "the comparator of \<open>a\<close> and \<open>b\<close> is not
  positive". The locale \<open>comparison\<close> is the contract a comparator has to meet; the scheduler's
  and the rebalancer's comparators are its interpretations.
\<close>

fun js_insert :: "('a \<Rightarrow> 'a \<Rightarrow> bool) \<Rightarrow> 'a \<Rightarrow> 'a list \<Rightarrow> 'a list" where
  "js_insert le x [] = [x]"
| "js_insert le x (y # ys) = (if le x y then x # y # ys else y # js_insert le x ys)"

fun js_sort :: "('a \<Rightarrow> 'a \<Rightarrow> bool) \<Rightarrow> 'a list \<Rightarrow> 'a list" where
  "js_sort le [] = []"
| "js_sort le (x # xs) = js_insert le x (js_sort le xs)"

lemma mset_js_insert [simp]: "mset (js_insert le x xs) = add_mset x (mset xs)"
  by (induction xs) auto

lemma mset_js_sort [simp]: "mset (js_sort le xs) = mset xs"
  by (induction xs) auto

lemma set_js_sort [simp]: "set (js_sort le xs) = set xs"
  using mset_js_sort by (rule mset_eq_setD)

lemma set_js_insert [simp]: "set (js_insert le x xs) = insert x (set xs)"
  by (metis mset_js_insert set_mset_add_mset_insert set_mset_mset)

lemma length_js_sort [simp]: "length (js_sort le xs) = length xs"
  using mset_js_sort by (rule mset_eq_length)

lemma js_sort_Nil_iff [simp]: "js_sort le xs = [] \<longleftrightarrow> xs = []"
  by (metis length_0_conv length_js_sort)

lemma distinct_js_sort [simp]: "distinct (js_sort le xs) = distinct xs"
  by (metis mset_eq_imp_distinct_iff mset_js_sort)

locale comparison =
  fixes le :: "'a \<Rightarrow> 'a \<Rightarrow> bool"
  assumes total: "le a b \<or> le b a"
    and trans: "le a b \<Longrightarrow> le b c \<Longrightarrow> le a c"
begin

lemma refl: "le a a"
  using total by blast

lemma sorted_insert: "sorted_wrt le xs \<Longrightarrow> sorted_wrt le (js_insert le x xs)"
proof (induction xs)
  case Nil
  then show ?case by simp
next
  case (Cons y ys)
  show ?case
  proof (cases "le x y")
    case True
    with Cons.prems show ?thesis by (auto intro: trans)
  next
    case False
    with total have "le y x" by blast
    with False Cons show ?thesis by auto
  qed
qed

lemma sorted_sort: "sorted_wrt le (js_sort le xs)"
  by (induction xs) (auto intro: sorted_insert)

lemma hd_least:
  assumes "x \<in> set xs"
  shows "le (hd (js_sort le xs)) x"
proof -
  from assms obtain y ys where ys: "js_sort le xs = y # ys"
    by (cases "js_sort le xs") auto
  with assms sorted_sort [of xs] have "x = y \<or> x \<in> set ys" "\<forall>z\<in>set ys. le y z"
    by (metis set_ConsD set_js_sort, simp)
  with ys refl show ?thesis by auto
qed

lemma hd_in: "xs \<noteq> [] \<Longrightarrow> hd (js_sort le xs) \<in> set xs"
  by (metis hd_in_set js_sort_Nil_iff set_js_sort)

lemma find_least:
  assumes "find P (js_sort le xs) = Some x" "y \<in> set xs" "P y"
  shows "le x y"
proof -
  have gen: "sorted_wrt le zs \<Longrightarrow> find P zs = Some x \<Longrightarrow> y \<in> set zs \<Longrightarrow> le x y" for zs
    using assms(3) by (induction zs) (auto simp: refl split: if_splits dest: findD)
  from gen [OF sorted_sort assms(1)] assms(2) show ?thesis by simp
qed

text \<open>Elements that are already in order stay where they are: the sort is stable.\<close>

lemma insert_first: "\<forall>y\<in>set xs. le x y \<Longrightarrow> js_insert le x xs = x # xs"
  by (cases xs) auto

lemma sort_sorted: "sorted_wrt le xs \<Longrightarrow> js_sort le xs = xs"
  by (induction xs) (auto simp: insert_first)

text \<open>
  When only equal elements tie, the order of the input does not matter: the result is the same
  for every arrangement of the same elements.
\<close>

lemma sorted_unique:
  assumes "sorted_wrt le xs" "sorted_wrt le ys" "mset xs = mset ys"
    and anti: "\<And>a b. a \<in> set xs \<Longrightarrow> b \<in> set xs \<Longrightarrow> le a b \<Longrightarrow> le b a \<Longrightarrow> a = b"
  shows "xs = ys"
  using assms
proof (induction xs arbitrary: ys)
  case Nil
  then show ?case by simp
next
  case (Cons x xs ys')
  then obtain y ys where ys': "ys' = y # ys" by (cases ys') auto
  have sets: "set (x # xs) = set (y # ys)" using Cons.prems(3) ys' by (metis mset_eq_setD)
  have "x \<in> set (y # ys)" "y \<in> set (x # xs)" using sets by auto
  moreover have "\<forall>z\<in>set xs. le x z" "\<forall>z\<in>set ys. le y z"
    using Cons.prems(1,2) ys' by auto
  ultimately have "le x y" "le y x" using refl by auto
  with Cons.prems(4) sets have "x = y" by auto
  moreover from this have "xs = ys"
    using Cons.prems ys' by (intro Cons.IH) auto
  ultimately show ?case by (simp add: ys')
qed

lemma sort_perm_unique:
  assumes "mset xs = mset ys"
    and "\<And>a b. a \<in> set xs \<Longrightarrow> b \<in> set xs \<Longrightarrow> le a b \<Longrightarrow> le b a \<Longrightarrow> a = b"
  shows "js_sort le xs = js_sort le ys"
  using sorted_unique [of "js_sort le xs" "js_sort le ys"] sorted_sort assms by simp

end

end
