(* ===== verification/Scheduler.thy ===== *)
theory Scheduler
  imports Doubles Stable_Sort
begin

text \<open>
  The placement scorer, \<open>packages/scheduler/src\<close>: \<open>types.ts\<close> as records, \<open>schedule.ts\<close>
  as functions. A \<open>Record<string, string>\<close> is the list of its entries in enumeration order,
  read by \<open>map_of\<close>; an optional or nullable field is an \<open>option\<close>, and the truthiness tests of
  the source are written out. Percentages and ratios go through \<open>dbl\<close>.
  \<open>String.prototype.localeCompare\<close> depends on the runtime's collation tables, so it is the
  parameter \<open>lc\<close> with the contract of the locales \<open>collation\<close> and \<open>strict_collation\<close>.
\<close>

subsection \<open>Types\<close>

datatype agent_status =
  Enrolling | Online | Degraded | Disconnected | Draining | Maintenance | Disabled

fun agent_status_name :: "agent_status \<Rightarrow> string" where
  "agent_status_name Enrolling = ''enrolling''"
| "agent_status_name Online = ''online''"
| "agent_status_name Degraded = ''degraded''"
| "agent_status_name Disconnected = ''disconnected''"
| "agent_status_name Draining = ''draining''"
| "agent_status_name Maintenance = ''maintenance''"
| "agent_status_name Disabled = ''disabled''"

type_synonym entries = "(string \<times> string) list"

record scheduler_agent =
  sa_id :: string
  sa_name :: string
  sa_status :: agent_status
  sa_region :: "string option"
  sa_environment :: "string option"
  sa_capabilities :: "string list"
  sa_labels :: entries
  sa_totalMemoryMb :: "int option"
  sa_availableMemoryMb :: "int option"
  sa_currentWorkloadCount :: int
  sa_maxWorkloads :: "int option"
  sa_recentFailureCount :: "int option"

record scheduler_workload =
  sw_id :: string
  sw_customerId :: string
  sw_requiredCapability :: "string option"
  sw_requiredMemoryMb :: "int option"
  sw_requiredEnvironment :: "string option"
  sw_requiredLabels :: entries
  sw_preferredLabels :: entries
  sw_preferredRegion :: "string option"
  sw_currentAgentId :: "string option"

record customer_placement =
  cp_customerId :: string
  cp_agentId :: string

record score_entry =
  se_label :: string
  se_points :: int

record candidate_score =
  cs_agentId :: string
  cs_agentName :: string
  cs_eligible :: bool
  cs_ineligibleReason :: "string option"
  cs_breakdown :: "score_entry list"
  cs_totalScore :: int

record placement_decision =
  pd_workloadId :: string
  pd_candidates :: "candidate_score list"
  pd_selectedAgentId :: "string option"
  pd_reason :: string

text \<open>A truthy optional string is present and not empty.\<close>

fun truthy :: "string option \<Rightarrow> string option" where
  "truthy (Some (c # cs)) = Some (c # cs)"
| "truthy _ = None"

lemma truthy_if: "truthy (Some s) = (if s = '''' then None else Some s)"
  by (cases s) auto

lemma truthy_Some: "truthy v = Some s \<longleftrightarrow> v = Some s \<and> s \<noteq> ''''"
  by (cases v rule: truthy.cases) auto

subsection \<open>Hard requirements\<close>

definition missing_label :: "scheduler_agent \<Rightarrow> scheduler_workload \<Rightarrow> (string \<times> string) option" where
  "missing_label a w = find (\<lambda>(key, val). map_of (sa_labels a) key \<noteq> Some val) (sw_requiredLabels w)"

text \<open>Each early return of the source is one check; the first that fails gives the reason.\<close>

definition status_failure :: "scheduler_agent \<Rightarrow> string option" where
  "status_failure a =
     (if sa_status a \<noteq> Online
      then Some (''agent status is '' @ [CHR 0x22] @ agent_status_name (sa_status a) @ [CHR 0x22] @ '', not online'')
      else None)"

definition capability_failure :: "scheduler_agent \<Rightarrow> scheduler_workload \<Rightarrow> string option" where
  "capability_failure a w = (case truthy (sw_requiredCapability w) of
     None \<Rightarrow> None
   | Some c \<Rightarrow> if c \<in> set (sa_capabilities a) then None
       else Some (''missing required capability '' @ [CHR 0x22] @ c @ [CHR 0x22]))"

definition label_failure :: "scheduler_agent \<Rightarrow> scheduler_workload \<Rightarrow> string option" where
  "label_failure a w = map_option (\<lambda>(key, val). ''missing required label '' @ key @ ''='' @ val)
     (missing_label a w)"

definition environment_failure :: "scheduler_agent \<Rightarrow> scheduler_workload \<Rightarrow> string option" where
  "environment_failure a w = (case truthy (sw_requiredEnvironment w) of
     None \<Rightarrow> None
   | Some env \<Rightarrow> if sa_environment a = Some env then None
       else Some (''environment '' @ [CHR 0x22] @ (case sa_environment a of None \<Rightarrow> ''none'' | Some e \<Rightarrow> e)
         @ [CHR 0x22] @ '' does not match required '' @ [CHR 0x22] @ env @ [CHR 0x22]))"

definition memory_failure :: "scheduler_agent \<Rightarrow> scheduler_workload \<Rightarrow> string option" where
  "memory_failure a w = (case (sw_requiredMemoryMb w, sa_availableMemoryMb a) of
     (Some req, Some avail) \<Rightarrow> if avail < req
       then Some (''insufficient memory ('' @ show_int avail @ ''MB available, '' @ show_int req
                  @ ''MB required)'')
       else None
   | _ \<Rightarrow> None)"

definition capacity_failure :: "scheduler_agent \<Rightarrow> string option" where
  "capacity_failure a = (case sa_maxWorkloads a of
     Some m \<Rightarrow> if m \<le> sa_currentWorkloadCount a
       then Some (''at capacity ('' @ show_int (sa_currentWorkloadCount a) @ ''/'' @ show_int m
                  @ '' workloads)'')
       else None
   | None \<Rightarrow> None)"

fun orElse :: "'a option \<Rightarrow> 'a option \<Rightarrow> 'a option" where
  "orElse (Some x) y = Some x"
| "orElse None y = y"

definition eligibilityFailureReason :: "scheduler_agent \<Rightarrow> scheduler_workload \<Rightarrow> string option" where
  "eligibilityFailureReason a w =
     orElse (status_failure a)
    (orElse (capability_failure a w)
    (orElse (label_failure a w)
    (orElse (environment_failure a w)
    (orElse (memory_failure a w)
            (capacity_failure a)))))"

subsection \<open>Soft preferences\<close>

definition region_points :: "scheduler_agent \<Rightarrow> scheduler_workload \<Rightarrow> score_entry list" where
  "region_points a w = (case truthy (sw_preferredRegion w) of
     Some r \<Rightarrow> if sa_region a = Some r
       then [\<lparr>se_label = ''preferred region matched'', se_points = 30\<rparr>] else []
   | None \<Rightarrow> [])"

definition preferred_label_points :: "scheduler_agent \<Rightarrow> scheduler_workload \<Rightarrow> score_entry list" where
  "preferred_label_points a w =
     map (\<lambda>(key, val). \<lparr>se_label = ''preferred label '' @ key @ ''='' @ val @ '' matched'', se_points = 10\<rparr>)
       (filter (\<lambda>(key, val). map_of (sa_labels a) key = Some val) (sw_preferredLabels w))"

definition pressure :: "int \<Rightarrow> int \<Rightarrow> rat" where
  "pressure avail tot = dbl (1 - dbl (of_int avail / of_int tot))"

definition memory_points :: "scheduler_agent \<Rightarrow> score_entry list" where
  "memory_points a = (case (sa_totalMemoryMb a, sa_availableMemoryMb a) of
     (Some tot, Some avail) \<Rightarrow>
       if 0 < tot
       then [\<lparr>se_label = ''memory pressure '' @ to_fixed0 (dbl (pressure avail tot * 100)) @ ''%'',
              se_points = math_round (dbl (dbl (1 - pressure avail tot) * of_int 20))\<rparr>]
       else []
   | _ \<Rightarrow> [])"

definition spread_points :: "scheduler_agent \<Rightarrow> rat \<Rightarrow> score_entry list" where
  "spread_points a average =
     (if 0 < average
      then (let relativeLoad = dbl (of_int (sa_currentWorkloadCount a) / average);
                points = math_round (dbl (max 0 (dbl (1 - relativeLoad)) * of_int 10))
            in if 0 < points then [\<lparr>se_label = ''below-average workload count'', se_points = points\<rparr>]
               else [])
      else [])"

definition hasCustomerNeighbor ::
    "scheduler_agent \<Rightarrow> scheduler_workload \<Rightarrow> customer_placement list \<Rightarrow> bool" where
  "hasCustomerNeighbor a w placements =
     list_ex (\<lambda>p. cp_customerId p = sw_customerId w \<and> cp_agentId p = sa_id a) placements"

definition scoreEligibleAgent ::
    "scheduler_agent \<Rightarrow> scheduler_workload \<Rightarrow> customer_placement list \<Rightarrow> rat \<Rightarrow> score_entry list" where
  "scoreEligibleAgent a w placements average =
     region_points a w @ preferred_label_points a w @ memory_points a @ spread_points a average
   @ (if hasCustomerNeighbor a w placements then []
      else [\<lparr>se_label = ''customer anti-affinity (no sibling bot here)'', se_points = 10\<rparr>])
   @ (case sa_recentFailureCount a of
        Some n \<Rightarrow> if n = 0 then []
          else [\<lparr>se_label = ''recent failure penalty ('' @ show_int n @ '')'', se_points = - 5 * n\<rparr>]
      | None \<Rightarrow> [])
   @ (if sw_currentAgentId w = Some (sa_id a)
      then [\<lparr>se_label = ''already running here (avoids an unnecessary move)'', se_points = 10\<rparr>]
      else [])"

definition total_points :: "score_entry list \<Rightarrow> int" where
  "total_points breakdown = foldl (\<lambda>sum entry. sum + se_points entry) 0 breakdown"

subsection \<open>The decision\<close>

definition averageWorkloadCount :: "scheduler_agent list \<Rightarrow> rat" where
  "averageWorkloadCount agents =
     (if 0 < length agents
      then dbl (of_int (foldl (\<lambda>sum a. sum + sa_currentWorkloadCount a) 0 agents) / of_nat (length agents))
      else 0)"

definition candidate ::
    "scheduler_workload \<Rightarrow> customer_placement list \<Rightarrow> rat \<Rightarrow> scheduler_agent \<Rightarrow> candidate_score" where
  "candidate w placements average a =
     (case eligibilityFailureReason a w of
        Some reason \<Rightarrow> \<lparr>cs_agentId = sa_id a, cs_agentName = sa_name a, cs_eligible = False,
          cs_ineligibleReason = Some reason, cs_breakdown = [], cs_totalScore = 0\<rparr>
      | None \<Rightarrow> (let breakdown = scoreEligibleAgent a w placements average in
          \<lparr>cs_agentId = sa_id a, cs_agentName = sa_name a, cs_eligible = True,
           cs_ineligibleReason = None, cs_breakdown = breakdown,
           cs_totalScore = total_points breakdown\<rparr>))"

definition candidate_cmp ::
    "(string \<Rightarrow> string \<Rightarrow> int) \<Rightarrow> candidate_score \<Rightarrow> candidate_score \<Rightarrow> int" where
  "candidate_cmp lc a b =
     (if cs_eligible a \<noteq> cs_eligible b then (if cs_eligible a then -1 else 1)
      else if cs_totalScore b \<noteq> cs_totalScore a then cs_totalScore b - cs_totalScore a
      else lc (cs_agentId a) (cs_agentId b))"

abbreviation candidate_le ::
    "(string \<Rightarrow> string \<Rightarrow> int) \<Rightarrow> candidate_score \<Rightarrow> candidate_score \<Rightarrow> bool" where
  "candidate_le lc a b \<equiv> candidate_cmp lc a b \<le> 0"

definition scheduleWorkload ::
    "(string \<Rightarrow> string \<Rightarrow> int) \<Rightarrow> scheduler_workload \<Rightarrow> scheduler_agent list \<Rightarrow>
     customer_placement list \<Rightarrow> placement_decision" where
  "scheduleWorkload lc w agents placements =
     (let average = averageWorkloadCount agents;
          candidates = js_sort (candidate_le lc) (map (candidate w placements average) agents);
          winner = find cs_eligible candidates
      in \<lparr>pd_workloadId = sw_id w,
          pd_candidates = candidates,
          pd_selectedAgentId = map_option cs_agentId winner,
          pd_reason = (case winner of
             Some c \<Rightarrow> ''Selected '' @ cs_agentName c @ '' with score '' @ show_int (cs_totalScore c)
           | None \<Rightarrow> ''No eligible agent found'')\<rparr>)"

subsection \<open>Collation of agent ids\<close>

text \<open>
  What the scheduler needs of \<open>localeCompare\<close>: it is a consistent comparison. The strict version
  adds that only equal ids compare equal, which holds of the ids the database gives out (lower-case
  letters and digits). On those ids the collation order is the order of the code units.
\<close>

locale collation =
  fixes lc :: "string \<Rightarrow> string \<Rightarrow> int"
  assumes lc_total: "lc a b \<le> 0 \<or> lc b a \<le> 0"
    and lc_trans: "lc a b \<le> 0 \<Longrightarrow> lc b c \<le> 0 \<Longrightarrow> lc a c \<le> 0"

locale strict_collation = collation +
  assumes lc_eq: "lc a b \<le> 0 \<Longrightarrow> lc b a \<le> 0 \<Longrightarrow> a = b"

fun code_unit_compare :: "string \<Rightarrow> string \<Rightarrow> int" where
  "code_unit_compare [] [] = 0"
| "code_unit_compare [] (y # ys) = -1"
| "code_unit_compare (x # xs) [] = 1"
| "code_unit_compare (x # xs) (y # ys) =
     (if (of_char x :: nat) < of_char y then -1
      else if (of_char y :: nat) < of_char x then 1
      else code_unit_compare xs ys)"

lemma code_unit_compare_total: "code_unit_compare a b \<le> 0 \<or> code_unit_compare b a \<le> 0"
  by (induction a b rule: code_unit_compare.induct) auto

lemma of_char_less_antisym:
  "\<not> (of_char x :: nat) < of_char y \<Longrightarrow> \<not> (of_char y :: nat) < of_char x \<Longrightarrow> x = y"
  by (metis linorder_neqE_nat of_char_eq_iff)

lemma code_unit_compare_eq:
  "code_unit_compare a b \<le> 0 \<Longrightarrow> code_unit_compare b a \<le> 0 \<Longrightarrow> a = b"
proof (induction a b rule: code_unit_compare.induct)
  case (4 x xs y ys)
  then have "\<not> (of_char x :: nat) < of_char y" "\<not> (of_char y :: nat) < of_char x"
    by (simp_all split: if_splits)
  with 4 show ?case using of_char_less_antisym [of x y] by simp
qed simp_all

lemma code_unit_compare_trans:
  "code_unit_compare a b \<le> 0 \<Longrightarrow> code_unit_compare b c \<le> 0 \<Longrightarrow> code_unit_compare a c \<le> 0"
proof (induction a b arbitrary: c rule: code_unit_compare.induct)
  case (4 x xs y ys)
  then obtain z zs where c: "c = z # zs" by (cases c) auto
  let ?n = "of_char :: char \<Rightarrow> nat"
  from 4 c have "?n x \<le> ?n y" "?n y \<le> ?n z" by (auto split: if_splits)
  show ?case
  proof (cases "?n x < ?n z")
    case True
    then show ?thesis by (simp add: c)
  next
    case False
    with \<open>?n x \<le> ?n y\<close> \<open>?n y \<le> ?n z\<close> have "?n x = ?n y" "?n y = ?n z" by linarith+
    then have "x = y" "y = z" by (simp_all only: of_char_eq_iff)
    with 4 c show ?thesis by simp
  qed
next
  case (1 c)
  then show ?case by simp
next
  case (2 y ys c)
  then show ?case by (cases c) simp_all
next
  case (3 x xs c)
  then show ?case by simp
qed

interpretation ascii: strict_collation code_unit_compare
  by unfold_locales
    (simp_all add: code_unit_compare_total code_unit_compare_eq code_unit_compare_trans)

context collation
begin

lemma candidate_total: "candidate_le lc a b \<or> candidate_le lc b a"
  using lc_total [of "cs_agentId a" "cs_agentId b"] by (auto simp: candidate_cmp_def)

lemma candidate_trans: "candidate_le lc a b \<Longrightarrow> candidate_le lc b c \<Longrightarrow> candidate_le lc a c"
  using lc_trans [of "cs_agentId a" "cs_agentId b" "cs_agentId c"] by (auto simp: candidate_cmp_def split: if_splits)

end

sublocale collation \<subseteq> ranking: comparison "candidate_le lc"
  by unfold_locales (rule candidate_total, erule (1) candidate_trans)

context collation
begin

lemma winner_least:
  "find P (js_sort (candidate_le lc) cs) = Some c \<Longrightarrow> d \<in> set cs \<Longrightarrow> P d \<Longrightarrow> candidate_le lc c d"
  by (rule ranking.find_least)

lemma ranking_unique:
  "mset cs = mset ds \<Longrightarrow>
   (\<And>a b. a \<in> set cs \<Longrightarrow> b \<in> set cs \<Longrightarrow> candidate_le lc a b \<Longrightarrow> candidate_le lc b a \<Longrightarrow> a = b) \<Longrightarrow>
   js_sort (candidate_le lc) cs = js_sort (candidate_le lc) ds"
  by (rule ranking.sort_perm_unique)

end

subsection \<open>Eligibility\<close>

lemma orElse_None [simp]: "orElse x y = None \<longleftrightarrow> x = None \<and> y = None"
  by (cases x) simp_all

lemma missing_label_None:
  "missing_label a w = None \<longleftrightarrow> (\<forall>(key, val) \<in> set (sw_requiredLabels w). map_of (sa_labels a) key = Some val)"
  by (auto simp: missing_label_def find_None_iff)

text \<open>
  An agent is a candidate for a workload exactly when it is online, has the required
  capability and environment (an empty requirement asks for nothing), carries every required label
  with its value, has the required memory where both numbers are known, and is below its workload
  limit where it has one.
\<close>

lemma eligible_iff:
  "eligibilityFailureReason a w = None \<longleftrightarrow>
     sa_status a = Online
   \<and> sw_requiredCapability w \<in> {None, Some ''''} \<union> Some ` set (sa_capabilities a)
   \<and> set (sw_requiredLabels w) \<subseteq> Map.graph (map_of (sa_labels a))
   \<and> sw_requiredEnvironment w \<in> {None, Some '''', sa_environment a}
   \<and> (case (sw_requiredMemoryMb w, sa_availableMemoryMb a) of
        (Some req, Some avail) \<Rightarrow> req \<le> avail | _ \<Rightarrow> True)
   \<and> (case sa_maxWorkloads a of Some m \<Rightarrow> sa_currentWorkloadCount a < m | None \<Rightarrow> True)"
proof -
  have cap: "capability_failure a w = None \<longleftrightarrow>
      sw_requiredCapability w \<in> {None, Some ''''} \<union> Some ` set (sa_capabilities a)"
    by (cases "sw_requiredCapability w" rule: truthy.cases)
      (auto simp: capability_failure_def)
  have env: "environment_failure a w = None \<longleftrightarrow>
      sw_requiredEnvironment w \<in> {None, Some '''', sa_environment a}"
    by (cases "sw_requiredEnvironment w" rule: truthy.cases)
      (auto simp: environment_failure_def)
  have lab: "label_failure a w = None \<longleftrightarrow> set (sw_requiredLabels w) \<subseteq> Map.graph (map_of (sa_labels a))"
    by (auto simp: label_failure_def missing_label_None Map.graph_def)
  have stat: "status_failure a = None \<longleftrightarrow> sa_status a = Online"
    by (simp add: status_failure_def)
  have mem: "memory_failure a w = None \<longleftrightarrow> (case (sw_requiredMemoryMb w, sa_availableMemoryMb a) of
        (Some req, Some avail) \<Rightarrow> req \<le> avail | _ \<Rightarrow> True)"
    by (auto simp: memory_failure_def split: option.split)
  have num: "capacity_failure a = None \<longleftrightarrow>
      (case sa_maxWorkloads a of Some m \<Rightarrow> sa_currentWorkloadCount a < m | None \<Rightarrow> True)"
    by (auto simp: capacity_failure_def split: option.split)
  show ?thesis
    unfolding eligibilityFailureReason_def orElse_None cap env lab stat mem num by simp
qed

subsection \<open>The scores\<close>

lemma total_points_foldl: "foldl (\<lambda>sum entry. sum + se_points entry) s b = s + sum_list (map se_points b)"
  by (induction b arbitrary: s) auto

lemma total_points_append [simp]: "total_points (a @ b) = total_points a + total_points b"
  by (simp add: total_points_def total_points_foldl)

lemma total_points_simps [simp]:
  "total_points [] = 0" "total_points (e # b) = se_points e + total_points b"
  by (simp_all add: total_points_def total_points_foldl)

lemma region_points_range: "0 \<le> total_points (region_points a w) \<and> total_points (region_points a w) \<le> 30"
  by (simp add: region_points_def split: option.split)

lemma preferred_label_points_range:
  "0 \<le> total_points (preferred_label_points a w) \<and>
   total_points (preferred_label_points a w) \<le> 10 * int (length (sw_preferredLabels w))"
proof -
  have "0 \<le> total_points (map (\<lambda>(key, val). \<lparr>se_label = ''preferred label '' @ key @ ''='' @ val @ '' matched'', se_points = 10\<rparr>)
       (filter p ls)) \<and> total_points (map (\<lambda>(key, val). \<lparr>se_label = ''preferred label '' @ key @ ''='' @ val @ '' matched'', se_points = 10\<rparr>)
       (filter p ls)) \<le> 10 * int (length ls)" for p and ls :: entries
    by (induction ls) auto
  then show ?thesis by (simp add: preferred_label_points_def)
qed

lemma share_of_total: "0 \<le> avail \<Longrightarrow> avail \<le> tot \<Longrightarrow> 0 < tot \<Longrightarrow>
    0 \<le> dbl (1 - pressure avail tot) \<and> dbl (1 - pressure avail tot) \<le> 1"
  using ieee.rnd_unit [of "of_int avail / of_int tot"]
    ieee.rnd_unit [of "1 - dbl (of_int avail / of_int tot)"]
    ieee.rnd_unit [of "1 - pressure avail tot"]
  by (simp add: pressure_def)

lemma memory_points_range:
  assumes "\<And>tot avail. sa_totalMemoryMb a = Some tot \<Longrightarrow> sa_availableMemoryMb a = Some avail \<Longrightarrow>
      0 \<le> avail \<and> avail \<le> tot"
  shows "0 \<le> total_points (memory_points a) \<and> total_points (memory_points a) \<le> 20"
proof (cases "sa_totalMemoryMb a")
  case (Some tot)
  show ?thesis
  proof (cases "sa_availableMemoryMb a")
    case (Some avail)
    with \<open>sa_totalMemoryMb a = Some tot\<close> assms [of tot avail] share_of_total [of avail tot]
      ieee.share_points [of "dbl (1 - pressure avail tot)" 20]
    show ?thesis by (simp add: memory_points_def)
  qed (simp add: memory_points_def split: option.split)
qed (simp add: memory_points_def)

lemma spread_points_range:
  assumes "0 \<le> sa_currentWorkloadCount a"
  shows "0 \<le> total_points (spread_points a avg) \<and> total_points (spread_points a avg) \<le> 10"
proof -
  let ?r = "dbl (of_int (sa_currentWorkloadCount a) / avg)"
  have "0 < avg \<Longrightarrow> 0 \<le> ?r" using assms ieee.rnd_mono [of 0] by simp
  then have "0 < avg \<Longrightarrow> max 0 (dbl (1 - ?r)) \<le> 1"
    using ieee.rnd_mono [of "1 - ?r" 1] by simp
  with ieee.share_points [of "max 0 (dbl (1 - ?r))" 10] show ?thesis
    by (simp add: spread_points_def Let_def)
qed

lemma one_bonus_range:
  "0 \<le> total_points (if b then [\<lparr>se_label = l, se_points = 10\<rparr>] else []) \<and>
   total_points (if b then [\<lparr>se_label = l, se_points = 10\<rparr>] else []) \<le> 10"
  "0 \<le> total_points (if b then [] else [\<lparr>se_label = l, se_points = 10\<rparr>]) \<and>
   total_points (if b then [] else [\<lparr>se_label = l, se_points = 10\<rparr>]) \<le> 10"
  by simp_all

lemma failure_points:
  "total_points (if n = 0 then [] else [\<lparr>se_label = l, se_points = - 5 * n\<rparr>]) = - 5 * n"
  by simp

text \<open>
  The score of an eligible agent stays within its scale. With sane numbers (available memory
  within the total, counts not negative) it is at most 80 plus 10 for each preferred label, and it
  is not negative except by 5 points for each recent failure.
\<close>

theorem score_range:
  assumes "\<And>tot avail. sa_totalMemoryMb a = Some tot \<Longrightarrow> sa_availableMemoryMb a = Some avail \<Longrightarrow>
      0 \<le> avail \<and> avail \<le> tot"
    and "0 \<le> sa_currentWorkloadCount a"
    and "sa_recentFailureCount a = Some n" "0 \<le> n"
  shows "- 5 * n \<le> total_points (scoreEligibleAgent a w ps avg)
       \<and> total_points (scoreEligibleAgent a w ps avg) \<le> 80 + 10 * int (length (sw_preferredLabels w))"
proof -
  let ?anti = "if hasCustomerNeighbor a w ps then []
      else [\<lparr>se_label = ''customer anti-affinity (no sibling bot here)'', se_points = 10\<rparr>]"
  let ?stay = "if sw_currentAgentId w = Some (sa_id a)
      then [\<lparr>se_label = ''already running here (avoids an unnecessary move)'', se_points = 10\<rparr>] else []"
  have sum: "total_points (scoreEligibleAgent a w ps avg) =
      total_points (region_points a w) + total_points (preferred_label_points a w)
    + total_points (memory_points a) + total_points (spread_points a avg)
    + total_points ?anti - 5 * n + total_points ?stay"
    by (simp only: scoreEligibleAgent_def total_points_append assms(3) option.case failure_points)
  have "0 \<le> total_points (memory_points a) \<and> total_points (memory_points a) \<le> 20"
    using assms(1) by (rule memory_points_range)
  moreover have "0 \<le> total_points ?anti \<and> total_points ?anti \<le> 10"
    "0 \<le> total_points ?stay \<and> total_points ?stay \<le> 10"
    by (rule one_bonus_range)+
  ultimately show ?thesis
    unfolding sum
    using region_points_range [of a w] preferred_label_points_range [of a w]
      spread_points_range [OF assms(2), of avg] assms(4) by linarith
qed

definition sample_agent :: scheduler_agent where
  "sample_agent = \<lparr>sa_id = ''a1'', sa_name = ''alpha'', sa_status = Online, sa_region = Some ''eu'',
     sa_environment = None, sa_capabilities = [''node''], sa_labels = [(''tier'', ''gold'')],
     sa_totalMemoryMb = Some 1024, sa_availableMemoryMb = Some 512, sa_currentWorkloadCount = 1,
     sa_maxWorkloads = None, sa_recentFailureCount = Some 2\<rparr>"

definition sample_request :: scheduler_workload where
  "sample_request = \<lparr>sw_id = ''w1'', sw_customerId = ''c1'', sw_requiredCapability = Some ''node'',
     sw_requiredMemoryMb = Some 256, sw_requiredEnvironment = None, sw_requiredLabels = [(''tier'', ''gold'')],
     sw_preferredLabels = [], sw_preferredRegion = None, sw_currentAgentId = None\<rparr>"

theorem score_range_witness:
  "- 10 \<le> total_points (scoreEligibleAgent sample_agent sample_request [] 2)
 \<and> total_points (scoreEligibleAgent sample_agent sample_request [] 2) \<le> 80"
  using score_range [of sample_agent 2 sample_request "[]" 2]
  by (simp add: sample_agent_def sample_request_def)

text \<open>
  More free memory never lowers the memory part of the score, rounding included.
\<close>

theorem memory_points_monotone:
  assumes "avail \<le> avail'" "0 < tot"
    and "sa_totalMemoryMb a = Some tot" "sa_availableMemoryMb a = Some avail"
  shows "total_points (memory_points a) \<le> total_points (memory_points (a\<lparr>sa_availableMemoryMb := Some avail'\<rparr>))"
proof -
  have "(of_int avail / of_int tot :: rat) \<le> of_int avail' / of_int tot"
    using assms(1,2) by (simp add: divide_right_mono)
  then have "dbl (1 - pressure avail tot) \<le> dbl (1 - pressure avail' tot)"
    by (simp add: pressure_def dbl_mono)
  from ieee.share_points_mono [OF this, of 20] assms(2-) show ?thesis
    by (simp add: memory_points_def)
qed

theorem memory_points_monotone_witness:
  "total_points (memory_points sample_agent)
     \<le> total_points (memory_points (sample_agent\<lparr>sa_availableMemoryMb := Some 700\<rparr>))"
  using memory_points_monotone [of 512 700 1024 sample_agent] by (simp add: sample_agent_def)

subsection \<open>The winner\<close>

abbreviation agent_score ::
    "scheduler_workload \<Rightarrow> customer_placement list \<Rightarrow> scheduler_agent list \<Rightarrow> scheduler_agent \<Rightarrow> int" where
  "agent_score w ps agents a \<equiv> total_points (scoreEligibleAgent a w ps (averageWorkloadCount agents))"

lemma candidate_fields [simp]:
  "cs_agentId (candidate w ps avg a) = sa_id a"
  "cs_agentName (candidate w ps avg a) = sa_name a"
  "cs_eligible (candidate w ps avg a) \<longleftrightarrow> eligibilityFailureReason a w = None"
  by (simp_all add: candidate_def Let_def split: option.split)

lemma candidate_score_eligible:
  "eligibilityFailureReason a w = None \<Longrightarrow>
   cs_totalScore (candidate w ps avg a) = total_points (scoreEligibleAgent a w ps avg)"
  by (simp add: candidate_def Let_def)

lemma candidate_order_eligible:
  assumes "eligibilityFailureReason a w = None" "eligibilityFailureReason b w = None"
  shows "candidate_le lc (candidate w ps avg a) (candidate w ps avg b) \<longleftrightarrow>
     total_points (scoreEligibleAgent b w ps avg) < total_points (scoreEligibleAgent a w ps avg)
   \<or> total_points (scoreEligibleAgent b w ps avg) = total_points (scoreEligibleAgent a w ps avg)
     \<and> lc (sa_id a) (sa_id b) \<le> 0"
  using assms by (auto simp: candidate_cmp_def candidate_score_eligible)

lemma selected_candidate:
  "pd_selectedAgentId (scheduleWorkload lc w agents ps) =
   map_option cs_agentId (find cs_eligible (js_sort (candidate_le lc)
     (map (candidate w ps (averageWorkloadCount agents)) agents)))"
  by (simp add: scheduleWorkload_def Let_def)

text \<open>
  C9: the agent a decision selects is eligible and no eligible agent beats it: every other one
  has a lower score, or the same score and an id that does not come before the winner's.
\<close>

theorem schedule_selects_best:
  assumes "collation lc" "pd_selectedAgentId (scheduleWorkload lc w agents ps) = Some x"
  shows "\<exists>a\<in>set agents. sa_id a = x \<and> eligibilityFailureReason a w = None \<and>
    (\<forall>b\<in>set agents. eligibilityFailureReason b w = None \<longrightarrow>
       agent_score w ps agents b < agent_score w ps agents a
     \<or> agent_score w ps agents b = agent_score w ps agents a \<and> lc x (sa_id b) \<le> 0)"
proof -
  let ?cand = "candidate w ps (averageWorkloadCount agents)"
  from assms(2) obtain c where
    c: "find cs_eligible (js_sort (candidate_le lc) (map ?cand agents)) = Some c" "cs_agentId c = x"
    by (auto simp: selected_candidate)
  note least = collation.winner_least [OF assms(1) c(1)]
  from findD [OF c(1)] obtain a where a: "a \<in> set agents" "c = ?cand a" "cs_eligible c"
    by auto
  from a c(2) have el: "eligibilityFailureReason a w = None" and x: "sa_id a = x" by simp_all
  have "agent_score w ps agents b < agent_score w ps agents a
     \<or> agent_score w ps agents b = agent_score w ps agents a \<and> lc x (sa_id b) \<le> 0"
    if "b \<in> set agents" "eligibilityFailureReason b w = None" for b
  proof -
    have "candidate_le lc (?cand a) (?cand b)" using least [of "?cand b"] that a(2) by simp
    then show ?thesis using candidate_order_eligible [OF el that(2)] x by simp
  qed
  with a(1) el x show ?thesis by blast
qed

theorem schedule_selects_best_witness:
  "\<exists>a\<in>set [sample_agent]. sa_id a = ''a1'' \<and> eligibilityFailureReason a sample_request = None"
proof -
  have el: "eligibilityFailureReason sample_agent sample_request = None"
    by (simp add: eligible_iff sample_agent_def sample_request_def Map.graph_def)
  have "sa_id sample_agent = ''a1''" by (simp add: sample_agent_def)
  with el have "pd_selectedAgentId (scheduleWorkload code_unit_compare sample_request [sample_agent] []) = Some ''a1''"
    by (simp add: selected_candidate)
  from schedule_selects_best [OF ascii.collation_axioms this] show ?thesis by blast
qed

text \<open>
  A decision selects nobody exactly when no agent is eligible; it never fails in another way
  and never picks an agent that is not eligible.
\<close>

theorem schedule_none_iff:
  "pd_selectedAgentId (scheduleWorkload lc w agents ps) = None \<longleftrightarrow>
   [a \<leftarrow> agents. eligibilityFailureReason a w = None] = []"
  by (auto simp: selected_candidate find_None_iff filter_empty_conv)

lemma average_perm: "mset xs = mset ys \<Longrightarrow> averageWorkloadCount xs = averageWorkloadCount ys"
proof -
  have fold: "foldl (\<lambda>sum a. sum + sa_currentWorkloadCount a) s zs = s + sum_mset (image_mset sa_currentWorkloadCount (mset zs))"
    for s zs by (induction zs arbitrary: s) auto
  assume "mset xs = mset ys"
  then show ?thesis unfolding averageWorkloadCount_def fold by (metis mset_eq_length)
qed

text \<open>
  C17: with distinct agent ids the decision does not depend on the order in which the agents are
  given: ties are broken by the id, never by the position.
\<close>

theorem schedule_order_independent:
  assumes "strict_collation lc" "distinct (map sa_id agents)" "mset agents = mset agents'"
  shows "scheduleWorkload lc w agents ps = scheduleWorkload lc w agents' ps"
proof -
  let ?cand = "candidate w ps (averageWorkloadCount agents)"
  note col = strict_collation.axioms(1) [OF assms(1)]
  have same: "mset (map ?cand agents) = mset (map ?cand agents')"
    using assms(3) by simp
  have "c = d" if "c \<in> set (map ?cand agents)" "d \<in> set (map ?cand agents)"
      "candidate_le lc c d" "candidate_le lc d c" for c d
  proof -
    from that obtain a b where ab: "a \<in> set agents" "c = ?cand a" "b \<in> set agents" "d = ?cand b"
      by auto
    from that(3,4) have "lc (cs_agentId c) (cs_agentId d) \<le> 0" "lc (cs_agentId d) (cs_agentId c) \<le> 0"
      by (auto simp: candidate_cmp_def split: if_splits)
    then have "cs_agentId c = cs_agentId d" by (rule strict_collation.lc_eq [OF assms(1)])
    with ab assms(2) show ?thesis by (auto simp: distinct_map dest: inj_onD)
  qed
  from collation.ranking_unique [OF col same this]
  show ?thesis by (simp add: scheduleWorkload_def Let_def average_perm [OF assms(3)])
qed

theorem schedule_order_independent_witness:
  "scheduleWorkload code_unit_compare sample_request
     [sample_agent, sample_agent\<lparr>sa_id := ''a2''\<rparr>] [] =
   scheduleWorkload code_unit_compare sample_request
     [sample_agent\<lparr>sa_id := ''a2''\<rparr>, sample_agent] []"
  by (rule schedule_order_independent [OF ascii.strict_collation_axioms])
    (simp_all add: sample_agent_def)

end
