(* ===== verification/Store.thy ===== *)
theory Store
  imports Workload_Spec Scheduler
begin

text \<open>
  The control plane's shared state: the database tables of \<open>prisma/schema.prisma\<close> that the agent
  side of the program reads and writes, the BullMQ command queue, the clock and the supply of fresh
  identifiers, with the database operations (\<open>findUnique\<close>, \<open>create\<close>, \<open>update\<close>, \<open>updateMany\<close>) as
  computations on it and the audit log (\<open>lib/audit.ts\<close>) and command queue
  (\<open>lib/queue/agent-command-queue.ts\<close>) built on them.

  A table is the list of its rows; uniqueness of keys is enforced by the operations that create
  rows, as the database does. A date is the integer number of milliseconds of \<open>Date.now()\<close>. The actor of an
  admin action is the user of the session (\<open>lib/require-admin.ts\<close>), so the foreign keys to users are not
  checked. An \<open>Int\<close> column holds 32 bits: values that arrive from outside are checked, the counters
  the program itself increments by one are not.
\<close>

subsection \<open>The platform\<close>

text \<open>
  What the code takes from Node, from zod and from the runtime's collation: identifiers by their
  position in the supply, the hash and the date printer as functions.
\<close>

record platform =
  pf_cuid :: "nat \<Rightarrow> string"
  pf_randomUUID :: "nat \<Rightarrow> string"
  pf_randomToken :: "nat \<Rightarrow> string"
  pf_sha256 :: "string \<Rightarrow> string"
  pf_isoString :: "int \<Rightarrow> string"
  pf_safeParse :: "schema \<Rightarrow> json option \<Rightarrow> issue list + json option"
  pf_localeCompare :: "string \<Rightarrow> string \<Rightarrow> int"

subsection \<open>Rows\<close>

datatype desired_state = DesiredRunning | DesiredStopped

datatype observed_state =
  ObsUnknown | ObsPending | ObsStarting | ObsRunning | ObsStopping | ObsStopped | ObsFailed

datatype command_status = CmdPending | CmdAccepted | CmdSucceeded | CmdFailed

datatype credential_status = CredActive | CredRevoked | CredExpired

record agent_row =
  ag_id :: string
  ag_name :: string
  ag_status :: agent_status
  ag_protocolVersion :: int
  ag_agentVersion :: string
  ag_environment :: "string option"
  ag_region :: "string option"
  ag_labelsJson :: entries
  ag_capabilitiesJson :: "string list"
  ag_hostname :: string
  ag_architecture :: string
  ag_operatingSystem :: string
  ag_totalMemoryMb :: "int option"
  ag_availableMemoryMb :: "int option"
  ag_cpuUsagePercent :: "rat option"
  ag_diskTotalMb :: "int option"
  ag_diskAvailableMb :: "int option"
  ag_lastHeartbeatAt :: "int option"

record workload_row =
  wl_id :: string
  wl_botId :: string
  wl_specificationJson :: json
  wl_specificationVersion :: string
  wl_desiredState :: desired_state
  wl_observedState :: observed_state
  wl_assignedAgentId :: "string option"
  wl_generation :: int
  wl_observedGeneration :: int
  wl_reconcileAttempts :: int
  wl_nextReconcileAttemptAt :: "int option"
  wl_reconciliationSuspendedAt :: "int option"
  wl_lastTransitionAt :: "int option"

record command_row =
  ac_id :: string
  ac_agentId :: string
  ac_workloadId :: "string option"
  ac_commandType :: string
  ac_payloadJson :: json
  ac_status :: command_status
  ac_generation :: "int option"
  ac_idempotencyKey :: string
  ac_createdById :: "string option"
  ac_createdAt :: int
  ac_acceptedAt :: "int option"
  ac_completedAt :: "int option"
  ac_failedAt :: "int option"
  ac_safeError :: "string option"

text \<open>\<open>EnrollmentRestrictions\<close> of \<open>lib/agents/enrollment.ts\<close>, stored as JSON in the token's row.\<close>

record enrollment_restrictions =
  er_environment :: "string option"
  er_requiredLabels :: "entries option"

record token_row =
  tk_id :: string
  tk_tokenHash :: string
  tk_restrictionsJson :: "enrollment_restrictions option"
  tk_expiresAt :: int
  tk_usedAt :: "int option"
  tk_usedByAgentId :: "string option"
  tk_createdById :: "string option"

record credential_row =
  cr_id :: string
  cr_agentId :: string
  cr_fingerprint :: string
  cr_status :: credential_status
  cr_issuedAt :: int
  cr_expiresAt :: "int option"
  cr_revokedAt :: "int option"

record audit_row =
  au_actorUserId :: "string option"
  au_action :: string
  au_targetType :: string
  au_targetId :: string
  au_metadataJson :: "json option"
  au_createdAt :: int

record placement_row =
  pl_workloadId :: string
  pl_selectedAgentId :: "string option"
  pl_candidates :: "candidate_score list"
  pl_reason :: string
  pl_simulation :: bool

text \<open>Of a bot, this part of the program reads the id and the customer.\<close>

record bot_ref =
  br_id :: string
  br_customerId :: string

record command_job =
  jb_agentId :: string
  jb_message :: json

record world =
  w_agents :: "agent_row list"
  w_workloads :: "workload_row list"
  w_commands :: "command_row list"
  w_tokens :: "token_row list"
  w_credentials :: "credential_row list"
  w_audit :: "audit_row list"
  w_placements :: "placement_row list"
  w_bots :: "bot_ref list"
  w_queue :: "command_job list"
  w_now :: int
  w_seq :: nat
  w_redis :: bool

text \<open>
  The exceptions of the calls below: Prisma's P2025, P2002 and P2003, a value out of the range of
  an \<open>Int\<close> column, and the errors the code throws itself.
\<close>

datatype exn =
  RecordNotFound string
| UniqueViolation string
| ForeignKeyViolation string
| IntOutOfRange int
| QueueNotConfigured
| AgentNotFoundError string

type_synonym 'a act = "(world, exn, 'a) run"

subsection \<open>Tables as an interface\<close>

text \<open>
  What a client relies on: reading a table after rewriting it gives the rewritten rows. The facts
  about lookups by key follow once for every table.
\<close>

locale keyed_table =
  fixes key :: "'r \<Rightarrow> string"
    and get :: "'s \<Rightarrow> 'r list"
    and upd :: "('r list \<Rightarrow> 'r list) \<Rightarrow> 's \<Rightarrow> 's"
  assumes get_upd: "get (upd f s) = f (get s)"
begin

lemma find_update_key:
  assumes "\<And>r. key (g r) = key r"
  shows "findBy key k (get (upd (updateWhere (\<lambda>r. key r = k') g) s)) =
    (if k = k' then map_option g (findBy key k (get s)) else findBy key k (get s))"
proof (cases "findBy key k (get s)")
  case None
  then show ?thesis by (auto simp: get_upd findBy_updateWhere [where key = key, OF assms])
next
  case (Some r)
  then have "key r = k" by (rule findBy_key)
  with Some show ?thesis by (auto simp: get_upd findBy_updateWhere [where key = key, OF assms])
qed

lemma keys_update:
  "(\<And>r. key (g r) = key r) \<Longrightarrow> map key (get (upd (updateWhere p g) s)) = map key (get s)"
  by (simp add: get_upd updateWhere_keys)

lemma find_insert:
  "key r \<notin> key ` set (get s) \<Longrightarrow>
   findBy key k (get (upd (\<lambda>rows. rows @ [r]) s)) = (if k = key r then Some r else findBy key k (get s))"
  using findBy_None [of key "key r" "get s"]
  by (cases "k = key r"; cases "findBy key k (get s)") (simp_all add: get_upd findBy_append)

lemma keys_insert: "map key (get (upd (\<lambda>rows. rows @ [r]) s)) = map key (get s) @ [key r]"
  by (simp add: get_upd)

end

interpretation agents: keyed_table ag_id w_agents w_agents_update
  by unfold_locales simp

interpretation workloads: keyed_table wl_id w_workloads w_workloads_update
  by unfold_locales simp

interpretation commands: keyed_table ac_idempotencyKey w_commands w_commands_update
  by unfold_locales simp

interpretation tokens: keyed_table tk_tokenHash w_tokens w_tokens_update
  by unfold_locales simp

interpretation credentials: keyed_table cr_fingerprint w_credentials w_credentials_update
  by unfold_locales simp

subsection \<open>Identifiers and lookups\<close>

definition next_cuid :: "platform \<Rightarrow> string act" where
  "next_cuid pf = (\<lambda>w. (Inr (pf_cuid pf (w_seq w)), w\<lparr>w_seq := Suc (w_seq w)\<rparr>))"

definition randomUUID :: "platform \<Rightarrow> string act" where
  "randomUUID pf = (\<lambda>w. (Inr (pf_randomUUID pf (w_seq w)), w\<lparr>w_seq := Suc (w_seq w)\<rparr>))"

definition generateRandomToken :: "platform \<Rightarrow> string act" where
  "generateRandomToken pf = (\<lambda>w. (Inr (pf_randomToken pf (w_seq w)), w\<lparr>w_seq := Suc (w_seq w)\<rparr>))"

definition hashToken :: "platform \<Rightarrow> string \<Rightarrow> string" where
  "hashToken pf plaintext = pf_sha256 pf plaintext"

definition find_agent :: "string \<Rightarrow> world \<Rightarrow> agent_row option" where
  "find_agent i w = findBy ag_id i (w_agents w)"

definition find_workload :: "string \<Rightarrow> world \<Rightarrow> workload_row option" where
  "find_workload i w = findBy wl_id i (w_workloads w)"

definition find_command :: "string \<Rightarrow> world \<Rightarrow> command_row option" where
  "find_command k w = findBy ac_idempotencyKey k (w_commands w)"

definition set_agents :: "string \<Rightarrow> (agent_row \<Rightarrow> agent_row) \<Rightarrow> world \<Rightarrow> world" where
  "set_agents i g = w_agents_update (updateWhere (\<lambda>r. ag_id r = i) g)"

definition set_workloads :: "string \<Rightarrow> (workload_row \<Rightarrow> workload_row) \<Rightarrow> world \<Rightarrow> world" where
  "set_workloads i g = w_workloads_update (updateWhere (\<lambda>r. wl_id r = i) g)"

definition set_commands :: "string \<Rightarrow> (command_row \<Rightarrow> command_row) \<Rightarrow> world \<Rightarrow> world" where
  "set_commands k g = w_commands_update (updateWhere (\<lambda>r. ac_idempotencyKey r = k) g)"

text \<open>\<open>db.agent.update\<close> and \<open>db.workload.update\<close> throw when there is no such row.\<close>

definition update_agent :: "string \<Rightarrow> (agent_row \<Rightarrow> agent_row) \<Rightarrow> agent_row act" where
  "update_agent i g = andThen (gets (find_agent i)) (\<lambda>r. case r of
     None \<Rightarrow> raise (RecordNotFound ''agent'')
   | Some row \<Rightarrow> andThen (modify (set_agents i g)) (\<lambda>_. ret (g row)))"

definition update_workload :: "string \<Rightarrow> (workload_row \<Rightarrow> workload_row) \<Rightarrow> workload_row act" where
  "update_workload i g = andThen (gets (find_workload i)) (\<lambda>r. case r of
     None \<Rightarrow> raise (RecordNotFound ''workload'')
   | Some row \<Rightarrow> andThen (modify (set_workloads i g)) (\<lambda>_. ret (g row)))"

definition int4 :: "int \<Rightarrow> bool" where
  "int4 x \<longleftrightarrow> - (2 ^ 31) \<le> x \<and> x < 2 ^ 31"

definition int4_opt :: "int option \<Rightarrow> bool" where
  "int4_opt v = (case v of None \<Rightarrow> True | Some x \<Rightarrow> int4 x)"

subsection \<open>Audit log and command queue\<close>

definition writeAuditLog :: "string option \<Rightarrow> string \<Rightarrow> string \<Rightarrow> string \<Rightarrow> json option \<Rightarrow> unit act" where
  "writeAuditLog actor action targetType targetId metadata =
     modify (\<lambda>w. w\<lparr>w_audit := w_audit w @
       [\<lparr>au_actorUserId = actor, au_action = action, au_targetType = targetType, au_targetId = targetId,
         au_metadataJson = metadata, au_createdAt = w_now w\<rparr>]\<rparr>)"

definition AGENT_COMMAND_QUEUE_NAME :: string where
  "AGENT_COMMAND_QUEUE_NAME = ''botfleet-agent-commands''"

text \<open>\<open>getQueue\<close> opens the connection on first use; without \<open>REDIS_URL\<close> every use throws.\<close>

definition enqueueAgentCommand :: "command_job \<Rightarrow> unit act" where
  "enqueueAgentCommand job = andThen (gets w_redis) (\<lambda>redis.
     if redis then modify (\<lambda>w. w\<lparr>w_queue := w_queue w @ [job]\<rparr>) else raise QueueNotConfigured)"

lemmas world_lookups = find_agent_def find_workload_def find_command_def

lemmas world_updates = set_agents_def set_workloads_def set_commands_def

subsection \<open>Reading after writing\<close>

lemma find_set_workloads:
  "(\<And>r. wl_id (g r) = wl_id r) \<Longrightarrow>
   find_workload i (set_workloads j g w) = (if i = j then map_option g (find_workload i w) else find_workload i w)"
  unfolding find_workload_def set_workloads_def by (rule workloads.find_update_key)

lemma find_set_agents:
  "(\<And>r. ag_id (g r) = ag_id r) \<Longrightarrow>
   find_agent i (set_agents j g w) = (if i = j then map_option g (find_agent i w) else find_agent i w)"
  unfolding find_agent_def set_agents_def by (rule agents.find_update_key)

lemma find_set_commands:
  "(\<And>r. ac_idempotencyKey (g r) = ac_idempotencyKey r) \<Longrightarrow>
   find_command i (set_commands j g w) = (if i = j then map_option g (find_command i w) else find_command i w)"
  unfolding find_command_def set_commands_def by (rule commands.find_update_key)

lemma find_workload_id: "find_workload i w = Some r \<Longrightarrow> wl_id r = i"
  unfolding find_workload_def by (rule findBy_key)

lemma find_agent_id: "find_agent i w = Some r \<Longrightarrow> ag_id r = i"
  unfolding find_agent_def by (rule findBy_key)

lemma find_command_key: "find_command i w = Some r \<Longrightarrow> ac_idempotencyKey r = i"
  unfolding find_command_def by (rule findBy_key)

lemma find_workload_in: "find_workload i w = Some r \<Longrightarrow> r \<in> set (w_workloads w)"
  unfolding find_workload_def by (rule findBy_in)

subsection \<open>Evaluation and frame rules of the operations\<close>

lemma andThen_next_cuid [run_simps]:
  "andThen (next_cuid pf) k w = k (pf_cuid pf (w_seq w)) (w\<lparr>w_seq := Suc (w_seq w)\<rparr>)"
  by (simp add: andThen_def next_cuid_def)

lemma andThen_randomUUID [run_simps]:
  "andThen (randomUUID pf) k w = k (pf_randomUUID pf (w_seq w)) (w\<lparr>w_seq := Suc (w_seq w)\<rparr>)"
  by (simp add: andThen_def randomUUID_def)

lemma andThen_generateRandomToken [run_simps]:
  "andThen (generateRandomToken pf) k w = k (pf_randomToken pf (w_seq w)) (w\<lparr>w_seq := Suc (w_seq w)\<rparr>)"
  by (simp add: andThen_def generateRandomToken_def)

lemma andThen_writeAuditLog [run_simps]:
  "andThen (writeAuditLog actor action tt ti md) k w =
     k () (w\<lparr>w_audit := w_audit w @ [\<lparr>au_actorUserId = actor, au_action = action, au_targetType = tt,
        au_targetId = ti, au_metadataJson = md, au_createdAt = w_now w\<rparr>]\<rparr>)"
  by (simp add: writeAuditLog_def run_simps)

lemma writeAuditLog_run [run_simps]:
  "writeAuditLog actor action tt ti md w =
     (Inr (), w\<lparr>w_audit := w_audit w @ [\<lparr>au_actorUserId = actor, au_action = action, au_targetType = tt,
        au_targetId = ti, au_metadataJson = md, au_createdAt = w_now w\<rparr>]\<rparr>)"
  by (simp add: writeAuditLog_def run_simps)

lemma update_workload_run [run_simps]:
  "update_workload i g w = (case find_workload i w of
     None \<Rightarrow> (Inl (RecordNotFound ''workload''), w) | Some row \<Rightarrow> (Inr (g row), set_workloads i g w))"
  by (simp add: update_workload_def run_simps split: option.split)

lemma update_agent_run [run_simps]:
  "update_agent i g w = (case find_agent i w of
     None \<Rightarrow> (Inl (RecordNotFound ''agent''), w) | Some row \<Rightarrow> (Inr (g row), set_agents i g w))"
  by (simp add: update_agent_def run_simps split: option.split)

lemma andThen_update_workload [run_simps]:
  "andThen (update_workload i g) k w = (case find_workload i w of
     None \<Rightarrow> (Inl (RecordNotFound ''workload''), w) | Some row \<Rightarrow> k (g row) (set_workloads i g w))"
  by (simp add: update_workload_def run_simps split: option.split)

lemma andThen_update_agent [run_simps]:
  "andThen (update_agent i g) k w = (case find_agent i w of
     None \<Rightarrow> (Inl (RecordNotFound ''agent''), w) | Some row \<Rightarrow> k (g row) (set_agents i g w))"
  by (simp add: update_agent_def run_simps split: option.split)

text \<open>A property that the supply counter cannot break, and one that the audit log cannot break.\<close>

lemma keeps_next_cuid:
  "(\<And>w. I w \<Longrightarrow> I (w\<lparr>w_seq := Suc (w_seq w)\<rparr>)) \<Longrightarrow> keeps I (next_cuid pf)"
  by (simp add: keeps_def next_cuid_def)

lemma keeps_randomUUID:
  "(\<And>w. I w \<Longrightarrow> I (w\<lparr>w_seq := Suc (w_seq w)\<rparr>)) \<Longrightarrow> keeps I (randomUUID pf)"
  by (simp add: keeps_def randomUUID_def)

lemma keeps_writeAuditLog:
  "(\<And>w row. I w \<Longrightarrow> I (w\<lparr>w_audit := w_audit w @ [row]\<rparr>)) \<Longrightarrow> keeps I (writeAuditLog a b c d e)"
  by (simp add: keeps_def writeAuditLog_def modify_def)

lemma keeps_enqueue:
  "(\<And>w. I w \<Longrightarrow> I (w\<lparr>w_queue := w_queue w @ [job]\<rparr>)) \<Longrightarrow> keeps I (enqueueAgentCommand job)"
  by (simp add: keeps_def enqueueAgentCommand_def run_simps)

lemma keeps_update_workload:
  "(\<And>w row. I w \<Longrightarrow> find_workload i w = Some row \<Longrightarrow> I (set_workloads i g w)) \<Longrightarrow> keeps I (update_workload i g)"
  by (simp add: keeps_def run_simps split: option.split)

lemma keeps_update_agent:
  "(\<And>w row. I w \<Longrightarrow> find_agent i w = Some row \<Longrightarrow> I (set_agents i g w)) \<Longrightarrow> keeps I (update_agent i g)"
  by (simp add: keeps_def run_simps split: option.split)

lemma set_workloads_frame [simp]:
  "w_agents (set_workloads i g w) = w_agents w" "w_commands (set_workloads i g w) = w_commands w"
  "w_tokens (set_workloads i g w) = w_tokens w" "w_credentials (set_workloads i g w) = w_credentials w"
  "w_audit (set_workloads i g w) = w_audit w" "w_queue (set_workloads i g w) = w_queue w"
  "w_bots (set_workloads i g w) = w_bots w" "w_now (set_workloads i g w) = w_now w"
  "w_seq (set_workloads i g w) = w_seq w" "w_redis (set_workloads i g w) = w_redis w"
  "w_placements (set_workloads i g w) = w_placements w"
  by (simp_all add: set_workloads_def)

lemma set_agents_frame [simp]:
  "w_workloads (set_agents i g w) = w_workloads w" "w_commands (set_agents i g w) = w_commands w"
  "w_tokens (set_agents i g w) = w_tokens w" "w_credentials (set_agents i g w) = w_credentials w"
  "w_audit (set_agents i g w) = w_audit w" "w_queue (set_agents i g w) = w_queue w"
  "w_bots (set_agents i g w) = w_bots w" "w_now (set_agents i g w) = w_now w"
  "w_seq (set_agents i g w) = w_seq w" "w_redis (set_agents i g w) = w_redis w"
  "w_placements (set_agents i g w) = w_placements w"
  by (simp_all add: set_agents_def)

lemma set_commands_frame [simp]:
  "w_workloads (set_commands i g w) = w_workloads w" "w_agents (set_commands i g w) = w_agents w"
  "w_tokens (set_commands i g w) = w_tokens w" "w_credentials (set_commands i g w) = w_credentials w"
  "w_audit (set_commands i g w) = w_audit w" "w_queue (set_commands i g w) = w_queue w"
  "w_bots (set_commands i g w) = w_bots w" "w_now (set_commands i g w) = w_now w"
  "w_seq (set_commands i g w) = w_seq w" "w_redis (set_commands i g w) = w_redis w"
  "w_placements (set_commands i g w) = w_placements w"
  by (simp_all add: set_commands_def)

text \<open>A lookup reads one table only.\<close>

lemma find_workload_cong: "w_workloads w = w_workloads w' \<Longrightarrow> find_workload i w = find_workload i w'"
  by (simp add: find_workload_def)

lemma find_frame [simp]:
  "find_workload i (w\<lparr>w_seq := n\<rparr>) = find_workload i w" "find_agent i (w\<lparr>w_seq := n\<rparr>) = find_agent i w"
  "find_command i (w\<lparr>w_seq := n\<rparr>) = find_command i w"
  "find_workload i (w\<lparr>w_commands := c\<rparr>) = find_workload i w" "find_agent i (w\<lparr>w_commands := c\<rparr>) = find_agent i w"
  "find_workload i (w\<lparr>w_queue := q\<rparr>) = find_workload i w" "find_agent i (w\<lparr>w_queue := q\<rparr>) = find_agent i w"
  "find_command i (w\<lparr>w_queue := q\<rparr>) = find_command i w"
  "find_workload i (w\<lparr>w_audit := a\<rparr>) = find_workload i w" "find_agent i (w\<lparr>w_audit := a\<rparr>) = find_agent i w"
  "find_command i (w\<lparr>w_audit := a\<rparr>) = find_command i w"
  "find_workload i (w\<lparr>w_redis := b\<rparr>) = find_workload i w" "find_agent i (w\<lparr>w_redis := b\<rparr>) = find_agent i w"
  "find_command i (w\<lparr>w_redis := b\<rparr>) = find_command i w"
  "find_workload i (w\<lparr>w_now := t\<rparr>) = find_workload i w" "find_agent i (w\<lparr>w_now := t\<rparr>) = find_agent i w"
  "find_command i (w\<lparr>w_now := t\<rparr>) = find_command i w"
  "find_agent i (set_workloads j g w) = find_agent i w" "find_command i (set_workloads j g w) = find_command i w"
  "find_workload i (set_agents j h w) = find_workload i w" "find_command i (set_agents j h w) = find_command i w"
  "find_workload i (set_commands j k w) = find_workload i w" "find_agent i (set_commands j k w) = find_agent i w"
  by (simp_all add: world_lookups)

end
