(* ===== verification/Workloads.thy ===== *)
theory Workloads
  imports Store
begin

text \<open>
  \<open>lib/workloads.ts\<close>: creating a workload, recording and enqueueing a command, assigning a workload
  to an agent, start, stop and restart, and the fencing stop. Every function is a computation on the
  control plane's state: what it wrote before an exception stays written.
\<close>

subsection \<open>Commands\<close>

definition control_plane_sender :: envelope_fields where
  "control_plane_sender = \<lparr>ef_senderId = ''control-plane'', ef_correlationId = None\<rparr>"

text \<open>\<open>createControlPlaneToAgentMessage(\<dots>, { senderId: "control-plane" })\<close>.\<close>

definition control_message :: "platform \<Rightarrow> string \<Rightarrow> (string \<times> json) list \<Rightarrow> json act" where
  "control_message pf t payload = andThen (randomUUID pf) (\<lambda>messageId. andThen (gets w_now) (\<lambda>now.
     ret (JObj (createControlPlaneToAgentMessage messageId (pf_isoString pf now) t (JObj payload)
       control_plane_sender))))"

definition command_payload :: "string \<Rightarrow> string \<Rightarrow> int \<Rightarrow> string \<Rightarrow> (string \<times> json) list" where
  "command_payload workloadId botId generation key =
     [(''workloadId'', JStr workloadId), (''botId'', JStr botId), (''generation'', JNum (of_int generation)),
      (''idempotencyKey'', JStr key)]"

definition update_payload :: "string \<Rightarrow> string \<Rightarrow> int \<Rightarrow> json \<Rightarrow> string \<Rightarrow> (string \<times> json) list" where
  "update_payload workloadId botId generation specification key =
     [(''workloadId'', JStr workloadId), (''botId'', JStr botId), (''generation'', JNum (of_int generation)),
      (''specification'', specification), (''idempotencyKey'', JStr key)]"

record command_params =
  pa_agentId :: string
  pa_workloadId :: "string option"
  pa_commandType :: string
  pa_payloadJson :: json
  pa_message :: json
  pa_actorUserId :: "string option"
  pa_idempotencyKey :: string
  pa_generation :: "int option"

definition new_command :: "command_params \<Rightarrow> string \<Rightarrow> int \<Rightarrow> command_row" where
  "new_command p i now =
     \<lparr>ac_id = i, ac_agentId = pa_agentId p, ac_workloadId = pa_workloadId p,
      ac_commandType = pa_commandType p, ac_payloadJson = pa_payloadJson p, ac_status = CmdPending,
      ac_generation = pa_generation p, ac_idempotencyKey = pa_idempotencyKey p,
      ac_createdById = pa_actorUserId p, ac_createdAt = now, ac_acceptedAt = None,
      ac_completedAt = None, ac_failedAt = None, ac_safeError = None\<rparr>"

text \<open>\<open>db.agentCommand.create\<close>: the unique key, the foreign keys and the column range are checked.\<close>

definition create_command :: "platform \<Rightarrow> command_params \<Rightarrow> unit act" where
  "create_command pf p = andThen (next_cuid pf) (\<lambda>i. andThen (gets id) (\<lambda>w.
     if \<not> int4_opt (pa_generation p) then raise (IntOutOfRange (case pa_generation p of Some g \<Rightarrow> g | None \<Rightarrow> 0))
     else if find_command (pa_idempotencyKey p) w \<noteq> None then raise (UniqueViolation ''idempotency_key'')
     else if find_agent (pa_agentId p) w = None then raise (ForeignKeyViolation ''agent_id'')
     else if (case pa_workloadId p of None \<Rightarrow> False | Some wid \<Rightarrow> find_workload wid w = None)
       then raise (ForeignKeyViolation ''workload_id'')
     else modify (\<lambda>w. w\<lparr>w_commands := w_commands w @ [new_command p i (w_now w)]\<rparr>)))"

definition recordAndEnqueueCommand :: "platform \<Rightarrow> command_params \<Rightarrow> unit act" where
  "recordAndEnqueueCommand pf p = andThen (create_command pf p) (\<lambda>_.
     enqueueAgentCommand \<lparr>jb_agentId = pa_agentId p, jb_message = pa_message p\<rparr>)"

subsection \<open>Creating and assigning\<close>

datatype create_result = Created string | CreateIssues "string list"

datatype result = Done | Refused string

definition json_opt :: "string option \<Rightarrow> json" where
  "json_opt v = (case v of None \<Rightarrow> JNull | Some s \<Rightarrow> JStr s)"

definition new_workload :: "string \<Rightarrow> string \<Rightarrow> json \<Rightarrow> workload_row" where
  "new_workload i botId spec =
     \<lparr>wl_id = i, wl_botId = botId, wl_specificationJson = spec,
      wl_specificationVersion = WORKLOAD_SPEC_API_VERSION, wl_desiredState = DesiredStopped,
      wl_observedState = ObsUnknown, wl_assignedAgentId = None, wl_generation = 1,
      wl_observedGeneration = 0, wl_reconcileAttempts = 0, wl_nextReconcileAttemptAt = None,
      wl_reconciliationSuspendedAt = None, wl_lastTransitionAt = None\<rparr>"

definition createWorkload :: "platform \<Rightarrow> string \<Rightarrow> json \<Rightarrow> string \<Rightarrow> create_result act" where
  "createWorkload pf botId rawSpec actorUserId =
     (case parseWorkloadSpec (pf_safeParse pf) rawSpec of
        SpecIssues issues \<Rightarrow> ret (CreateIssues issues)
      | SpecOk spec \<Rightarrow> andThen (next_cuid pf) (\<lambda>i. andThen (gets id) (\<lambda>w.
          if botId \<in> wl_botId ` set (w_workloads w) then raise (UniqueViolation ''bot_id'')
          else if botId \<notin> br_id ` set (w_bots w) then raise (ForeignKeyViolation ''bot_id'')
          else andThen (modify (\<lambda>w. w\<lparr>w_workloads := w_workloads w @ [new_workload i botId spec]\<rparr>)) (\<lambda>_.
               andThen (writeAuditLog (Some actorUserId) ''workload.create'' ''workload'' i
                 (Some (JObj [(''botId'', JStr botId),
                    (''specName'', case propOf ''name'' (propOf ''metadata'' (Some spec)) of Some v \<Rightarrow> v | None \<Rightarrow> JNull)])))
               (\<lambda>_. ret (Created i))))))"

definition assign_row :: "string \<Rightarrow> workload_row \<Rightarrow> workload_row" where
  "assign_row agentId r = r\<lparr>wl_assignedAgentId := Some agentId, wl_generation := wl_generation r + 1\<rparr>"

definition assignWorkloadToAgent :: "platform \<Rightarrow> string \<Rightarrow> string \<Rightarrow> string \<Rightarrow> result act" where
  "assignWorkloadToAgent pf workloadId agentId actorUserId =
     andThen (gets (find_workload workloadId)) (\<lambda>found. case found of
       None \<Rightarrow> ret (Refused ''workload not found'')
     | Some workload \<Rightarrow> andThen (gets (find_agent agentId)) (\<lambda>agent. case agent of
       None \<Rightarrow> ret (Refused ''agent not found'')
     | Some _ \<Rightarrow>
         andThen (update_workload workloadId (assign_row agentId)) (\<lambda>updated.
         andThen (randomUUID pf) (\<lambda>idempotencyKey.
         let payload = update_payload workloadId (wl_botId workload) (wl_generation updated)
               (wl_specificationJson workload) idempotencyKey in
         andThen (control_message pf ''bot.update'' payload) (\<lambda>message.
         andThen (recordAndEnqueueCommand pf
           \<lparr>pa_agentId = agentId, pa_workloadId = Some workloadId, pa_commandType = ''bot.update'',
            pa_payloadJson = JObj payload, pa_message = message, pa_actorUserId = Some actorUserId,
            pa_idempotencyKey = idempotencyKey, pa_generation = Some (wl_generation updated)\<rparr>) (\<lambda>_.
         andThen (writeAuditLog (Some actorUserId) ''workload.assign'' ''workload'' workloadId
           (Some (JObj [(''agentId'', JStr agentId), (''previousAgentId'', json_opt (wl_assignedAgentId workload)),
                        (''generation'', JNum (of_int (wl_generation updated)))]))) (\<lambda>_.
         ret Done)))))))"

subsection \<open>Start, stop, restart\<close>

datatype command_type = CtStart | CtStop | CtRestart

fun command_name :: "command_type \<Rightarrow> string" where
  "command_name CtStart = ''start''"
| "command_name CtStop = ''stop''"
| "command_name CtRestart = ''restart''"

fun message_type :: "command_type \<Rightarrow> string" where
  "message_type CtStart = ''bot.start''"
| "message_type CtStop = ''bot.stop''"
| "message_type CtRestart = ''bot.restart''"

fun desired_after :: "command_type \<Rightarrow> desired_state" where
  "desired_after CtStop = DesiredStopped"
| "desired_after _ = DesiredRunning"

definition sendWorkloadCommand :: "platform \<Rightarrow> string \<Rightarrow> command_type \<Rightarrow> string option \<Rightarrow> result act" where
  "sendWorkloadCommand pf workloadId commandType actorUserId =
     andThen (gets (find_workload workloadId)) (\<lambda>found. case found of
       None \<Rightarrow> ret (Refused ''workload not found'')
     | Some workload \<Rightarrow> (case truthy (wl_assignedAgentId workload) of
       None \<Rightarrow> ret (Refused ''workload has no assigned agent'')
     | Some agentId \<Rightarrow>
         andThen (randomUUID pf) (\<lambda>idempotencyKey.
         let payload = command_payload workloadId (wl_botId workload) (wl_generation workload) idempotencyKey in
         andThen (control_message pf (message_type commandType) payload) (\<lambda>message.
         andThen (recordAndEnqueueCommand pf
           \<lparr>pa_agentId = agentId, pa_workloadId = Some workloadId, pa_commandType = message_type commandType,
            pa_payloadJson = JObj payload, pa_message = message, pa_actorUserId = actorUserId,
            pa_idempotencyKey = idempotencyKey, pa_generation = Some (wl_generation workload)\<rparr>) (\<lambda>_.
         andThen (update_workload workloadId (\<lambda>r. r\<lparr>wl_desiredState := desired_after commandType\<rparr>)) (\<lambda>_.
         andThen (writeAuditLog actorUserId (''workload.'' @ command_name commandType) ''workload'' workloadId
           (Some (JObj [(''agentId'', JStr agentId)]))) (\<lambda>_.
         ret Done)))))))"

subsection \<open>The fencing stop\<close>

definition fenceStaleAgent :: "platform \<Rightarrow> string \<Rightarrow> string \<Rightarrow> string \<Rightarrow> int \<Rightarrow> unit act" where
  "fenceStaleAgent pf staleAgentId workloadId botId staleGeneration =
     andThen (randomUUID pf) (\<lambda>idempotencyKey.
     let payload = command_payload workloadId botId staleGeneration idempotencyKey in
     andThen (control_message pf ''bot.stop'' payload) (\<lambda>message.
     andThen (recordAndEnqueueCommand pf
       \<lparr>pa_agentId = staleAgentId, pa_workloadId = Some workloadId, pa_commandType = ''bot.stop'',
        pa_payloadJson = JObj payload, pa_message = message, pa_actorUserId = None,
        pa_idempotencyKey = idempotencyKey, pa_generation = Some staleGeneration\<rparr>) (\<lambda>_.
     writeAuditLog None ''workload.fence_stop'' ''workload'' workloadId
       (Some (JObj [(''staleAgentId'', JStr staleAgentId), (''staleGeneration'', JNum (of_int staleGeneration)),
          (''reason'', JStr ''agent reported running a workload no longer assigned to it'')])))))"

subsection \<open>What recording and enqueueing does\<close>

definition can_issue :: "command_params \<Rightarrow> world \<Rightarrow> bool" where
  "can_issue p w \<longleftrightarrow> int4_opt (pa_generation p) \<and> find_command (pa_idempotencyKey p) w = None
     \<and> find_agent (pa_agentId p) w \<noteq> None
     \<and> (case pa_workloadId p of None \<Rightarrow> True | Some wid \<Rightarrow> find_workload wid w \<noteq> None)"

definition with_command :: "platform \<Rightarrow> command_params \<Rightarrow> world \<Rightarrow> world" where
  "with_command pf p w = w\<lparr>w_seq := Suc (w_seq w),
     w_commands := w_commands w @ [new_command p (pf_cuid pf (w_seq w)) (w_now w)]\<rparr>"

definition with_job :: "command_params \<Rightarrow> world \<Rightarrow> world" where
  "with_job p w = w\<lparr>w_queue := w_queue w @ [\<lparr>jb_agentId = pa_agentId p, jb_message = pa_message p\<rparr>]\<rparr>"

lemma create_command_ok: "can_issue p w \<Longrightarrow> create_command pf p w = (Inr (), with_command pf p w)"
  by (auto simp: create_command_def run_simps can_issue_def with_command_def split: option.splits)

lemma create_command_refused:
  "\<not> can_issue p w \<Longrightarrow> \<exists>e. create_command pf p w = (Inl e, w\<lparr>w_seq := Suc (w_seq w)\<rparr>)"
  by (auto simp: create_command_def run_simps can_issue_def split: option.splits)

lemma enqueue_run [run_simps]:
  "enqueueAgentCommand job w =
     (if w_redis w then (Inr (), w\<lparr>w_queue := w_queue w @ [job]\<rparr>) else (Inl QueueNotConfigured, w))"
  by (simp add: enqueueAgentCommand_def run_simps)

lemma record_ok:
  "can_issue p w \<Longrightarrow> w_redis w \<Longrightarrow>
   recordAndEnqueueCommand pf p w = (Inr (), with_job p (with_command pf p w))"
  by (simp add: recordAndEnqueueCommand_def andThen_Inr [OF create_command_ok] run_simps
      with_job_def with_command_def)

lemma record_no_queue:
  "can_issue p w \<Longrightarrow> \<not> w_redis w \<Longrightarrow>
   recordAndEnqueueCommand pf p w = (Inl QueueNotConfigured, with_command pf p w)"
  by (simp add: recordAndEnqueueCommand_def andThen_Inr [OF create_command_ok] run_simps with_command_def)

lemma record_refused:
  assumes "\<not> can_issue p w"
  shows "\<exists>e. recordAndEnqueueCommand pf p w = (Inl e, w\<lparr>w_seq := Suc (w_seq w)\<rparr>)"
  using create_command_refused [OF assms, of pf]
  by (auto simp: recordAndEnqueueCommand_def andThen_Inl)

lemma record_world:
  "snd (recordAndEnqueueCommand pf p w) = (if can_issue p w
     then (if w_redis w then with_job p (with_command pf p w) else with_command pf p w)
     else w\<lparr>w_seq := Suc (w_seq w)\<rparr>)"
  using record_ok [of p w pf] record_no_queue [of p w pf] record_refused [of p w pf] by auto

text \<open>Recording touches commands, queue and counter only.\<close>

lemma with_command_frame [simp]:
  "w_workloads (with_command pf p w) = w_workloads w" "w_agents (with_command pf p w) = w_agents w"
  "w_queue (with_command pf p w) = w_queue w" "w_audit (with_command pf p w) = w_audit w"
  "w_now (with_command pf p w) = w_now w" "w_redis (with_command pf p w) = w_redis w"
  "w_seq (with_command pf p w) = Suc (w_seq w)"
  "w_commands (with_command pf p w) = w_commands w @ [new_command p (pf_cuid pf (w_seq w)) (w_now w)]"
  "w_tokens (with_command pf p w) = w_tokens w" "w_credentials (with_command pf p w) = w_credentials w"
  "w_bots (with_command pf p w) = w_bots w"
  by (simp_all add: with_command_def)

lemma with_job_frame [simp]:
  "w_workloads (with_job p w) = w_workloads w" "w_agents (with_job p w) = w_agents w"
  "w_commands (with_job p w) = w_commands w" "w_audit (with_job p w) = w_audit w"
  "w_now (with_job p w) = w_now w" "w_redis (with_job p w) = w_redis w" "w_seq (with_job p w) = w_seq w"
  "w_queue (with_job p w) = w_queue w @ [\<lparr>jb_agentId = pa_agentId p, jb_message = pa_message p\<rparr>]"
  "w_tokens (with_job p w) = w_tokens w" "w_credentials (with_job p w) = w_credentials w"
  "w_bots (with_job p w) = w_bots w"
  by (simp_all add: with_job_def)

lemma find_with_command [simp]:
  "find_workload i (with_command pf p w) = find_workload i w" "find_agent i (with_command pf p w) = find_agent i w"
  "find_workload i (with_job p w) = find_workload i w" "find_agent i (with_job p w) = find_agent i w"
  by (simp_all add: world_lookups)

lemma keeps_record:
  assumes seq: "\<And>w. I w \<Longrightarrow> I (w\<lparr>w_seq := Suc (w_seq w)\<rparr>)"
    and command: "\<And>w. I w \<Longrightarrow> can_issue p w \<Longrightarrow> I (with_command pf p w)"
    and job: "\<And>w. I w \<Longrightarrow> I (with_job p w)"
  shows "keeps I (recordAndEnqueueCommand pf p)"
  by (rule keepsI) (simp add: record_world seq command job)

lemma control_message_andThen [run_simps]:
  "andThen (control_message pf t payload) k w =
     k (JObj (createControlPlaneToAgentMessage (pf_randomUUID pf (w_seq w)) (pf_isoString pf (w_now w)) t
          (JObj payload) control_plane_sender)) (w\<lparr>w_seq := Suc (w_seq w)\<rparr>)"
  by (simp add: control_message_def run_simps)

lemma control_message_run [run_simps]:
  "control_message pf t payload w =
     (Inr (JObj (createControlPlaneToAgentMessage (pf_randomUUID pf (w_seq w)) (pf_isoString pf (w_now w)) t
          (JObj payload) control_plane_sender)), w\<lparr>w_seq := Suc (w_seq w)\<rparr>)"
  by (simp add: control_message_def run_simps)

subsection \<open>Which workload rows an operation may change\<close>

lemma keeps_workloads_simple [keeps_intros]:
  "keeps (\<lambda>w. w_workloads w = W) (randomUUID pf)" "keeps (\<lambda>w. w_workloads w = W) (next_cuid pf)"
  "keeps (\<lambda>w. w_workloads w = W) (writeAuditLog a b c d e)"
  "keeps (\<lambda>w. w_workloads w = W) (recordAndEnqueueCommand pf p)"
  by (rule keeps_randomUUID keeps_next_cuid keeps_writeAuditLog keeps_record; simp)+

lemma keeps_workloads_message [keeps_intros]: "keeps (\<lambda>w. w_workloads w = W) (control_message pf t payload)"
  unfolding control_message_def by (intro keeps_intros)

lemma fence_keeps_workloads: "keeps (\<lambda>w. w_workloads w = W) (fenceStaleAgent pf a wid b g)"
  unfolding fenceStaleAgent_def Let_def by (intro keeps_intros)

subsection \<open>The effect of each operation\<close>

lemma andThen_record_ok:
  "can_issue p w \<Longrightarrow> w_redis w \<Longrightarrow>
   andThen (recordAndEnqueueCommand pf p) k w = k () (with_job p (with_command pf p w))"
  by (simp add: andThen_Inr [OF record_ok])

lemma andThen_record_fails:
  assumes "\<not> (can_issue p w \<and> w_redis w)"
  shows "\<exists>e. andThen (recordAndEnqueueCommand pf p) k w = (Inl e, snd (recordAndEnqueueCommand pf p w))"
proof (cases "can_issue p w")
  case True
  with assms have "recordAndEnqueueCommand pf p w = (Inl QueueNotConfigured, with_command pf p w)"
    by (simp add: record_no_queue)
  then show ?thesis by (simp add: andThen_def)
next
  case False
  from record_refused [OF this, of pf] show ?thesis by (auto simp: andThen_def)
qed

fun payload_of :: "json \<Rightarrow> json option" where
  "payload_of (JObj m) = map_of m ''payload''"
| "payload_of _ = None"

fun type_of :: "json \<Rightarrow> json option" where
  "type_of (JObj m) = map_of m ''type''"
| "type_of _ = None"

lemma created_payload [simp]:
  "payload_of (JObj (createControlPlaneToAgentMessage u ts t (JObj p) e)) = Some (JObj p)"
  "type_of (JObj (createControlPlaneToAgentMessage u ts t (JObj p) e)) = Some (JStr t)"
  by (simp_all add: createControlPlaneToAgentMessage_def created_fields)

declare payload_of.simps [simp del] type_of.simps [simp del]

text \<open>
  \<open>issues w w' agentId workloadId commandType payload generation actor\<close>: between the two states
  exactly one command was recorded, pending, and exactly one job was enqueued, for the same agent
  and carrying the same payload.
\<close>

definition issues ::
    "world \<Rightarrow> world \<Rightarrow> string \<Rightarrow> string \<Rightarrow> string \<Rightarrow> (string \<times> json) list \<Rightarrow> int \<Rightarrow> string option \<Rightarrow> bool" where
  "issues w w' agentId workloadId commandType payload generation actor \<longleftrightarrow>
     (\<exists>cmd job. w_commands w' = w_commands w @ [cmd] \<and> w_queue w' = w_queue w @ [job]
        \<and> ac_agentId cmd = agentId \<and> ac_workloadId cmd = Some workloadId
        \<and> ac_commandType cmd = commandType \<and> ac_status cmd = CmdPending
        \<and> ac_payloadJson cmd = JObj payload \<and> ac_generation cmd = Some generation
        \<and> ac_createdById cmd = actor \<and> map_of payload ''idempotencyKey'' = Some (JStr (ac_idempotencyKey cmd))
        \<and> jb_agentId job = agentId \<and> type_of (jb_message job) = Some (JStr commandType)
        \<and> payload_of (jb_message job) = Some (JObj payload))"

abbreviation uuid_unused :: "platform \<Rightarrow> world \<Rightarrow> bool" where
  "uuid_unused pf w \<equiv> find_command (pf_randomUUID pf (w_seq w)) w = None"

text \<open>
  Assigning a workload answers on every branch as the code says: an unknown workload or agent
  is refused with nothing written; otherwise the workload's row gets the new agent and a generation
  one higher and keeps everything else (the desired and the observed state included), no other
  workload changes, and exactly one \<open>bot.update\<close> command with the stored specification, the new
  generation and a fresh idempotency key is recorded and enqueued for the new agent.
\<close>
theorem assign_effect:
  assumes "w_redis w" "uuid_unused pf w"
    and "\<And>r. find_workload wid w = Some r \<Longrightarrow> int4 (wl_generation r + 1)"
  shows "case find_workload wid w of
     None \<Rightarrow> assignWorkloadToAgent pf wid aid actor w = (Inr (Refused ''workload not found''), w)
   | Some r \<Rightarrow> (case find_agent aid w of
       None \<Rightarrow> assignWorkloadToAgent pf wid aid actor w = (Inr (Refused ''agent not found''), w)
     | Some a \<Rightarrow> \<exists>w'. assignWorkloadToAgent pf wid aid actor w = (Inr Done, w')
         \<and> w_workloads w' = updateWhere (\<lambda>x. wl_id x = wid) (assign_row aid) (w_workloads w)
         \<and> w_agents w' = w_agents w
         \<and> issues w w' aid wid ''bot.update''
             (update_payload wid (wl_botId r) (wl_generation r + 1) (wl_specificationJson r)
                (pf_randomUUID pf (w_seq w))) (wl_generation r + 1) (Some actor))"
proof (cases "find_workload wid w")
  case None
  then show ?thesis by (simp add: assignWorkloadToAgent_def run_simps)
next
  case r: (Some r)
  show ?thesis
  proof (cases "find_agent aid w")
    case None
    with r show ?thesis by (simp add: assignWorkloadToAgent_def run_simps)
  next
    case a: (Some a)
    have found: "find_workload wid (set_workloads wid (assign_row aid) w) = Some (assign_row aid r)"
      using r by (simp add: find_set_workloads assign_row_def)
    show ?thesis
      using r a assms found
      by (simp add: assignWorkloadToAgent_def Let_def run_simps andThen_record_ok can_issue_def int4_opt_def
          assign_row_def [of aid r] issues_def new_command_def update_payload_def)
        (simp add: set_workloads_def)
  qed
qed

text \<open>
  The foreign key and the column type of the database: the agent of an assigned workload exists and
  its generation is a 32-bit number.
\<close>

definition owner_ok :: "string \<Rightarrow> world \<Rightarrow> bool" where
  "owner_ok wid w \<longleftrightarrow> (case find_workload wid w of
     None \<Rightarrow> True
   | Some r \<Rightarrow> (case truthy (wl_assignedAgentId r) of
       None \<Rightarrow> True
     | Some a \<Rightarrow> find_agent a w \<noteq> None \<and> int4 (wl_generation r)))"

text \<open>
  Start, stop and restart: refused without any write when the workload does not exist or has
  no agent; otherwise one command of the matching type is recorded and enqueued for the agent that
  owns the workload, with the workload's current generation, the desired state becomes the one the
  command asks for, and nothing else of any workload changes.
\<close>
theorem send_effect:
  assumes "w_redis w" "uuid_unused pf w" "owner_ok wid w"
  shows "case find_workload wid w of
     None \<Rightarrow> sendWorkloadCommand pf wid ct actor w = (Inr (Refused ''workload not found''), w)
   | Some r \<Rightarrow> (case truthy (wl_assignedAgentId r) of
       None \<Rightarrow> sendWorkloadCommand pf wid ct actor w = (Inr (Refused ''workload has no assigned agent''), w)
     | Some a \<Rightarrow> \<exists>w'. sendWorkloadCommand pf wid ct actor w = (Inr Done, w')
         \<and> w_workloads w' = updateWhere (\<lambda>x. wl_id x = wid)
             (\<lambda>r. r\<lparr>wl_desiredState := desired_after ct\<rparr>) (w_workloads w)
         \<and> w_agents w' = w_agents w
         \<and> issues w w' a wid (message_type ct)
             (command_payload wid (wl_botId r) (wl_generation r) (pf_randomUUID pf (w_seq w)))
             (wl_generation r) actor)"
proof (cases "find_workload wid w")
  case None
  then show ?thesis by (simp add: sendWorkloadCommand_def run_simps)
next
  case r: (Some r)
  show ?thesis
  proof (cases "truthy (wl_assignedAgentId r)")
    case None
    with r show ?thesis by (simp add: sendWorkloadCommand_def run_simps)
  next
    case a: (Some a)
    show ?thesis
      using r a assms
      by (simp add: owner_ok_def sendWorkloadCommand_def Let_def run_simps andThen_record_ok can_issue_def int4_opt_def
          issues_def new_command_def command_payload_def)
        (simp add: set_workloads_def)
  qed
qed

lemma fence_effect:
  assumes "w_redis w" "uuid_unused pf w" "find_agent a w \<noteq> None" "find_workload wid w \<noteq> None" "int4 g"
  shows "\<exists>w'. fenceStaleAgent pf a wid b g w = (Inr (), w')
     \<and> w_workloads w' = w_workloads w \<and> w_agents w' = w_agents w \<and> w_redis w' = w_redis w
     \<and> w_seq w' = Suc (Suc (Suc (w_seq w)))
     \<and> issues w w' a wid ''bot.stop'' (command_payload wid b g (pf_randomUUID pf (w_seq w))) g None"
  using assms
  by (simp add: fenceStaleAgent_def Let_def run_simps andThen_record_ok can_issue_def int4_opt_def
      issues_def new_command_def command_payload_def)

text \<open>
  A queue that is not configured: the command's row is written before the enqueueing throws, so the
  command stays pending although nothing will ever deliver it, and the desired state is not updated.
\<close>

lemma send_without_queue:
  assumes "\<not> w_redis w" "uuid_unused pf w" "find_workload wid w = Some r"
    and "truthy (wl_assignedAgentId r) = Some a" "find_agent a w \<noteq> None" "int4 (wl_generation r)"
  shows "\<exists>w' cmd. sendWorkloadCommand pf wid ct actor w = (Inl QueueNotConfigured, w')
     \<and> w_workloads w' = w_workloads w \<and> w_queue w' = w_queue w
     \<and> w_commands w' = w_commands w @ [cmd] \<and> ac_status cmd = CmdPending
     \<and> ac_workloadId cmd = Some wid"
  using assms
  by (simp add: sendWorkloadCommand_def Let_def run_simps andThen_Inl [OF record_no_queue] can_issue_def
      int4_opt_def new_command_def command_payload_def)

subsection \<open>The agent understands what is sent\<close>

lemma command_payload_conforms:
  assumes "wid \<noteq> ''''" "b \<noteq> ''''" "0 < g" "g < 2 ^ 53" "key \<noteq> ''''" "length key \<le> 128"
  shows "conforms_fields F workloadCommandPayload (command_payload wid b g key)"
  using assms by (simp add: workloadCommandPayload_def command_payload_def idempotencyKeySchema_def Suc_le_eq)

lemma command_payload_parsed:
  "parsed_fields workloadCommandPayload (command_payload wid b g key) = command_payload wid b g key"
  by (simp add: workloadCommandPayload_def command_payload_def idempotencyKeySchema_def)

lemma command_catalog:
  "map_of controlPlaneToAgentCatalog (message_type ct) = Some workloadCommandPayload"
  by (cases ct) (simp_all add: controlPlaneToAgentCatalog_def)

text \<open>What the code relies on from the platform when it builds a message.\<close>

definition platform_formats :: "platform \<Rightarrow> (fmt \<Rightarrow> string \<Rightarrow> bool) \<Rightarrow> bool" where
  "platform_formats pf F \<longleftrightarrow> zod (pf_safeParse pf) F
     \<and> (\<forall>n. F Uuid (pf_randomUUID pf n) \<and> pf_randomUUID pf n \<noteq> '''' \<and> length (pf_randomUUID pf n) \<le> 128)
     \<and> (\<forall>t. F IsoDatetime (pf_isoString pf t))"

lemma workload_command_parses:
  assumes "platform_formats pf F" "wid \<noteq> ''''" "b \<noteq> ''''" "0 < g" "g < 2 ^ 53"
  shows "\<exists>m. parseControlPlaneToAgentMessage (pf_safeParse pf)
        (JObj (createControlPlaneToAgentMessage (pf_randomUUID pf n) (pf_isoString pf t) (message_type ct)
           (JObj (command_payload wid b g (pf_randomUUID pf k))) control_plane_sender)) = ParseOk m
    \<and> map_of m ''type'' = Some (JStr (message_type ct))
    \<and> map_of m ''payload'' = Some (JObj (command_payload wid b g (pf_randomUUID pf k)))"
proof -
  have z: "zod (pf_safeParse pf) F" and u: "\<And>n. F Uuid (pf_randomUUID pf n)" "\<And>n. pf_randomUUID pf n \<noteq> ''''"
      "\<And>n. length (pf_randomUUID pf n) \<le> 128" and i: "\<And>t. F IsoDatetime (pf_isoString pf t)"
    using assms(1) by (simp_all add: platform_formats_def)
  have "message_type ct \<noteq> ''''" by (cases ct) simp_all
  with u(1) i have "conforms_fields F envelopeFields (create_message (pf_randomUUID pf n) (pf_isoString pf t)
      (message_type ct) (JObj (command_payload wid b g (pf_randomUUID pf k))) control_plane_sender)"
    by (intro conforms_created) (simp_all add: control_plane_sender_def)
  from created_message_answer [OF zod.parse_message_answer [OF z] this command_catalog
      command_payload_conforms [OF assms(2-5) u(2,3)]]
  show ?thesis
    by (auto simp: parseControlPlaneToAgentMessage_def createControlPlaneToAgentMessage_def command_payload_parsed)
qed

text \<open>
  Whatever start, stop or restart the control plane sends, the agent's parser accepts and reads
  as the same command for the same workload and generation: with ids that are not empty and a
  generation in the range of the column, the job that \<open>sendWorkloadCommand\<close> enqueues carries a
  message that \<open>parseControlPlaneToAgentMessage\<close> accepts, with the type and payload sent.
\<close>
theorem sent_command_parses:
  assumes "platform_formats pf F" "w_redis w" "uuid_unused pf w"
    and "find_workload wid w = Some r" "truthy (wl_assignedAgentId r) = Some a" "find_agent a w \<noteq> None"
    and "wid \<noteq> ''''" "wl_botId r \<noteq> ''''" "0 < wl_generation r" "int4 (wl_generation r)"
  shows "\<exists>w' job m. sendWorkloadCommand pf wid ct actor w = (Inr Done, w')
     \<and> w_queue w' = w_queue w @ [job] \<and> jb_agentId job = a
     \<and> parseControlPlaneToAgentMessage (pf_safeParse pf) (jb_message job) = ParseOk m
     \<and> map_of m ''type'' = Some (JStr (message_type ct))
     \<and> map_of m ''payload'' = Some (JObj (command_payload wid (wl_botId r) (wl_generation r)
          (pf_randomUUID pf (w_seq w))))"
proof -
  have "wl_generation r < 2 ^ 53" using assms(10) by (simp add: int4_def)
  from workload_command_parses [OF assms(1,7,8,9) this, of "Suc (w_seq w)" "w_now w" ct "w_seq w"]
  show ?thesis
    using assms
    by (simp add: sendWorkloadCommand_def Let_def run_simps andThen_record_ok can_issue_def int4_opt_def
        command_payload_def)
qed

subsection \<open>A concrete state\<close>

definition sample_platform :: platform where
  "sample_platform =
     \<lparr>pf_cuid = (\<lambda>n. replicate (Suc n) CHR ''c''), pf_randomUUID = (\<lambda>n. CHR ''u'' # replicate (n mod 100) CHR ''u''),
      pf_randomToken = (\<lambda>n. replicate (Suc n) CHR ''t''), pf_sha256 = (\<lambda>s. ''h'' @ s),
      pf_isoString = show_int, pf_safeParse = plain_validator any_format,
      pf_localeCompare = code_unit_compare\<rparr>"

definition sample_agent_row :: "string \<Rightarrow> agent_row" where
  "sample_agent_row i =
     \<lparr>ag_id = i, ag_name = i, ag_status = Online, ag_protocolVersion = 1, ag_agentVersion = ''1.0'',
      ag_environment = None, ag_region = None, ag_labelsJson = [], ag_capabilitiesJson = [''pm2''],
      ag_hostname = ''host'', ag_architecture = ''x64'', ag_operatingSystem = ''linux'',
      ag_totalMemoryMb = None, ag_availableMemoryMb = None, ag_cpuUsagePercent = None,
      ag_diskTotalMb = None, ag_diskAvailableMb = None, ag_lastHeartbeatAt = None\<rparr>"

definition sample_workload_row :: "string \<Rightarrow> string option \<Rightarrow> workload_row" where
  "sample_workload_row i a = (new_workload i ''b1'' JNull)\<lparr>wl_assignedAgentId := a\<rparr>"

definition sample_world :: world where
  "sample_world =
     \<lparr>w_agents = [sample_agent_row ''a1'', sample_agent_row ''a2''],
      w_workloads = [sample_workload_row ''w1'' (Some ''a1'')],
      w_commands = [], w_tokens = [], w_credentials = [], w_audit = [], w_placements = [],
      w_bots = [\<lparr>br_id = ''b1'', br_customerId = ''c1''\<rparr>], w_queue = [], w_now = 1000, w_seq = 0,
      w_redis = True\<rparr>"

lemmas sample_defs = sample_world_def sample_workload_row_def sample_agent_row_def new_workload_def

lemma sample_lookups [simp]:
  "find_workload ''w1'' sample_world = Some (sample_workload_row ''w1'' (Some ''a1''))"
  "find_agent ''a1'' sample_world = Some (sample_agent_row ''a1'')"
  "find_agent ''a2'' sample_world = Some (sample_agent_row ''a2'')"
  "find_command k sample_world = None" "w_redis sample_world"
  by (simp_all add: world_lookups sample_defs)

lemma sample_platform_formats: "platform_formats sample_platform any_format"
  by (auto simp: platform_formats_def sample_platform_def any_format_def plain.zod_axioms)

lemma sample_fields [simp]:
  "wl_id (sample_workload_row i a) = i" "wl_botId (sample_workload_row i a) = ''b1''"
  "wl_assignedAgentId (sample_workload_row i a) = a" "wl_generation (sample_workload_row i a) = 1"
  "wl_desiredState (sample_workload_row i a) = DesiredStopped"
  "wl_observedState (sample_workload_row i a) = ObsUnknown"
  "wl_reconcileAttempts (sample_workload_row i a) = 0"
  "wl_nextReconcileAttemptAt (sample_workload_row i a) = None"
  "wl_reconciliationSuspendedAt (sample_workload_row i a) = None"
  "ag_id (sample_agent_row i) = i" "ag_status (sample_agent_row i) = Online"
  "w_queue sample_world = []" "w_commands sample_world = []" "w_seq sample_world = 0"
  "w_workloads sample_world = [sample_workload_row ''w1'' (Some ''a1'')]"
  "int4 1" "int4 2"
  by (simp_all add: sample_defs int4_def)

theorem assign_effect_witness:
  "\<exists>w'. assignWorkloadToAgent sample_platform ''w1'' ''a2'' ''admin'' sample_world = (Inr Done, w')"
proof -
  have "int4 (wl_generation r + 1)" if "find_workload ''w1'' sample_world = Some r" for r
    using that by auto
  from assign_effect [of sample_world sample_platform "''w1''" "''a2''" "''admin''", OF _ _ this] show ?thesis by auto
qed

theorem send_effect_witness:
  "\<exists>w'. sendWorkloadCommand sample_platform ''w1'' CtStart None sample_world = (Inr Done, w')"
  using send_effect [of sample_world sample_platform "''w1''" CtStart None]
  by (auto simp: owner_ok_def)

theorem sent_command_parses_witness:
  "\<exists>w' job m. sendWorkloadCommand sample_platform ''w1'' CtStop None sample_world = (Inr Done, w')
     \<and> w_queue w' = [job] \<and> parseControlPlaneToAgentMessage (pf_safeParse sample_platform) (jb_message job) = ParseOk m"
  using sent_command_parses [OF sample_platform_formats, of sample_world "''w1''"
      "sample_workload_row ''w1'' (Some ''a1'')" "''a1''" CtStop None]
  by auto

end
