(* ===== verification/Reconciliation.thy ===== *)
theory Reconciliation
  imports Workloads
begin

text \<open>
  The self-healing loop: \<open>lib/agent-gateway/command-outcomes.ts\<close> (what the result of a command does
  to the workload it was for) and \<open>lib/reconciliation.ts\<close> (which commands a tick re-issues). The
  advisory lock of the tick is the argument \<open>locked\<close>. The transaction of the tick only reads:
  \<open>sendWorkloadCommand\<close> writes on the shared client, so an exception rolls nothing back.
\<close>

subsection \<open>Outcomes of commands\<close>

definition MAX_RECONCILE_ATTEMPTS :: int where
  "MAX_RECONCILE_ATTEMPTS = 5"

definition BASE_BACKOFF_MS :: int where
  "BASE_BACKOFF_MS = 30000"

definition MAX_BACKOFF_MS :: int where
  "MAX_BACKOFF_MS = 30 * 60000"

definition reconcileBackoffMs :: "int \<Rightarrow> int" where
  "reconcileBackoffMs attempts = min MAX_BACKOFF_MS (BASE_BACKOFF_MS * 2 ^ nat attempts)"

definition observedStateFor :: "string \<Rightarrow> bool \<Rightarrow> observed_state option" where
  "observedStateFor commandType succeeded =
     (if commandType = ''bot.update'' then None
      else if \<not> succeeded then Some ObsFailed
      else if commandType = ''bot.stop'' then Some ObsStopped
      else if commandType = ''bot.start'' \<or> commandType = ''bot.restart'' then Some ObsRunning
      else None)"

definition outcome_command :: "bool \<Rightarrow> string option \<Rightarrow> int \<Rightarrow> command_row \<Rightarrow> command_row" where
  "outcome_command succeeded safeError now c =
     (if succeeded then c\<lparr>ac_status := CmdSucceeded, ac_completedAt := Some now\<rparr>
      else c\<lparr>ac_status := CmdFailed, ac_failedAt := Some now, ac_safeError := safeError\<rparr>)"

definition success_row :: "observed_state \<Rightarrow> int \<Rightarrow> int \<Rightarrow> workload_row \<Rightarrow> workload_row" where
  "success_row observed generation now r =
     r\<lparr>wl_observedState := observed, wl_observedGeneration := generation, wl_lastTransitionAt := Some now,
       wl_reconcileAttempts := 0, wl_nextReconcileAttemptAt := None\<rparr>"

definition failure_row :: "observed_state \<Rightarrow> int \<Rightarrow> int \<Rightarrow> workload_row \<Rightarrow> workload_row" where
  "failure_row observed attempts now r =
     (let suspended = MAX_RECONCILE_ATTEMPTS \<le> attempts in
      r\<lparr>wl_observedState := observed, wl_lastTransitionAt := Some now, wl_reconcileAttempts := attempts,
        wl_nextReconcileAttemptAt := (if suspended then None else Some (now + reconcileBackoffMs attempts)),
        wl_reconciliationSuspendedAt := (if suspended then Some now else None)\<rparr>)"

definition markCommandOutcome :: "string \<Rightarrow> bool \<Rightarrow> string option \<Rightarrow> unit act" where
  "markCommandOutcome idempotencyKey succeeded safeError =
     andThen (gets (find_command idempotencyKey)) (\<lambda>found. case found of
       None \<Rightarrow> ret ()
     | Some command \<Rightarrow>
         andThen (modify (\<lambda>w. w\<lparr>w_commands := updateWhere (\<lambda>c. ac_id c = ac_id command)
                    (outcome_command succeeded safeError (w_now w)) (w_commands w)\<rparr>)) (\<lambda>_.
         (case truthy (ac_workloadId command) of
            None \<Rightarrow> ret ()
          | Some wid \<Rightarrow> (case observedStateFor (ac_commandType command) succeeded of
            None \<Rightarrow> ret ()
          | Some observed \<Rightarrow>
              andThen (gets (find_workload wid)) (\<lambda>row. case row of
                None \<Rightarrow> ret ()
              | Some workload \<Rightarrow>
                  if wl_assignedAgentId workload \<noteq> Some (ac_agentId command) then ret ()
                  else andThen (gets w_now) (\<lambda>now.
                    if succeeded
                    then andThen (update_workload wid (success_row observed (wl_generation workload) now)) (\<lambda>_. ret ())
                    else andThen (update_workload wid
                           (failure_row observed (wl_reconcileAttempts workload + 1) now)) (\<lambda>_. ret ())))))))"

subsection \<open>The tick\<close>

record reconciliation_result =
  rr_checked :: nat
  rr_actionsTriggered :: nat
  rr_skipped :: "(string \<times> string) list"
  rr_lockHeld :: bool

definition skip :: "string \<Rightarrow> string \<Rightarrow> reconciliation_result \<Rightarrow> reconciliation_result" where
  "skip workloadId reason res = res\<lparr>rr_skipped := rr_skipped res @ [(workloadId, reason)]\<rparr>"

definition in_flight :: "string \<Rightarrow> world \<Rightarrow> command_row option" where
  "in_flight wid w = find (\<lambda>c. ac_workloadId c = Some wid \<and> (ac_status c = CmdPending \<or> ac_status c = CmdAccepted))
     (w_commands w)"

definition suspended_reason :: string where
  "suspended_reason = ''reconciliation suspended after repeated failures - needs admin action to clear''"

definition backing_off :: "int \<Rightarrow> workload_row \<Rightarrow> bool" where
  "backing_off now r \<longleftrightarrow> (case wl_nextReconcileAttemptAt r of None \<Rightarrow> False | Some t \<Rightarrow> now < t)"

definition desired_running :: "workload_row \<Rightarrow> bool" where
  "desired_running r \<longleftrightarrow> wl_desiredState r = DesiredRunning"

definition observed_running :: "workload_row \<Rightarrow> bool" where
  "observed_running r \<longleftrightarrow> wl_observedState r = ObsRunning"

definition reconcile_one ::
    "platform \<Rightarrow> int \<Rightarrow> string option \<Rightarrow> workload_row \<Rightarrow> reconciliation_result \<Rightarrow> reconciliation_result act" where
  "reconcile_one pf now actor workload res =
     (if wl_reconciliationSuspendedAt workload \<noteq> None
      then ret (skip (wl_id workload) suspended_reason res)
      else if backing_off now workload
      then ret (skip (wl_id workload) ''backing off after a recent failure'' res)
      else if desired_running workload = observed_running workload then ret res
      else andThen (gets (in_flight (wl_id workload))) (\<lambda>inFlight.
        if inFlight \<noteq> None then ret (skip (wl_id workload) ''a command is already in flight'' res)
        else andThen (sendWorkloadCommand pf (wl_id workload)
               (if desired_running workload then CtStart else CtStop) actor) (\<lambda>sendResult. case sendResult of
            Done \<Rightarrow> ret (res\<lparr>rr_actionsTriggered := rr_actionsTriggered res + 1\<rparr>)
          | Refused reason \<Rightarrow> ret (skip (wl_id workload) reason res))))"

definition reconcileWorkloads :: "platform \<Rightarrow> bool \<Rightarrow> string option \<Rightarrow> reconciliation_result act" where
  "reconcileWorkloads pf locked actor =
     (if \<not> locked
      then ret \<lparr>rr_checked = 0, rr_actionsTriggered = 0, rr_skipped = [], rr_lockHeld = True\<rparr>
      else andThen (gets w_now) (\<lambda>now.
        andThen (gets (\<lambda>w. filter (\<lambda>r. wl_assignedAgentId r \<noteq> None) (w_workloads w))) (\<lambda>workloads.
          forEach workloads
            \<lparr>rr_checked = length workloads, rr_actionsTriggered = 0, rr_skipped = [], rr_lockHeld = False\<rparr>
            (reconcile_one pf now actor))))"

definition clearReconciliationFailure :: "string \<Rightarrow> unit act" where
  "clearReconciliationFailure workloadId =
     andThen (update_workload workloadId
       (\<lambda>r. r\<lparr>wl_reconcileAttempts := 0, wl_nextReconcileAttemptAt := None,
              wl_reconciliationSuspendedAt := None\<rparr>)) (\<lambda>_. ret ())"

subsection \<open>What an outcome does to the workload\<close>

lemma find_workload_commands [simp]: "find_workload i (w\<lparr>w_commands := c\<rparr>) = find_workload i w"
  by simp

text \<open>The outcome counts for the workload when the command's agent is its current owner.\<close>

definition counts_for :: "command_row \<Rightarrow> bool \<Rightarrow> world \<Rightarrow> (workload_row \<times> observed_state) option" where
  "counts_for c succeeded w = (case truthy (ac_workloadId c) of
     None \<Rightarrow> None
   | Some wid \<Rightarrow> (case observedStateFor (ac_commandType c) succeeded of
       None \<Rightarrow> None
     | Some obs \<Rightarrow> (case find_workload wid w of
         None \<Rightarrow> None
       | Some r \<Rightarrow> if wl_assignedAgentId r = Some (ac_agentId c) then Some (r, obs) else None)))"

definition outcome_row :: "bool \<Rightarrow> observed_state \<Rightarrow> int \<Rightarrow> workload_row \<Rightarrow> workload_row \<Rightarrow> workload_row" where
  "outcome_row succeeded obs now r =
     (if succeeded then success_row obs (wl_generation r) now
      else failure_row obs (wl_reconcileAttempts r + 1) now)"

lemma mark_run:
  "markCommandOutcome key succeeded err w = (Inr (), case find_command key w of
     None \<Rightarrow> w
   | Some c \<Rightarrow>
       let w1 = w\<lparr>w_commands := updateWhere (\<lambda>x. ac_id x = ac_id c)
                    (outcome_command succeeded err (w_now w)) (w_commands w)\<rparr> in
       (case counts_for c succeeded w of
          None \<Rightarrow> w1
        | Some (r, obs) \<Rightarrow> set_workloads (wl_id r) (outcome_row succeeded obs (w_now w) r) w1))"
  unfolding markCommandOutcome_def
  by (auto simp: run_simps counts_for_def outcome_row_def Let_def find_workload_id split: option.splits)

lemma mark_frame:
  "w_agents (snd (markCommandOutcome key s e w)) = w_agents w"
  "w_queue (snd (markCommandOutcome key s e w)) = w_queue w"
  "w_seq (snd (markCommandOutcome key s e w)) = w_seq w"
  "w_now (snd (markCommandOutcome key s e w)) = w_now w"
  "w_redis (snd (markCommandOutcome key s e w)) = w_redis w"
  "w_tokens (snd (markCommandOutcome key s e w)) = w_tokens w"
  "w_credentials (snd (markCommandOutcome key s e w)) = w_credentials w"
  "w_bots (snd (markCommandOutcome key s e w)) = w_bots w"
  by (simp_all add: mark_run Let_def split: option.split)

lemma mark_workloads:
  "w_workloads (snd (markCommandOutcome key s e w)) =
     (case find_command key w of
        None \<Rightarrow> w_workloads w
      | Some c \<Rightarrow> (case counts_for c s w of
          None \<Rightarrow> w_workloads w
        | Some (r, obs) \<Rightarrow> updateWhere (\<lambda>x. wl_id x = wl_id r) (outcome_row s obs (w_now w) r) (w_workloads w)))"
  by (simp add: mark_run Let_def set_workloads_def split: option.split)

text \<open>
  C3: the result of a stale command never touches the fleet's state: when the command's agent is
  not the agent the workload is assigned to now, whatever the result says (success or failure of any
  command type), every workload row stays as it is; only the command's own row records the result.
\<close>
theorem stale_result_ignored:
  assumes "find_command key w = Some c" "ac_workloadId c = Some wid"
    and "find_workload wid w = Some r" "wl_assignedAgentId r \<noteq> Some (ac_agentId c)"
  shows "w_workloads (snd (markCommandOutcome key succeeded err w)) = w_workloads w
    \<and> w_commands (snd (markCommandOutcome key succeeded err w)) =
        updateWhere (\<lambda>x. ac_id x = ac_id c) (outcome_command succeeded err (w_now w)) (w_commands w)"
proof -
  have "counts_for c succeeded w = None"
  proof (cases wid)
    case Nil
    with assms show ?thesis by (simp add: counts_for_def)
  next
    case (Cons x xs)
    with assms show ?thesis by (simp add: counts_for_def split: option.split)
  qed
  with assms(1) show ?thesis by (simp add: mark_run Let_def)
qed

definition sample_command :: "string \<Rightarrow> string \<Rightarrow> command_row" where
  "sample_command agent t = new_command
     \<lparr>pa_agentId = agent, pa_workloadId = Some ''w1'', pa_commandType = t, pa_payloadJson = JNull,
      pa_message = JNull, pa_actorUserId = None, pa_idempotencyKey = ''k'', pa_generation = Some 1\<rparr> ''cmd'' 900"

definition sample_in_flight :: "string \<Rightarrow> string \<Rightarrow> world" where
  "sample_in_flight agent t = sample_world\<lparr>w_commands := [sample_command agent t]\<rparr>"

lemma sample_in_flight_lookups [simp]:
  "find_command ''k'' (sample_in_flight a t) = Some (sample_command a t)"
  "find_workload ''w1'' (sample_in_flight a t) = Some (sample_workload_row ''w1'' (Some ''a1''))"
  "ac_workloadId (sample_command a t) = Some ''w1''" "ac_agentId (sample_command a t) = a"
  "ac_commandType (sample_command a t) = t" "ac_id (sample_command a t) = ''cmd''"
  by (simp_all add: sample_in_flight_def sample_command_def new_command_def find_command_def)

theorem stale_result_ignored_witness:
  "w_workloads (snd (markCommandOutcome ''k'' True None (sample_in_flight ''a2'' ''bot.stop''))) =
     w_workloads (sample_in_flight ''a2'' ''bot.stop'')"
  using stale_result_ignored [of "''k''" "sample_in_flight ''a2'' ''bot.stop''" "sample_command ''a2'' ''bot.stop''"
      "''w1''" "sample_workload_row ''w1'' (Some ''a1'')" True None]
  by simp

text \<open>
  The result of a command of the current owner is recorded exactly as specified. A success sets
  the observed state of the command's type, takes the workload's current generation as observed and
  resets the retry bookkeeping; a failure sets "failed", counts one attempt more, and either schedules
  the next try after the backoff or, from the fifth attempt on, suspends the workload. The result of
  a \<open>bot.update\<close> changes no workload, and no other workload changes.
\<close>
theorem owner_result_recorded:
  assumes "find_command key w = Some c" "ac_workloadId c = Some wid" "wid \<noteq> ''''"
    and "find_workload wid w = Some r" "wl_assignedAgentId r = Some (ac_agentId c)"
  shows "find_workload i (snd (markCommandOutcome key succeeded err w)) =
    (if i = wid then Some (case observedStateFor (ac_commandType c) succeeded of
        None \<Rightarrow> r
      | Some obs \<Rightarrow> (if succeeded then success_row obs (wl_generation r) (w_now w) r
          else failure_row obs (wl_reconcileAttempts r + 1) (w_now w) r))
     else find_workload i w)"
proof (cases "observedStateFor (ac_commandType c) succeeded")
  case None
  then have "counts_for c succeeded w = None" by (simp add: counts_for_def split: option.split)
  with assms None show ?thesis by (simp add: mark_run Let_def)
next
  case (Some obs)
  have "truthy (Some wid) = Some wid" using assms(3) by (cases wid) auto
  with assms Some have "counts_for c succeeded w = Some (r, obs)" by (simp add: counts_for_def)
  moreover have "wl_id r = wid" using assms(4) by (rule find_workload_id)
  moreover have "wl_id (outcome_row succeeded obs t r x) = wl_id x" for t x
    by (simp add: outcome_row_def success_row_def failure_row_def Let_def)
  ultimately show ?thesis
    using assms Some by (simp add: mark_run Let_def find_set_workloads outcome_row_def)
qed

theorem owner_result_recorded_witness:
  "find_workload ''w1'' (snd (markCommandOutcome ''k'' False (Some ''boom'') (sample_in_flight ''a1'' ''bot.start''))) =
     Some (failure_row ObsFailed 1 1000 (sample_workload_row ''w1'' (Some ''a1'')))"
proof -
  have "w_now (sample_in_flight ''a1'' ''bot.start'') = 1000"
    by (simp add: sample_in_flight_def sample_world_def)
  then show ?thesis
    using owner_result_recorded [of "''k''" "sample_in_flight ''a1'' ''bot.start''" "sample_command ''a1'' ''bot.start''"
        "''w1''" "sample_workload_row ''w1'' (Some ''a1'')" "''w1''" False "Some ''boom''"]
    by (simp add: observedStateFor_def)
qed

subsection \<open>Bounded retry\<close>

lemma backoff_values:
  "reconcileBackoffMs 1 = 60000" "reconcileBackoffMs 2 = 120000" "reconcileBackoffMs 3 = 240000"
  "reconcileBackoffMs 4 = 480000"
  by (simp_all add: reconcileBackoffMs_def MAX_BACKOFF_MS_def BASE_BACKOFF_MS_def)

lemma backoff_positive: "0 < reconcileBackoffMs n"
  by (simp add: reconcileBackoffMs_def MAX_BACKOFF_MS_def BASE_BACKOFF_MS_def)

lemma backoff_mono:
  assumes "m \<le> n"
  shows "reconcileBackoffMs m \<le> reconcileBackoffMs n"
proof -
  have "(2::int) ^ nat m \<le> 2 ^ nat n" using assms by (intro power_increasing nat_mono) auto
  then show ?thesis
    unfolding reconcileBackoffMs_def BASE_BACKOFF_MS_def by (intro min.mono mult_left_mono) auto
qed

lemma backoff_scheduled:
  assumes "0 < n" "n < MAX_RECONCILE_ATTEMPTS"
  shows "60000 \<le> reconcileBackoffMs n \<and> reconcileBackoffMs n \<le> 480000"
proof -
  have "n = 1 \<or> n = 2 \<or> n = 3 \<or> n = 4" using assms by (simp add: MAX_RECONCILE_ATTEMPTS_def) arith
  then show ?thesis using backoff_values by auto
qed

text \<open>
  The retry bookkeeping of a workload: the attempts count from zero, five of them mean suspended, a
  suspended workload has no next attempt, and a scheduled one lies one to eight minutes after the
  last transition.
\<close>

definition retry_ok :: "workload_row \<Rightarrow> bool" where
  "retry_ok r \<longleftrightarrow> 0 \<le> wl_reconcileAttempts r
     \<and> (MAX_RECONCILE_ATTEMPTS \<le> wl_reconcileAttempts r \<longrightarrow> wl_reconciliationSuspendedAt r \<noteq> None)
     \<and> (wl_reconciliationSuspendedAt r \<noteq> None \<longrightarrow> wl_nextReconcileAttemptAt r = None)
     \<and> (case wl_nextReconcileAttemptAt r of None \<Rightarrow> True
        | Some t \<Rightarrow> (case wl_lastTransitionAt r of None \<Rightarrow> False
           | Some l \<Rightarrow> l + 60000 \<le> t \<and> t \<le> l + 480000))"

lemma retry_ok_success: "retry_ok r \<Longrightarrow> retry_ok (success_row obs g now r)"
  by (simp add: retry_ok_def success_row_def MAX_RECONCILE_ATTEMPTS_def)

lemma retry_ok_failure:
  assumes "0 \<le> n"
  shows "retry_ok (failure_row obs (n + 1) now r)"
  using assms backoff_scheduled [of "n + 1"]
  by (auto simp: retry_ok_def failure_row_def Let_def)

lemma retry_ok_assign: "retry_ok (assign_row a r) = retry_ok r"
  by (simp add: retry_ok_def assign_row_def cong: option.case_cong)

lemma retry_ok_desired: "retry_ok (r\<lparr>wl_desiredState := d\<rparr>) = retry_ok r"
  by (simp add: retry_ok_def cong: option.case_cong)

lemma retry_ok_clear:
  "retry_ok (r\<lparr>wl_reconcileAttempts := 0, wl_nextReconcileAttemptAt := None, wl_reconciliationSuspendedAt := None\<rparr>)"
  by (simp add: retry_ok_def MAX_RECONCILE_ATTEMPTS_def)

lemma retry_ok_new: "retry_ok (new_workload i b s)"
  by (simp add: retry_ok_def new_workload_def MAX_RECONCILE_ATTEMPTS_def)

definition all_retry_ok :: "world \<Rightarrow> bool" where
  "all_retry_ok w \<longleftrightarrow> (\<forall>r\<in>set (w_workloads w). retry_ok r)"

lemma all_retry_ok_update:
  assumes "all_retry_ok w" "\<And>r. r \<in> set (w_workloads w) \<Longrightarrow> retry_ok r \<Longrightarrow> retry_ok (g r)"
  shows "all_retry_ok (set_workloads i g w)"
  using assms by (auto simp: all_retry_ok_def set_workloads_def set_updateWhere)

lemma all_retry_ok_frame [simp]:
  "all_retry_ok (w\<lparr>w_seq := n\<rparr>) = all_retry_ok w" "all_retry_ok (w\<lparr>w_audit := a\<rparr>) = all_retry_ok w"
  "all_retry_ok (w\<lparr>w_commands := c\<rparr>) = all_retry_ok w"
  "all_retry_ok (with_command pf p w) = all_retry_ok w" "all_retry_ok (with_job p w) = all_retry_ok w"
  by (simp_all add: all_retry_ok_def)

lemma keeps_retry_basic [keeps_intros]:
  "keeps all_retry_ok (randomUUID pf)" "keeps all_retry_ok (next_cuid pf)"
  "keeps all_retry_ok (writeAuditLog a b c d e)" "keeps all_retry_ok (recordAndEnqueueCommand pf p)"
  by (rule keeps_randomUUID keeps_next_cuid keeps_writeAuditLog keeps_record; simp)+

lemma keeps_retry_message [keeps_intros]: "keeps all_retry_ok (control_message pf t p)"
  unfolding control_message_def by (intro keeps_intros)

lemma keeps_retry_update [keeps_intros]:
  "(\<And>r. retry_ok r \<Longrightarrow> retry_ok (g r)) \<Longrightarrow> keeps all_retry_ok (update_workload i g)"
  by (rule keeps_update_workload) (simp add: all_retry_ok_update)

lemma keeps_retry_result [keeps_intros]:
  "keeps I (k) \<Longrightarrow> (\<And>s. keeps I (l s)) \<Longrightarrow> keeps I (case res of Done \<Rightarrow> k | Refused s \<Rightarrow> l s)"
  by (cases res) auto

lemma keeps_retry_assign: "keeps all_retry_ok (assignWorkloadToAgent pf wid a actor)"
  unfolding assignWorkloadToAgent_def Let_def
  by (intro keeps_intros) (simp add: retry_ok_assign)

lemma keeps_retry_send [keeps_intros]: "keeps all_retry_ok (sendWorkloadCommand pf wid ct actor)"
  unfolding sendWorkloadCommand_def Let_def
  by (intro keeps_intros) (simp add: retry_ok_desired)

lemma keeps_retry_create: "keeps all_retry_ok (createWorkload pf b raw actor)"
proof -
  have "keeps all_retry_ok (modify (\<lambda>w. w\<lparr>w_workloads := w_workloads w @ [new_workload i b s]\<rparr>))" for i s
    by (rule keeps_modify) (simp add: all_retry_ok_def retry_ok_new ball_Un)
  then show ?thesis
    unfolding createWorkload_def
    by (cases "parseWorkloadSpec (pf_safeParse pf) raw") (auto intro!: keeps_intros)
qed

lemma keeps_retry_fence: "keeps all_retry_ok (fenceStaleAgent pf a wid b g)"
  unfolding fenceStaleAgent_def Let_def by (intro keeps_intros)

lemma keeps_retry_reconcile: "keeps all_retry_ok (reconcileWorkloads pf locked actor)"
  unfolding reconcileWorkloads_def reconcile_one_def by (intro keeps_intros)

lemma keeps_retry_clear: "keeps all_retry_ok (clearReconciliationFailure wid)"
  unfolding clearReconciliationFailure_def by (intro keeps_intros) (rule retry_ok_clear)

lemma keeps_retry_mark: "keeps all_retry_ok (markCommandOutcome key s e)"
proof (rule keepsI)
  fix w assume ok: "all_retry_ok w"
  show "all_retry_ok (snd (markCommandOutcome key s e w))"
  proof (cases "find_command key w")
    case None
    with ok show ?thesis by (simp add: mark_run)
  next
    case c: (Some c)
    show ?thesis
    proof (cases "counts_for c s w")
      case None
      with ok c show ?thesis by (simp add: mark_run Let_def)
    next
      case (Some ro)
      obtain r obs where ro: "ro = (r, obs)" by (cases ro)
      with Some have "r \<in> set (w_workloads w)"
        by (auto simp: counts_for_def find_workload_in split: option.splits if_splits)
      with ok have r: "retry_ok r" by (simp add: all_retry_ok_def)
      then have "retry_ok (outcome_row s obs t r x)" if "retry_ok x" for t x
        using retry_ok_success [OF that] retry_ok_failure [of "wl_reconcileAttempts r" obs t x]
        by (simp add: outcome_row_def retry_ok_def [of r])
      with ok c Some ro show ?thesis
        by (simp add: mark_run Let_def all_retry_ok_update)
    qed
  qed
qed

text \<open>
  C14: the retry bookkeeping stays consistent under every operation of the control plane that writes
  workloads, thrown exceptions included: attempts are counted from zero, five or more of them mean
  the workload is suspended, a suspended workload has no next attempt scheduled, and a scheduled
  attempt is one to eight minutes after the failure that scheduled it.
\<close>
theorem retry_bookkeeping_invariant:
  "keeps all_retry_ok (createWorkload pf botId raw actor)
   \<and> keeps all_retry_ok (assignWorkloadToAgent pf wid a actor)
   \<and> keeps all_retry_ok (sendWorkloadCommand pf wid ct actor')
   \<and> keeps all_retry_ok (fenceStaleAgent pf a wid b g)
   \<and> keeps all_retry_ok (markCommandOutcome key succeeded err)
   \<and> keeps all_retry_ok (reconcileWorkloads pf locked actor')
   \<and> keeps all_retry_ok (clearReconciliationFailure wid)"
  by (intro conjI keeps_retry_create keeps_retry_assign keeps_retry_send keeps_retry_fence
      keeps_retry_mark keeps_retry_reconcile keeps_retry_clear)

text \<open>
  A run of failed commands of the owner, one after the other at the given times: the workload row
  each leaves.
\<close>

fun failures :: "int list \<Rightarrow> workload_row \<Rightarrow> workload_row" where
  "failures [] r = r"
| "failures (t # ts) r = failures ts (failure_row ObsFailed (wl_reconcileAttempts r + 1) t r)"

lemma failures_attempts: "wl_reconcileAttempts (failures ts r) = wl_reconcileAttempts r + int (length ts)"
  by (induction ts arbitrary: r) (simp_all add: failure_row_def Let_def)

lemma failures_last:
  "ts \<noteq> [] \<Longrightarrow> wl_reconciliationSuspendedAt (failures ts r) =
     (if MAX_RECONCILE_ATTEMPTS \<le> wl_reconcileAttempts r + int (length ts) then Some (last ts) else None)
   \<and> wl_nextReconcileAttemptAt (failures ts r) =
     (if MAX_RECONCILE_ATTEMPTS \<le> wl_reconcileAttempts r + int (length ts) then None
      else Some (last ts + reconcileBackoffMs (wl_reconcileAttempts r + int (length ts))))"
proof (induction ts arbitrary: r)
  case (Cons t ts)
  let ?r = "failure_row ObsFailed (wl_reconcileAttempts r + 1) t r"
  have a: "wl_reconcileAttempts ?r = wl_reconcileAttempts r + 1" by (simp add: failure_row_def Let_def)
  show ?case
  proof (cases "ts = []")
    case True
    then show ?thesis by (simp add: failure_row_def Let_def)
  next
    case False
    from Cons.IH [OF this, of ?r] a False show ?thesis by (simp add: algebra_simps)
  qed
qed simp

subsection \<open>What a tick sends\<close>

text \<open>The workloads a tick acts on, and the command each gets.\<close>

definition due :: "world \<Rightarrow> workload_row \<Rightarrow> bool" where
  "due w r \<longleftrightarrow> wl_assignedAgentId r \<noteq> None \<and> wl_reconciliationSuspendedAt r = None
     \<and> \<not> backing_off (w_now w) r \<and> desired_running r \<noteq> observed_running r
     \<and> in_flight (wl_id r) w = None"

definition wanted :: "workload_row \<Rightarrow> command_type" where
  "wanted r = (if desired_running r then CtStart else CtStop)"

text \<open>
  The state the tick starts from: ids are unique, the foreign keys hold, the queue is configured and
  the next \<open>k\<close> identifiers of the supply are distinct and unused.
\<close>

definition fresh_uuids :: "platform \<Rightarrow> nat \<Rightarrow> world \<Rightarrow> bool" where
  "fresh_uuids pf k w \<longleftrightarrow> inj_on (pf_randomUUID pf) {w_seq w..<w_seq w + k}
     \<and> (\<forall>n\<in>{w_seq w..<w_seq w + k}. find_command (pf_randomUUID pf n) w = None)"

lemma fresh_mono: "fresh_uuids pf k w \<Longrightarrow> j \<le> k \<Longrightarrow> fresh_uuids pf j w"
  by (auto simp: fresh_uuids_def intro: inj_on_subset)

definition tick_ready :: "platform \<Rightarrow> nat \<Rightarrow> world \<Rightarrow> bool" where
  "tick_ready pf k w \<longleftrightarrow> w_redis w \<and> fresh_uuids pf k w \<and> distinct (map wl_id (w_workloads w))
     \<and> (\<forall>r\<in>set (w_workloads w). owner_ok (wl_id r) w \<and> wl_assignedAgentId r \<noteq> Some '''')"

lemma tick_ready_mono: "tick_ready pf k w \<Longrightarrow> j \<le> k \<Longrightarrow> tick_ready pf j w"
  by (auto simp: tick_ready_def fresh_uuids_def intro: inj_on_subset)

text \<open>What a command sent during the tick looks like, compared with the workload it is for.\<close>

definition command_for :: "string option \<Rightarrow> workload_row \<Rightarrow> command_row \<Rightarrow> bool" where
  "command_for actor r c \<longleftrightarrow> ac_workloadId c = Some (wl_id r) \<and> Some (ac_agentId c) = wl_assignedAgentId r
     \<and> ac_commandType c = message_type (wanted r) \<and> ac_generation c = Some (wl_generation r)
     \<and> ac_status c = CmdPending \<and> ac_createdById c = actor"

definition job_for :: "workload_row \<Rightarrow> command_job \<Rightarrow> bool" where
  "job_for r j \<longleftrightarrow> Some (jb_agentId j) = wl_assignedAgentId r
     \<and> type_of (jb_message j) = Some (JStr (message_type (wanted r)))"

text \<open>The state during the tick: only commands and jobs were added, the supply moved on.\<close>

definition extends :: "world \<Rightarrow> command_row list \<Rightarrow> command_job list \<Rightarrow> world \<Rightarrow> bool" where
  "extends w cs js w' \<longleftrightarrow> w_workloads w' = w_workloads w \<and> w_agents w' = w_agents w \<and> w_redis w' = w_redis w
     \<and> w_now w' = w_now w \<and> w_commands w' = w_commands w @ cs \<and> w_queue w' = w_queue w @ js
     \<and> w_seq w \<le> w_seq w'"

lemma extends_refl: "extends w [] [] w"
  by (simp add: extends_def)

lemma extends_trans:
  "extends w cs js w' \<Longrightarrow> extends w' cs' js' w'' \<Longrightarrow> extends w (cs @ cs') (js @ js') w''"
  by (simp add: extends_def)

lemma find_extends:
  assumes "extends w cs js w'"
  shows "find_workload i w' = find_workload i w" "find_agent i w' = find_agent i w" "owner_ok i w' = owner_ok i w"
  using assms by (simp_all add: extends_def world_lookups owner_ok_def cong: option.case_cong)

text \<open>Sending one command draws three identifiers; the first becomes the command's key.\<close>

lemma fresh_after:
  assumes fresh: "fresh_uuids pf (k + 3) w" and seq: "w_seq w' = Suc (Suc (Suc (w_seq w)))"
    and cmds: "w_commands w' = w_commands w @ [c]" and key: "ac_idempotencyKey c = pf_randomUUID pf (w_seq w)"
  shows "fresh_uuids pf k w'"
proof -
  have later: "n \<in> {w_seq w..<w_seq w + (k + 3)} \<and> n \<noteq> w_seq w" if "n \<in> {w_seq w'..<w_seq w' + k}" for n
    using that seq by auto
  from fresh have other: "ac_idempotencyKey c \<noteq> pf_randomUUID pf n" if "n \<in> {w_seq w'..<w_seq w' + k}" for n
    using later [OF that] key unfolding fresh_uuids_def by (auto dest: inj_onD)
  then have "find_command (pf_randomUUID pf n) w' = find_command (pf_randomUUID pf n) w"
    if "n \<in> {w_seq w'..<w_seq w' + k}" for n
    using other [OF that] cmds by (simp add: find_command_def findBy_append split: option.split)
  moreover have "{w_seq w'..<w_seq w' + k} \<subseteq> {w_seq w..<w_seq w + (k + 3)}" using seq by auto
  ultimately show ?thesis
    using fresh unfolding fresh_uuids_def by (auto intro: inj_on_subset)
qed

lemma find_workload_row:
  "distinct (map wl_id (w_workloads w)) \<Longrightarrow> r \<in> set (w_workloads w) \<Longrightarrow> find_workload (wl_id r) w = Some r"
  unfolding find_workload_def by (rule findBy_Some_distinct)

lemma in_flight_extends:
  assumes "extends w cs js w'" "\<And>c. c \<in> set cs \<Longrightarrow> ac_workloadId c \<noteq> Some i"
  shows "in_flight i w' = None \<longleftrightarrow> in_flight i w = None"
  using assms by (auto simp: extends_def in_flight_def find_None_iff)

lemma truthy_cases: "v \<noteq> None \<Longrightarrow> v \<noteq> Some '''' \<Longrightarrow> truthy v = v"
  by (cases v rule: truthy.cases) auto

lemma send_wanted:
  assumes ready: "tick_ready pf (k + 3) w" and r: "r \<in> set (w_workloads w)" and "wl_assignedAgentId r \<noteq> None"
    and sel: "desired_running r \<noteq> observed_running r"
  shows "\<exists>w' c j. sendWorkloadCommand pf (wl_id r) (wanted r) actor w = (Inr Done, w')
     \<and> extends w [c] [j] w' \<and> command_for actor r c \<and> job_for r j \<and> tick_ready pf k w'"
proof -
  obtain a where a: "wl_assignedAgentId r = Some a" "truthy (wl_assignedAgentId r) = Some a"
    using assms(3) ready r truthy_cases [of "wl_assignedAgentId r"] by (auto simp: tick_ready_def)
  have found: "find_workload (wl_id r) w = Some r"
    using ready r by (auto simp: tick_ready_def find_workload_row)
  have agent: "find_agent a w \<noteq> None \<and> int4 (wl_generation r)"
    using ready r a found by (auto simp: tick_ready_def owner_ok_def)
  have "r' = r" if "r' \<in> set (w_workloads w)" "wl_id r' = wl_id r" for r'
    using ready r that by (auto simp: tick_ready_def distinct_map inj_on_def)
  moreover have "r\<lparr>wl_desiredState := desired_after (wanted r)\<rparr> = r"
    by (cases "wl_desiredState r") (simp_all add: wanted_def desired_running_def)
  ultimately have same: "updateWhere (\<lambda>x. wl_id x = wl_id r) (\<lambda>x. x\<lparr>wl_desiredState := desired_after (wanted r)\<rparr>)
      (w_workloads w) = w_workloads w"
    unfolding updateWhere_def by (intro map_idI) auto
  let ?key = "pf_randomUUID pf (w_seq w)"
  have fresh: "uuid_unused pf w" using ready by (simp add: tick_ready_def fresh_uuids_def)
  obtain w' where w': "sendWorkloadCommand pf (wl_id r) (wanted r) actor w = (Inr Done, w')"
      "w_workloads w' = w_workloads w" "w_agents w' = w_agents w" "w_redis w' = w_redis w" "w_now w' = w_now w"
      "w_seq w' = Suc (Suc (Suc (w_seq w)))"
      "w_commands w' = w_commands w @ [new_command
         \<lparr>pa_agentId = a, pa_workloadId = Some (wl_id r), pa_commandType = message_type (wanted r),
          pa_payloadJson = JObj (command_payload (wl_id r) (wl_botId r) (wl_generation r) ?key),
          pa_message = JNull, pa_actorUserId = actor, pa_idempotencyKey = ?key,
          pa_generation = Some (wl_generation r)\<rparr> (pf_cuid pf (Suc (Suc (w_seq w)))) (w_now w)]"
      "\<exists>m. w_queue w' = w_queue w @ [\<lparr>jb_agentId = a, jb_message = m\<rparr>]
         \<and> type_of m = Some (JStr (message_type (wanted r)))"
    using found a agent fresh ready
    by (simp add: same sendWorkloadCommand_def Let_def run_simps andThen_record_ok can_issue_def int4_opt_def
        tick_ready_def new_command_def set_workloads_def)
  have "fresh_uuids pf (k + 3) w" using ready by (simp add: tick_ready_def)
  then have "fresh_uuids pf k w'"
    by (rule fresh_after [OF _ w'(6,7)]) (simp add: new_command_def)
  then have "tick_ready pf k w'"
    using ready w'
    by (auto simp: tick_ready_def owner_ok_def world_lookups split: option.splits)
  then show ?thesis
    using w' a by (fastforce simp: extends_def command_for_def job_for_def new_command_def)
qed

definition skip_reason :: "world \<Rightarrow> workload_row \<Rightarrow> string option" where
  "skip_reason w r =
     (if wl_reconciliationSuspendedAt r \<noteq> None then Some suspended_reason
      else if backing_off (w_now w) r then Some ''backing off after a recent failure''
      else if desired_running r = observed_running r then None
      else if in_flight (wl_id r) w \<noteq> None then Some ''a command is already in flight''
      else None)"

definition skipped_of :: "world \<Rightarrow> workload_row list \<Rightarrow> (string \<times> string) list" where
  "skipped_of w rs = concat (map (\<lambda>r. case skip_reason w r of None \<Rightarrow> [] | Some s \<Rightarrow> [(wl_id r, s)]) rs)"

lemma reconcile_one_waits:
  assumes "\<not> due w r" "wl_assignedAgentId r \<noteq> None"
  shows "reconcile_one pf (w_now w) actor r res w =
    (Inr (res\<lparr>rr_skipped := rr_skipped res @ skipped_of w [r]\<rparr>), w)"
  using assms by (auto simp: reconcile_one_def due_def skipped_of_def skip_reason_def skip_def run_simps)

lemma reconcile_one_sends:
  assumes "tick_ready pf (k + 3) w" "r \<in> set (w_workloads w)" "due w r"
  shows "\<exists>w' c j. reconcile_one pf (w_now w) actor r res w =
      (Inr (res\<lparr>rr_actionsTriggered := rr_actionsTriggered res + 1\<rparr>), w')
    \<and> extends w [c] [j] w' \<and> command_for actor r c \<and> job_for r j \<and> tick_ready pf k w' \<and> skipped_of w [r] = []"
proof -
  from send_wanted [OF assms(1,2), of actor] assms(3) obtain w' c j where
      "sendWorkloadCommand pf (wl_id r) (wanted r) actor w = (Inr Done, w')"
      "extends w [c] [j] w'" "command_for actor r c" "job_for r j" "tick_ready pf k w'"
    by (auto simp: due_def)
  then show ?thesis
    using assms(3)
    by (auto simp: reconcile_one_def due_def wanted_def run_simps skipped_of_def skip_reason_def andThen_Inr)
qed

lemma due_extends:
  assumes "extends w cs js w'" "\<And>c. c \<in> set cs \<Longrightarrow> ac_workloadId c \<noteq> Some (wl_id r)"
  shows "due w' r = due w r" "skip_reason w' r = skip_reason w r"
proof -
  have "w_now w' = w_now w" using assms(1) by (simp add: extends_def)
  with in_flight_extends [OF assms] show "due w' r = due w r" "skip_reason w' r = skip_reason w r"
    by (auto simp: due_def skip_reason_def)
qed

lemma tick_loop:
  assumes "tick_ready pf (3 * length rs) w" "set rs \<subseteq> set (w_workloads w)" "distinct (map wl_id rs)"
    and "\<And>r. r \<in> set rs \<Longrightarrow> wl_assignedAgentId r \<noteq> None"
  shows "\<exists>w' cs js. forEach rs res (reconcile_one pf (w_now w) actor) w =
      (Inr (res\<lparr>rr_actionsTriggered := rr_actionsTriggered res + length (filter (due w) rs),
               rr_skipped := rr_skipped res @ skipped_of w rs\<rparr>), w')
    \<and> extends w cs js w'
    \<and> list_all2 (command_for actor) (filter (due w) rs) cs \<and> list_all2 job_for (filter (due w) rs) js"
  using assms
proof (induction rs arbitrary: w res)
  case Nil
  then show ?case by (auto simp: ret_run skipped_of_def extends_refl intro!: exI [of _ w])
next
  case (Cons r rs)
  have assigned: "wl_assignedAgentId r \<noteq> None" using Cons.prems(4) by simp
  have rest: "set rs \<subseteq> set (w_workloads w)" "distinct (map wl_id rs)"
      "\<And>r. r \<in> set rs \<Longrightarrow> wl_assignedAgentId r \<noteq> None"
    using Cons.prems by auto
  show ?case
  proof (cases "due w r")
    case False
    note step = reconcile_one_waits [OF False assigned, of pf actor res]
    have "tick_ready pf (3 * length rs) w" by (rule tick_ready_mono [OF Cons.prems(1)]) simp
    from Cons.IH [OF this rest, of "res\<lparr>rr_skipped := rr_skipped res @ skipped_of w [r]\<rparr>"] False
    show ?thesis
      by (auto simp: andThen_def step skipped_of_def)
  next
    case True
    have "r \<in> set (w_workloads w)" using Cons.prems(2) by simp
    moreover have "tick_ready pf (3 * length rs + 3) w"
      by (rule tick_ready_mono [OF Cons.prems(1)]) simp
    ultimately obtain w1 c j where
        step: "reconcile_one pf (w_now w) actor r res w =
          (Inr (res\<lparr>rr_actionsTriggered := rr_actionsTriggered res + 1\<rparr>), w1)"
      and ext: "extends w [c] [j] w1" and new: "command_for actor r c" "job_for r j"
      and ready: "tick_ready pf (3 * length rs) w1" and none: "skipped_of w [r] = []"
      using reconcile_one_sends [OF _ _ True, of pf "3 * length rs" actor res] by blast
    have "ac_workloadId c \<noteq> Some (wl_id r')" if "r' \<in> set rs" for r'
      using new(1) that Cons.prems(3) by (auto simp: command_for_def)
    then have same: "due w1 r' = due w r'" "skip_reason w1 r' = skip_reason w r'" if "r' \<in> set rs" for r'
      using due_extends [OF ext, of r'] that by auto
    have filt: "filter (due w1) rs = filter (due w) rs" using same(1) by (simp cong: filter_cong)
    have skipd: "skipped_of w1 rs = skipped_of w rs"
      unfolding skipped_of_def using same(2) by (intro arg_cong [where f = concat] map_cong) simp_all
    have now: "w_now w1 = w_now w" and wls: "set rs \<subseteq> set (w_workloads w1)"
      using ext rest(1) by (simp_all add: extends_def)
    from Cons.IH [OF ready wls rest(2,3), of "res\<lparr>rr_actionsTriggered := rr_actionsTriggered res + 1\<rparr>"]
    obtain w' cs js where
        loop: "forEach rs (res\<lparr>rr_actionsTriggered := rr_actionsTriggered res + 1\<rparr>) (reconcile_one pf (w_now w) actor) w1 =
          (Inr (res\<lparr>rr_actionsTriggered := rr_actionsTriggered res + 1 + length (filter (due w) rs),
                   rr_skipped := rr_skipped res @ skipped_of w rs\<rparr>), w')"
      and ext': "extends w1 cs js w'"
      and cmds: "list_all2 (command_for actor) (filter (due w) rs) cs" "list_all2 job_for (filter (due w) rs) js"
      by (auto simp: now filt skipd)
    have "extends w (c # cs) (j # js) w'" using extends_trans [OF ext ext'] by simp
    moreover have "skipped_of w (r # rs) = skipped_of w rs" using none by (simp add: skipped_of_def)
    ultimately show ?thesis
      using True loop cmds new by (auto simp: andThen_def step intro!: exI)
  qed
qed

lemma tick_result:
  assumes "tick_ready pf (3 * length (w_workloads w)) w"
  defines "rows \<equiv> filter (\<lambda>r. wl_assignedAgentId r \<noteq> None) (w_workloads w)"
  shows "\<exists>w' cs js. reconcileWorkloads pf True actor w =
      (Inr \<lparr>rr_checked = length rows, rr_actionsTriggered = length (filter (due w) rows),
           rr_skipped = skipped_of w rows, rr_lockHeld = False\<rparr>, w')
    \<and> extends w cs js w'
    \<and> list_all2 (command_for actor) (filter (due w) rows) cs \<and> list_all2 job_for (filter (due w) rows) js"
proof -
  have "tick_ready pf (3 * length rows) w"
    by (rule tick_ready_mono [OF assms(1)]) (simp add: rows_def)
  moreover have "distinct (map wl_id rows)"
    using assms by (simp add: tick_ready_def rows_def distinct_map_filter)
  moreover have "set rows \<subseteq> set (w_workloads w)" "\<And>r. r \<in> set rows \<Longrightarrow> wl_assignedAgentId r \<noteq> None"
    by (auto simp: rows_def)
  ultimately obtain w' cs js where
      "forEach rows \<lparr>rr_checked = length rows, rr_actionsTriggered = 0, rr_skipped = [], rr_lockHeld = False\<rparr>
         (reconcile_one pf (w_now w) actor) w =
       (Inr \<lparr>rr_checked = length rows, rr_actionsTriggered = length (filter (due w) rows),
           rr_skipped = skipped_of w rows, rr_lockHeld = False\<rparr>, w')"
    and "extends w cs js w'"
    and "list_all2 (command_for actor) (filter (due w) rows) cs" "list_all2 job_for (filter (due w) rows) js"
    using tick_loop [of pf rows w "\<lparr>rr_checked = length rows, rr_actionsTriggered = 0,
        rr_skipped = [], rr_lockHeld = False\<rparr>" actor]
    by fastforce
  then show ?thesis
    unfolding reconcileWorkloads_def rows_def by (simp add: run_simps) blast
qed

text \<open>
  C4: a tick that holds the lock sends exactly the commands that are due, one per workload: for the
  assigned workloads, in order, that are not suspended, not backing off, whose desired and observed
  states disagree and that have no command in flight, a \<open>bot.start\<close> or \<open>bot.stop\<close> for the current owner
  with the current generation. It counts them, reports every other out-of-sync workload with the
  reason it was left alone, changes no workload row and never throws.
\<close>
theorem tick_sends_what_is_due:
  assumes "tick_ready pf (3 * length (w_workloads w)) w"
  shows "\<exists>w' cs js. reconcileWorkloads pf True actor w =
      (Inr \<lparr>rr_checked = length (filter (\<lambda>r. wl_assignedAgentId r \<noteq> None) (w_workloads w)),
           rr_actionsTriggered = length (filter (due w) (w_workloads w)),
           rr_skipped = skipped_of w (filter (\<lambda>r. wl_assignedAgentId r \<noteq> None) (w_workloads w)),
           rr_lockHeld = False\<rparr>, w')
    \<and> w_workloads w' = w_workloads w \<and> w_agents w' = w_agents w
    \<and> w_commands w' = w_commands w @ cs \<and> w_queue w' = w_queue w @ js
    \<and> list_all2 (command_for actor) (filter (due w) (w_workloads w)) cs
    \<and> list_all2 job_for (filter (due w) (w_workloads w)) js"
proof -
  have "filter (due w) (filter (\<lambda>r. wl_assignedAgentId r \<noteq> None) (w_workloads w)) = filter (due w) (w_workloads w)"
    by (auto simp: due_def intro: filter_cong)
  with tick_result [OF assms, of actor] show ?thesis by (auto simp: extends_def)
qed

definition sample_out_of_sync :: world where
  "sample_out_of_sync = sample_world\<lparr>w_workloads :=
     [(sample_workload_row ''w1'' (Some ''a1''))\<lparr>wl_desiredState := DesiredRunning\<rparr>]\<rparr>"

lemma sample_tick_ready: "tick_ready sample_platform (3 * length (w_workloads sample_out_of_sync)) sample_out_of_sync"
proof -
  have "inj_on (pf_randomUUID sample_platform) {0..<3}"
    by (auto simp: inj_on_def sample_platform_def)
  then show ?thesis
    by (simp add: tick_ready_def fresh_uuids_def sample_out_of_sync_def owner_ok_def world_lookups sample_defs int4_def)
qed

theorem tick_sends_what_is_due_witness:
  "\<exists>res w'. reconcileWorkloads sample_platform True None sample_out_of_sync = (Inr res, w')
     \<and> rr_actionsTriggered res = 1"
proof -
  have "length (filter (due sample_out_of_sync) (w_workloads sample_out_of_sync)) = 1"
    by (simp add: sample_out_of_sync_def due_def backing_off_def desired_running_def observed_running_def in_flight_def)
  with tick_sends_what_is_due [OF sample_tick_ready, of None] show ?thesis by auto
qed

lemma tick_idle:
  assumes "\<And>r. r \<in> set rs \<Longrightarrow> \<not> due w r \<and> wl_assignedAgentId r \<noteq> None"
  shows "forEach rs res (reconcile_one pf (w_now w) actor) w =
    (Inr (res\<lparr>rr_skipped := rr_skipped res @ skipped_of w rs\<rparr>), w)"
  using assms
proof (induction rs arbitrary: res)
  case (Cons r rs)
  have "reconcile_one pf (w_now w) actor r res w = (Inr (res\<lparr>rr_skipped := rr_skipped res @ skipped_of w [r]\<rparr>), w)"
    using Cons.prems [of r] by (intro reconcile_one_waits) auto
  with Cons show ?case by (simp add: andThen_def skipped_of_def)
qed (simp add: ret_run skipped_of_def)

text \<open>
  Reconciliation does not repeat itself: directly after a tick, another tick (of this or another
  instance, for any actor) sends nothing and writes nothing, because everything the first one sent is
  still in flight.
\<close>
theorem second_tick_sends_nothing:
  assumes "tick_ready pf (3 * length (w_workloads w)) w"
    and "reconcileWorkloads pf True actor w = (Inr res, w')"
  shows "\<exists>res'. reconcileWorkloads pf True actor' w' = (Inr res', w') \<and> rr_actionsTriggered res' = 0"
proof -
  let ?rows = "filter (\<lambda>r. wl_assignedAgentId r \<noteq> None) (w_workloads w)"
  obtain cs js where ext: "extends w cs js w'"
    and cmds: "list_all2 (command_for actor) (filter (due w) ?rows) cs"
    using tick_result [OF assms(1), of actor] assms(2) by auto
  have "\<not> due w' r" if r: "r \<in> set ?rows" for r
  proof
    assume due': "due w' r"
    have "due w r"
      using due' ext by (auto simp: due_def extends_def in_flight_def find_None_iff)
    with r have "r \<in> set (filter (due w) ?rows)" by simp
    then obtain c where "c \<in> set cs" "command_for actor r c"
      using list_all2_partner [OF cmds] by blast
    then have "in_flight (wl_id r) w' \<noteq> None"
      using ext by (auto simp: in_flight_def extends_def find_None_iff command_for_def)
    with due' show False by (simp add: due_def)
  qed
  moreover have "w_workloads w' = w_workloads w" using ext by (simp add: extends_def)
  ultimately show ?thesis
    using tick_idle [of ?rows w'] by (simp add: reconcileWorkloads_def run_simps)
qed

theorem second_tick_sends_nothing_witness:
  "\<exists>res w' res'. reconcileWorkloads sample_platform True None sample_out_of_sync = (Inr res, w')
     \<and> reconcileWorkloads sample_platform True None w' = (Inr res', w') \<and> rr_actionsTriggered res' = 0"
proof -
  obtain res w' where tick: "reconcileWorkloads sample_platform True None sample_out_of_sync = (Inr res, w')"
    using tick_result [OF sample_tick_ready, of None] by blast
  from second_tick_sends_nothing [OF sample_tick_ready tick, of None] tick show ?thesis by blast
qed

subsection \<open>Repeated failures\<close>

text \<open>Failed results for the commands \<open>ks\<close>, each at its time.\<close>

fun failed_results :: "(int \<times> string) list \<Rightarrow> world \<Rightarrow> world" where
  "failed_results [] w = w"
| "failed_results ((t, k) # tks) w =
     failed_results tks (snd (markCommandOutcome k False (Some ''failed'') (w\<lparr>w_now := t\<rparr>)))"

definition command_of :: "string \<Rightarrow> string \<Rightarrow> command_row \<Rightarrow> bool" where
  "command_of wid a c \<longleftrightarrow> ac_workloadId c = Some wid \<and> ac_agentId c = a \<and> ac_commandType c \<noteq> ''bot.update''"

lemma find_command_mark:
  assumes "find_command k w = Some c" "command_of wid a c"
  shows "\<exists>c'. find_command k (snd (markCommandOutcome k' s e w)) = Some c' \<and> command_of wid a c'"
proof -
  have upd: "\<exists>c'. findBy ac_idempotencyKey k (updateWhere p (outcome_command s e t) (w_commands w)) = Some c'
      \<and> command_of wid a c'" for p t
    using assms
    by (auto simp: find_command_def findBy_updateWhere outcome_command_def command_of_def)
  have "find_command k (set_workloads i g w') = find_command k w'" for i g w' by simp
  then show ?thesis
    using upd assms by (auto simp: mark_run Let_def find_command_def split: option.split)
qed

lemma failed_results_row:
  assumes "\<And>t k. (t, k) \<in> set tks \<Longrightarrow> \<exists>c. find_command k w = Some c \<and> command_of wid a c"
    and "wid \<noteq> ''''" "find_workload wid w = Some r" "wl_assignedAgentId r = Some a"
  shows "find_workload wid (failed_results tks w) = Some (failures (map fst tks) r)"
  using assms
proof (induction tks arbitrary: w r)
  case (Cons tk tks)
  obtain t k where tk: "tk = (t, k)" by (cases tk)
  let ?w = "w\<lparr>w_now := t\<rparr>" and ?r = "failure_row ObsFailed (wl_reconcileAttempts r + 1) t r"
  let ?w1 = "snd (markCommandOutcome k False (Some ''failed'') ?w)"
  have same: "find_command k' ?w = find_command k' w" "find_workload wid ?w = find_workload wid w" for k'
    by (simp_all add: world_lookups)
  obtain c where c: "find_command k ?w = Some c" "command_of wid a c"
    using Cons.prems(1) [of t k] tk same by auto
  then have "find_workload wid ?w1 = Some ?r"
    using owner_result_recorded [of k ?w c wid r wid False "Some ''failed''"] Cons.prems same
    by (auto simp: command_of_def observedStateFor_def)
  moreover have "\<exists>c'. find_command k' ?w1 = Some c' \<and> command_of wid a c'" if kt: "(t', k') \<in> set tks" for t' k'
  proof -
    obtain c' where "find_command k' ?w = Some c'" "command_of wid a c'"
      using Cons.prems(1) [of t' k'] kt same by auto
    then show ?thesis by (rule find_command_mark)
  qed
  moreover have "wl_assignedAgentId ?r = Some a" using Cons.prems(4) by (simp add: failure_row_def Let_def)
  ultimately show ?case
    using Cons.IH [of ?w1 ?r] Cons.prems(2) tk by simp
qed simp

text \<open>
  C27: bounded retry. From a clean record, after \<open>n\<close> failed results of the owner's commands in a row:
  fewer than five and the next attempt is scheduled 30 s times 2 to the \<open>n\<close> after the last failure;
  five or more and the workload is suspended with nothing scheduled, so that no tick acts on it
  until an administrator clears it.
\<close>
theorem five_failures_suspend:
  assumes "\<And>t k. (t, k) \<in> set tks \<Longrightarrow> \<exists>c. find_command k w = Some c \<and> command_of wid a c"
    and "wid \<noteq> ''''" "find_workload wid w = Some r" "wl_assignedAgentId r = Some a"
    and "wl_reconcileAttempts r = 0" "tks \<noteq> []"
  shows "\<exists>r'. find_workload wid (failed_results tks w) = Some r'
    \<and> wl_reconcileAttempts r' = int (length tks)
    \<and> (if length tks < 5
       then wl_reconciliationSuspendedAt r' = None
          \<and> wl_nextReconcileAttemptAt r' = Some (fst (last tks) + 30000 * 2 ^ length tks)
       else wl_reconciliationSuspendedAt r' = Some (fst (last tks)) \<and> wl_nextReconcileAttemptAt r' = None
          \<and> \<not> due w' r')"
proof -
  let ?r = "failures (map fst tks) r"
  have found: "find_workload wid (failed_results tks w) = Some ?r"
    using assms(1-4) by (rule failed_results_row)
  have att: "wl_reconcileAttempts ?r = int (length tks)" using assms(5) by (simp add: failures_attempts)
  have ne: "map fst tks \<noteq> []" and last: "last (map fst tks) = fst (last tks)"
    using assms(6) by (simp_all add: last_map)
  have small: "reconcileBackoffMs (int n) = 30000 * 2 ^ n" if "n < 5" for n
  proof -
    have "n = 0 \<or> n = 1 \<or> n = 2 \<or> n = 3 \<or> n = 4" using that by arith
    then show ?thesis by (auto simp: reconcileBackoffMs_def MAX_BACKOFF_MS_def BASE_BACKOFF_MS_def)
  qed
  have "wl_reconciliationSuspendedAt ?r = (if 5 \<le> length tks then Some (fst (last tks)) else None)"
    "wl_nextReconcileAttemptAt ?r =
       (if 5 \<le> length tks then None else Some (fst (last tks) + reconcileBackoffMs (int (length tks))))"
    using failures_last [OF ne, of r] assms(5) last by (auto simp: MAX_RECONCILE_ATTEMPTS_def)
  with found att small show ?thesis by (auto simp: due_def)
qed

theorem five_failures_suspend_witness:
  "\<exists>r'. find_workload ''w1'' (failed_results [(1, ''k''), (2, ''k''), (3, ''k''), (4, ''k''), (5, ''k'')]
      (sample_in_flight ''a1'' ''bot.start'')) = Some r' \<and> wl_reconciliationSuspendedAt r' = Some 5"
proof -
  have "\<exists>c. find_command k (sample_in_flight ''a1'' ''bot.start'') = Some c \<and> command_of ''w1'' ''a1'' c"
    if "(t, k) \<in> set [(1::int, ''k''), (2, ''k''), (3, ''k''), (4, ''k''), (5, ''k'')]" for t k
    using that by (auto simp: command_of_def)
  from five_failures_suspend [of "[(1, ''k''), (2, ''k''), (3, ''k''), (4, ''k''), (5, ''k'')]", OF this]
  show ?thesis by fastforce
qed

text \<open>
  A command that was recorded but could not be enqueued blocks its workload for good: after a
  send that failed because no queue is configured, no tick acts on the workload, at any later time
  and even with the queue configured again, as long as the stored commands are as they were left:
  nothing will ever deliver the pending command, and nothing times it out.
\<close>
theorem unqueued_command_blocks_reconciliation:
  assumes "\<not> w_redis w" "uuid_unused pf w" "find_workload wid w = Some r"
    and "truthy (wl_assignedAgentId r) = Some a" "find_agent a w \<noteq> None" "int4 (wl_generation r)"
  shows "\<exists>w'. sendWorkloadCommand pf wid ct actor w = (Inl QueueNotConfigured, w')
    \<and> w_queue w' = w_queue w
    \<and> (\<forall>t b. w_commands later = w_commands w' \<longrightarrow> \<not> due later (r\<lparr>wl_desiredState := b, wl_observedState := t\<rparr>))"
proof -
  obtain w' cmd where w': "sendWorkloadCommand pf wid ct actor w = (Inl QueueNotConfigured, w')"
      "w_queue w' = w_queue w" "w_commands w' = w_commands w @ [cmd]" "ac_status cmd = CmdPending"
      "ac_workloadId cmd = Some wid"
    using send_without_queue [OF assms, of ct actor] by blast
  have "wl_id r = wid" using assms(3) by (rule find_workload_id)
  with w' have "\<not> due later (r\<lparr>wl_desiredState := b, wl_observedState := t\<rparr>)"
    if "w_commands later = w_commands w'" for t b
    using that by (auto simp: due_def in_flight_def find_None_iff)
  with w' show ?thesis by blast
qed

theorem unqueued_command_blocks_reconciliation_witness:
  "\<exists>w'. sendWorkloadCommand sample_platform ''w1'' CtStart None (sample_world\<lparr>w_redis := False\<rparr>)
      = (Inl QueueNotConfigured, w')"
  using unqueued_command_blocks_reconciliation [of "sample_world\<lparr>w_redis := False\<rparr>" sample_platform "''w1''"
      "sample_workload_row ''w1'' (Some ''a1'')" "''a1''" CtStart None sample_world]
  by auto

end
