(* ===== verification/Enrollment.thy ===== *)
theory Enrollment
  imports Workloads
begin

text \<open>
  \<open>lib/agents/enrollment.ts\<close> (single-use enrollment tokens and their restrictions) and
  \<open>lib/agents/credential.ts\<close> (the bearer credential of an agent: issue, verify, revoke). Tokens and
  secrets are stored as their SHA-256 only; the hash is the platform's, and what the proofs use of it
  is stated where they use it.
\<close>

subsection \<open>Tokens\<close>

definition DEFAULT_TTL_MS :: int where
  "DEFAULT_TTL_MS = 30 * 60 * 1000"

definition restrictions_json :: "enrollment_restrictions \<Rightarrow> json" where
  "restrictions_json e = JObj
     ((case er_environment e of None \<Rightarrow> [] | Some v \<Rightarrow> [(''environment'', JStr v)])
    @ (case er_requiredLabels e of None \<Rightarrow> []
       | Some ls \<Rightarrow> [(''requiredLabels'', JObj (map (\<lambda>(k, v). (k, JStr v)) ls))]))"

record created_token =
  ct_id :: string
  ct_plaintextToken :: string
  ct_expiresAt :: int

definition createEnrollmentToken ::
    "platform \<Rightarrow> string \<Rightarrow> enrollment_restrictions option \<Rightarrow> int option \<Rightarrow> created_token act" where
  "createEnrollmentToken pf actorUserId restrictions ttl =
     andThen (generateRandomToken pf) (\<lambda>plaintextToken.
     let tokenHash = hashToken pf plaintextToken in
     andThen (gets w_now) (\<lambda>now.
     let expiresAt = now + (case ttl of None \<Rightarrow> DEFAULT_TTL_MS | Some t \<Rightarrow> t) in
     andThen (next_cuid pf) (\<lambda>i. andThen (gets w_tokens) (\<lambda>rows.
       if tokenHash \<in> tk_tokenHash ` set rows then raise (UniqueViolation ''token_hash'')
       else andThen (modify (\<lambda>w. w\<lparr>w_tokens := w_tokens w @
              [\<lparr>tk_id = i, tk_tokenHash = tokenHash, tk_restrictionsJson = restrictions,
                tk_expiresAt = expiresAt, tk_usedAt = None, tk_usedByAgentId = None,
                tk_createdById = Some actorUserId\<rparr>]\<rparr>)) (\<lambda>_.
            andThen (writeAuditLog (Some actorUserId) ''agent.enrollment_token_created'' ''enrollment_token'' i
              (Some (JObj [(''expiresAt'', JStr (pf_isoString pf expiresAt)),
                 (''restrictions'', case restrictions of None \<Rightarrow> JNull | Some e \<Rightarrow> restrictions_json e)]))) (\<lambda>_.
            ret \<lparr>ct_id = i, ct_plaintextToken = plaintextToken, ct_expiresAt = expiresAt\<rparr>))))))"

datatype refusal = NotFound | Expired | AlreadyUsed

fun refusal_name :: "refusal \<Rightarrow> string" where
  "refusal_name NotFound = ''not_found''"
| "refusal_name Expired = ''expired''"
| "refusal_name AlreadyUsed = ''already_used''"

datatype consume_result =
  Consumed string "enrollment_restrictions option"
| NotConsumed refusal

definition claimable :: "string \<Rightarrow> int \<Rightarrow> token_row \<Rightarrow> bool" where
  "claimable h now r \<longleftrightarrow> tk_tokenHash r = h \<and> tk_usedAt r = None \<and> now < tk_expiresAt r"

definition find_token :: "string \<Rightarrow> world \<Rightarrow> token_row option" where
  "find_token h w = findBy tk_tokenHash h (w_tokens w)"

definition claim_row :: "int \<Rightarrow> string \<Rightarrow> token_row \<Rightarrow> token_row" where
  "claim_row now agentId r = r\<lparr>tk_usedAt := Some now, tk_usedByAgentId := Some agentId\<rparr>"

definition consumeEnrollmentToken :: "platform \<Rightarrow> string \<Rightarrow> string \<Rightarrow> consume_result act" where
  "consumeEnrollmentToken pf plaintextToken agentId =
     (let tokenHash = hashToken pf plaintextToken in
     andThen (gets w_now) (\<lambda>now.
     andThen (gets (\<lambda>w. length (filter (claimable tokenHash now) (w_tokens w)))) (\<lambda>count.
     andThen (modify (\<lambda>w. w\<lparr>w_tokens := updateWhere (claimable tokenHash now) (claim_row now agentId) (w_tokens w)\<rparr>)) (\<lambda>_.
     andThen (gets (find_token tokenHash)) (\<lambda>found.
       if count = 0
       then (case found of
           None \<Rightarrow> ret (NotConsumed NotFound)
         | Some row \<Rightarrow> if tk_usedAt row \<noteq> None then ret (NotConsumed AlreadyUsed) else ret (NotConsumed Expired))
       else (case found of
           None \<Rightarrow> raise (RecordNotFound ''enrollment_token'')
         | Some row \<Rightarrow>
             andThen (writeAuditLog (tk_createdById row) ''agent.enrollment_token_consumed'' ''enrollment_token''
               (tk_id row) (Some (JObj [(''agentId'', JStr agentId)]))) (\<lambda>_.
             ret (Consumed (tk_id row) (tk_restrictionsJson row)))))))))"

definition restrictionsSatisfied :: "enrollment_restrictions option \<Rightarrow> entries \<Rightarrow> bool" where
  "restrictionsSatisfied restrictions agentLabels = (case restrictions of
     None \<Rightarrow> True
   | Some e \<Rightarrow>
       if (case truthy (er_environment e) of None \<Rightarrow> False
           | Some env \<Rightarrow> map_of agentLabels ''environment'' \<noteq> Some env) then False
       else (case er_requiredLabels e of
           None \<Rightarrow> True
         | Some ls \<Rightarrow> list_all (\<lambda>(k, v). map_of agentLabels k = Some v) ls))"

subsection \<open>Credentials\<close>

record issued =
  is_secret :: string
  is_fingerprint :: string

definition issueCredential :: "platform \<Rightarrow> string \<Rightarrow> issued act" where
  "issueCredential pf agentId =
     andThen (generateRandomToken pf) (\<lambda>secret.
     let fingerprint = hashToken pf secret in
     andThen (next_cuid pf) (\<lambda>i. andThen (gets id) (\<lambda>w.
       if fingerprint \<in> cr_fingerprint ` set (w_credentials w) then raise (UniqueViolation ''fingerprint'')
       else if find_agent agentId w = None then raise (ForeignKeyViolation ''agent_id'')
       else andThen (modify (\<lambda>w. w\<lparr>w_credentials := w_credentials w @
              [\<lparr>cr_id = i, cr_agentId = agentId, cr_fingerprint = fingerprint, cr_status = CredActive,
                cr_issuedAt = w_now w, cr_expiresAt = None, cr_revokedAt = None\<rparr>]\<rparr>)) (\<lambda>_.
            ret \<lparr>is_secret = secret, is_fingerprint = fingerprint\<rparr>))))"

definition find_credential :: "string \<Rightarrow> world \<Rightarrow> credential_row option" where
  "find_credential f w = findBy cr_fingerprint f (w_credentials w)"

definition verifyCredential :: "platform \<Rightarrow> string \<Rightarrow> string \<Rightarrow> world \<Rightarrow> bool" where
  "verifyCredential pf agentId presentedSecret w =
     (case find_credential (hashToken pf presentedSecret) w of
        None \<Rightarrow> False
      | Some c \<Rightarrow>
          if cr_agentId c \<noteq> agentId then False
          else if cr_status c \<noteq> CredActive then False
          else (case cr_expiresAt c of None \<Rightarrow> True | Some t \<Rightarrow> \<not> t < w_now w))"

definition revokeCredential :: "string \<Rightarrow> unit act" where
  "revokeCredential agentId = modify (\<lambda>w. w\<lparr>w_credentials :=
     updateWhere (\<lambda>c. cr_agentId c = agentId \<and> cr_status c = CredActive)
       (\<lambda>c. c\<lparr>cr_status := CredRevoked, cr_revokedAt := Some (w_now w)\<rparr>) (w_credentials w)\<rparr>)"

subsection \<open>Redeeming a token\<close>

definition tokens_ok :: "world \<Rightarrow> bool" where
  "tokens_ok w \<longleftrightarrow> distinct (map tk_tokenHash (w_tokens w))"

lemma claim_count:
  "length (filter (claimable h now) (w_tokens w)) = 0 \<longleftrightarrow> (\<forall>r\<in>set (w_tokens w). \<not> claimable h now r)"
  by (auto simp: filter_empty_conv)

lemma claimable_find:
  assumes "tokens_ok w" "r \<in> set (w_tokens w)" "claimable h now r"
  shows "find_token h w = Some r"
  using assms findBy_Some_distinct [of tk_tokenHash "w_tokens w" r]
  by (auto simp: tokens_ok_def find_token_def claimable_def)

lemma find_claimed:
  "findBy tk_tokenHash h' (updateWhere (claimable h now) (claim_row now a) rows) =
     map_option (\<lambda>r. if claimable h now r then claim_row now a r else r) (findBy tk_tokenHash h' rows)"
  by (rule findBy_updateWhere) (simp add: claim_row_def)

text \<open>
  Redeeming an enrollment token answers by the state of its row, on every branch: no row with
  its hash is "not_found", a used row "already_used", an unused row past its expiry "expired", and
  nothing is written; otherwise the row is marked as used now by this agent, the redemption is
  audited, and the row's restrictions are returned. No other token changes.
\<close>
lemma consume_effect:
  assumes "tokens_ok w"
  shows "case find_token (hashToken pf p) w of
     None \<Rightarrow> consumeEnrollmentToken pf p a w = (Inr (NotConsumed NotFound), w)
   | Some r \<Rightarrow>
       if tk_usedAt r \<noteq> None then consumeEnrollmentToken pf p a w = (Inr (NotConsumed AlreadyUsed), w)
       else if tk_expiresAt r \<le> w_now w then consumeEnrollmentToken pf p a w = (Inr (NotConsumed Expired), w)
       else \<exists>w'. consumeEnrollmentToken pf p a w = (Inr (Consumed (tk_id r) (tk_restrictionsJson r)), w')
         \<and> find_token (hashToken pf p) w' = Some (claim_row (w_now w) a r)
         \<and> (\<forall>h. h \<noteq> hashToken pf p \<longrightarrow> find_token h w' = find_token h w)
         \<and> tokens_ok w' \<and> w_agents w' = w_agents w \<and> w_workloads w' = w_workloads w
         \<and> w_credentials w' = w_credentials w"
proof (cases "find_token (hashToken pf p) w")
  case None
  then have none: "\<not> claimable (hashToken pf p) (w_now w) r" if "r \<in> set (w_tokens w)" for r
    using that by (auto simp: find_token_def findBy_None claimable_def image_iff)
  have same: "updateWhere (claimable (hashToken pf p) (w_now w)) (claim_row (w_now w) a) (w_tokens w) = w_tokens w"
    by (rule updateWhere_other) (rule none)
  from None none show ?thesis
    by (simp add: consumeEnrollmentToken_def Let_def run_simps same claim_count)
next
  case r: (Some r)
  then have hash: "tk_tokenHash r = hashToken pf p" and mem: "r \<in> set (w_tokens w)"
    unfolding find_token_def by (auto dest: findBy_key findBy_in)
  show ?thesis
  proof (cases "claimable (hashToken pf p) (w_now w) r")
    case False
    then have none: "\<not> claimable (hashToken pf p) (w_now w) r'" if "r' \<in> set (w_tokens w)" for r'
      using claimable_find [OF assms that, of "hashToken pf p" "w_now w"] r by auto
    have same: "updateWhere (claimable (hashToken pf p) (w_now w)) (claim_row (w_now w) a) (w_tokens w) = w_tokens w"
      by (rule updateWhere_other) (rule none)
    from r none False hash show ?thesis
      by (auto simp: consumeEnrollmentToken_def Let_def run_simps same claim_count claimable_def)
  next
    case True
    have count: "filter (claimable (hashToken pf p) (w_now w)) (w_tokens w) \<noteq> []"
      using True mem by (auto simp: filter_empty_conv)
    have valid: "tk_usedAt r = None" "\<not> tk_expiresAt r \<le> w_now w" using True by (simp_all add: claimable_def)
    have found: "findBy tk_tokenHash (hashToken pf p)
        (updateWhere (claimable (hashToken pf p) (w_now w)) (claim_row (w_now w) a) (w_tokens w)) =
        Some (claim_row (w_now w) a r)"
      using r True by (simp add: find_claimed find_token_def)
    have other: "findBy tk_tokenHash h
        (updateWhere (claimable (hashToken pf p) (w_now w)) (claim_row (w_now w) a) (w_tokens w)) =
        findBy tk_tokenHash h (w_tokens w)" if "h \<noteq> hashToken pf p" for h
      using that by (cases "findBy tk_tokenHash h (w_tokens w)")
        (auto simp: find_claimed claimable_def dest: findBy_key)
    have keys: "map tk_tokenHash (updateWhere (claimable (hashToken pf p) (w_now w)) (claim_row (w_now w) a)
        (w_tokens w)) = map tk_tokenHash (w_tokens w)"
      by (rule updateWhere_keys) (simp add: claim_row_def)
    have "tk_id (claim_row (w_now w) a r) = tk_id r" "tk_restrictionsJson (claim_row (w_now w) a r) = tk_restrictionsJson r"
      by (simp_all add: claim_row_def)
    with r valid count found other keys assms show ?thesis
      by (simp add: consumeEnrollmentToken_def Let_def run_simps find_token_def tokens_ok_def)
  qed
qed

lemma consume_frame:
  "w_agents (snd (consumeEnrollmentToken pf p a w)) = w_agents w"
  "w_workloads (snd (consumeEnrollmentToken pf p a w)) = w_workloads w"
  "w_commands (snd (consumeEnrollmentToken pf p a w)) = w_commands w"
  "w_credentials (snd (consumeEnrollmentToken pf p a w)) = w_credentials w"
  "w_queue (snd (consumeEnrollmentToken pf p a w)) = w_queue w"
  "w_seq (snd (consumeEnrollmentToken pf p a w)) = w_seq w"
  "w_now (snd (consumeEnrollmentToken pf p a w)) = w_now w"
  "w_redis (snd (consumeEnrollmentToken pf p a w)) = w_redis w"
  by (auto simp: consumeEnrollmentToken_def Let_def run_simps split: option.split)

text \<open>
  The life of the token table: tokens are created and redeemed, everything else leaves it alone
  (time included).
\<close>

inductive token_steps :: "platform \<Rightarrow> world \<Rightarrow> world \<Rightarrow> bool" for pf where
  stay: "token_steps pf w w"
| create: "token_steps pf w w' \<Longrightarrow> token_steps pf w (snd (createEnrollmentToken pf actor rs ttl w'))"
| consume: "token_steps pf w w' \<Longrightarrow> token_steps pf w (snd (consumeEnrollmentToken pf p a w'))"
| other: "token_steps pf w w' \<Longrightarrow> w_tokens w'' = w_tokens w' \<Longrightarrow> token_steps pf w w''"

inductive_cases token_stepsE: "token_steps pf w w'"

lemma create_token_tokens:
  "w_tokens (snd (createEnrollmentToken pf actor rs ttl w)) = w_tokens w
   \<or> (\<exists>r. tk_tokenHash r \<notin> tk_tokenHash ` set (w_tokens w) \<and> tk_usedAt r = None
        \<and> w_tokens (snd (createEnrollmentToken pf actor rs ttl w)) = w_tokens w @ [r])"
  by (auto simp: createEnrollmentToken_def Let_def run_simps intro!: exI)

definition used_token :: "string \<Rightarrow> world \<Rightarrow> bool" where
  "used_token h w \<longleftrightarrow> tokens_ok w \<and> (\<exists>r. find_token h w = Some r \<and> tk_usedAt r \<noteq> None)"

lemma keeps_used_create: "keeps (used_token h) (createEnrollmentToken pf actor rs ttl)"
proof (rule keepsI)
  fix w assume "used_token h w"
  then show "used_token h (snd (createEnrollmentToken pf actor rs ttl w))"
    using create_token_tokens [of pf actor rs ttl w]
    by (auto simp: used_token_def tokens_ok_def find_token_def findBy_append)
qed

lemma keeps_used_consume: "keeps (used_token h) (consumeEnrollmentToken pf p a)"
proof (rule keepsI)
  fix w assume used: "used_token h w"
  then have ok: "tokens_ok w" by (simp add: used_token_def)
  show "used_token h (snd (consumeEnrollmentToken pf p a w))"
  proof (cases "find_token (hashToken pf p) w")
    case None
    with consume_effect [OF ok, of pf p a] used show ?thesis by simp
  next
    case (Some r)
    show ?thesis
    proof (cases "tk_usedAt r \<noteq> None \<or> tk_expiresAt r \<le> w_now w")
      case True
      with consume_effect [OF ok, of pf p a] used Some show ?thesis by (auto split: if_splits)
    next
      case False
      with consume_effect [OF ok, of pf p a] Some obtain w' where
        "snd (consumeEnrollmentToken pf p a w) = w'" "tokens_ok w'"
        "\<forall>h. h \<noteq> hashToken pf p \<longrightarrow> find_token h w' = find_token h w"
        by auto
      moreover have "h \<noteq> hashToken pf p" using used Some False by (auto simp: used_token_def)
      ultimately show ?thesis using used by (simp add: used_token_def)
    qed
  qed
qed

lemma used_token_steps: "token_steps pf w w' \<Longrightarrow> used_token h w \<Longrightarrow> used_token h w'"
proof (induction rule: token_steps.induct)
  case (other w w' w'')
  then show ?case by (simp add: used_token_def tokens_ok_def find_token_def)
qed (auto dest: keepsD [OF keeps_used_create] keepsD [OF keeps_used_consume])

text \<open>
  C8: an enrollment token is redeemed at most once. After a redemption succeeded, every later
  redemption of the same token, by any agent, after any time and any further creations and
  redemptions, is refused as "already used" and changes nothing.
\<close>
theorem token_single_use:
  assumes "tokens_ok w" "consumeEnrollmentToken pf p a w = (Inr (Consumed i rs), w1)"
    and "token_steps pf w1 w2"
  shows "consumeEnrollmentToken pf p a' w2 = (Inr (NotConsumed AlreadyUsed), w2)"
proof -
  have "used_token (hashToken pf p) w1"
    using consume_effect [OF assms(1), of pf p a] assms(2)
    by (cases "find_token (hashToken pf p) w")
      (auto simp: used_token_def claim_row_def split: if_splits)
  with assms(3) have "used_token (hashToken pf p) w2" by (rule used_token_steps)
  then show ?thesis
    using consume_effect [of w2 pf p a'] by (auto simp: used_token_def)
qed

definition sample_token_row :: token_row where
  "sample_token_row = \<lparr>tk_id = ''tok'', tk_tokenHash = ''hsecret'', tk_restrictionsJson = None,
     tk_expiresAt = 5000, tk_usedAt = None, tk_usedByAgentId = None, tk_createdById = Some ''admin''\<rparr>"

definition sample_token_world :: world where
  "sample_token_world = sample_world\<lparr>w_tokens := [sample_token_row]\<rparr>"

lemma sample_token_facts [simp]:
  "tokens_ok sample_token_world" "w_now sample_token_world = 1000"
  "hashToken sample_platform ''secret'' = ''hsecret''"
  "find_token ''hsecret'' sample_token_world = Some sample_token_row"
  "tk_usedAt sample_token_row = None" "tk_expiresAt sample_token_row = 5000"
  "tk_id sample_token_row = ''tok''" "tk_restrictionsJson sample_token_row = None"
  by (simp_all add: tokens_ok_def sample_token_world_def sample_token_row_def sample_world_def
      hashToken_def sample_platform_def find_token_def)

theorem token_single_use_witness:
  "\<exists>w1. consumeEnrollmentToken sample_platform ''secret'' ''a1'' sample_token_world = (Inr (Consumed ''tok'' None), w1)
     \<and> consumeEnrollmentToken sample_platform ''secret'' ''a2'' w1 = (Inr (NotConsumed AlreadyUsed), w1)"
proof -
  obtain w1 where "consumeEnrollmentToken sample_platform ''secret'' ''a1'' sample_token_world = (Inr (Consumed ''tok'' None), w1)"
    using consume_effect [of sample_token_world sample_platform "''secret''" "''a1''"] by auto
  with token_single_use [OF _ this stay, of "''a2''"] show ?thesis by simp
qed

text \<open>
  The restrictions of a token narrow and never widen: an agent satisfies them exactly when its
  labels carry the required environment (if a non-empty one is required) and every required label
  with the required value.
\<close>
theorem restrictions_iff:
  "restrictionsSatisfied rs labels \<longleftrightarrow>
     (\<forall>e. rs = Some e \<longrightarrow>
        (\<forall>env. er_environment e = Some env \<and> env \<noteq> '''' \<longrightarrow> map_of labels ''environment'' = Some env)
      \<and> (\<forall>ls k v. er_requiredLabels e = Some ls \<and> (k, v) \<in> set ls \<longrightarrow> map_of labels k = Some v))"
  by (cases rs; cases "er_environment (the rs)")
    (auto simp: restrictionsSatisfied_def list_all_iff truthy_if split: option.splits if_splits)

definition sample_restrictions :: enrollment_restrictions where
  "sample_restrictions = \<lparr>er_environment = Some ''production'', er_requiredLabels = Some [(''tier'', ''gold'')]\<rparr>"

theorem restrictions_iff_witness:
  "\<not> restrictionsSatisfied (Some sample_restrictions) [(''environment'', ''staging''), (''tier'', ''gold'')]"
  using restrictions_iff [of "Some sample_restrictions" "[(''environment'', ''staging''), (''tier'', ''gold'')]"]
  by (simp add: sample_restrictions_def)

subsection \<open>Credentials\<close>

lemma verify_iff:
  "verifyCredential pf b s w \<longleftrightarrow> (\<exists>x. find_credential (hashToken pf s) w = Some x \<and> cr_agentId x = b
     \<and> cr_status x = CredActive \<and> (\<forall>e. cr_expiresAt x = Some e \<longrightarrow> w_now w \<le> e))"
  by (auto simp: verifyCredential_def not_less split: option.split)

lemma issue_cases:
  assumes "issueCredential pf a w = (Inr c, w')"
  shows "w_now w' = w_now w \<and> is_fingerprint c = hashToken pf (is_secret c) \<and> is_fingerprint c \<notin> cr_fingerprint ` set (w_credentials w)
    \<and> (\<exists>row. w_credentials w' = w_credentials w @ [row] \<and> cr_agentId row = a
         \<and> cr_fingerprint row = is_fingerprint c \<and> cr_status row = CredActive \<and> cr_expiresAt row = None)"
  using assms by (auto simp: issueCredential_def Let_def run_simps split: if_splits)

text \<open>
  The life of a credential. Right after it is issued, its secret is accepted for its agent and
  for no other agent, and no other secret changes its meaning (secrets being told apart by their
  hash); it stays accepted as time passes. Revoking makes every secret of the agent unusable and
  leaves the other agents' secrets as they were.
\<close>
theorem credential_lifecycle:
  assumes "issueCredential pf a w = (Inr c, w')"
  shows "verifyCredential pf a (is_secret c) (w'\<lparr>w_now := t\<rparr>)
    \<and> (b \<noteq> a \<longrightarrow> \<not> verifyCredential pf b (is_secret c) w')
    \<and> (hashToken pf s \<noteq> hashToken pf (is_secret c) \<longrightarrow>
         verifyCredential pf b s w' = verifyCredential pf b s w)
    \<and> \<not> verifyCredential pf a s (snd (revokeCredential a w'))
    \<and> (b \<noteq> a \<longrightarrow> verifyCredential pf b s (snd (revokeCredential a w')) = verifyCredential pf b s w')"
proof -
  obtain row where row: "w_now w' = w_now w" "is_fingerprint c = hashToken pf (is_secret c)"
      "is_fingerprint c \<notin> cr_fingerprint ` set (w_credentials w)"
      "w_credentials w' = w_credentials w @ [row]" "cr_agentId row = a"
      "cr_fingerprint row = is_fingerprint c" "cr_status row = CredActive" "cr_expiresAt row = None"
    using issue_cases [OF assms] by blast
  have new: "findBy cr_fingerprint f (w_credentials w') =
      (if f = is_fingerprint c then Some row else findBy cr_fingerprint f (w_credentials w))" for f
    using row(3-6) findBy_None [of cr_fingerprint "is_fingerprint c" "w_credentials w"]
    by (auto simp: findBy_append split: option.split)
  have revoked: "findBy cr_fingerprint f (updateWhere p (\<lambda>c. c\<lparr>cr_status := CredRevoked, cr_revokedAt := t\<rparr>) rows) =
      map_option (\<lambda>c. if p c then c\<lparr>cr_status := CredRevoked, cr_revokedAt := t\<rparr> else c)
        (findBy cr_fingerprint f rows)" for f p t rows
    by (rule findBy_updateWhere) simp
  have find': "find_credential f (w'\<lparr>w_now := t\<rparr>) = (if f = is_fingerprint c then Some row else find_credential f w)"
    for f t
    using new by (simp add: find_credential_def)
  then have find: "find_credential f w' = (if f = is_fingerprint c then Some row else find_credential f w)" for f
    using find' [of f "w_now w'"] by simp
  have after: "verifyCredential pf b s (snd (revokeCredential a w')) \<longleftrightarrow> b \<noteq> a \<and> verifyCredential pf b s w'" for b s
  proof -
    have "w_now (snd (revokeCredential a w')) = w_now w'"
      "find_credential (hashToken pf s) (snd (revokeCredential a w')) = map_option
         (\<lambda>c. if cr_agentId c = a \<and> cr_status c = CredActive
            then c\<lparr>cr_status := CredRevoked, cr_revokedAt := Some (w_now w')\<rparr> else c)
         (find_credential (hashToken pf s) w')"
      by (simp_all add: revokeCredential_def find_credential_def run_simps revoked)
    then show ?thesis
      by (cases "find_credential (hashToken pf s) w'") (auto simp: verify_iff)
  qed
  have "verifyCredential pf a (is_secret c) (w'\<lparr>w_now := t\<rparr>)"
    using row find' by (simp add: verify_iff)
  moreover have "b \<noteq> a \<Longrightarrow> \<not> verifyCredential pf b (is_secret c) w'"
    using row find by (auto simp: verify_iff)
  moreover have "hashToken pf s \<noteq> hashToken pf (is_secret c) \<Longrightarrow>
      verifyCredential pf b s w' = verifyCredential pf b s w"
    using row find by (simp add: verify_iff)
  ultimately show ?thesis using after by blast
qed

theorem credential_lifecycle_witness:
  "\<exists>c w'. issueCredential sample_platform ''a1'' sample_world = (Inr c, w')
     \<and> verifyCredential sample_platform ''a1'' (is_secret c) (w'\<lparr>w_now := 99999\<rparr>)"
proof -
  have "w_credentials sample_world = []" by (simp add: sample_world_def)
  then obtain c w' where "issueCredential sample_platform ''a1'' sample_world = (Inr c, w')"
    by (auto simp: issueCredential_def Let_def run_simps)
  from credential_lifecycle [OF this, of 99999] this show ?thesis by blast
qed

end
