(* ===== verification/Gateway.thy ===== *)
theory Gateway
  imports Reconciliation Enrollment Replay_Guard
begin

text \<open>
  The agent gateway, \<open>lib/agent-gateway/server.ts\<close>: the WebSocket server agents connect to. Its state
  is the shared database and queue, the replay guard, the open connections with the per-connection
  state of the closure, and the map from agents to their live connection. Each event (upgrade,
  message, close, heartbeat check, queue job) is one computation. \<open>JSON.parse\<close> of a message is done
  before: a message is the parsed value, \<open>None\<close> when parsing threw.
\<close>

subsection \<open>State\<close>

record connection =
  cn_agentId :: "string option"
  cn_authenticated :: bool
  cn_lastHeartbeatAt :: int
  cn_open :: bool
  cn_sent :: "json list"
  cn_closed :: "(int \<times> string) option"

record gateway =
  gw_world :: world
  gw_replay :: replay_guard
  gw_live :: "string \<Rightarrow> nat option"
  gw_conns :: "nat \<Rightarrow> connection option"

type_synonym 'a gact = "(gateway, exn, 'a) run"

definition HEARTBEAT_INTERVAL_MS :: int where
  "HEARTBEAT_INTERVAL_MS = 15000"

definition HEARTBEAT_TIMEOUT_MS :: int where
  "HEARTBEAT_TIMEOUT_MS = 45000"

text \<open>A database call made by a handler.\<close>

definition on_world :: "'a act \<Rightarrow> 'a gact" where
  "on_world m = (\<lambda>g. case m (gw_world g) of (r, w) \<Rightarrow> (r, g\<lparr>gw_world := w\<rparr>))"

definition set_conn :: "nat \<Rightarrow> (connection \<Rightarrow> connection) \<Rightarrow> gateway \<Rightarrow> gateway" where
  "set_conn s f g = g\<lparr>gw_conns := (gw_conns g)(s := map_option f (gw_conns g s))\<rparr>"

definition send :: "nat \<Rightarrow> json \<Rightarrow> unit gact" where
  "send s msg = modify (set_conn s (\<lambda>c. if cn_open c then c\<lparr>cn_sent := cn_sent c @ [msg]\<rparr> else c))"

definition close :: "nat \<Rightarrow> int \<Rightarrow> string \<Rightarrow> unit gact" where
  "close s code reason = modify (set_conn s (\<lambda>c. c\<lparr>cn_open := False, cn_closed := Some (code, reason)\<rparr>))"

definition set_status :: "agent_status \<Rightarrow> agent_row \<Rightarrow> agent_row" where
  "set_status st r = r\<lparr>ag_status := st\<rparr>"

subsection \<open>Connecting and disconnecting\<close>

definition starts_with :: "string \<Rightarrow> string \<Rightarrow> bool" where
  "starts_with p s \<longleftrightarrow> take (length p) s = p"

text \<open>\<open>Bearer <agentId>:<secret>\<close>; what follows a second colon is ignored.\<close>

definition parse_bearer :: "string option \<Rightarrow> (string \<times> string) option" where
  "parse_bearer authHeader = (case authHeader of
     None \<Rightarrow> None
   | Some h \<Rightarrow>
       if starts_with ''Bearer '' h
       then (case split_on CHR '':'' (drop (length ''Bearer '') h) of
           agentId # secret # _ \<Rightarrow> if agentId \<noteq> '''' \<and> secret \<noteq> '''' then Some (agentId, secret) else None
         | _ \<Rightarrow> None)
       else None)"

definition new_connection :: "string option \<Rightarrow> int \<Rightarrow> connection" where
  "new_connection agent now = \<lparr>cn_agentId = agent, cn_authenticated = (agent \<noteq> None),
     cn_lastHeartbeatAt = now, cn_open = True, cn_sent = [], cn_closed = None\<rparr>"

definition connected :: "nat \<Rightarrow> string option \<Rightarrow> int \<Rightarrow> gateway \<Rightarrow> gateway" where
  "connected s agent now g = g\<lparr>gw_conns := (gw_conns g)(s \<mapsto> new_connection agent now),
     gw_live := (case agent of None \<Rightarrow> gw_live g | Some a \<Rightarrow> (gw_live g)(a \<mapsto> s))\<rparr>"

text \<open>\<open>server.on("upgrade")\<close> followed by \<open>wss.on("connection")\<close>; \<open>s\<close> is the new socket.\<close>

definition onUpgrade :: "platform \<Rightarrow> nat \<Rightarrow> string option \<Rightarrow> unit gact" where
  "onUpgrade pf s authHeader =
     andThen (gets (w_now \<circ> gw_world)) (\<lambda>now.
     case parse_bearer authHeader of
       None \<Rightarrow> modify (connected s None now)
     | Some (agentId, secret) \<Rightarrow>
         andThen (gets (verifyCredential pf agentId secret \<circ> gw_world)) (\<lambda>ok.
         if ok
         then andThen (catching (on_world (andThen (update_agent agentId (set_status Online)) (\<lambda>_. ret ())))) (\<lambda>_.
              modify (connected s (Some agentId) now))
         else modify (connected s None now)))"

definition onClose :: "nat \<Rightarrow> unit gact" where
  "onClose s = andThen (gets (\<lambda>g. gw_conns g s)) (\<lambda>conn. case conn of
     None \<Rightarrow> ret ()
   | Some c \<Rightarrow>
       andThen (modify (\<lambda>g. g\<lparr>gw_conns := (gw_conns g)(s := None)\<rparr>)) (\<lambda>_.
       case cn_agentId c of
         None \<Rightarrow> ret ()
       | Some a \<Rightarrow>
           andThen (modify (\<lambda>g. if gw_live g a = Some s then g\<lparr>gw_live := (gw_live g)(a := None)\<rparr> else g)) (\<lambda>_.
           catching (on_world (andThen (update_agent a (set_status Disconnected)) (\<lambda>_. ret ()))))))"

definition checkHeartbeatTimeout :: "nat \<Rightarrow> unit gact" where
  "checkHeartbeatTimeout s = andThen (gets id) (\<lambda>g. case gw_conns g s of
     None \<Rightarrow> ret ()
   | Some c \<Rightarrow> (case cn_agentId c of
       None \<Rightarrow> ret ()
     | Some a \<Rightarrow>
         if w_now (gw_world g) - cn_lastHeartbeatAt c \<le> HEARTBEAT_TIMEOUT_MS then ret ()
         else catching (on_world (andThen (update_agent a (set_status Disconnected)) (\<lambda>_. ret ())))))"

subsection \<open>Enrollment\<close>

definition new_agent :: "string \<Rightarrow> (string \<times> json) list \<Rightarrow> agent_row" where
  "new_agent i p =
     \<lparr>ag_id = i, ag_name = str_prop ''agentName'' p, ag_status = Enrolling,
      ag_protocolVersion = PROTOCOL_VERSION, ag_agentVersion = str_prop ''agentVersion'' p,
      ag_environment = as_string (propOf ''environment'' (map_of p ''labels'')),
      ag_region = as_string (propOf ''region'' (map_of p ''labels'')),
      ag_labelsJson = as_entries (map_of p ''labels''),
      ag_capabilitiesJson = map (\<lambda>v. case v of JStr s \<Rightarrow> s | _ \<Rightarrow> []) (as_list (map_of p ''capabilities'')),
      ag_hostname = str_prop ''hostname'' p, ag_architecture = str_prop ''architecture'' p,
      ag_operatingSystem = str_prop ''operatingSystem'' p,
      ag_totalMemoryMb = None, ag_availableMemoryMb = None, ag_cpuUsagePercent = None,
      ag_diskTotalMb = None, ag_diskAvailableMb = None, ag_lastHeartbeatAt = None\<rparr>"

definition create_agent :: "platform \<Rightarrow> (string \<times> json) list \<Rightarrow> agent_row act" where
  "create_agent pf p = andThen (next_cuid pf) (\<lambda>i.
     andThen (modify (\<lambda>w. w\<lparr>w_agents := w_agents w @ [new_agent i p]\<rparr>)) (\<lambda>_. ret (new_agent i p)))"

text \<open>
  \<open>db.agent.delete\<close>: refused while commands refer to the agent; its credentials are deleted with it
  and its workloads become unassigned, as the foreign keys of the schema say.
\<close>

definition delete_agent :: "string \<Rightarrow> unit act" where
  "delete_agent i = andThen (gets id) (\<lambda>w.
     if find_agent i w = None then raise (RecordNotFound ''agent'')
     else if i \<in> ac_agentId ` set (w_commands w) then raise (ForeignKeyViolation ''agent_id'')
     else modify (\<lambda>w. w\<lparr>w_agents := filter (\<lambda>a. ag_id a \<noteq> i) (w_agents w),
            w_credentials := filter (\<lambda>c. cr_agentId c \<noteq> i) (w_credentials w),
            w_workloads := updateWhere (\<lambda>r. wl_assignedAgentId r = Some i)
              (\<lambda>r. r\<lparr>wl_assignedAgentId := None\<rparr>) (w_workloads w)\<rparr>))"

definition accepted_payload :: "string \<Rightarrow> issued \<Rightarrow> (string \<times> json) list" where
  "accepted_payload agentId c =
     [(''agentId'', JStr agentId), (''agentCredentialFingerprint'', JStr (is_fingerprint c)),
      (''heartbeatIntervalMs'', JNum (of_int HEARTBEAT_INTERVAL_MS)), (''credentialSecret'', JStr (is_secret c))]"

definition handleEnroll :: "platform \<Rightarrow> nat \<Rightarrow> (string \<times> json) list \<Rightarrow> unit gact" where
  "handleEnroll pf s p =
     andThen (on_world (create_agent pf p)) (\<lambda>agent.
     andThen (on_world (consumeEnrollmentToken pf (str_prop ''enrollmentToken'' p) (ag_id agent))) (\<lambda>consumed.
     case consumed of
       NotConsumed reason \<Rightarrow>
         andThen (on_world (delete_agent (ag_id agent))) (\<lambda>_.
         close s 4001 (''enrollment_failed:'' @ refusal_name reason))
     | Consumed _ restrictions \<Rightarrow>
         if \<not> restrictionsSatisfied restrictions (as_entries (map_of p ''labels''))
         then andThen (on_world (delete_agent (ag_id agent))) (\<lambda>_.
              close s 4003 ''enrollment_failed:restrictions_not_satisfied'')
         else
           andThen (on_world (issueCredential pf (ag_id agent))) (\<lambda>credential.
           andThen (gets (w_now \<circ> gw_world)) (\<lambda>now.
           andThen (on_world (update_agent (ag_id agent)
             (\<lambda>r. r\<lparr>ag_status := Online, ag_lastHeartbeatAt := Some now\<rparr>))) (\<lambda>_.
           andThen (on_world (writeAuditLog None ''agent.enrolled'' ''agent'' (ag_id agent)
             (Some (JObj [(''hostname'', JStr (str_prop ''hostname'' p)),
                (''capabilities'', JArr (as_list (map_of p ''capabilities'')))])))) (\<lambda>_.
           andThen (modify (set_conn s (\<lambda>c. c\<lparr>cn_agentId := Some (ag_id agent), cn_authenticated := True,
             cn_lastHeartbeatAt := now\<rparr>))) (\<lambda>_.
           andThen (modify (\<lambda>g. g\<lparr>gw_live := (gw_live g)(ag_id agent \<mapsto> s)\<rparr>)) (\<lambda>_.
           andThen (on_world (control_message pf ''agent.accepted'' (accepted_payload (ag_id agent) credential))) (\<lambda>msg.
           send s msg)))))))))"

subsection \<open>Messages of an enrolled agent\<close>

definition int_prop :: "string \<Rightarrow> (string \<times> json) list \<Rightarrow> int" where
  "int_prop k kvs = \<lfloor>num_prop k kvs\<rfloor>"

definition heartbeat_row :: "int \<Rightarrow> (string \<times> json) list \<Rightarrow> agent_row \<Rightarrow> agent_row" where
  "heartbeat_row now res r =
     r\<lparr>ag_status := Online, ag_lastHeartbeatAt := Some now,
       ag_cpuUsagePercent := Some (num_prop ''cpuUsagePercent'' res),
       ag_totalMemoryMb := Some (int_prop ''memoryTotalMb'' res),
       ag_availableMemoryMb := Some (int_prop ''memoryAvailableMb'' res),
       ag_diskTotalMb := (case as_int (map_of res ''diskTotalMb'') of None \<Rightarrow> ag_diskTotalMb r | Some x \<Rightarrow> Some x),
       ag_diskAvailableMb := (case as_int (map_of res ''diskAvailableMb'') of
          None \<Rightarrow> ag_diskAvailableMb r | Some x \<Rightarrow> Some x)\<rparr>"

definition resources_fit :: "(string \<times> json) list \<Rightarrow> bool" where
  "resources_fit res \<longleftrightarrow> int4 (int_prop ''memoryTotalMb'' res) \<and> int4 (int_prop ''memoryAvailableMb'' res)
     \<and> int4_opt (as_int (map_of res ''diskTotalMb'')) \<and> int4_opt (as_int (map_of res ''diskAvailableMb''))"

definition handleHeartbeat :: "string option \<Rightarrow> (string \<times> json) list \<Rightarrow> unit act" where
  "handleHeartbeat agent p =
     (case truthy agent of
        None \<Rightarrow> ret ()
      | Some a \<Rightarrow>
          if str_prop ''agentId'' p \<noteq> a then ret ()
          else let res = entries_of (map_of p ''resources'') in
            if \<not> resources_fit res then raise (IntOutOfRange (int_prop ''memoryTotalMb'' res))
            else andThen (gets w_now) (\<lambda>now. andThen (update_agent a (heartbeat_row now res)) (\<lambda>_. ret ())))"

definition fence_entry :: "platform \<Rightarrow> string \<Rightarrow> json \<Rightarrow> unit act" where
  "fence_entry pf a entry =
     (let e = entries_of (Some entry) in
      andThen (gets (find_workload (str_prop ''workloadId'' e))) (\<lambda>found. case found of
        None \<Rightarrow> ret ()
      | Some workload \<Rightarrow>
          if wl_assignedAgentId workload = Some a then ret ()
          else fenceStaleAgent pf a (str_prop ''workloadId'' e) (str_prop ''botId'' e) (int_prop ''generation'' e)))"

definition handleInventory :: "platform \<Rightarrow> string option \<Rightarrow> (string \<times> json) list \<Rightarrow> unit act" where
  "handleInventory pf agent p =
     (case truthy agent of
        None \<Rightarrow> ret ()
      | Some a \<Rightarrow>
          if str_prop ''agentId'' p \<noteq> a then ret ()
          else forEach (as_list (map_of p ''workloads'')) () (\<lambda>entry _. fence_entry pf a entry))"

definition handleCommandAck :: "(string \<times> json) list \<Rightarrow> unit act" where
  "handleCommandAck p = modify (\<lambda>w. w\<lparr>w_commands :=
     updateWhere (\<lambda>c. ac_idempotencyKey c = str_prop ''idempotencyKey'' p \<and> ac_status c = CmdPending)
       (\<lambda>c. c\<lparr>ac_status := CmdAccepted, ac_acceptedAt := Some (w_now w)\<rparr>) (w_commands w)\<rparr>)"

definition handleCommandResult :: "(string \<times> json) list \<Rightarrow> unit act" where
  "handleCommandResult p = markCommandOutcome (str_prop ''idempotencyKey'' p)
     (str_prop ''status'' p = ''succeeded'') (as_string (map_of p ''safeError''))"

definition handleAuthenticated :: "platform \<Rightarrow> string option \<Rightarrow> string \<Rightarrow> (string \<times> json) list \<Rightarrow> unit act" where
  "handleAuthenticated pf agent t p =
     (if t = ''agent.heartbeat'' then handleHeartbeat agent p
      else if t = ''agent.inventory'' then handleInventory pf agent p
      else if t = ''agent.command_ack'' then catching (handleCommandAck p)
      else if t = ''agent.command_result'' then handleCommandResult p
      else ret ())"

definition handleMessage :: "platform \<Rightarrow> nat \<Rightarrow> json option \<Rightarrow> unit gact" where
  "handleMessage pf s raw = (case raw of
     None \<Rightarrow> ret ()
   | Some parsedJson \<Rightarrow> (case parseAgentToControlPlaneMessage (pf_safeParse pf) parsedJson of
       ParseOk message \<Rightarrow>
         andThen (gets id) (\<lambda>g.
         let now = w_now (gw_world g);
             (replayed, guard) = checkAndRecord (str_prop ''messageId'' message) now (gw_replay g);
             t = str_prop ''type'' message; p = entries_of (map_of message ''payload'')
         in andThen (modify (\<lambda>g. g\<lparr>gw_replay := guard\<rparr>)) (\<lambda>_.
            if replayed then ret ()
            else (case gw_conns g s of
                None \<Rightarrow> ret ()
              | Some c \<Rightarrow>
                  if \<not> cn_authenticated c
                  then (if t \<noteq> ''agent.enroll'' then ret () else handleEnroll pf s p)
                  else andThen (modify (set_conn s (\<lambda>c. c\<lparr>cn_lastHeartbeatAt := now\<rparr>))) (\<lambda>_.
                       on_world (handleAuthenticated pf (cn_agentId c) t p)))))
     | _ \<Rightarrow> ret ()))"

subsection \<open>Delivering commands\<close>

text \<open>
  The BullMQ worker takes a job off the queue; with its concurrency of 5 it may be any of the first
  five waiting.
\<close>

definition CONCURRENCY :: nat where
  "CONCURRENCY = 5"

definition job_key :: "json \<Rightarrow> string option" where
  "job_key message = truthy (as_string (propOf ''idempotencyKey'' (propOf ''payload'' (Some message))))"

definition deliver :: "command_job \<Rightarrow> bool gact" where
  "deliver job = andThen (gets id) (\<lambda>g.
     case Option.bind (gw_live g (jb_agentId job)) (\<lambda>s. Option.bind (gw_conns g s)
            (\<lambda>c. if cn_open c then Some s else None)) of
       None \<Rightarrow> (case job_key (jb_message job) of
           None \<Rightarrow> ret False
         | Some key \<Rightarrow> andThen (catching (on_world (markCommandOutcome key False
             (Some ''Agent is not currently connected'')))) (\<lambda>_. ret False))
     | Some s \<Rightarrow> andThen (send s (jb_message job)) (\<lambda>_. ret True))"

definition dispatchJob :: "nat \<Rightarrow> bool gact" where
  "dispatchJob k = andThen (gets (w_queue \<circ> gw_world)) (\<lambda>q.
     if k < min CONCURRENCY (length q)
     then andThen (modify (\<lambda>g. g\<lparr>gw_world := (gw_world g)\<lparr>w_queue := take k q @ drop (Suc k) q\<rparr>\<rparr>)) (\<lambda>_.
          deliver (q ! k))
     else ret False)"

subsection \<open>Evaluation and frame rules\<close>

lemma on_world_run [run_simps]:
  "on_world m g = (fst (m (gw_world g)), g\<lparr>gw_world := snd (m (gw_world g))\<rparr>)"
  by (simp add: on_world_def split: prod.split)

lemma andThen_on_world [run_simps]:
  "andThen (on_world m) k g = (case m (gw_world g) of
     (Inl e, w) \<Rightarrow> (Inl e, g\<lparr>gw_world := w\<rparr>) | (Inr x, w) \<Rightarrow> k x (g\<lparr>gw_world := w\<rparr>))"
  by (simp add: andThen_def on_world_def split: prod.split sum.split)

lemma on_world_frame [simp]:
  "gw_conns (snd (on_world m g)) = gw_conns g" "gw_live (snd (on_world m g)) = gw_live g"
  "gw_replay (snd (on_world m g)) = gw_replay g" "gw_world (snd (on_world m g)) = snd (m (gw_world g))"
  by (simp_all add: run_simps)

lemma set_conn_frame [simp]:
  "gw_world (set_conn s f g) = gw_world g" "gw_live (set_conn s f g) = gw_live g"
  "gw_replay (set_conn s f g) = gw_replay g"
  "gw_conns (set_conn s f g) s' = (if s' = s then map_option f (gw_conns g s) else gw_conns g s')"
  by (simp_all add: set_conn_def)

text \<open>
  C24: a connection that has not authenticated can do nothing but enroll: whatever other message it
  sends (malformed, replayed or of any other type) leaves the database, the queue, every connection
  and the map of live connections as they are; only the replay guard may remember the message id.
\<close>
theorem unauthenticated_only_enrolls:
  assumes "gw_conns g s = Some c" "\<not> cn_authenticated c"
    and "\<And>v m. raw = Some v \<Longrightarrow> parseAgentToControlPlaneMessage (pf_safeParse pf) v = ParseOk m \<Longrightarrow>
           str_prop ''type'' m \<noteq> ''agent.enroll''"
  shows "\<exists>rg. handleMessage pf s raw g = (Inr (), g\<lparr>gw_replay := rg\<rparr>)"
proof (cases raw)
  case None
  then show ?thesis by (auto simp: handleMessage_def run_simps intro: exI [of _ "gw_replay g"])
next
  case v: (Some v)
  show ?thesis
  proof (cases "parseAgentToControlPlaneMessage (pf_safeParse pf) v")
    case (ParseOk m)
    with assms(3) [OF v ParseOk] assms(1,2) v show ?thesis
      by (auto simp: handleMessage_def run_simps Let_def split: prod.split)
  qed (use v in \<open>auto simp: handleMessage_def run_simps intro: exI [of _ "gw_replay g"]\<close>)
qed

definition idle_gateway :: "connection \<Rightarrow> gateway" where
  "idle_gateway c = \<lparr>gw_world = sample_world, gw_replay = newReplayGuard None,
     gw_live = (\<lambda>_. None), gw_conns = [7 \<mapsto> c]\<rparr>"

theorem unauthenticated_only_enrolls_witness:
  "\<exists>rg. handleMessage sample_platform 7 (Some JNull) (idle_gateway (new_connection None 0)) =
     (Inr (), (idle_gateway (new_connection None 0))\<lparr>gw_replay := rg\<rparr>)"
proof -
  have "\<nexists>m. parseAgentToControlPlaneMessage (pf_safeParse sample_platform) JNull = ParseOk m"
    using plain.parse_message_answer [of any_format agentToControlPlaneCatalog JNull]
    by (auto simp: parse_answer_def parseAgentToControlPlaneMessage_def sample_platform_def)
  then show ?thesis
    by (intro unauthenticated_only_enrolls) (auto simp: idle_gateway_def new_connection_def)
qed

subsection \<open>Fencing by inventory\<close>

text \<open>An entry of an inventory, and whether the agent \<open>a\<close> may not run it.\<close>

definition entry_id :: "json \<Rightarrow> string" where
  "entry_id e = str_prop ''workloadId'' (entries_of (Some e))"

definition entry_generation :: "json \<Rightarrow> int" where
  "entry_generation e = int_prop ''generation'' (entries_of (Some e))"

definition stale_entry :: "world \<Rightarrow> string \<Rightarrow> json \<Rightarrow> bool" where
  "stale_entry w a e \<longleftrightarrow> (case find_workload (entry_id e) w of
     None \<Rightarrow> False | Some r \<Rightarrow> wl_assignedAgentId r \<noteq> Some a)"

definition stop_for :: "string \<Rightarrow> json \<Rightarrow> command_row \<Rightarrow> bool" where
  "stop_for a e c \<longleftrightarrow> ac_agentId c = a \<and> ac_workloadId c = Some (entry_id e)
     \<and> ac_commandType c = ''bot.stop'' \<and> ac_generation c = Some (entry_generation e)
     \<and> ac_status c = CmdPending \<and> ac_createdById c = None"

definition stop_job_for :: "string \<Rightarrow> json \<Rightarrow> command_job \<Rightarrow> bool" where
  "stop_job_for a e j \<longleftrightarrow> jb_agentId j = a \<and> type_of (jb_message j) = Some (JStr ''bot.stop'')"

lemma fence_entry_step:
  assumes "w_redis w" "fresh_uuids pf (k + 3) w" "find_agent a w \<noteq> None" "stale_entry w a e"
    and "int4 (entry_generation e)"
  shows "\<exists>w' c j. fence_entry pf a e w = (Inr (), w') \<and> extends w [c] [j] w'
    \<and> stop_for a e c \<and> stop_job_for a e j \<and> fresh_uuids pf k w'"
proof -
  let ?key = "pf_randomUUID pf (w_seq w)" and ?b = "str_prop ''botId'' (entries_of (Some e))"
  obtain r where r: "find_workload (entry_id e) w = Some r" "wl_assignedAgentId r \<noteq> Some a"
    using assms(4) by (auto simp: stale_entry_def split: option.splits)
  have fresh: "uuid_unused pf w" using assms(2) by (simp add: fresh_uuids_def)
  obtain w' c j where w': "fenceStaleAgent pf a (entry_id e) ?b (entry_generation e) w = (Inr (), w')"
      "w_workloads w' = w_workloads w" "w_agents w' = w_agents w" "w_redis w' = w_redis w"
      "w_seq w' = Suc (Suc (Suc (w_seq w)))" "w_now w' = w_now w"
    and cj: "w_commands w' = w_commands w @ [c]" "w_queue w' = w_queue w @ [j]" "stop_for a e c"
      "stop_job_for a e j" "ac_idempotencyKey c = ?key"
    using assms(1,3,5) fresh r
    by (simp add: fenceStaleAgent_def Let_def run_simps andThen_record_ok can_issue_def int4_opt_def
        new_command_def command_payload_def stop_for_def stop_job_for_def)
  have "fresh_uuids pf k w'" by (rule fresh_after [OF assms(2) w'(5) cj(1,5)])
  moreover have "fence_entry pf a e w = (Inr (), w')"
    using r w'(1) by (simp add: fence_entry_def entry_id_def entry_generation_def Let_def run_simps)
  ultimately show ?thesis using w' cj by (auto simp: extends_def)
qed

lemma fence_entry_skips:
  "\<not> stale_entry w a e \<Longrightarrow> fence_entry pf a e w = (Inr (), w)"
  by (auto simp: fence_entry_def stale_entry_def entry_id_def Let_def run_simps split: option.splits)

lemma stale_extends: "extends w cs js w' \<Longrightarrow> stale_entry w' a e = stale_entry w a e"
  by (simp add: stale_entry_def find_extends)

lemma inventory_loop:
  assumes "w_redis w" "fresh_uuids pf (3 * length es) w" "find_agent a w \<noteq> None"
    and "\<And>e. e \<in> set es \<Longrightarrow> int4 (entry_generation e)"
  shows "\<exists>w' cs js. forEach es () (\<lambda>e _. fence_entry pf a e) w = (Inr (), w') \<and> extends w cs js w'
    \<and> list_all2 (stop_for a) (filter (stale_entry w a) es) cs
    \<and> list_all2 (stop_job_for a) (filter (stale_entry w a) es) js"
  using assms
proof (induction es arbitrary: w)
  case Nil
  then show ?case by (auto simp: ret_run extends_refl intro!: exI [of _ w])
next
  case (Cons e es)
  show ?case
  proof (cases "stale_entry w a e")
    case False
    have "fresh_uuids pf (3 * length es) w" by (rule fresh_mono [OF Cons.prems(2)]) simp
    with Cons.IH [of w] Cons.prems False show ?thesis
      by (simp add: andThen_def fence_entry_skips)
  next
    case True
    have "fresh_uuids pf (3 * length es + 3) w" by (rule fresh_mono [OF Cons.prems(2)]) simp
    with Cons.prems True obtain w1 c j where
        step: "fence_entry pf a e w = (Inr (), w1)" and ext: "extends w [c] [j] w1"
      and new: "stop_for a e c" "stop_job_for a e j" and fresh: "fresh_uuids pf (3 * length es) w1"
      using fence_entry_step [of w pf "3 * length es" a e] by auto
    have "w_redis w1" "find_agent a w1 \<noteq> None"
      using ext Cons.prems(1,3) by (auto simp: extends_def find_extends [OF ext])
    with Cons.IH [OF _ fresh] Cons.prems(4) obtain w' cs js where
        loop: "forEach es () (\<lambda>e _. fence_entry pf a e) w1 = (Inr (), w')" and ext': "extends w1 cs js w'"
      and l: "list_all2 (stop_for a) (filter (stale_entry w a) es) cs"
        "list_all2 (stop_job_for a) (filter (stale_entry w a) es) js"
      using stale_extends [OF ext, of a] by auto
    have "extends w (c # cs) (j # js) w'" using extends_trans [OF ext ext'] by simp
    with step loop l new True show ?thesis by (auto simp: andThen_def intro!: exI)
  qed
qed

text \<open>
  C5: ownership fencing. When a connected agent reports its inventory, then for every reported
  workload that exists and is assigned to another agent or to none, exactly one \<open>bot.stop\<close> with the
  generation the agent reported is recorded and enqueued, addressed to the reporting agent; entries
  it owns and unknown entries get nothing. No workload row changes, so the current owner keeps the
  workload and its state. An inventory under another agent's id does nothing at all.
\<close>
theorem inventory_fences_stale_copies:
  assumes "w_redis w" "find_agent a w \<noteq> None" "a \<noteq> ''''"
    and "fresh_uuids pf (3 * length (as_list (map_of p ''workloads''))) w"
    and "\<And>e. e \<in> set (as_list (map_of p ''workloads'')) \<Longrightarrow> int4 (entry_generation e)"
  shows "if str_prop ''agentId'' p \<noteq> a then handleInventory pf (Some a) p w = (Inr (), w)
    else \<exists>w' cs js. handleInventory pf (Some a) p w = (Inr (), w')
      \<and> w_workloads w' = w_workloads w \<and> w_agents w' = w_agents w
      \<and> w_commands w' = w_commands w @ cs \<and> w_queue w' = w_queue w @ js
      \<and> list_all2 (stop_for a) (filter (stale_entry w a) (as_list (map_of p ''workloads''))) cs
      \<and> list_all2 (stop_job_for a) (filter (stale_entry w a) (as_list (map_of p ''workloads''))) js"
  using inventory_loop [OF assms(1,4,2,5)] assms(3)
  by (auto simp: handleInventory_def truthy_if run_simps extends_def)

definition sample_inventory :: "(string \<times> json) list" where
  "sample_inventory = [(''agentId'', JStr ''a2''), (''workloads'', JArr
     [JObj [(''workloadId'', JStr ''w1''), (''botId'', JStr ''b1''), (''generation'', JNum 1),
            (''runtimeStatus'', JStr ''online'')]])]"

theorem inventory_fences_stale_copies_witness:
  "\<exists>w' c. handleInventory sample_platform (Some ''a2'') sample_inventory sample_world = (Inr (), w')
     \<and> w_commands w' = [c] \<and> ac_agentId c = ''a2'' \<and> ac_commandType c = ''bot.stop''"
proof -
  have "inj_on (pf_randomUUID sample_platform) {0..<3}"
    by (auto simp: inj_on_def sample_platform_def)
  then have fresh: "fresh_uuids sample_platform (3 * length (as_list (map_of sample_inventory ''workloads''))) sample_world"
    by (simp add: fresh_uuids_def sample_inventory_def)
  have gen: "int4 (entry_generation e)" if "e \<in> set (as_list (map_of sample_inventory ''workloads''))" for e
    using that by (auto simp: sample_inventory_def entry_generation_def int_prop_def num_prop_def)
  have stale: "filter (stale_entry sample_world ''a2'') (as_list (map_of sample_inventory ''workloads'')) \<noteq> []"
    by (simp add: sample_inventory_def stale_entry_def entry_id_def str_prop_def)
  have own: "str_prop ''agentId'' sample_inventory = ''a2''"
    by (simp add: sample_inventory_def str_prop_def)
  from inventory_fences_stale_copies [OF _ _ _ fresh gen, of "''a2''"] own stale
  show ?thesis
    by (auto simp: sample_inventory_def stale_entry_def entry_id_def str_prop_def list_all2_Cons1 stop_for_def)
qed

subsection \<open>Heartbeats\<close>

text \<open>
  A heartbeat counts only for the connection's own agent: one that names another agent is
  ignored; otherwise it rewrites that agent's row (reported resources, time of the heartbeat) and no
  other row of any table. The row's status becomes "online" whatever it was before, "draining" and
  "disabled" included. Resources that do not fit the columns, or an agent that no longer exists, make
  the handler throw with nothing written.
\<close>
theorem heartbeat_effect:
  assumes "a \<noteq> ''''" "res = entries_of (map_of p ''resources'')"
  shows "if str_prop ''agentId'' p \<noteq> a then handleHeartbeat (Some a) p w = (Inr (), w)
    else if \<not> resources_fit res then \<exists>e. handleHeartbeat (Some a) p w = (Inl e, w)
    else case find_agent a w of
        None \<Rightarrow> handleHeartbeat (Some a) p w = (Inl (RecordNotFound ''agent''), w)
      | Some r \<Rightarrow> \<exists>w'. handleHeartbeat (Some a) p w = (Inr (), w')
          \<and> (\<forall>i. find_agent i w' = (if i = a then Some (heartbeat_row (w_now w) res r) else find_agent i w))
          \<and> ag_status (heartbeat_row (w_now w) res r) = Online
          \<and> w' = w\<lparr>w_agents := w_agents w'\<rparr>"
proof -
  have keep: "ag_id (heartbeat_row t res x) = ag_id x" for t x by (simp add: heartbeat_row_def)
  have only: "set_agents a f w = w\<lparr>w_agents := w_agents (set_agents a f w)\<rparr>" for f
    by (simp add: set_agents_def)
  have online: "ag_status (heartbeat_row t res x) = Online" for t x by (simp add: heartbeat_row_def)
  show ?thesis
    using assms(1) find_set_agents [of "heartbeat_row (w_now w) res", OF keep] only online
    by (auto simp: handleHeartbeat_def truthy_if run_simps Let_def assms(2) [symmetric] split: option.split)
qed

definition sample_heartbeat :: "(string \<times> json) list" where
  "sample_heartbeat = [(''agentId'', JStr ''a1''), (''resources'',
     JObj [(''cpuUsagePercent'', JNum 5), (''memoryTotalMb'', JNum 2048), (''memoryAvailableMb'', JNum 1024)])]"

theorem heartbeat_effect_witness:
  "\<exists>w' r. handleHeartbeat (Some ''a1'') sample_heartbeat
       (set_agents ''a1'' (set_status Draining) sample_world) = (Inr (), w')
     \<and> find_agent ''a1'' w' = Some r \<and> ag_status r = Online"
proof -
  let ?w = "set_agents ''a1'' (set_status Draining) sample_world"
  have "find_agent ''a1'' ?w = Some (set_status Draining (sample_agent_row ''a1''))"
    by (simp add: find_set_agents set_status_def)
  moreover have "resources_fit (entries_of (map_of sample_heartbeat ''resources''))"
    by (simp add: resources_fit_def sample_heartbeat_def int_prop_def num_prop_def int4_def int4_opt_def)
  moreover have "str_prop ''agentId'' sample_heartbeat = ''a1''" by (simp add: sample_heartbeat_def str_prop_def)
  ultimately show ?thesis
    using heartbeat_effect [of "''a1''" _ sample_heartbeat ?w, OF _ refl] by auto
qed

subsection \<open>Enrollment outcomes\<close>

text \<open>The id the database gives the new agent is new: nothing refers to it yet.\<close>

definition enroll_ready :: "string \<Rightarrow> world \<Rightarrow> bool" where
  "enroll_ready i w \<longleftrightarrow> tokens_ok w \<and> i \<notin> ag_id ` set (w_agents w) \<and> i \<notin> ac_agentId ` set (w_commands w)
     \<and> i \<notin> cr_agentId ` set (w_credentials w) \<and> Some i \<notin> wl_assignedAgentId ` set (w_workloads w)"

text \<open>What redeeming the presented token will answer.\<close>

definition token_refused :: "string \<Rightarrow> world \<Rightarrow> refusal option" where
  "token_refused h w = (case find_token h w of
     None \<Rightarrow> Some NotFound
   | Some r \<Rightarrow> if tk_usedAt r \<noteq> None then Some AlreadyUsed
       else if tk_expiresAt r \<le> w_now w then Some Expired else None)"

lemma consume_refused:
  "tokens_ok w \<Longrightarrow> token_refused (hashToken pf t) w = Some reason \<Longrightarrow>
   consumeEnrollmentToken pf t a w = (Inr (NotConsumed reason), w)"
  using consume_effect [of w pf t a]
  by (auto simp: token_refused_def split: option.splits if_splits)

lemma consume_accepted:
  assumes "tokens_ok w" "token_refused (hashToken pf t) w = None"
  shows "\<exists>r w'. find_token (hashToken pf t) w = Some r
    \<and> consumeEnrollmentToken pf t a w = (Inr (Consumed (tk_id r) (tk_restrictionsJson r)), w')
    \<and> find_token (hashToken pf t) w' = Some (claim_row (w_now w) a r)"
  using consume_effect [OF assms(1), of pf t a] assms(2)
  by (auto simp: token_refused_def split: option.splits if_splits)

definition world_with_agent :: "platform \<Rightarrow> (string \<times> json) list \<Rightarrow> world \<Rightarrow> world" where
  "world_with_agent pf p w = w\<lparr>w_seq := Suc (w_seq w), w_agents := w_agents w @ [new_agent (pf_cuid pf (w_seq w)) p]\<rparr>"

lemma create_agent_run:
  "create_agent pf p w = (Inr (new_agent (pf_cuid pf (w_seq w)) p), world_with_agent pf p w)"
  by (simp add: create_agent_def run_simps world_with_agent_def)

lemma world_with_agent_frame [simp]:
  "w_tokens (world_with_agent pf p w) = w_tokens w" "w_now (world_with_agent pf p w) = w_now w"
  "tokens_ok (world_with_agent pf p w) = tokens_ok w"
  "token_refused h (world_with_agent pf p w) = token_refused h w"
  "find_token h (world_with_agent pf p w) = find_token h w"
  by (simp_all add: world_with_agent_def tokens_ok_def token_refused_def find_token_def cong: option.case_cong if_cong)

lemma new_agent_id [simp]: "ag_id (new_agent i p) = i"
  by (simp add: new_agent_def)

text \<open>Deleting the agent that was just created restores the tables.\<close>

lemma delete_new_agent:
  assumes "enroll_ready i w" and "w_agents w1 = w_agents w @ [new_agent i p]"
    and "w_commands w1 = w_commands w" "w_credentials w1 = w_credentials w" "w_workloads w1 = w_workloads w"
  shows "\<exists>w2. delete_agent i w1 = (Inr (), w2) \<and> w_agents w2 = w_agents w \<and> w_credentials w2 = w_credentials w
    \<and> w_workloads w2 = w_workloads w \<and> w_commands w2 = w_commands w \<and> w_tokens w2 = w_tokens w1
    \<and> w_queue w2 = w_queue w1"
proof -
  have "filter (\<lambda>a. ag_id a \<noteq> i) (w_agents w) = w_agents w"
    "filter (\<lambda>c. cr_agentId c \<noteq> i) (w_credentials w) = w_credentials w"
    using assms(1) by (auto simp: enroll_ready_def filter_id_conv)
  moreover have "updateWhere (\<lambda>r. wl_assignedAgentId r = Some i) f (w_workloads w) = w_workloads w" for f
    using assms(1) by (intro updateWhere_other) (auto simp: enroll_ready_def image_iff)
  moreover have "find_agent i w1 \<noteq> None"
    using assms(2) by (simp add: find_agent_def findBy_append split: option.split)
  ultimately show ?thesis
    using assms by (auto simp: delete_agent_def run_simps enroll_ready_def)
qed

lemma consume_keeps:
  "consumeEnrollmentToken pf t a w1 = (res, w2) \<Longrightarrow> w_agents w2 = w_agents w1 \<and> w_commands w2 = w_commands w1
   \<and> w_credentials w2 = w_credentials w1 \<and> w_workloads w2 = w_workloads w1 \<and> w_queue w2 = w_queue w1
   \<and> w_seq w2 = w_seq w1 \<and> w_now w2 = w_now w1"
  using consume_frame [of pf t a w1] by simp

text \<open>Why an enrollment is turned away: the close code and reason.\<close>

definition enroll_refusal :: "platform \<Rightarrow> (string \<times> json) list \<Rightarrow> world \<Rightarrow> (int \<times> string) option" where
  "enroll_refusal pf p w =
     (let h = hashToken pf (str_prop ''enrollmentToken'' p) in
      case token_refused h w of
        Some reason \<Rightarrow> Some (4001, ''enrollment_failed:'' @ refusal_name reason)
      | None \<Rightarrow>
          if restrictionsSatisfied (Option.bind (find_token h w) tk_restrictionsJson) (as_entries (map_of p ''labels''))
          then None else Some (4003, ''enrollment_failed:restrictions_not_satisfied''))"

text \<open>
  C25: a failed enrollment leaves nothing behind. If the token is unknown, used or expired, or its
  restrictions do not hold of the agent's labels, then the agents, credentials, workloads, commands
  and the queue are as before, the connection is closed with the code and reason of the failure and
  stays unauthenticated, and no live connection is registered. A restriction failure has used the
  token up.
\<close>
theorem failed_enrollment_leaves_nothing:
  assumes "enroll_ready (pf_cuid pf (w_seq (gw_world g))) (gw_world g)" "gw_conns g s = Some c"
    and "enroll_refusal pf p (gw_world g) = Some (code, reason)"
  shows "\<exists>g'. handleEnroll pf s p g = (Inr (), g')
    \<and> w_agents (gw_world g') = w_agents (gw_world g) \<and> w_credentials (gw_world g') = w_credentials (gw_world g)
    \<and> w_workloads (gw_world g') = w_workloads (gw_world g) \<and> w_commands (gw_world g') = w_commands (gw_world g)
    \<and> w_queue (gw_world g') = w_queue (gw_world g) \<and> gw_live g' = gw_live g
    \<and> gw_conns g' s = Some (c\<lparr>cn_open := False, cn_closed := Some (code, reason)\<rparr>)
    \<and> (code = 4003 \<longrightarrow> token_refused (hashToken pf (str_prop ''enrollmentToken'' p)) (gw_world g') = Some AlreadyUsed)"
proof -
  let ?w = "gw_world g" and ?i = "pf_cuid pf (w_seq (gw_world g))" and ?t = "str_prop ''enrollmentToken'' p"
  let ?w1 = "world_with_agent pf p ?w"
  have ok: "tokens_ok ?w1" using assms(1) by (simp add: enroll_ready_def)
  show ?thesis
  proof (cases "token_refused (hashToken pf ?t) ?w")
    case (Some why)
    then have consumed: "consumeEnrollmentToken pf ?t ?i ?w1 = (Inr (NotConsumed why), ?w1)"
      using ok by (intro consume_refused) simp_all
    have "w_agents ?w1 = w_agents ?w @ [new_agent ?i p]" "w_commands ?w1 = w_commands ?w"
      "w_credentials ?w1 = w_credentials ?w" "w_workloads ?w1 = w_workloads ?w" "w_queue ?w1 = w_queue ?w"
      by (simp_all add: world_with_agent_def)
    with delete_new_agent [OF assms(1), of ?w1 p] obtain w2 where
      "delete_agent ?i ?w1 = (Inr (), w2)" "w_agents w2 = w_agents ?w" "w_credentials w2 = w_credentials ?w"
      "w_workloads w2 = w_workloads ?w" "w_commands w2 = w_commands ?w" "w_queue w2 = w_queue ?w"
      by auto
    with consumed Some assms(2,3) show ?thesis
      by (simp add: handleEnroll_def run_simps create_agent_run close_def enroll_refusal_def Let_def)
  next
    case None
    then obtain r w2 where r: "find_token (hashToken pf ?t) ?w = Some r"
      and consumed: "consumeEnrollmentToken pf ?t ?i ?w1 = (Inr (Consumed (tk_id r) (tk_restrictionsJson r)), w2)"
      and used: "find_token (hashToken pf ?t) w2 = Some (claim_row (w_now ?w) ?i r)"
      using consume_accepted [OF ok, of pf ?t ?i] by auto
    note keeps = consume_keeps [OF consumed]
    have "w_agents w2 = w_agents ?w @ [new_agent ?i p]" "w_commands w2 = w_commands ?w"
      "w_credentials w2 = w_credentials ?w" "w_workloads w2 = w_workloads ?w" "w_queue w2 = w_queue ?w"
      using keeps by (simp_all add: world_with_agent_def)
    with delete_new_agent [OF assms(1), of w2 p] obtain w3 where w3:
      "delete_agent ?i w2 = (Inr (), w3)" "w_agents w3 = w_agents ?w" "w_credentials w3 = w_credentials ?w"
      "w_workloads w3 = w_workloads ?w" "w_commands w3 = w_commands ?w" "w_tokens w3 = w_tokens w2"
      "w_queue w3 = w_queue ?w"
      by auto
    have bad: "\<not> restrictionsSatisfied (tk_restrictionsJson r) (as_entries (map_of p ''labels''))"
      "code = 4003" "reason = ''enrollment_failed:restrictions_not_satisfied''"
      using assms(3) None r by (auto simp: enroll_refusal_def Let_def split: if_splits)
    have "token_refused (hashToken pf ?t) w3 = Some AlreadyUsed"
      using used w3(6) by (simp add: token_refused_def find_token_def claim_row_def)
    with consumed w3 bad assms(2) show ?thesis
      by (simp add: handleEnroll_def run_simps create_agent_run close_def)
  qed
qed

definition sample_enroll :: "string \<Rightarrow> (string \<times> json) list" where
  "sample_enroll token = [(''enrollmentToken'', JStr token), (''agentName'', JStr ''n''), (''hostname'', JStr ''h''),
     (''architecture'', JStr ''x64''), (''operatingSystem'', JStr ''linux''), (''agentVersion'', JStr ''1''),
     (''capabilities'', JArr [JStr ''pm2'']), (''labels'', JObj [])]"

definition token_gateway :: gateway where
  "token_gateway = (idle_gateway (new_connection None 0))\<lparr>gw_world := sample_token_world\<rparr>"

lemma token_gateway_facts [simp]:
  "gw_world token_gateway = sample_token_world" "gw_conns token_gateway 7 = Some (new_connection None 0)"
  "str_prop ''enrollmentToken'' (sample_enroll token) = token"
  "enroll_ready (pf_cuid sample_platform n) sample_token_world"
  by (auto simp: token_gateway_def idle_gateway_def sample_enroll_def str_prop_def enroll_ready_def
      sample_token_world_def sample_world_def sample_platform_def sample_workload_row_def new_workload_def
      sample_agent_row_def tokens_ok_def)

theorem failed_enrollment_leaves_nothing_witness:
  "\<exists>g'. handleEnroll sample_platform 7 (sample_enroll ''wrong'') token_gateway = (Inr (), g')
     \<and> w_agents (gw_world g') = w_agents sample_token_world
     \<and> gw_conns g' 7 = Some ((new_connection None 0)\<lparr>cn_open := False, cn_closed := Some (4001, ''enrollment_failed:not_found'')\<rparr>)"
proof -
  have "find_token (hashToken sample_platform ''wrong'') sample_token_world = None"
    by (simp add: find_token_def sample_token_world_def sample_token_row_def hashToken_def sample_platform_def)
  then have "enroll_refusal sample_platform (sample_enroll ''wrong'') (gw_world token_gateway) =
      Some (4001, ''enrollment_failed:not_found'')"
    by (simp add: enroll_refusal_def token_refused_def Let_def)
  from failed_enrollment_leaves_nothing [OF _ _ this, of 7 "new_connection None 0"] show ?thesis by auto
qed

lemma enroll_consumes:
  assumes "enroll_ready i w" "i = pf_cuid pf (w_seq w)" "enroll_refusal pf p w = None"
  obtains r w2 where
    "consumeEnrollmentToken pf (str_prop ''enrollmentToken'' p) i (world_with_agent pf p w)
       = (Inr (Consumed (tk_id r) (tk_restrictionsJson r)), w2)"
    "find_token (hashToken pf (str_prop ''enrollmentToken'' p)) w2 = Some (claim_row (w_now w) i r)"
    "restrictionsSatisfied (tk_restrictionsJson r) (as_entries (map_of p ''labels''))"
    "w_agents w2 = w_agents w @ [new_agent i p]" "w_now w2 = w_now w" "w_seq w2 = Suc (w_seq w)"
    "w_credentials w2 = w_credentials w" "w_workloads w2 = w_workloads w" "w_commands w2 = w_commands w"
proof -
  let ?t = "str_prop ''enrollmentToken'' p" and ?w1 = "world_with_agent pf p w"
  have ok: "tokens_ok ?w1" using assms(1) by (simp add: enroll_ready_def)
  have none: "token_refused (hashToken pf ?t) w = None"
    using assms(3) by (auto simp: enroll_refusal_def Let_def split: option.splits)
  then obtain r w2 where r: "find_token (hashToken pf ?t) w = Some r"
    and consumed: "consumeEnrollmentToken pf ?t i ?w1 = (Inr (Consumed (tk_id r) (tk_restrictionsJson r)), w2)"
    and used: "find_token (hashToken pf ?t) w2 = Some (claim_row (w_now w) i r)"
    using consume_accepted [OF ok, of pf ?t i] by auto
  have "restrictionsSatisfied (tk_restrictionsJson r) (as_entries (map_of p ''labels''))"
    using assms(3) none r by (auto simp: enroll_refusal_def Let_def split: if_splits)
  then show ?thesis
    using that [OF consumed used] consume_keeps [OF consumed] assms(2) by (simp add: world_with_agent_def)
qed

text \<open>
  A successful enrollment makes exactly one agent, under the new id and online, with the labels
  and data it sent; the secret it is handed is accepted as its credential and only for it; its token
  is used up by it; the connection is authenticated as that agent and registered as its live
  connection; and the \<open>agent.accepted\<close> message with the id, the fingerprint and the secret is the one
  message sent.
\<close>
theorem enrollment_succeeds:
  assumes "enroll_ready i (gw_world g)" "gw_conns g s = Some c" "cn_open c"
    and "i = pf_cuid pf (w_seq (gw_world g))" "secret = pf_randomToken pf (Suc (w_seq (gw_world g)))"
    and "enroll_refusal pf p (gw_world g) = None"
    and "hashToken pf secret \<notin> cr_fingerprint ` set (w_credentials (gw_world g))"
  shows "\<exists>g' msg. handleEnroll pf s p g = (Inr (), g')
    \<and> w_agents (gw_world g') = w_agents (gw_world g)
        @ [(new_agent i p)\<lparr>ag_status := Online, ag_lastHeartbeatAt := Some (w_now (gw_world g))\<rparr>]
    \<and> verifyCredential pf i secret (gw_world g')
    \<and> (\<forall>b. b \<noteq> i \<longrightarrow> \<not> verifyCredential pf b secret (gw_world g'))
    \<and> token_refused (hashToken pf (str_prop ''enrollmentToken'' p)) (gw_world g') = Some AlreadyUsed
    \<and> gw_conns g' s = Some (c\<lparr>cn_agentId := Some i, cn_authenticated := True,
         cn_lastHeartbeatAt := w_now (gw_world g), cn_sent := cn_sent c @ [msg]\<rparr>)
    \<and> gw_live g' = (gw_live g)(i \<mapsto> s)
    \<and> msg = JObj (createControlPlaneToAgentMessage (pf_randomUUID pf (Suc (Suc (Suc (w_seq (gw_world g)))))) (pf_isoString pf (w_now (gw_world g)))
         ''agent.accepted'' (JObj (accepted_payload i \<lparr>is_secret = secret, is_fingerprint = hashToken pf secret\<rparr>)) control_plane_sender)
    \<and> w_workloads (gw_world g') = w_workloads (gw_world g) \<and> w_commands (gw_world g') = w_commands (gw_world g)"
proof -
  let ?w = "gw_world g" and ?t = "str_prop ''enrollmentToken'' p"
  obtain r w2 where consumed: "consumeEnrollmentToken pf ?t i (world_with_agent pf p ?w)
        = (Inr (Consumed (tk_id r) (tk_restrictionsJson r)), w2)"
    and used: "find_token (hashToken pf ?t) w2 = Some (claim_row (w_now ?w) i r)"
    and good: "restrictionsSatisfied (tk_restrictionsJson r) (as_entries (map_of p ''labels''))"
    and agents2: "w_agents w2 = w_agents ?w @ [new_agent i p]" and now2: "w_now w2 = w_now ?w" and seq2: "w_seq w2 = Suc (w_seq ?w)"
    and creds2: "w_credentials w2 = w_credentials ?w" and rest2: "w_workloads w2 = w_workloads ?w" "w_commands w2 = w_commands ?w"
    using enroll_consumes [OF assms(1,4,6)] .
  have new: "i \<notin> ag_id ` set (w_agents ?w)" using assms(1) by (simp add: enroll_ready_def)
  then have found: "find_agent i w2 = Some (new_agent i p)"
    using agents2 findBy_None [of ag_id i "w_agents ?w"] by (simp add: find_agent_def findBy_append)
  have others: "updateWhere (\<lambda>a. ag_id a = i) f (w_agents ?w) = w_agents ?w" for f
    using new by (intro updateWhere_other) auto
  have issue: "issueCredential pf i w2 = (Inr \<lparr>is_secret = secret, is_fingerprint = hashToken pf secret\<rparr>,
      w2\<lparr>w_seq := Suc (Suc (Suc (w_seq ?w))), w_credentials := w_credentials ?w @
        [\<lparr>cr_id = pf_cuid pf (Suc (Suc (w_seq ?w))), cr_agentId = i, cr_fingerprint = hashToken pf secret,
          cr_status = CredActive, cr_issuedAt = w_now ?w, cr_expiresAt = None, cr_revokedAt = None\<rparr>]\<rparr>)"
    using found assms(5,7) seq2 creds2 now2 by (simp add: issueCredential_def Let_def run_simps)
  have cred: "findBy cr_fingerprint (hashToken pf secret) (w_credentials ?w) = None"
    using assms(7) by (simp add: findBy_None)
  let ?row = "\<lparr>cr_id = pf_cuid pf (Suc (Suc (w_seq ?w))), cr_agentId = i, cr_fingerprint = hashToken pf secret,
          cr_status = CredActive, cr_issuedAt = w_now ?w, cr_expiresAt = None, cr_revokedAt = None\<rparr>"
  have found': "find_agent i (w2\<lparr>w_seq := n, w_credentials := x\<rparr>) = Some (new_agent i p)" for n x
    using found by (simp add: find_agent_def)
  obtain g' msg where g': "handleEnroll pf s p g = (Inr (), g')"
      "w_agents (gw_world g') = w_agents ?w
        @ [(new_agent i p)\<lparr>ag_status := Online, ag_lastHeartbeatAt := Some (w_now ?w)\<rparr>]"
      "gw_conns g' s = Some (c\<lparr>cn_agentId := Some i, cn_authenticated := True,
         cn_lastHeartbeatAt := w_now ?w, cn_sent := cn_sent c @ [msg]\<rparr>)"
      "gw_live g' = (gw_live g)(i \<mapsto> s)"
      "msg = JObj (createControlPlaneToAgentMessage (pf_randomUUID pf (Suc (Suc (Suc (w_seq ?w))))) (pf_isoString pf (w_now ?w))
         ''agent.accepted'' (JObj (accepted_payload i \<lparr>is_secret = secret, is_fingerprint = hashToken pf secret\<rparr>)) control_plane_sender)"
      "w_workloads (gw_world g') = w_workloads ?w" "w_commands (gw_world g') = w_commands ?w"
    and creds: "w_credentials (gw_world g') = w_credentials ?w @ [?row]"
    and toks: "w_tokens (gw_world g') = w_tokens w2"
    using consumed good issue found' assms(2,3) agents2 others now2 rest2
    by (simp add: handleEnroll_def run_simps create_agent_run send_def set_agents_def assms(4) [symmetric])
  have "verifyCredential pf b secret (gw_world g') \<longleftrightarrow> b = i" for b
    using cred creds by (simp add: verifyCredential_def find_credential_def findBy_append)
  moreover have "token_refused (hashToken pf ?t) (gw_world g') = Some AlreadyUsed"
    using used toks by (simp add: token_refused_def find_token_def claim_row_def)
  ultimately show ?thesis using g' by blast
qed

theorem enrollment_succeeds_witness:
  "\<exists>g'. handleEnroll sample_platform 7 (sample_enroll ''secret'') token_gateway = (Inr (), g')
     \<and> verifyCredential sample_platform ''c'' ''tt'' (gw_world g')"
proof -
  have "enroll_refusal sample_platform (sample_enroll ''secret'') (gw_world token_gateway) = None"
    by (simp add: enroll_refusal_def token_refused_def Let_def restrictionsSatisfied_def)
  moreover have "w_seq sample_token_world = 0" "w_credentials sample_token_world = []"
    by (simp_all add: sample_token_world_def sample_world_def)
  moreover have "pf_cuid sample_platform 0 = ''c''" "pf_randomToken sample_platform 1 = ''tt''"
    by (simp_all add: sample_platform_def)
  ultimately obtain g' where "handleEnroll sample_platform 7 (sample_enroll ''secret'') token_gateway = (Inr (), g')"
      "verifyCredential sample_platform ''c'' ''tt'' (gw_world g')"
    using enrollment_succeeds [of "''c''" token_gateway 7 "new_connection None 0" sample_platform "''tt''"
        "sample_enroll ''secret''"] token_gateway_facts(4) [of 0]
    by (fastforce simp del: token_gateway_facts(4) simp: new_connection_def)
  then show ?thesis by blast
qed

end
