(* ===== verification/Gateway_Invariant.thy ===== *)
theory Gateway_Invariant
  imports Gateway
begin

text \<open>
  The gateway as the event loop runs it. \<open>ws.on("message")\<close> does not wait for \<open>handleMessage\<close>, so a
  handler that awaits a database call leaves the loop free for every other event, the next message of the
  same connection included. Here a handler is a task, cut at its awaits; the tasks in flight and the other
  events form a step relation, and what connections and the map of live connections keep in all of its
  reachable states is proved by rule induction. Run without interruption the tasks are the handlers of
  \<open>Gateway\<close>.
\<close>

subsection \<open>Handlers cut at their awaits\<close>

text \<open>What is left of a handler: nothing, or the next stage, which ends at an await or in an exception.\<close>

datatype task = Finished | Await "gateway \<Rightarrow> (exn + task) \<times> gateway"

definition awaiting :: "'a gact \<Rightarrow> ('a \<Rightarrow> task) \<Rightarrow> task" where
  "awaiting m k = Await (\<lambda>g. case m g of (Inl e, g') \<Rightarrow> (Inl e, g') | (Inr x, g') \<Rightarrow> (Inr (k x), g'))"

primrec run_task :: "task \<Rightarrow> unit gact" where
  "run_task Finished = ret ()"
| "run_task (Await f) = (\<lambda>g. case map_prod (map_sum id run_task) id (f g) of
     (Inl e, g') \<Rightarrow> (Inl e, g') | (Inr rest, g') \<Rightarrow> rest g')"

text \<open>The \<open>UPDATE\<close> of \<open>consumeEnrollmentToken\<close>, with the number of rows it claimed.\<close>

definition claim_token :: "string \<Rightarrow> string \<Rightarrow> nat act" where
  "claim_token tokenHash agentId = andThen (gets w_now) (\<lambda>now.
     andThen (gets (\<lambda>w. length (filter (claimable tokenHash now) (w_tokens w)))) (\<lambda>count.
     andThen (modify (\<lambda>w. w\<lparr>w_tokens := updateWhere (claimable tokenHash now) (claim_row now agentId) (w_tokens w)\<rparr>)) (\<lambda>_.
     ret count)))"

definition refuse_task :: "nat \<Rightarrow> string \<Rightarrow> int \<Rightarrow> string \<Rightarrow> task" where
  "refuse_task s agentId code reason =
     awaiting (on_world (delete_agent agentId)) (\<lambda>_. awaiting (close s code reason) (\<lambda>_. Finished))"

text \<open>The last stage of an enrollment: what runs after its last await.\<close>

definition finish_enroll :: "platform \<Rightarrow> nat \<Rightarrow> string \<Rightarrow> issued \<Rightarrow> unit gact" where
  "finish_enroll pf s agentId credential = andThen (gets (w_now \<circ> gw_world)) (\<lambda>now.
     andThen (modify (set_conn s (\<lambda>c. c\<lparr>cn_agentId := Some agentId, cn_authenticated := True,
       cn_lastHeartbeatAt := now\<rparr>))) (\<lambda>_.
     andThen (modify (\<lambda>g. g\<lparr>gw_live := (gw_live g)(agentId \<mapsto> s)\<rparr>)) (\<lambda>_.
     andThen (on_world (control_message pf ''agent.accepted'' (accepted_payload agentId credential))) (\<lambda>msg.
     send s msg))))"

definition credential_task :: "platform \<Rightarrow> nat \<Rightarrow> (string \<times> json) list \<Rightarrow> string \<Rightarrow> task" where
  "credential_task pf s p agentId =
     awaiting (on_world (issueCredential pf agentId)) (\<lambda>credential.
     awaiting (on_world (andThen (gets w_now) (\<lambda>now.
       update_agent agentId (\<lambda>r. r\<lparr>ag_status := Online, ag_lastHeartbeatAt := Some now\<rparr>)))) (\<lambda>_.
     awaiting (on_world (writeAuditLog None ''agent.enrolled'' ''agent'' agentId
       (Some (JObj [(''hostname'', JStr (str_prop ''hostname'' p)),
          (''capabilities'', JArr (as_list (map_of p ''capabilities'')))])))) (\<lambda>_.
     awaiting (finish_enroll pf s agentId credential) (\<lambda>_. Finished))))"

text \<open>\<open>handleEnroll\<close>, the awaits of \<open>consumeEnrollmentToken\<close> included.\<close>

definition enroll_task :: "platform \<Rightarrow> nat \<Rightarrow> (string \<times> json) list \<Rightarrow> task" where
  "enroll_task pf s p = (let tokenHash = hashToken pf (str_prop ''enrollmentToken'' p) in
     awaiting (on_world (create_agent pf p)) (\<lambda>agent.
     awaiting (on_world (claim_token tokenHash (ag_id agent))) (\<lambda>count.
     awaiting (on_world (gets (find_token tokenHash))) (\<lambda>found.
       if count = 0
       then refuse_task s (ag_id agent) 4001 (''enrollment_failed:'' @ refusal_name (case found of
           None \<Rightarrow> NotFound | Some row \<Rightarrow> if tk_usedAt row \<noteq> None then AlreadyUsed else Expired))
       else (case found of
           None \<Rightarrow> awaiting (on_world (raise (RecordNotFound ''enrollment_token''))) (\<lambda>_ :: unit. Finished)
         | Some row \<Rightarrow>
             awaiting (on_world (writeAuditLog (tk_createdById row) ''agent.enrollment_token_consumed'' ''enrollment_token''
               (tk_id row) (Some (JObj [(''agentId'', JStr (ag_id agent))])))) (\<lambda>_.
             if \<not> restrictionsSatisfied (tk_restrictionsJson row) (as_entries (map_of p ''labels''))
             then refuse_task s (ag_id agent) 4003 ''enrollment_failed:restrictions_not_satisfied''
             else credential_task pf s p (ag_id agent)))))))"

text \<open>What a task was started for.\<close>

datatype purpose = UpgradeOn nat | EnrollOn nat | Handling

text \<open>
  A message arrives: the part of \<open>handleMessage\<close> before its first await, and the task of the rest. The
  database calls of an enrolled agent's message are one stage.
\<close>

definition receive :: "platform \<Rightarrow> nat \<Rightarrow> json option \<Rightarrow> gateway \<Rightarrow> (purpose \<times> task) \<times> gateway" where
  "receive pf s raw g = (case raw of
     None \<Rightarrow> ((Handling, Finished), g)
   | Some parsedJson \<Rightarrow> (case parseAgentToControlPlaneMessage (pf_safeParse pf) parsedJson of
       ParseOk message \<Rightarrow>
         let now = w_now (gw_world g);
             (replayed, guard) = checkAndRecord (str_prop ''messageId'' message) now (gw_replay g);
             t = str_prop ''type'' message; p = entries_of (map_of message ''payload'');
             g = g\<lparr>gw_replay := guard\<rparr>
         in if replayed then ((Handling, Finished), g)
            else (case gw_conns g s of
                None \<Rightarrow> ((Handling, Finished), g)
              | Some c \<Rightarrow>
                  if \<not> cn_authenticated c
                  then (if t \<noteq> ''agent.enroll'' then ((Handling, Finished), g) else ((EnrollOn s, enroll_task pf s p), g))
                  else ((Handling, awaiting (on_world (handleAuthenticated pf (cn_agentId c) t p)) (\<lambda>_. Finished)),
                        set_conn s (\<lambda>c. c\<lparr>cn_lastHeartbeatAt := now\<rparr>) g))
     | _ \<Rightarrow> ((Handling, Finished), g)))"

text \<open>\<open>server.on("upgrade")\<close>; \<open>now\<close> is the time at which it was called.\<close>

definition upgrade_task :: "platform \<Rightarrow> nat \<Rightarrow> string option \<Rightarrow> int \<Rightarrow> task" where
  "upgrade_task pf s authHeader now = (case parse_bearer authHeader of
     None \<Rightarrow> awaiting (modify (connected s None now)) (\<lambda>_. Finished)
   | Some (agentId, secret) \<Rightarrow>
       awaiting (gets (verifyCredential pf agentId secret \<circ> gw_world)) (\<lambda>ok.
       if ok
       then awaiting (catching (on_world (andThen (update_agent agentId (set_status Online)) (\<lambda>_. ret ())))) (\<lambda>_.
            awaiting (modify (connected s (Some agentId) now)) (\<lambda>_. Finished))
       else awaiting (modify (connected s None now)) (\<lambda>_. Finished)))"

subsection \<open>Without interruption the tasks are the handlers\<close>

lemma run_awaiting: "run_task (awaiting m k) = andThen m (\<lambda>x. run_task (k x))"
  by (simp add: awaiting_def andThen_def fun_eq_iff split: prod.split sum.split)

lemma run_refuse: "run_task (refuse_task s a code reason) = andThen (on_world (delete_agent a)) (\<lambda>_. close s code reason)"
  by (simp add: refuse_task_def run_awaiting fun_eq_iff run_simps close_def split: prod.split sum.split)

lemma enroll_uninterrupted: "run_task (enroll_task pf s p) = handleEnroll pf s p"
proof -
  have credential: "run_task (credential_task pf s p a) =
      andThen (on_world (issueCredential pf a)) (\<lambda>credential.
      andThen (gets (w_now \<circ> gw_world)) (\<lambda>now.
      andThen (on_world (update_agent a (\<lambda>r. r\<lparr>ag_status := Online, ag_lastHeartbeatAt := Some now\<rparr>))) (\<lambda>_.
      andThen (on_world (writeAuditLog None ''agent.enrolled'' ''agent'' a
        (Some (JObj [(''hostname'', JStr (str_prop ''hostname'' p)),
           (''capabilities'', JArr (as_list (map_of p ''capabilities'')))])))) (\<lambda>_.
      andThen (modify (set_conn s (\<lambda>c. c\<lparr>cn_agentId := Some a, cn_authenticated := True,
        cn_lastHeartbeatAt := now\<rparr>))) (\<lambda>_.
      andThen (modify (\<lambda>g. g\<lparr>gw_live := (gw_live g)(a \<mapsto> s)\<rparr>)) (\<lambda>_.
      andThen (on_world (control_message pf ''agent.accepted'' (accepted_payload a credential))) (\<lambda>msg.
      send s msg)))))))" for a
    by (simp add: credential_task_def run_awaiting finish_enroll_def fun_eq_iff run_simps send_def set_agents_def
        split: prod.split sum.split option.split)
  show ?thesis
    by (simp add: enroll_task_def handleEnroll_def consumeEnrollmentToken_def claim_token_def Let_def run_awaiting
        run_refuse credential fun_eq_iff run_simps split: prod.split sum.split option.split)
qed

lemma message_uninterrupted:
  "run_task (snd (fst (receive pf s raw g))) (snd (receive pf s raw g)) = handleMessage pf s raw g"
proof -
  have last: "run_task (awaiting m (\<lambda>_. Finished)) = m" for m :: "unit gact"
    by (simp add: run_awaiting andThen_def ret_def fun_eq_iff split: prod.split sum.split)
  show ?thesis
    by (auto simp: receive_def handleMessage_def Let_def last enroll_uninterrupted gets_run modify_run andThen_gets
        andThen_modify ret_def split: option.split parse_result.split prod.split)
qed

lemma upgrade_uninterrupted: "run_task (upgrade_task pf s h (w_now (gw_world g))) g = onUpgrade pf s h g"
  by (simp add: upgrade_task_def onUpgrade_def run_awaiting run_simps split: option.split)

subsection \<open>The gateway as a transition system\<close>

text \<open>
  The gateway with the handlers in flight. Sockets are numbered as they come; \<open>nd_enrolls\<close> counts, for
  each socket, the \<open>agent.enroll\<close> messages that passed the guard of \<open>handleMessage\<close>.
\<close>

record node =
  nd_gateway :: gateway
  nd_tasks :: "(purpose \<times> task) list"
  nd_next :: nat
  nd_enrolls :: "nat \<Rightarrow> nat"

definition started :: "world \<Rightarrow> replay_guard \<Rightarrow> gateway" where
  "started w r = \<lparr>gw_world = w, gw_replay = r, gw_live = (\<lambda>_. None), gw_conns = (\<lambda>_. None)\<rparr>"

definition fresh_node :: "world \<Rightarrow> replay_guard \<Rightarrow> node" where
  "fresh_node w r = \<lparr>nd_gateway = started w r, nd_tasks = [], nd_next = 0, nd_enrolls = (\<lambda>_. 0)\<rparr>"

text \<open>
  The events in any order: a new socket asks to be upgraded, a message arrives on an open connection, a task
  in flight runs its next stage (an exception ends it), a socket closes, the heartbeat monitor of a connection
  fires, the worker takes a job, or any other process changes the database, the queue or the clock.
\<close>

inductive node_step :: "platform \<Rightarrow> node \<Rightarrow> node \<Rightarrow> bool" for pf where
  upgrade: "node_step pf n (n\<lparr>nd_next := Suc (nd_next n),
      nd_tasks := nd_tasks n @ [(UpgradeOn (nd_next n), upgrade_task pf (nd_next n) h (w_now (gw_world (nd_gateway n))))]\<rparr>)"
| message: "gw_conns (nd_gateway n) s \<noteq> None \<Longrightarrow> receive pf s raw (nd_gateway n) = ((u, t), g) \<Longrightarrow>
    node_step pf n (n\<lparr>nd_gateway := g, nd_tasks := nd_tasks n @ [(u, t)],
      nd_enrolls := (if u = EnrollOn s then (nd_enrolls n)(s := Suc (nd_enrolls n s)) else nd_enrolls n)\<rparr>)"
| resume: "i < length (nd_tasks n) \<Longrightarrow> nd_tasks n ! i = (u, Await f) \<Longrightarrow> f (nd_gateway n) = (r, g) \<Longrightarrow>
    node_step pf n (n\<lparr>nd_gateway := g, nd_tasks := (nd_tasks n)[i := (u, case r of Inl e \<Rightarrow> Finished | Inr t \<Rightarrow> t)]\<rparr>)"
| closed: "node_step pf n (n\<lparr>nd_gateway := snd (onClose s (nd_gateway n))\<rparr>)"
| monitor: "node_step pf n (n\<lparr>nd_gateway := snd (checkHeartbeatTimeout s (nd_gateway n))\<rparr>)"
| job: "node_step pf n (n\<lparr>nd_gateway := snd (dispatchJob k (nd_gateway n))\<rparr>)"
| others: "node_step pf n (n\<lparr>nd_gateway := (nd_gateway n)\<lparr>gw_world := w\<rparr>\<rparr>)"

inductive_cases node_stepE: "node_step pf n n'"

inductive node_reachable :: "platform \<Rightarrow> node \<Rightarrow> bool" for pf where
  start: "node_reachable pf (fresh_node w r)"
| step: "node_reachable pf n \<Longrightarrow> node_step pf n n' \<Longrightarrow> node_reachable pf n'"

subsection \<open>What a stage does to the connections and the live map\<close>

definition identity :: "gateway \<Rightarrow> nat \<Rightarrow> (bool \<times> string option) option" where
  "identity g s = map_option (\<lambda>c. (cn_authenticated c, cn_agentId c)) (gw_conns g s)"

definition same_view :: "gateway \<Rightarrow> gateway \<Rightarrow> bool" where
  "same_view g g' \<longleftrightarrow> identity g' = identity g \<and> gw_live g' = gw_live g"

definition registers :: "nat \<Rightarrow> string \<Rightarrow> gateway \<Rightarrow> gateway \<Rightarrow> bool" where
  "registers s a g g' \<longleftrightarrow> identity g' = (identity g)(s := map_option (\<lambda>_. (True, Some a)) (identity g s))
     \<and> gw_live g' = (gw_live g)(a \<mapsto> s)"

definition connects :: "nat \<Rightarrow> string option \<Rightarrow> gateway \<Rightarrow> gateway \<Rightarrow> bool" where
  "connects s a g g' \<longleftrightarrow> identity g' = (identity g)(s \<mapsto> (a \<noteq> None, a))
     \<and> gw_live g' = (case a of None \<Rightarrow> gw_live g | Some b \<Rightarrow> (gw_live g)(b \<mapsto> s))"

text \<open>
  Tasks that leave both alone; tasks that can still register socket \<open>s\<close> for an agent, once, in one stage;
  and tasks that can still make the connection of socket \<open>s\<close>.
\<close>

inductive inert :: "task \<Rightarrow> bool" where
  ended: "inert Finished"
| stage: "(\<And>g. same_view g (snd (f g))) \<Longrightarrow> (\<And>g t. fst (f g) = Inr t \<Longrightarrow> inert t) \<Longrightarrow> inert (Await f)"

inductive enrolling :: "nat \<Rightarrow> task \<Rightarrow> bool" for s where
  before: "(\<And>g. same_view g (snd (f g))) \<Longrightarrow> (\<And>g t. fst (f g) = Inr t \<Longrightarrow> inert t \<or> enrolling s t) \<Longrightarrow> enrolling s (Await f)"
| finish: "(\<And>g. registers s a g (snd (f g))) \<Longrightarrow> (\<And>g t. fst (f g) = Inr t \<Longrightarrow> inert t) \<Longrightarrow> enrolling s (Await f)"

inductive connecting :: "nat \<Rightarrow> task \<Rightarrow> bool" for s where
  before: "(\<And>g. same_view g (snd (f g))) \<Longrightarrow> (\<And>g t. fst (f g) = Inr t \<Longrightarrow> inert t \<or> connecting s t) \<Longrightarrow> connecting s (Await f)"
| finish: "(\<And>g. connects s a g (snd (f g))) \<Longrightarrow> (\<And>g t. fst (f g) = Inr t \<Longrightarrow> inert t) \<Longrightarrow> connecting s (Await f)"

inductive_cases inertE: "inert (Await f)"
inductive_cases enrollingE: "enrolling s (Await f)"
inductive_cases connectingE: "connecting s (Await f)"

lemma identity_frame [simp]:
  "identity (g\<lparr>gw_world := w\<rparr>) = identity g" "identity (g\<lparr>gw_replay := r\<rparr>) = identity g"
  "identity (g\<lparr>gw_live := l\<rparr>) = identity g" "identity (snd (on_world m g)) = identity g"
  by (simp_all add: identity_def fun_eq_iff)

lemma identity_set_conn:
  assumes "\<And>c. cn_agentId (f c) = cn_agentId c \<and> cn_authenticated (f c) = cn_authenticated c"
  shows "identity (set_conn s f g) = identity g"
  using assms by (simp add: identity_def fun_eq_iff option.map_comp comp_def)

lemma identity_send: "identity (set_conn s (\<lambda>c. if cn_open c then c\<lparr>cn_sent := cn_sent c @ [msg]\<rparr> else c) g) = identity g"
  by (rule identity_set_conn) simp

lemma identity_heartbeat: "identity (set_conn s (\<lambda>c. c\<lparr>cn_lastHeartbeatAt := now\<rparr>) g) = identity g"
  by (rule identity_set_conn) simp

lemma view_on_world: "same_view g (snd (on_world m g))"
  by (simp add: same_view_def)

lemma view_close: "same_view g (snd (close s code reason g))"
  using identity_set_conn [of "\<lambda>c. c\<lparr>cn_open := False, cn_closed := Some (code, reason)\<rparr>" s g]
  by (simp add: same_view_def close_def run_simps)

lemma view_quiet: "same_view g (snd (gets f g))" "same_view g (snd (catching (on_world m) g))"
  by (simp_all add: same_view_def run_simps)

lemma finish_registers: "registers s a g (snd (finish_enroll pf s a c g))"
proof -
  have "identity (set_conn s (\<lambda>c. c\<lparr>cn_agentId := Some a, cn_authenticated := True, cn_lastHeartbeatAt := now\<rparr>) g) =
      (identity g)(s := map_option (\<lambda>_. (True, Some a)) (identity g s))" for now
    by (simp add: identity_def fun_eq_iff option.map_comp comp_def)
  then show ?thesis
    by (auto simp: registers_def finish_enroll_def send_def run_simps identity_send split: prod.split sum.split)
qed

lemma connected_connects: "connects s a g (snd (modify (connected s a now) g))"
  by (simp add: connects_def connected_def new_connection_def identity_def run_simps fun_eq_iff)

lemma awaiting_result: "snd ((case m g of (Inl e, g') \<Rightarrow> (Inl e, g') | (Inr x, g') \<Rightarrow> (Inr (k x), g'))) = snd (m g)"
    "fst ((case m g of (Inl e, g') \<Rightarrow> (Inl e, g') | (Inr x, g') \<Rightarrow> (Inr (k x), g'))) = Inr t \<Longrightarrow> \<exists>x. t = k x"
  by (auto split: prod.splits sum.splits)

lemma inert_awaiting: "(\<And>g. same_view g (snd (m g))) \<Longrightarrow> (\<And>x. inert (k x)) \<Longrightarrow> inert (awaiting m k)"
  unfolding awaiting_def by (rule inert.stage) (auto simp: awaiting_result(1) dest!: awaiting_result(2))

lemma enrolling_awaiting:
  "(\<And>g. same_view g (snd (m g))) \<Longrightarrow> (\<And>x. inert (k x) \<or> enrolling s (k x)) \<Longrightarrow> enrolling s (awaiting m k)"
  unfolding awaiting_def by (rule enrolling.before) (auto simp: awaiting_result(1) dest!: awaiting_result(2))

lemma connecting_awaiting:
  "(\<And>g. same_view g (snd (m g))) \<Longrightarrow> (\<And>x. inert (k x) \<or> connecting s (k x)) \<Longrightarrow> connecting s (awaiting m k)"
  unfolding awaiting_def by (rule connecting.before) (auto simp: awaiting_result(1) dest!: awaiting_result(2))

lemma enrolling_last: "(\<And>g. registers s a g (snd (m g))) \<Longrightarrow> (\<And>x. inert (k x)) \<Longrightarrow> enrolling s (awaiting m k)"
  unfolding awaiting_def by (rule enrolling.finish [where a = a]) (auto simp: awaiting_result(1) dest!: awaiting_result(2))

lemma connecting_last: "(\<And>g. connects s a g (snd (m g))) \<Longrightarrow> (\<And>x. inert (k x)) \<Longrightarrow> connecting s (awaiting m k)"
  unfolding awaiting_def by (rule connecting.finish [where a = a]) (auto simp: awaiting_result(1) dest!: awaiting_result(2))

lemmas connecting_connected = connecting_last [OF connected_connects inert.ended]

lemma inert_refuse: "inert (refuse_task s a code reason)"
  unfolding refuse_task_def by (intro inert_awaiting view_on_world view_close inert.ended)

lemma enrolling_credential: "enrolling s (credential_task pf s p a)"
  unfolding credential_task_def
  by (intro enrolling_awaiting view_on_world disjI2 enrolling_last [OF finish_registers] inert.ended)

lemma enrolling_task: "enrolling s (enroll_task pf s p)"
proof -
  have raised: "inert (awaiting (on_world m) (\<lambda>_. Finished))" for m :: "unit act"
    by (intro inert_awaiting view_on_world inert.ended)
  have audited: "enrolling s (awaiting (on_world m) (\<lambda>_ :: unit. if b then refuse_task s a code reason else credential_task pf s p a))"
    for m b a code reason
    by (rule enrolling_awaiting [OF view_on_world]) (simp add: inert_refuse enrolling_credential)
  have branches: "inert (if c then x else y) \<or> enrolling s (if c then x else y)"
    if "inert x" "inert y \<or> enrolling s y" for c x y
    using that by simp
  have cases: "inert (case v of None \<Rightarrow> x | Some r \<Rightarrow> k r) \<or> enrolling s (case v of None \<Rightarrow> x | Some r \<Rightarrow> k r)"
    if "inert x" "\<And>r. enrolling s (k r)" for v x and k :: "token_row \<Rightarrow> task"
    using that by (cases v) simp_all
  show ?thesis
    unfolding enroll_task_def Let_def
    by (rule enrolling_awaiting [OF view_on_world], rule disjI2, rule enrolling_awaiting [OF view_on_world], rule disjI2,
        rule enrolling_awaiting [OF view_on_world], rule branches [OF inert_refuse], rule cases [OF raised audited])
qed

lemma connecting_task: "inert (upgrade_task pf s h now) \<or> connecting s (upgrade_task pf s h now)"
  unfolding upgrade_task_def
  by (auto intro!: connecting_awaiting view_quiet connecting_connected split: option.split)

text \<open>The events that are no tasks.\<close>

lemma receive_view:
  assumes "receive pf s raw g = ((u, t), g')"
  shows "same_view g g'"
    and "u = Handling \<and> inert t \<or> u = EnrollOn s \<and> enrolling s t \<and> (\<exists>c. gw_conns g s = Some c \<and> \<not> cn_authenticated c)"
  using assms
  by (auto simp: receive_def Let_def same_view_def identity_heartbeat enrolling_task
      intro!: inert_awaiting view_on_world inert.ended
      split: option.splits parse_result.splits prod.splits if_splits)

lemma close_view:
  "identity (snd (onClose s g)) = (identity g)(s := None)"
  "gw_live (snd (onClose s g)) a = Some t \<Longrightarrow> gw_live g a = Some t"
  "gw_live (snd (onClose s g)) a = Some s \<Longrightarrow> identity g s \<noteq> Some (True, Some a)"
  by (auto simp: onClose_def run_simps identity_def fun_eq_iff split: option.splits if_splits)

lemma monitor_view: "same_view g (snd (checkHeartbeatTimeout s g))"
  by (simp add: checkHeartbeatTimeout_def same_view_def run_simps split: option.split)

lemma job_view: "same_view g (snd (dispatchJob k g))"
  by (auto simp: dispatchJob_def deliver_def send_def same_view_def run_simps identity_send split: option.split)

subsection \<open>The invariant of the reachable states\<close>

text \<open>A task in flight that can still change connections or the live map.\<close>

definition pending :: "node \<Rightarrow> purpose \<Rightarrow> nat \<Rightarrow> bool" where
  "pending n u i \<longleftrightarrow> i < length (nd_tasks n) \<and> fst (nd_tasks n ! i) = u \<and> \<not> inert (snd (nd_tasks n ! i))"

definition as_started :: "purpose \<times> task \<Rightarrow> bool" where
  "as_started x \<longleftrightarrow> inert (snd x) \<or> (case fst x of
     Handling \<Rightarrow> False | EnrollOn s \<Rightarrow> enrolling s (snd x) | UpgradeOn s \<Rightarrow> connecting s (snd x))"

definition unborn :: "node \<Rightarrow> nat \<Rightarrow> bool" where
  "unborn n s \<longleftrightarrow> identity (nd_gateway n) s = None \<and> nd_enrolls n s = 0 \<and> (\<forall>a. gw_live (nd_gateway n) a \<noteq> Some s)"

text \<open>
  A connection is authenticated exactly when it has an agent. A live entry leads to an authenticated
  connection, of that very agent unless two enrollments passed the guard on it, or to a closed one if an
  enrollment passed the guard on it. A socket that has not been connected yet is unborn, and at most one task connects it. With at most
  one enrollment having passed the guard of a socket, at most one task can register it, and none can once the
  connection is authenticated.
\<close>

definition node_ok :: "node \<Rightarrow> bool" where
  "node_ok n \<longleftrightarrow>
     (\<forall>s b a. identity (nd_gateway n) s = Some (b, a) \<longrightarrow> b = (a \<noteq> None))
   \<and> (\<forall>a s. gw_live (nd_gateway n) a = Some s \<longrightarrow> identity (nd_gateway n) s = None \<and> nd_enrolls n s \<noteq> 0
        \<or> (\<exists>b. identity (nd_gateway n) s = Some (True, Some b) \<and> (b = a \<or> 2 \<le> nd_enrolls n s)))
   \<and> (\<forall>s \<ge> nd_next n. unborn n s \<and> (\<forall>x \<in> set (nd_tasks n). fst x \<noteq> UpgradeOn s \<and> fst x \<noteq> EnrollOn s))
   \<and> (\<forall>x \<in> set (nd_tasks n). as_started x)
   \<and> (\<forall>s i. pending n (UpgradeOn s) i \<longrightarrow> unborn n s
        \<and> (\<forall>j < length (nd_tasks n). fst (nd_tasks n ! j) = UpgradeOn s \<longrightarrow> j = i))
   \<and> (\<forall>s i. nd_enrolls n s \<le> 1 \<longrightarrow> pending n (EnrollOn s) i \<longrightarrow> nd_enrolls n s = 1
        \<and> (\<forall>a. identity (nd_gateway n) s \<noteq> Some (True, a)) \<and> (\<forall>j. pending n (EnrollOn s) j \<longrightarrow> j = i))"

lemma node_okI:
  assumes "\<And>s b a. identity (nd_gateway n) s = Some (b, a) \<Longrightarrow> b = (a \<noteq> None)"
    and "\<And>a s. gw_live (nd_gateway n) a = Some s \<Longrightarrow> identity (nd_gateway n) s = None \<and> nd_enrolls n s \<noteq> 0
        \<or> (\<exists>b. identity (nd_gateway n) s = Some (True, Some b) \<and> (b = a \<or> 2 \<le> nd_enrolls n s))"
    and "\<And>s. nd_next n \<le> s \<Longrightarrow> unborn n s"
    and "\<And>s x. nd_next n \<le> s \<Longrightarrow> x \<in> set (nd_tasks n) \<Longrightarrow> fst x \<noteq> UpgradeOn s \<and> fst x \<noteq> EnrollOn s"
    and "\<And>x. x \<in> set (nd_tasks n) \<Longrightarrow> as_started x"
    and "\<And>s i. pending n (UpgradeOn s) i \<Longrightarrow> unborn n s"
    and "\<And>s i j. pending n (UpgradeOn s) i \<Longrightarrow> j < length (nd_tasks n) \<Longrightarrow> fst (nd_tasks n ! j) = UpgradeOn s \<Longrightarrow> j = i"
    and "\<And>s i. nd_enrolls n s \<le> 1 \<Longrightarrow> pending n (EnrollOn s) i \<Longrightarrow>
          nd_enrolls n s = 1 \<and> (\<forall>a. identity (nd_gateway n) s \<noteq> Some (True, a))"
    and "\<And>s i j. nd_enrolls n s \<le> 1 \<Longrightarrow> pending n (EnrollOn s) i \<Longrightarrow> pending n (EnrollOn s) j \<Longrightarrow> j = i"
  shows "node_ok n"
  unfolding node_ok_def using assms by blast

lemma node_okD:
  assumes "node_ok n"
  shows "identity (nd_gateway n) s = Some (b, a) \<Longrightarrow> b = (a \<noteq> None)"
    and "gw_live (nd_gateway n) c = Some s \<Longrightarrow> identity (nd_gateway n) s = None \<and> nd_enrolls n s \<noteq> 0
        \<or> (\<exists>b. identity (nd_gateway n) s = Some (True, Some b) \<and> (b = c \<or> 2 \<le> nd_enrolls n s))"
    and "nd_next n \<le> s \<Longrightarrow> unborn n s"
    and "nd_next n \<le> s \<Longrightarrow> x \<in> set (nd_tasks n) \<Longrightarrow> fst x \<noteq> UpgradeOn s \<and> fst x \<noteq> EnrollOn s"
    and "x \<in> set (nd_tasks n) \<Longrightarrow> as_started x"
    and "pending n (UpgradeOn s) i \<Longrightarrow> unborn n s"
    and "pending n (UpgradeOn s) i \<Longrightarrow> j < length (nd_tasks n) \<Longrightarrow> fst (nd_tasks n ! j) = UpgradeOn s \<Longrightarrow> j = i"
    and "nd_enrolls n s \<le> 1 \<Longrightarrow> pending n (EnrollOn s) i \<Longrightarrow>
          nd_enrolls n s = 1 \<and> (\<forall>a. identity (nd_gateway n) s \<noteq> Some (True, a))"
    and "nd_enrolls n s \<le> 1 \<Longrightarrow> pending n (EnrollOn s) i \<Longrightarrow> pending n (EnrollOn s) j \<Longrightarrow> j = i"
  using assms unfolding node_ok_def by blast+

lemma pending_append:
  "pending (n\<lparr>nd_gateway := g, nd_tasks := nd_tasks n @ [(u, t)], nd_enrolls := e\<rparr>) v i \<longleftrightarrow>
     pending n v i \<or> i = length (nd_tasks n) \<and> u = v \<and> \<not> inert t"
  by (auto simp: pending_def nth_append less_Suc_eq)

lemma pending_update:
  "i < length (nd_tasks n) \<Longrightarrow> pending (n\<lparr>nd_gateway := g, nd_tasks := (nd_tasks n)[i := (u, t)]\<rparr>) v j \<longleftrightarrow>
     (if j = i then u = v \<and> \<not> inert t else pending n v j)"
  by (auto simp: pending_def nth_list_update)

text \<open>Steps that change no identity but by closing and enter nothing into the live map.\<close>

lemma ok_quiet:
  assumes "node_ok n"
    and view: "\<And>s. identity g s = identity (nd_gateway n) s \<or> identity g s = None"
      "\<And>a s. gw_live g a = Some s \<Longrightarrow> gw_live (nd_gateway n) a = Some s
        \<and> (identity g s = None \<longrightarrow> identity (nd_gateway n) s = None \<or> nd_enrolls n s \<noteq> 0)"
    and tasks: "\<And>x. x \<in> set ts \<Longrightarrow> as_started x \<and> (fst x = Handling \<or> fst x \<in> fst ` set (nd_tasks n))"
      "\<And>v i. v \<noteq> Handling \<Longrightarrow> pending (n\<lparr>nd_gateway := g, nd_tasks := ts\<rparr>) v i \<Longrightarrow> pending n v i"
      "\<And>j s. j < length ts \<Longrightarrow> fst (ts ! j) = UpgradeOn s \<Longrightarrow> j < length (nd_tasks n) \<and> fst (nd_tasks n ! j) = UpgradeOn s"
  shows "node_ok (n\<lparr>nd_gateway := g, nd_tasks := ts\<rparr>)"
proof -
  let ?n = "n\<lparr>nd_gateway := g, nd_tasks := ts\<rparr>"
  have born: "unborn n s \<Longrightarrow> unborn ?n s" for s
    using view(1) [of s] view(2) unfolding unborn_def by fastforce
  show ?thesis
  proof (rule node_okI)
    fix s b a assume "identity (nd_gateway ?n) s = Some (b, a)"
    then show "b = (a \<noteq> None)" using view(1) [of s] node_okD(1) [OF assms(1), of s b a] by simp
  next
    fix a s assume "gw_live (nd_gateway ?n) a = Some s"
    then show "identity (nd_gateway ?n) s = None \<and> nd_enrolls ?n s \<noteq> 0
        \<or> (\<exists>b. identity (nd_gateway ?n) s = Some (True, Some b) \<and> (b = a \<or> 2 \<le> nd_enrolls ?n s))"
      using view(1) [of s] view(2) [of a s] node_okD(2) [OF assms(1), of a s] by auto
  next
    fix s assume "nd_next ?n \<le> s"
    then show "unborn ?n s" using born node_okD(3) [OF assms(1)] by simp
  next
    fix s x assume "nd_next ?n \<le> s" "x \<in> set (nd_tasks ?n)"
    then show "fst x \<noteq> UpgradeOn s \<and> fst x \<noteq> EnrollOn s"
      using tasks(1) [of x] node_okD(4) [OF assms(1)] by fastforce
  next
    fix s i j assume "pending ?n (UpgradeOn s) i" "j < length (nd_tasks ?n)" "fst (nd_tasks ?n ! j) = UpgradeOn s"
    then show "j = i" using tasks(2) [of "UpgradeOn s" i] tasks(3) [of j s] node_okD(7) [OF assms(1)] by simp
  next
    fix s i assume "nd_enrolls ?n s \<le> 1" "pending ?n (EnrollOn s) i"
    then have *: "nd_enrolls n s = 1 \<and> (\<forall>a. identity (nd_gateway n) s \<noteq> Some (True, a))"
      using tasks(2) [of "EnrollOn s" i] node_okD(8) [OF assms(1), of s i] by simp
    show "nd_enrolls ?n s = 1 \<and> (\<forall>a. identity (nd_gateway ?n) s \<noteq> Some (True, a))"
      using view(1) [of s] * by auto
  next
    fix s i j assume "nd_enrolls ?n s \<le> 1" "pending ?n (EnrollOn s) i" "pending ?n (EnrollOn s) j"
    then show "j = i" using tasks(2) node_okD(9) [OF assms(1), of s i j] by simp
  next
    fix s i assume "pending ?n (UpgradeOn s) i"
    then have "pending n (UpgradeOn s) i" using tasks(2) by simp
    then show "unborn ?n s" using born node_okD(6) [OF assms(1)] by blast
  qed (use tasks(1) in simp)
qed

lemma ok_event:
  assumes "node_ok n" "\<And>s. identity g s = identity (nd_gateway n) s \<or> identity g s = None"
    and "\<And>a s. gw_live g a = Some s \<Longrightarrow> gw_live (nd_gateway n) a = Some s
        \<and> (identity g s = None \<longrightarrow> identity (nd_gateway n) s = None \<or> nd_enrolls n s \<noteq> 0)"
  shows "node_ok (n\<lparr>nd_gateway := g\<rparr>)"
proof -
  have "node_ok (n\<lparr>nd_gateway := g, nd_tasks := nd_tasks n\<rparr>)"
    by (rule ok_quiet [OF assms]) (use node_okD(5) [OF assms(1)] in \<open>auto simp: pending_def\<close>)
  then show ?thesis by simp
qed

text \<open>A stage that leaves connections and map alone.\<close>

lemma ok_stage:
  assumes "node_ok n" "i < length (nd_tasks n)" "nd_tasks n ! i = (u, t)" "same_view (nd_gateway n) g"
    and "as_started (u, t')" "inert t' \<or> \<not> inert t"
  shows "node_ok (n\<lparr>nd_gateway := g, nd_tasks := (nd_tasks n)[i := (u, t')]\<rparr>)"
proof (rule ok_quiet [OF assms(1)])
  have u: "u \<in> fst ` set (nd_tasks n)" using assms(2,3) by (metis fst_conv image_eqI nth_mem)
  show "as_started x \<and> (fst x = Handling \<or> fst x \<in> fst ` set (nd_tasks n))" if "x \<in> set ((nd_tasks n)[i := (u, t')])" for x
  proof -
    have "x = (u, t') \<or> x \<in> set (nd_tasks n)" using that set_update_subset_insert by fastforce
    then show ?thesis
    proof
      assume "x = (u, t')"
      then show ?thesis using assms(5) u by simp
    next
      assume "x \<in> set (nd_tasks n)"
      then show ?thesis using node_okD(5) [OF assms(1)] by blast
    qed
  qed
  show "pending n v j" if "pending (n\<lparr>nd_gateway := g, nd_tasks := (nd_tasks n)[i := (u, t')]\<rparr>) v j" for v j
    using that assms(2,3,6) unfolding pending_update [OF assms(2)] by (auto simp: pending_def split: if_splits)
  show "j < length (nd_tasks n) \<and> fst (nd_tasks n ! j) = UpgradeOn s"
    if "j < length ((nd_tasks n)[i := (u, t')])" "fst ((nd_tasks n)[i := (u, t')] ! j) = UpgradeOn s" for j s
    using that assms(2,3) by (cases "j = i") auto
qed (use assms(4) in \<open>simp_all add: same_view_def\<close>)

lemma updated_task:
  assumes "x \<in> set (ts[i := (u, t)])" "i < length ts" "fst (ts ! i) = u" "inert t" "\<And>y. y \<in> set ts \<Longrightarrow> as_started y"
  shows "fst x \<in> fst ` set ts" "as_started x"
proof -
  have "u \<in> fst ` set ts" using assms(2,3) by (metis image_eqI nth_mem)
  moreover have "x = (u, t) \<or> x \<in> set ts" using assms(1) set_update_subset_insert by fastforce
  ultimately show "fst x \<in> fst ` set ts" by (metis fst_conv imageI)
  show "as_started x" using \<open>x = (u, t) \<or> x \<in> set ts\<close>
  proof
    assume "x = (u, t)"
    then show ?thesis using assms(4) by (simp add: as_started_def)
  qed (rule assms(5))
qed

lemma enrolling_stage:
  "enrolling s (Await f) \<Longrightarrow> same_view g (snd (f g)) \<and> (\<forall>t. fst (f g) = Inr t \<longrightarrow> inert t \<or> enrolling s t)
     \<or> (\<exists>a. registers s a g (snd (f g))) \<and> (\<forall>t. fst (f g) = Inr t \<longrightarrow> inert t)"
  by (erule enrollingE) blast+

lemma connecting_stage:
  "connecting s (Await f) \<Longrightarrow> same_view g (snd (f g)) \<and> (\<forall>t. fst (f g) = Inr t \<longrightarrow> inert t \<or> connecting s t)
     \<or> (\<exists>a. connects s a g (snd (f g))) \<and> (\<forall>t. fst (f g) = Inr t \<longrightarrow> inert t)"
  by (erule connectingE) blast+

text \<open>The stage that registers a socket, and the one that connects it.\<close>

lemma ok_registers:
  assumes "node_ok n" "i < length (nd_tasks n)" "nd_tasks n ! i = (EnrollOn s, t)" "\<not> inert t"
    and reg: "registers s a (nd_gateway n) g" and "inert t'"
  shows "node_ok (n\<lparr>nd_gateway := g, nd_tasks := (nd_tasks n)[i := (EnrollOn s, t')]\<rparr>)" (is "node_ok ?n")
proof -
  note ok = node_okD [OF assms(1)]
  have i: "pending n (EnrollOn s) i" using assms(2-4) by (simp add: pending_def)
  have pend: "pending ?n v j \<longleftrightarrow> j \<noteq> i \<and> pending n v j" for v j
    using assms(6) by (simp add: pending_update [OF assms(2)])
  have view: "identity g s' = (if s' = s then map_option (\<lambda>_. (True, Some a)) (identity (nd_gateway n) s) else identity (nd_gateway n) s')"
      "gw_live g b = (if b = a then Some s else gw_live (nd_gateway n) b)" for s' b
    using reg by (simp_all add: registers_def)
  have mine: "nd_enrolls n s \<noteq> 0" using ok(8) [OF _ i] by (cases "nd_enrolls n s") auto
  then have born: "unborn n s' \<Longrightarrow> unborn ?n s'" for s'
    by (auto simp: unborn_def view)
  have s: "s < nd_next n"
    using ok(3) [of s] mine by (fastforce simp: unborn_def not_less [symmetric])
  have old: "fst x \<in> fst ` set (nd_tasks n)" "as_started x" if "x \<in> set (nd_tasks ?n)" for x
    using updated_task [of x "nd_tasks n" i "EnrollOn s" t'] that assms(2,3,6) ok(5) by simp_all
  show ?thesis
  proof (rule node_okI)
    fix s' b c assume "identity (nd_gateway ?n) s' = Some (b, c)"
    then show "b = (c \<noteq> None)" using ok(1) [of s' b c] by (auto simp: view split: if_splits)
  next
    fix b s' assume live: "gw_live (nd_gateway ?n) b = Some s'"
    show "identity (nd_gateway ?n) s' = None \<and> nd_enrolls ?n s' \<noteq> 0
        \<or> (\<exists>c. identity (nd_gateway ?n) s' = Some (True, Some c) \<and> (c = b \<or> 2 \<le> nd_enrolls ?n s'))"
    proof -
      have "(if b = a then Some s else gw_live (nd_gateway n) b) = Some s'" using live by (simp add: view)
      then consider "b = a" "s' = s" | "s' \<noteq> s" "gw_live (nd_gateway n) b = Some s'"
        | "b \<noteq> a" "s' = s" "gw_live (nd_gateway n) b = Some s"
        by (cases "b = a"; cases "s' = s") simp_all
      then show ?thesis
      proof cases
        case 1
        then show ?thesis using mine by (cases "identity (nd_gateway n) s") (simp_all add: view)
      next
        case 2
        then show ?thesis using ok(2) [of b s'] by (simp add: view)
      next
        case 3
        then have "identity (nd_gateway n) s = None \<or> 2 \<le> nd_enrolls n s"
          using ok(2) [of b s] ok(8) [OF _ i] by fastforce
        with 3 mine show ?thesis by (cases "identity (nd_gateway n) s") (auto simp: view)
      qed
    qed
  next
    fix s' i' j assume "pending ?n (UpgradeOn s') i'" "j < length (nd_tasks ?n)" "fst (nd_tasks ?n ! j) = UpgradeOn s'"
    then show "j = i'" using ok(7) [of s' i' j] assms(2,3) by (cases "j = i") (auto simp: pend)
  next
    fix s' j assume "nd_enrolls ?n s' \<le> 1" "pending ?n (EnrollOn s') j"
    then show "nd_enrolls ?n s' = 1 \<and> (\<forall>a. identity (nd_gateway ?n) s' \<noteq> Some (True, a))"
      using ok(8) [of s' j] ok(9) [of s i j] i by (cases "s' = s") (auto simp: pend view)
  next
    fix s' j k assume "nd_enrolls ?n s' \<le> 1" "pending ?n (EnrollOn s') j" "pending ?n (EnrollOn s') k"
    then show "k = j" using ok(9) [of s' j k] by (simp add: pend)
  next
    fix s' x assume "nd_next ?n \<le> s'" "x \<in> set (nd_tasks ?n)"
    then show "fst x \<noteq> UpgradeOn s' \<and> fst x \<noteq> EnrollOn s'" using old(1) [of x] ok(4) [of s'] by fastforce
  next
    fix s' j assume "pending ?n (UpgradeOn s') j"
    then show "unborn ?n s'" using born ok(6) pend by blast
  qed (use old(2) born ok(3) in auto)
qed

lemma ok_connects:
  assumes "node_ok n" "i < length (nd_tasks n)" "nd_tasks n ! i = (UpgradeOn s, t)" "\<not> inert t"
    and con: "connects s a (nd_gateway n) g" and "inert t'"
  shows "node_ok (n\<lparr>nd_gateway := g, nd_tasks := (nd_tasks n)[i := (UpgradeOn s, t')]\<rparr>)" (is "node_ok ?n")
proof -
  note ok = node_okD [OF assms(1)]
  have i: "pending n (UpgradeOn s) i" using assms(2-4) by (simp add: pending_def)
  have pend: "pending ?n v j \<longleftrightarrow> j \<noteq> i \<and> pending n v j" for v j
    using assms(6) by (simp add: pending_update [OF assms(2)])
  have view: "identity g s' = (if s' = s then Some (a \<noteq> None, a) else identity (nd_gateway n) s')"
      "gw_live g b = (if a = Some b then Some s else gw_live (nd_gateway n) b)" for s' b
    using con by (auto simp: connects_def split: option.splits)
  have mine: "unborn n s" using ok(6) [OF i] .
  then have none: "gw_live (nd_gateway n) b \<noteq> Some s" "nd_enrolls n s = 0" for b by (simp_all add: unborn_def)
  have born: "unborn n s' \<Longrightarrow> s' \<noteq> s \<Longrightarrow> unborn ?n s'" for s' by (auto simp: unborn_def view)
  have here: "UpgradeOn s \<in> fst ` set (nd_tasks n)" using assms(2,3) by (metis fst_conv image_eqI nth_mem)
  then have s: "s < nd_next n" using ok(4) [of s] by (fastforce simp: not_less [symmetric])
  have old: "fst x \<in> fst ` set (nd_tasks n)" "as_started x" if "x \<in> set (nd_tasks ?n)" for x
    using updated_task [of x "nd_tasks n" i "UpgradeOn s" t'] that assms(2,3,6) ok(5) by simp_all
  show ?thesis
  proof (rule node_okI)
    fix s' b c assume "identity (nd_gateway ?n) s' = Some (b, c)"
    then show "b = (c \<noteq> None)" using ok(1) [of s' b c] by (auto simp: view split: if_splits)
  next
    fix b s' assume live: "gw_live (nd_gateway ?n) b = Some s'"
    show "identity (nd_gateway ?n) s' = None \<and> nd_enrolls ?n s' \<noteq> 0
        \<or> (\<exists>c. identity (nd_gateway ?n) s' = Some (True, Some c) \<and> (c = b \<or> 2 \<le> nd_enrolls ?n s'))"
      using live ok(2) [of b s'] none(1) [of b] by (auto simp: view split: if_splits)
  next
    fix s' i' j assume "pending ?n (UpgradeOn s') i'" "j < length (nd_tasks ?n)" "fst (nd_tasks ?n ! j) = UpgradeOn s'"
    then show "j = i'" using ok(7) [of s' i' j] assms(2,3) by (cases "j = i") (auto simp: pend)
  next
    fix s' j assume "nd_enrolls ?n s' \<le> 1" "pending ?n (EnrollOn s') j"
    then show "nd_enrolls ?n s' = 1 \<and> (\<forall>a. identity (nd_gateway ?n) s' \<noteq> Some (True, a))"
      using ok(8) [of s' j] none(2) by (cases "s' = s") (auto simp: pend view)
  next
    fix s' j k assume "nd_enrolls ?n s' \<le> 1" "pending ?n (EnrollOn s') j" "pending ?n (EnrollOn s') k"
    then show "k = j" using ok(9) [of s' j k] by (simp add: pend)
  next
    fix s' x assume "nd_next ?n \<le> s'" "x \<in> set (nd_tasks ?n)"
    then show "fst x \<noteq> UpgradeOn s' \<and> fst x \<noteq> EnrollOn s'" using old(1) [of x] ok(4) [of s'] by fastforce
  next
    fix s' j assume "pending ?n (UpgradeOn s') j"
    then have "j \<noteq> i" "pending n (UpgradeOn s') j" by (simp_all add: pend)
    moreover have "s' \<noteq> s" using calculation ok(7) [OF i, of j] by (auto simp: pending_def)
    ultimately show "unborn ?n s'" using born ok(6) by blast
  next
    fix s' assume "nd_next ?n \<le> s'"
    then show "unborn ?n s'" using born [of s'] ok(3) [of s'] s by simp
  qed (use old(2) in auto)
qed

lemma ok_resume:
  assumes "node_ok n" "i < length (nd_tasks n)" "nd_tasks n ! i = (u, Await f)" "f (nd_gateway n) = (r, g)"
  shows "node_ok (n\<lparr>nd_gateway := g, nd_tasks := (nd_tasks n)[i := (u, case r of Inl e \<Rightarrow> Finished | Inr t \<Rightarrow> t)]\<rparr>)"
proof -
  let ?t = "case r of Inl e \<Rightarrow> Finished | Inr t \<Rightarrow> t"
  have g: "snd (f (nd_gateway n)) = g" using assms(4) by simp
  have rest: "P ?t" if "P Finished" "\<And>t. fst (f (nd_gateway n)) = Inr t \<Longrightarrow> P t" for P
    using that assms(4) by (cases r) auto
  have quiet: ?thesis if "same_view (nd_gateway n) g" "as_started (u, ?t)" "inert ?t \<or> \<not> inert (Await f)"
    by (rule ok_stage [OF assms(1-3) that])
  show ?thesis
  proof (cases "inert (Await f)")
    case True
    then have "same_view (nd_gateway n) g" "inert ?t"
      using g by (auto elim!: inertE intro!: rest [of inert] inert.ended)
    with quiet show ?thesis by (simp add: as_started_def)
  next
    case False
    have "as_started (u, Await f)" using node_okD(5) [OF assms(1)] assms(2,3) by (metis nth_mem)
    then consider (enroll) s where "u = EnrollOn s" "enrolling s (Await f)"
      | (upgrade) s where "u = UpgradeOn s" "connecting s (Await f)"
      using False by (auto simp: as_started_def split: purpose.splits)
    then show ?thesis
    proof cases
      case enroll
      from enrolling_stage [OF enroll(2), of "nd_gateway n"] show ?thesis
      proof
        assume *: "same_view (nd_gateway n) (snd (f (nd_gateway n))) \<and> (\<forall>t. fst (f (nd_gateway n)) = Inr t \<longrightarrow> inert t \<or> enrolling s t)"
        then have "inert ?t \<or> enrolling s ?t" by (intro rest [of "\<lambda>t. inert t \<or> enrolling s t"]) (simp_all add: inert.ended)
        then have "as_started (u, ?t)" by (auto simp only: as_started_def enroll(1) fst_conv snd_conv purpose.case)
        then show ?thesis using *[unfolded g] False by (intro quiet) blast+
      next
        assume *: "(\<exists>a. registers s a (nd_gateway n) (snd (f (nd_gateway n)))) \<and> (\<forall>t. fst (f (nd_gateway n)) = Inr t \<longrightarrow> inert t)"
        then have "inert ?t" by (intro rest [of inert]) (simp_all add: inert.ended)
        with * ok_registers [OF assms(1,2)] assms(3) False enroll(1) show ?thesis by (auto simp: g)
      qed
    next
      case upgrade
      from connecting_stage [OF upgrade(2), of "nd_gateway n"] show ?thesis
      proof
        assume *: "same_view (nd_gateway n) (snd (f (nd_gateway n))) \<and> (\<forall>t. fst (f (nd_gateway n)) = Inr t \<longrightarrow> inert t \<or> connecting s t)"
        then have "inert ?t \<or> connecting s ?t" by (intro rest [of "\<lambda>t. inert t \<or> connecting s t"]) (simp_all add: inert.ended)
        then have "as_started (u, ?t)" by (auto simp only: as_started_def upgrade(1) fst_conv snd_conv purpose.case)
        then show ?thesis using *[unfolded g] False by (intro quiet) blast+
      next
        assume *: "(\<exists>a. connects s a (nd_gateway n) (snd (f (nd_gateway n)))) \<and> (\<forall>t. fst (f (nd_gateway n)) = Inr t \<longrightarrow> inert t)"
        then have "inert ?t" by (intro rest [of inert]) (simp_all add: inert.ended)
        with * ok_connects [OF assms(1,2)] assms(3) False upgrade(1) show ?thesis by (auto simp: g)
      qed
    qed
  qed
qed

text \<open>The steps that start a task.\<close>

lemma ok_handling:
  assumes "node_ok n" "same_view (nd_gateway n) g" "inert t"
  shows "node_ok (n\<lparr>nd_gateway := g, nd_tasks := nd_tasks n @ [(Handling, t)]\<rparr>)"
proof (rule ok_quiet [OF assms(1)])
  show "pending n v i" if "v \<noteq> Handling" "pending (n\<lparr>nd_gateway := g, nd_tasks := nd_tasks n @ [(Handling, t)]\<rparr>) v i" for v i
    using that by (auto simp: pending_def nth_append less_Suc_eq split: if_splits)
  show "as_started x \<and> (fst x = Handling \<or> fst x \<in> fst ` set (nd_tasks n))" if "x \<in> set (nd_tasks n @ [(Handling, t)])" for x
    using that assms(3) node_okD(5) [OF assms(1), of x] by (auto simp: as_started_def)
  show "j < length (nd_tasks n) \<and> fst (nd_tasks n ! j) = UpgradeOn s"
    if "j < length (nd_tasks n @ [(Handling, t)])" "fst ((nd_tasks n @ [(Handling, t)]) ! j) = UpgradeOn s" for j s
    using that by (auto simp: nth_append less_Suc_eq split: if_splits)
qed (use assms(2) in \<open>simp_all add: same_view_def\<close>)

lemma ok_enroll:
  assumes "node_ok n" "same_view (nd_gateway n) g" "enrolling s t"
    and c: "gw_conns (nd_gateway n) s = Some c" "\<not> cn_authenticated c"
  shows "node_ok (n\<lparr>nd_gateway := g, nd_tasks := nd_tasks n @ [(EnrollOn s, t)],
    nd_enrolls := (nd_enrolls n)(s := Suc (nd_enrolls n s))\<rparr>)" (is "node_ok ?n")
proof -
  note ok = node_okD [OF assms(1)]
  have view: "identity g = identity (nd_gateway n)" "gw_live g = gw_live (nd_gateway n)"
    using assms(2) by (simp_all add: same_view_def)
  have here: "identity (nd_gateway n) s = Some (False, cn_agentId c)" using c by (simp add: identity_def)
  then have s: "\<not> unborn n s" by (simp add: unborn_def)
  have born: "unborn n s' \<Longrightarrow> unborn ?n s'" for s' using s by (auto simp: unborn_def view)
  have pend: "pending ?n v i \<longleftrightarrow> pending n v i \<or> i = length (nd_tasks n) \<and> EnrollOn s = v \<and> \<not> inert t" for v i
    by (rule pending_append)
  have none: "\<not> pending n (EnrollOn s) i" if "nd_enrolls n s = 0" for i
    using ok(8) [of s i] that by auto
  show ?thesis
  proof (rule node_okI)
    fix s' b a assume "identity (nd_gateway ?n) s' = Some (b, a)"
    then show "b = (a \<noteq> None)" using ok(1) by (simp add: view)
  next
    fix a s' assume "gw_live (nd_gateway ?n) a = Some s'"
    then show "identity (nd_gateway ?n) s' = None \<and> nd_enrolls ?n s' \<noteq> 0
        \<or> (\<exists>b. identity (nd_gateway ?n) s' = Some (True, Some b) \<and> (b = a \<or> 2 \<le> nd_enrolls ?n s'))"
      using ok(2) [of a s'] by (auto simp: view)
  next
    fix s' assume "nd_next ?n \<le> s'"
    then show "unborn ?n s'" using born ok(3) by simp
  next
    fix s' x assume "nd_next ?n \<le> s'" "x \<in> set (nd_tasks ?n)"
    then show "fst x \<noteq> UpgradeOn s' \<and> fst x \<noteq> EnrollOn s'" using ok(3) [of s'] ok(4) [of s' x] s by auto
  next
    fix x assume "x \<in> set (nd_tasks ?n)"
    then show "as_started x" using ok(5) [of x] assms(3) by (auto simp: as_started_def)
  next
    fix s' i assume "pending ?n (UpgradeOn s') i"
    then show "unborn ?n s'" using born ok(6) pend by blast
  next
    fix s' i j assume "pending ?n (UpgradeOn s') i" "j < length (nd_tasks ?n)" "fst (nd_tasks ?n ! j) = UpgradeOn s'"
    then show "j = i"
      using ok(7) [of s' i j] by (auto simp: pend nth_append less_Suc_eq split: if_splits)
  next
    fix s' i assume "nd_enrolls ?n s' \<le> 1" "pending ?n (EnrollOn s') i"
    then show "nd_enrolls ?n s' = 1 \<and> (\<forall>a. identity (nd_gateway ?n) s' \<noteq> Some (True, a))"
      using ok(8) [of s' i] none here by (cases "s' = s") (auto simp: pend view)
  next
    fix s' i j assume "nd_enrolls ?n s' \<le> 1" "pending ?n (EnrollOn s') i" "pending ?n (EnrollOn s') j"
    then show "j = i" using ok(9) [of s' i j] none unfolding pend by (cases "s' = s") auto
  qed
qed

lemma ok_upgrade:
  assumes "node_ok n" "inert t \<or> connecting (nd_next n) t"
  shows "node_ok (n\<lparr>nd_next := Suc (nd_next n), nd_tasks := nd_tasks n @ [(UpgradeOn (nd_next n), t)]\<rparr>)" (is "node_ok ?n")
proof -
  note ok = node_okD [OF assms(1)]
  have born: "unborn ?n s = unborn n s" for s by (simp add: unborn_def)
  have pend: "pending ?n v i \<longleftrightarrow> pending n v i \<or> i = length (nd_tasks n) \<and> UpgradeOn (nd_next n) = v \<and> \<not> inert t" for v i
    by (auto simp: pending_def nth_append less_Suc_eq)
  have new: "fst (nd_tasks n ! i) \<noteq> UpgradeOn (nd_next n)" if "i < length (nd_tasks n)" for i
    using ok(4) [of "nd_next n" "nd_tasks n ! i"] that by simp
  have old: "\<not> pending n (UpgradeOn (nd_next n)) i" for i using new by (auto simp: pending_def)
  show ?thesis
  proof (rule node_okI)
    fix s assume "nd_next ?n \<le> s"
    then show "unborn ?n s" using ok(3) born by simp
  next
    fix s x assume "nd_next ?n \<le> s" "x \<in> set (nd_tasks ?n)"
    then show "fst x \<noteq> UpgradeOn s \<and> fst x \<noteq> EnrollOn s" using ok(4) [of s x] by auto
  next
    fix x assume "x \<in> set (nd_tasks ?n)"
    then show "as_started x" using ok(5) [of x] assms(2) by (auto simp: as_started_def)
  next
    fix s i assume "pending ?n (UpgradeOn s) i"
    then show "unborn ?n s" using ok(3) [of "nd_next n"] ok(6) born pend by auto
  next
    fix s i j assume "pending ?n (UpgradeOn s) i" "j < length (nd_tasks ?n)" "fst (nd_tasks ?n ! j) = UpgradeOn s"
    then show "j = i"
      using ok(7) [of s i j] new old by (auto simp: pend nth_append less_Suc_eq split: if_splits)
  next
    fix s i assume "nd_enrolls ?n s \<le> 1" "pending ?n (EnrollOn s) i"
    then show "nd_enrolls ?n s = 1 \<and> (\<forall>a. identity (nd_gateway ?n) s \<noteq> Some (True, a))"
      using ok(8) by (simp add: pend)
  next
    fix s i j assume "nd_enrolls ?n s \<le> 1" "pending ?n (EnrollOn s) i" "pending ?n (EnrollOn s) j"
    then show "j = i" using ok(9) by (simp add: pend)
  qed (use ok(1,2) in simp_all)
qed

lemma ok_message:
  assumes "node_ok n" "receive pf s raw (nd_gateway n) = ((u, t), g)"
  shows "node_ok (n\<lparr>nd_gateway := g, nd_tasks := nd_tasks n @ [(u, t)],
      nd_enrolls := (if u = EnrollOn s then (nd_enrolls n)(s := Suc (nd_enrolls n s)) else nd_enrolls n)\<rparr>)"
proof -
  note view = receive_view [OF assms(2)]
  have same: "n\<lparr>nd_gateway := g, nd_tasks := ts, nd_enrolls := nd_enrolls n\<rparr> = n\<lparr>nd_gateway := g, nd_tasks := ts\<rparr>" for ts
    by (cases n) simp
  from view(2) show ?thesis
  proof
    assume "u = Handling \<and> inert t"
    then show ?thesis using ok_handling [OF assms(1) view(1)] by (simp add: same)
  next
    assume "u = EnrollOn s \<and> enrolling s t \<and> (\<exists>c. gw_conns (nd_gateway n) s = Some c \<and> \<not> cn_authenticated c)"
    then show ?thesis using ok_enroll [OF assms(1) view(1)] by auto
  qed
qed

lemma node_step_ok: "node_step pf n n' \<Longrightarrow> node_ok n \<Longrightarrow> node_ok n'"
proof (induction rule: node_step.induct)
  case (upgrade n h)
  then show ?case by (rule ok_upgrade [OF _ connecting_task])
next
  case (message n s raw u t g)
  then show ?case by (intro ok_message)
next
  case (resume i n u f r g)
  then show ?case by (intro ok_resume)
next
  case (closed n s)
  let ?g = "snd (onClose s (nd_gateway n))"
  show ?case
  proof (rule ok_event [OF closed])
    fix a t assume *: "gw_live ?g a = Some t"
    note live = close_view(2) [OF *]
    have "identity (nd_gateway n) t = None \<or> nd_enrolls n t \<noteq> 0" if "t = s"
      using that node_okD(2) [OF closed live] close_view(3) [of s "nd_gateway n" a] * by auto
    with live show "gw_live (nd_gateway n) a = Some t
        \<and> (identity ?g t = None \<longrightarrow> identity (nd_gateway n) t = None \<or> nd_enrolls n t \<noteq> 0)"
      by (cases "t = s") (simp_all add: close_view(1))
  qed (simp add: close_view(1))
next
  case (monitor n s)
  then show ?case by (rule ok_event) (use monitor_view in \<open>simp_all add: same_view_def\<close>)
next
  case (job n k)
  then show ?case by (rule ok_event) (use job_view in \<open>simp_all add: same_view_def\<close>)
next
  case (others n w)
  then show ?case by (rule ok_event) simp_all
qed

lemma reachable_node_ok: "node_reachable pf n \<Longrightarrow> node_ok n"
proof (induction rule: node_reachable.induct)
  case (start w r)
  show ?case by (rule node_okI) (simp_all add: fresh_node_def started_def identity_def unborn_def pending_def)
qed (rule node_step_ok)

text \<open>
  C6: commands only ever reach the agent they are for. In every state the gateway can reach, by any
  interleaving of connects, disconnects, messages, the stages of the handlers in flight, monitors, jobs and
  changes of the database by other processes, the connection the live map holds for an agent is authenticated,
  as exactly that agent, and if no enrollment passed the guard of \<open>handleMessage\<close> on its socket it has not
  been closed. The one exception is a socket on which two \<open>agent.enroll\<close> passed the guard, the second while
  the first was still waiting for the database: its connection is authenticated, as one of the agents
  enrolled there.
\<close>
theorem live_map_is_authentic:
  assumes "node_reachable pf n" "gw_live (nd_gateway n) a = Some s"
  shows "case gw_conns (nd_gateway n) s of
      None \<Rightarrow> 1 \<le> nd_enrolls n s
    | Some c \<Rightarrow> cn_authenticated c \<and> (\<exists>b. cn_agentId c = Some b \<and> (b = a \<or> 2 \<le> nd_enrolls n s))"
  using node_okD(2) [OF reachable_node_ok [OF assms(1)] assms(2)]
  by (auto simp: identity_def split: option.split)

definition credential_world :: world where
  "credential_world = sample_world\<lparr>w_credentials := [\<lparr>cr_id = ''c1'', cr_agentId = ''a1'',
     cr_fingerprint = ''hk'', cr_status = CredActive, cr_issuedAt = 0, cr_expiresAt = None,
     cr_revokedAt = None\<rparr>]\<rparr>"

definition connected_gateway :: "nat \<Rightarrow> gateway" where
  "connected_gateway s = snd (onUpgrade sample_platform s (Some ''Bearer a1:k'') (started credential_world (newReplayGuard None)))"

lemma bearer_sample: "parse_bearer (Some ''Bearer a1:k'') = Some (''a1'', ''k'')"
  by (simp add: parse_bearer_def starts_with_def)

lemma upgrade_run:
  assumes "parse_bearer h = Some (a, secret)" "verifyCredential pf a secret (gw_world g)"
    and "find_agent a (gw_world g) = Some r"
  shows "onUpgrade pf s h g = (Inr (), connected s (Some a) (w_now (gw_world g))
    (g\<lparr>gw_world := set_agents a (set_status Online) (gw_world g)\<rparr>))"
  using assms by (simp add: onUpgrade_def run_simps)

lemma connected_gateway_facts:
  "gw_live (connected_gateway s) ''a1'' = Some s"
  "gw_conns (connected_gateway s) s = Some (new_connection (Some ''a1'') (w_now credential_world))"
proof -
  have "verifyCredential sample_platform ''a1'' ''k'' credential_world"
    by (simp add: verifyCredential_def find_credential_def credential_world_def hashToken_def sample_platform_def)
  then show "gw_live (connected_gateway s) ''a1'' = Some s"
      "gw_conns (connected_gateway s) s = Some (new_connection (Some ''a1'') (w_now credential_world))"
    by (simp_all add: connected_gateway_def onUpgrade_def bearer_sample run_simps connected_def started_def set_agents_def)
qed

text \<open>A task in flight can run to its end without anything else happening.\<close>

lemma run_stage: "run_task (Await f) g = (case f g of (Inl e, g') \<Rightarrow> (Inl e, g') | (Inr t, g') \<Rightarrow> run_task t g')"
  by (simp split: prod.split sum.split)

lemma task_runs:
  assumes "i < length (nd_tasks n)" "nd_tasks n ! i = (u, t)"
  shows "(node_step pf)\<^sup>*\<^sup>* n
    (n\<lparr>nd_gateway := snd (run_task t (nd_gateway n)), nd_tasks := (nd_tasks n)[i := (u, Finished)]\<rparr>)"
  using assms
proof (induction t arbitrary: n)
  case Finished
  have "n\<lparr>nd_gateway := nd_gateway n, nd_tasks := (nd_tasks n)[i := (u, Finished)]\<rparr> = n"
    using Finished by (metis list_update_id node.surjective node.update_convs(1,2))
  then show ?case by (simp add: ret_def)
next
  case (Await f)
  obtain r g where fg: "f (nd_gateway n) = (r, g)" by force
  then have range: "(r, g) \<in> range f" by (metis rangeI)
  let ?t = "case r of Inl e \<Rightarrow> Finished | Inr t \<Rightarrow> t"
  let ?m = "n\<lparr>nd_gateway := g, nd_tasks := (nd_tasks n)[i := (u, ?t)]\<rparr>"
  have first: "node_step pf n ?m" by (rule node_step.resume [OF Await.prems fg])
  have m: "i < length (nd_tasks ?m)" "nd_tasks ?m ! i = (u, ?t)" using Await.prems(1) by simp_all
  show ?case
  proof (cases r)
    case (Inl e)
    then show ?thesis using first fg by (simp add: run_stage del: run_task.simps)
  next
    case (Inr t')
    have "(node_step pf)\<^sup>*\<^sup>* ?m
        (?m\<lparr>nd_gateway := snd (run_task t' (nd_gateway ?m)), nd_tasks := (nd_tasks ?m)[i := (u, Finished)]\<rparr>)"
      using m range Inr by (intro Await.IH [of "(r, g)" r t']) auto
    with first show ?thesis using fg Inr by (simp add: run_stage converse_rtranclp_into_rtranclp del: run_task.simps)
  qed
qed

lemma reachable_steps: "(node_step pf)\<^sup>*\<^sup>* n n' \<Longrightarrow> node_reachable pf n \<Longrightarrow> node_reachable pf n'"
  by (induction rule: rtranclp_induct) (auto intro: node_reachable.step)

definition bearer_node :: node where
  "bearer_node = \<lparr>nd_gateway = connected_gateway 0, nd_tasks = [(UpgradeOn 0, Finished)], nd_next = 1, nd_enrolls = (\<lambda>_. 0)\<rparr>"

lemma bearer_node_reachable: "node_reachable sample_platform bearer_node"
proof -
  let ?n = "fresh_node credential_world (newReplayGuard None)" and ?h = "Some ''Bearer a1:k''"
  let ?t = "upgrade_task sample_platform 0 ?h (w_now credential_world)"
  let ?m = "?n\<lparr>nd_next := 1, nd_tasks := [(UpgradeOn 0, ?t)]\<rparr>"
  have "node_step sample_platform ?n ?m"
    using node_step.upgrade [of sample_platform ?n ?h] by (simp add: fresh_node_def started_def)
  then have m: "node_reachable sample_platform ?m" by (rule node_reachable.step [OF node_reachable.start])
  have "run_task ?t (nd_gateway ?m) = onUpgrade sample_platform 0 ?h (nd_gateway ?m)"
    using upgrade_uninterrupted [of sample_platform 0 ?h "nd_gateway ?m"] by (simp add: fresh_node_def started_def)
  then have "?m\<lparr>nd_gateway := snd (run_task ?t (nd_gateway ?m)), nd_tasks := (nd_tasks ?m)[0 := (UpgradeOn 0, Finished)]\<rparr> = bearer_node"
    by (simp add: bearer_node_def connected_gateway_def fresh_node_def)
  with task_runs [of 0 ?m "UpgradeOn 0" ?t sample_platform] show ?thesis using reachable_steps [OF _ m] by simp
qed

theorem live_map_is_authentic_witness:
  "gw_live (nd_gateway bearer_node) ''a1'' = Some 0
   \<and> (case gw_conns (nd_gateway bearer_node) 0 of
      None \<Rightarrow> 1 \<le> nd_enrolls bearer_node 0
    | Some c \<Rightarrow> cn_authenticated c \<and> (\<exists>b. cn_agentId c = Some b \<and> (b = ''a1'' \<or> 2 \<le> nd_enrolls bearer_node 0)))"
proof -
  have "gw_live (nd_gateway bearer_node) ''a1'' = Some 0" by (simp add: bearer_node_def connected_gateway_facts)
  with live_map_is_authentic [OF bearer_node_reachable this] show ?thesis by blast
qed

subsection \<open>A connection keeps its agent\<close>

lemma inert_stays: "inert (Await f) \<Longrightarrow> f g = (r, g') \<Longrightarrow> inert (case r of Inl e \<Rightarrow> Finished | Inr t \<Rightarrow> t)"
  by (erule inertE) (auto intro: inert.ended split: sum.split, metis fst_conv)

lemma stage_identity:
  assumes "node_ok n" "i < length (nd_tasks n)" "nd_tasks n ! i = (u, Await f)" "f (nd_gateway n) = (r, g)"
  shows "identity g t = identity (nd_gateway n) t
    \<or> pending n (EnrollOn t) i \<and> (identity (nd_gateway n) t = None \<longrightarrow> identity g t = None)
    \<or> pending n (UpgradeOn t) i"
proof (cases "inert (Await f)")
  case True
  then have "same_view (nd_gateway n) (snd (f (nd_gateway n)))" by (auto elim: inertE)
  then show ?thesis using assms(4) by (simp add: same_view_def)
next
  case False
  have "as_started (u, Await f)" using node_okD(5) [OF assms(1)] assms(2,3) by (metis nth_mem)
  then consider (enroll) s where "u = EnrollOn s" "enrolling s (Await f)"
    | (upgrade) s where "u = UpgradeOn s" "connecting s (Await f)"
    using False by (auto simp: as_started_def split: purpose.splits)
  then show ?thesis
  proof cases
    case enroll
    then have "pending n (EnrollOn s) i" using assms(2,3) False by (simp add: pending_def)
    moreover have "same_view (nd_gateway n) g \<or> (\<exists>a. registers s a (nd_gateway n) g)"
      using enrolling_stage [OF enroll(2), of "nd_gateway n"] assms(4) by auto
    ultimately show ?thesis by (auto simp: same_view_def registers_def split: if_splits)
  next
    case upgrade
    then have "pending n (UpgradeOn s) i" using assms(2,3) False by (simp add: pending_def)
    moreover have "same_view (nd_gateway n) g \<or> (\<exists>a. connects s a (nd_gateway n) g)"
      using connecting_stage [OF upgrade(2), of "nd_gateway n"] assms(4) by auto
    ultimately show ?thesis by (auto simp: same_view_def connects_def split: if_splits)
  qed
qed

text \<open>What holds of a socket from its authentication as \<open>a\<close> on, with one enrollment at most.\<close>

definition bound_to :: "nat \<Rightarrow> string \<Rightarrow> node \<Rightarrow> bool" where
  "bound_to s a n \<longleftrightarrow> node_ok n \<and> s < nd_next n \<and> (\<forall>i. \<not> pending n (UpgradeOn s) i)
     \<and> (identity (nd_gateway n) s = None \<or> identity (nd_gateway n) s = Some (True, Some a) \<and> nd_enrolls n s \<le> 1)"

lemma bound_step: "node_step pf n n' \<Longrightarrow> bound_to s a n \<Longrightarrow> bound_to s a n'"
proof -
  assume step: "node_step pf n n'" and bound: "bound_to s a n"
  then have "node_ok n'" using node_step_ok by (auto simp: bound_to_def)
  moreover have "s < nd_next n' \<and> (\<forall>i. \<not> pending n' (UpgradeOn s) i)
      \<and> (identity (nd_gateway n') s = None \<or> identity (nd_gateway n') s = Some (True, Some a) \<and> nd_enrolls n' s \<le> 1)"
    using step bound
  proof (induction rule: node_step.induct)
    case (upgrade n h)
    then show ?case by (auto simp: bound_to_def pending_def nth_append less_Suc_eq split: if_splits)
  next
    case (message n s' raw u t g)
    note view = receive_view [OF message(2)]
    have "identity g s = identity (nd_gateway n) s" using view(1) by (simp add: same_view_def)
    moreover have "nd_enrolls n s \<le> 1 \<Longrightarrow> identity (nd_gateway n) s = Some (True, Some a) \<Longrightarrow> u = EnrollOn s' \<Longrightarrow> s' \<noteq> s"
      using view(2) by (auto simp: identity_def)
    ultimately show ?case using message(3) view(2)
      by (auto simp: bound_to_def pending_def nth_append less_Suc_eq split: if_splits)
  next
    case (resume i n u f r g)
    have ok: "node_ok n" using resume(4) by (simp add: bound_to_def)
    let ?n = "n\<lparr>nd_gateway := g, nd_tasks := (nd_tasks n)[i := (u, case r of Inl e \<Rightarrow> Finished | Inr t \<Rightarrow> t)]\<rparr>"
    have old: "pending ?n v j \<Longrightarrow> pending n v j" for v j
      using resume(1,2) inert_stays [of f "nd_gateway n" r g, OF _ resume(3)] unfolding pending_update [OF resume(1)]
      by (auto simp: pending_def split: if_splits)
    have "identity g s = None \<or> identity g s = Some (True, Some a) \<and> nd_enrolls n s \<le> 1"
      using stage_identity [OF ok resume(1-3), of s] resume(4) node_okD(8) [OF ok, of s i]
      by (auto simp: bound_to_def)
    then show ?case using resume(4) old by (auto simp: bound_to_def)
  next
    case (closed n s')
    then show ?case by (simp add: bound_to_def close_view(1) pending_def)
  next
    case (monitor n s')
    then show ?case using monitor_view [of "nd_gateway n" s'] by (simp add: bound_to_def same_view_def pending_def)
  next
    case (job n k)
    then show ?case using job_view [of "nd_gateway n" k] by (simp add: bound_to_def same_view_def pending_def)
  next
    case (others n w)
    then show ?case by (simp add: bound_to_def pending_def)
  qed
  ultimately show ?thesis by (simp add: bound_to_def)
qed

text \<open>
  C26: a connection never changes the agent it acts for. Once it has authenticated, by its bearer
  credential or by an enrollment, and at most one \<open>agent.enroll\<close> passed the guard of \<open>handleMessage\<close> on it, it
  is after any further events closed or still authenticated as the same agent; an \<open>agent.enroll\<close> that
  arrives later is ignored.
\<close>
theorem identity_is_fixed:
  assumes "node_reachable pf n" "gw_conns (nd_gateway n) s = Some c" "cn_authenticated c" "cn_agentId c = Some a"
    and "nd_enrolls n s \<le> 1" "(node_step pf)\<^sup>*\<^sup>* n n'"
  shows "gw_conns (nd_gateway n') s = None
    \<or> (\<exists>c'. gw_conns (nd_gateway n') s = Some c' \<and> cn_authenticated c' \<and> cn_agentId c' = Some a)"
proof -
  note ok = reachable_node_ok [OF assms(1)]
  have here: "identity (nd_gateway n) s = Some (True, Some a)" using assms(2-4) by (simp add: identity_def)
  then have "\<not> unborn n s" by (simp add: unborn_def)
  then have "bound_to s a n"
    using ok here assms(5) node_okD(3,6) [OF ok, of s] by (auto simp: bound_to_def not_less [symmetric])
  with assms(6) have "bound_to s a n'" by (induction rule: rtranclp_induct) (auto intro: bound_step)
  then show ?thesis by (auto simp: bound_to_def identity_def)
qed

theorem identity_is_fixed_witness:
  "let n' = bearer_node\<lparr>nd_gateway := snd (checkHeartbeatTimeout 0 (nd_gateway bearer_node))\<rparr> in
     gw_conns (nd_gateway n') 0 = None
     \<or> (\<exists>c'. gw_conns (nd_gateway n') 0 = Some c' \<and> cn_authenticated c' \<and> cn_agentId c' = Some ''a1'')"
proof -
  have "gw_conns (nd_gateway bearer_node) 0 = Some (new_connection (Some ''a1'') (w_now credential_world))"
    by (simp add: bearer_node_def connected_gateway_facts)
  moreover have "nd_enrolls bearer_node 0 \<le> 1" by (simp add: bearer_node_def)
  ultimately show ?thesis
    using identity_is_fixed [OF bearer_node_reachable _ _ _ _
        r_into_rtranclp [of "node_step sample_platform", OF node_step.monitor [of sample_platform bearer_node 0]]]
    by (simp add: new_connection_def Let_def)
qed

subsection \<open>What the window between two awaits lets through\<close>

lemma receive_enroll: "receive pf s raw g = ((EnrollOn s, t), g') \<Longrightarrow> gw_conns g' = gw_conns g"
  by (auto simp: receive_def Let_def split: option.splits parse_result.splits prod.splits if_splits)

text \<open>
  Two \<open>agent.enroll\<close> messages that arrive on one unauthenticated connection, the second before the first
  has been dealt with, both pass the guard of \<open>handleMessage\<close>; with two valid tokens both enroll, and the
  connection ends up live for two agents while it counts as the second alone: commands for the first
  agent go to it, but its heartbeats and inventories are refused, and when it closes only the second
  leaves the map.
\<close>
theorem pipelined_enrollments_split_identity:
  assumes conn: "gw_conns (nd_gateway n) s = Some c" "cn_open c"
    and first: "receive pf s raw (nd_gateway n) = ((EnrollOn s, enroll_task pf s p), g1)"
    and second: "receive pf s raw' g1 = ((EnrollOn s, enroll_task pf s q), g2)"
    and a: "enroll_ready a (gw_world g2)" "a = pf_cuid pf (w_seq (gw_world g2))"
      "enroll_refusal pf p (gw_world g2) = None"
      "hashToken pf (pf_randomToken pf (Suc (w_seq (gw_world g2)))) \<notin> cr_fingerprint ` set (w_credentials (gw_world g2))"
    and g3: "g3 = snd (handleEnroll pf s p g2)"
    and b: "enroll_ready b (gw_world g3)" "b = pf_cuid pf (w_seq (gw_world g3))"
      "enroll_refusal pf q (gw_world g3) = None"
      "hashToken pf (pf_randomToken pf (Suc (w_seq (gw_world g3)))) \<notin> cr_fingerprint ` set (w_credentials (gw_world g3))"
  shows "\<exists>n' c'. (node_step pf)\<^sup>*\<^sup>* n n' \<and> a \<noteq> b
    \<and> gw_live (nd_gateway n') a = Some s \<and> gw_live (nd_gateway n') b = Some s
    \<and> gw_conns (nd_gateway n') s = Some c' \<and> cn_authenticated c' \<and> cn_agentId c' = Some b"
proof -
  have two: "gw_conns g2 s = Some c" "gw_conns g1 s = Some c"
    using receive_enroll [OF first] receive_enroll [OF second] conn by simp_all
  obtain c1 where g3': "w_agents (gw_world g3) = w_agents (gw_world g2)
        @ [(new_agent a p)\<lparr>ag_status := Online, ag_lastHeartbeatAt := Some (w_now (gw_world g2))\<rparr>]"
      "gw_conns g3 s = Some c1" "cn_open c1" "gw_live g3 a = Some s"
    using enrollment_succeeds [OF a(1) two(1) conn(2) a(2) refl a(3,4)] conn(2) unfolding g3 by auto
  define g4 where "g4 = snd (handleEnroll pf s q g3)"
  have g4: "gw_live g4 = (gw_live g3)(b \<mapsto> s)"
      "\<exists>c'. gw_conns g4 s = Some c' \<and> cn_authenticated c' \<and> cn_agentId c' = Some b" (is "\<exists>c'. ?split c'")
    using enrollment_succeeds [OF b(1) g3'(2,3) b(2) refl b(3,4)] unfolding g4_def by auto
  have "a \<noteq> b" using b(1) g3'(1) by (auto simp: enroll_ready_def new_agent_def)
  let ?ts = "nd_tasks n @ [(EnrollOn s, enroll_task pf s p)]"
  let ?ts' = "?ts @ [(EnrollOn s, enroll_task pf s q)]"
  obtain e where path: "(node_step pf)\<^sup>*\<^sup>* n (n\<lparr>nd_gateway := g2, nd_tasks := ?ts', nd_enrolls := e\<rparr>)"
  proof -
    let ?e = "(nd_enrolls n)(s := Suc (nd_enrolls n s))"
    let ?m = "n\<lparr>nd_gateway := g1, nd_tasks := ?ts, nd_enrolls := ?e\<rparr>"
    have "node_step pf n ?m" using node_step.message [of n s pf raw] conn first by simp
    moreover have "node_step pf ?m (n\<lparr>nd_gateway := g2, nd_tasks := ?ts', nd_enrolls := ?e(s := Suc (?e s))\<rparr>)"
      using node_step.message [of ?m s pf raw'] two(2) second by simp
    ultimately show ?thesis using that by (meson converse_rtranclp_into_rtranclp r_into_rtranclp)
  qed
  let ?m = "n\<lparr>nd_gateway := g2, nd_tasks := ?ts', nd_enrolls := e\<rparr>"
  let ?l = "?m\<lparr>nd_gateway := g3, nd_tasks := ?ts'[length (nd_tasks n) := (EnrollOn s, Finished)]\<rparr>"
  have "(node_step pf)\<^sup>*\<^sup>* ?m ?l"
    using task_runs [of "length (nd_tasks n)" ?m "EnrollOn s" "enroll_task pf s p" pf]
    by (simp add: enroll_uninterrupted g3 nth_append)
  moreover have "(node_step pf)\<^sup>*\<^sup>* ?l
      (?l\<lparr>nd_gateway := g4, nd_tasks := (nd_tasks ?l)[Suc (length (nd_tasks n)) := (EnrollOn s, Finished)]\<rparr>)"
    using task_runs [of "Suc (length (nd_tasks n))" ?l "EnrollOn s" "enroll_task pf s q" pf]
    by (simp add: enroll_uninterrupted g4_def nth_append)
  ultimately have "(node_step pf)\<^sup>*\<^sup>* n
      (?l\<lparr>nd_gateway := g4, nd_tasks := (nd_tasks ?l)[Suc (length (nd_tasks n)) := (EnrollOn s, Finished)]\<rparr>)"
    using path by (meson rtranclp_trans)
  moreover obtain c' where "?split c'" using g4(2) by blast
  ultimately show ?thesis using \<open>a \<noteq> b\<close> g3'(4) g4(1) by (intro exI [of _ c'] exI conjI) auto
qed

text \<open>
  A socket that closes while its enrollment waits for the database is entered into the live map all the
  same, and no later event of the socket takes it out or marks the agent as disconnected.
\<close>
theorem closed_during_enrollment_stays_live:
  assumes "i < length (nd_tasks n)" "nd_tasks n ! i = (u, awaiting (finish_enroll pf s a credential) (\<lambda>_. Finished))"
    and "gw_conns (nd_gateway n) s = None"
  shows "\<exists>g. node_step pf n (n\<lparr>nd_gateway := g, nd_tasks := (nd_tasks n)[i := (u, Finished)]\<rparr>)
    \<and> gw_live g a = Some s \<and> gw_conns g s = None \<and> w_agents (gw_world g) = w_agents (gw_world (nd_gateway n))
    \<and> (\<forall>g' x. onClose s g = (x, g') \<longrightarrow> gw_live g' = gw_live g \<and> gw_world g' = gw_world g)"
proof -
  obtain g where g: "finish_enroll pf s a credential (nd_gateway n) = (Inr (), g)"
      "gw_live g a = Some s" "gw_conns g s = None" "w_agents (gw_world g) = w_agents (gw_world (nd_gateway n))"
    using assms(3) by (simp add: finish_enroll_def send_def run_simps control_message_def)
  have "node_step pf n (n\<lparr>nd_gateway := g, nd_tasks := (nd_tasks n)[i := (u, Finished)]\<rparr>)"
    using node_step.resume [OF assms(1) assms(2) [unfolded awaiting_def], of "Inr Finished" g] g(1) by simp
  moreover have "\<forall>g' x. onClose s g = (x, g') \<longrightarrow> gw_live g' = gw_live g \<and> gw_world g' = gw_world g"
    using g(3) by (auto simp: onClose_def run_simps)
  ultimately show ?thesis using g by blast
qed

subsection \<open>Delivery\<close>

text \<open>
  A job taken off the queue is never lost silently. If its agent's connection is live and open,
  exactly the job's message is appended to what was sent on it and nothing else changes. Otherwise the
  job answers "not delivered", no connection is touched, and the command row its message names is
  failed with the reason, and with it the workload, which is scheduled for another attempt.
\<close>
theorem delivery_outcome:
  assumes "job_key (jb_message j) = Some key"
  shows "(\<forall>s c. gw_live g (jb_agentId j) = Some s \<longrightarrow> gw_conns g s = Some c \<longrightarrow> cn_open c \<longrightarrow>
      deliver j g = (Inr True, set_conn s (\<lambda>c. c\<lparr>cn_sent := cn_sent c @ [jb_message j]\<rparr>) g))
    \<and> ((\<nexists>s c. gw_live g (jb_agentId j) = Some s \<and> gw_conns g s = Some c \<and> cn_open c) \<longrightarrow>
      (\<exists>w'. deliver j g = (Inr False, g\<lparr>gw_world := w'\<rparr>)
        \<and> markCommandOutcome key False (Some ''Agent is not currently connected'') (gw_world g) = (Inr (), w')
        \<and> (\<forall>c. find_command key (gw_world g) = Some c \<longrightarrow>
             (\<exists>c' \<in> set (w_commands w'). ac_id c' = ac_id c \<and> ac_status c' = CmdFailed))))"
proof (intro conjI allI impI)
  fix s c
  assume "gw_live g (jb_agentId j) = Some s" "gw_conns g s = Some c" "cn_open c"
  then show "deliver j g = (Inr True, set_conn s (\<lambda>c. c\<lparr>cn_sent := cn_sent c @ [jb_message j]\<rparr>) g)"
    by (simp add: deliver_def send_def run_simps set_conn_def)
next
  let ?m = "markCommandOutcome key False (Some ''Agent is not currently connected'')"
  assume "\<nexists>s c. gw_live g (jb_agentId j) = Some s \<and> gw_conns g s = Some c \<and> cn_open c"
  then have "Option.bind (gw_live g (jb_agentId j)) (\<lambda>s. Option.bind (gw_conns g s)
      (\<lambda>c. if cn_open c then Some s else None)) = None"
    by (auto split: bind_splits)
  then have "deliver j g = (Inr False, g\<lparr>gw_world := snd (?m (gw_world g))\<rparr>)"
    using assms by (simp add: deliver_def run_simps)
  moreover have "?m (gw_world g) = (Inr (), snd (?m (gw_world g)))"
    by (simp add: mark_run)
  moreover have "\<exists>c' \<in> set (w_commands (snd (?m (gw_world g)))). ac_id c' = ac_id c \<and> ac_status c' = CmdFailed"
    if "find_command key (gw_world g) = Some c" for c
  proof -
    let ?f = "outcome_command False (Some ''Agent is not currently connected'') (w_now (gw_world g))"
    have "c \<in> set (w_commands (gw_world g))"
      using that by (auto simp: find_command_def dest: findBy_in)
    then have "?f c \<in> set (updateWhere (\<lambda>x. ac_id x = ac_id c) ?f (w_commands (gw_world g)))"
      by (auto simp: set_updateWhere)
    moreover have "w_commands (snd (?m (gw_world g))) = updateWhere (\<lambda>x. ac_id x = ac_id c) ?f (w_commands (gw_world g))"
      using that by (simp add: mark_run Let_def set_workloads_def split: option.split)
    moreover have "ac_id (?f c) = ac_id c" "ac_status (?f c) = CmdFailed"
      by (simp_all add: outcome_command_def)
    ultimately show ?thesis by metis
  qed
  ultimately show "\<exists>w'. deliver j g = (Inr False, g\<lparr>gw_world := w'\<rparr>) \<and> ?m (gw_world g) = (Inr (), w')
      \<and> (\<forall>c. find_command key (gw_world g) = Some c \<longrightarrow>
          (\<exists>c' \<in> set (w_commands w'). ac_id c' = ac_id c \<and> ac_status c' = CmdFailed))"
    by blast
qed

definition sample_job :: command_job where
  "sample_job = \<lparr>jb_agentId = ''a1'', jb_message = JObj [(''payload'', JObj [(''idempotencyKey'', JStr ''k1'')])]\<rparr>"

theorem delivery_outcome_witness:
  "\<exists>w'. deliver sample_job (started sample_world (newReplayGuard None)) =
     (Inr False, (started sample_world (newReplayGuard None))\<lparr>gw_world := w'\<rparr>)"
proof -
  have "job_key (jb_message sample_job) = Some ''k1''"
    by (simp add: job_key_def sample_job_def truthy_if)
  from delivery_outcome [OF this, of "started sample_world (newReplayGuard None)"]
  show ?thesis by (auto simp: started_def)
qed

text \<open>
  An agent that reconnects before its old socket has closed is recorded as disconnected although
  it is connected. When a connection of agent \<open>a\<close> closes while the live map already holds a newer one,
  the live map keeps the newer connection but the agent's row becomes "disconnected".
\<close>
theorem late_close_marks_disconnected:
  assumes "gw_conns g s = Some c" "cn_agentId c = Some a" "gw_live g a = Some t" "t \<noteq> s"
    and "find_agent a (gw_world g) = Some r"
  shows "\<exists>g'. onClose s g = (Inr (), g') \<and> gw_live g' a = Some t \<and> gw_conns g' t = gw_conns g t
    \<and> find_agent a (gw_world g') = Some (r\<lparr>ag_status := Disconnected\<rparr>)"
  using assms by (auto simp: onClose_def run_simps find_set_agents set_status_def)

theorem late_close_marks_disconnected_witness:
  "\<exists>g' r. onClose 7 (snd (onUpgrade sample_platform 8 (Some ''Bearer a1:k'') (connected_gateway 7))) = (Inr (), g')
     \<and> gw_live g' ''a1'' = Some 8 \<and> find_agent ''a1'' (gw_world g') = Some r \<and> ag_status r = Disconnected"
proof -
  let ?h = "Some ''Bearer a1:k''" and ?w = "set_agents ''a1'' (set_status Online) credential_world"
  let ?g = "snd (onUpgrade sample_platform 8 ?h (connected_gateway 7))"
  have verify: "verifyCredential sample_platform ''a1'' ''k'' credential_world" "verifyCredential sample_platform ''a1'' ''k'' ?w"
    by (simp_all add: verifyCredential_def find_credential_def credential_world_def hashToken_def
        sample_platform_def set_agents_def)
  have rows: "find_agent ''a1'' credential_world = Some (sample_agent_row ''a1'')"
    by (simp add: credential_world_def find_agent_def sample_world_def)
  have row: "find_agent ''a1'' ?w = Some (set_status Online (sample_agent_row ''a1''))"
    using rows by (simp add: find_set_agents set_status_def)
  have made: "(connected_gateway 7) = connected 7 (Some ''a1'') (w_now credential_world)
      ((started credential_world (newReplayGuard None))\<lparr>gw_world := ?w\<rparr>)"
    using verify rows by (simp add: connected_gateway_def upgrade_run [OF bearer_sample] started_def)
  have first: "gw_world (connected_gateway 7) = ?w"
      "gw_conns (connected_gateway 7) 7 = Some (new_connection (Some ''a1'') (w_now credential_world))"
    unfolding made by (simp_all add: connected_def)
  then have "?g = connected 8 (Some ''a1'') (w_now ?w)
      ((connected_gateway 7)\<lparr>gw_world := set_agents ''a1'' (set_status Online) ?w\<rparr>)"
    using verify row by (simp add: upgrade_run [OF bearer_sample])
  then have "gw_conns ?g 7 = Some (new_connection (Some ''a1'') (w_now credential_world))"
    "gw_live ?g ''a1'' = Some 8" "gw_world ?g = set_agents ''a1'' (set_status Online) ?w"
    using first by (simp_all add: connected_def)
  moreover have "find_agent ''a1'' (set_agents ''a1'' (set_status Online) ?w) =
      Some (set_status Online (set_status Online (sample_agent_row ''a1'')))"
    using rows by (simp add: find_set_agents set_status_def)
  ultimately obtain r where "find_agent ''a1'' (gw_world ?g) = Some r" and
      ready: "gw_conns ?g 7 = Some (new_connection (Some ''a1'') (w_now credential_world))" "gw_live ?g ''a1'' = Some 8"
    by simp
  from late_close_marks_disconnected [OF ready(1) _ ready(2) _ this(1)]
  obtain g' where "onClose 7 ?g = (Inr (), g')" "gw_live g' ''a1'' = Some 8"
      "find_agent ''a1'' (gw_world g') = Some (r\<lparr>ag_status := Disconnected\<rparr>)"
    by (auto simp: new_connection_def)
  then show ?thesis by (intro exI conjI) auto
qed

end
