(* ===== verification/Agent_Runner.thy ===== *)
theory Agent_Runner
  imports Workload_Spec Scheduler "HOL-Library.AList"
begin

text \<open>
  \<open>apps/agent/src/workload-runner.ts\<close>: the agent's local process runner. A workload's entry is an
  object that the map, a command in progress and the event handlers of its child process share, so
  entries live in a store and the map holds their addresses; the handlers of a child keep the address
  they captured when it was spawned. A child is a number into the list of children ever spawned.
  A call of \<open>stopWorkload\<close> that has to wait for an exit answers \<open>Waiting\<close>.
\<close>

subsection \<open>State\<close>

record workload_entry =
  en_botId :: string
  en_spec :: json
  en_process :: "nat option"
  en_generation :: int

record child =
  ch_entry :: nat
  ch_command :: string
  ch_args :: "string list"
  ch_cwd :: "string option"
  ch_env :: entries
  ch_killed :: bool
  ch_alive :: bool
  ch_signals :: "string list"

record runner =
  rn_store :: "workload_entry list"
  rn_workloads :: "(string \<times> nat) list"
  rn_children :: "child list"
  rn_environment :: entries

record runner_result =
  rr_ok :: bool
  rr_error :: "string option"

datatype stop_result = Settled runner_result | Waiting nat

definition succeeded :: runner_result where
  "succeeded = \<lparr>rr_ok = True, rr_error = None\<rparr>"

definition failed :: "string \<Rightarrow> runner_result" where
  "failed e = \<lparr>rr_ok = False, rr_error = Some e\<rparr>"

definition new_runner :: "entries \<Rightarrow> runner" where
  "new_runner env = \<lparr>rn_store = [], rn_workloads = [], rn_children = [], rn_environment = env\<rparr>"

definition entry_of :: "string \<Rightarrow> runner \<Rightarrow> workload_entry option" where
  "entry_of wid r = map_option (\<lambda>a. rn_store r ! a) (map_of (rn_workloads r) wid)"

definition set_entry :: "nat \<Rightarrow> (workload_entry \<Rightarrow> workload_entry) \<Rightarrow> runner \<Rightarrow> runner" where
  "set_entry a f r = r\<lparr>rn_store := (rn_store r)[a := f (rn_store r ! a)]\<rparr>"

definition set_child :: "nat \<Rightarrow> (child \<Rightarrow> child) \<Rightarrow> runner \<Rightarrow> runner" where
  "set_child c f r = r\<lparr>rn_children := (rn_children r)[c := f (rn_children r ! c)]\<rparr>"

text \<open>\<open>entry.process && !entry.process.killed\<close>.\<close>

definition has_process :: "runner \<Rightarrow> workload_entry \<Rightarrow> bool" where
  "has_process r e = (case en_process e of None \<Rightarrow> False | Some c \<Rightarrow> \<not> ch_killed (rn_children r ! c))"

subsection \<open>Operations\<close>

definition join_issues :: "string list \<Rightarrow> string" where
  "join_issues is = (case is of [] \<Rightarrow> [] | i # rest \<Rightarrow> i @ concat (map (\<lambda>j. ''; '' @ j) rest))"

definition cacheWorkloadSpec ::
    "(schema \<Rightarrow> json option \<Rightarrow> issue list + json option) \<Rightarrow> string \<Rightarrow> string \<Rightarrow> json \<Rightarrow> int \<Rightarrow> runner
     \<Rightarrow> runner_result \<times> runner" where
  "cacheWorkloadSpec safeParse workloadId botId rawSpec generation r =
     (case parseWorkloadSpec safeParse rawSpec of
        SpecIssues issues \<Rightarrow> (failed (''invalid workload spec: '' @ join_issues issues), r)
      | SpecOk spec \<Rightarrow>
          (succeeded, r\<lparr>rn_store := rn_store r @
             [\<lparr>en_botId = botId, en_spec = spec, en_process = Option.bind (entry_of workloadId r) en_process,
               en_generation = generation\<rparr>],
           rn_workloads := AList.update workloadId (length (rn_store r)) (rn_workloads r)\<rparr>))"

definition trackGeneration :: "string \<Rightarrow> int \<Rightarrow> runner \<Rightarrow> runner" where
  "trackGeneration workloadId generation r = (case map_of (rn_workloads r) workloadId of
     None \<Rightarrow> r
   | Some a \<Rightarrow> set_entry a (\<lambda>e. e\<lparr>en_generation := generation\<rparr>) r)"

record inventory_entry =
  iv_workloadId :: string
  iv_botId :: string
  iv_generation :: int

definition getRunningInventory :: "runner \<Rightarrow> inventory_entry list" where
  "getRunningInventory r =
     map (\<lambda>(wid, a). \<lparr>iv_workloadId = wid, iv_botId = en_botId (rn_store r ! a),
                       iv_generation = en_generation (rn_store r ! a)\<rparr>)
       (filter (\<lambda>(wid, a). has_process r (rn_store r ! a)) (rn_workloads r))"

definition spec_of :: "json \<Rightarrow> string \<Rightarrow> json option" where
  "spec_of spec k = propOf k (propOf ''spec'' (Some spec))"

definition as_text :: "json option \<Rightarrow> string" where
  "as_text v = (case v of Some (JStr s) \<Rightarrow> s | _ \<Rightarrow> [])"

text \<open>\<open>{ ...process.env }\<close> with every inline value of the specification assigned over it.\<close>

definition child_environment :: "entries \<Rightarrow> json \<Rightarrow> entries" where
  "child_environment base spec = fold (\<lambda>v env. case as_string (propOf ''value'' (Some v)) of
       None \<Rightarrow> env
     | Some s \<Rightarrow> AList.update (as_text (propOf ''name'' (Some v))) s env) (as_list (spec_of spec ''env'')) base"

definition new_child :: "nat \<Rightarrow> entries \<Rightarrow> json \<Rightarrow> child" where
  "new_child a base spec =
     \<lparr>ch_entry = a, ch_command = as_text (propOf ''command'' (spec_of spec ''runtime'')),
      ch_args = map (\<lambda>v. as_text (Some v)) (as_list (propOf ''args'' (spec_of spec ''runtime''))),
      ch_cwd = as_string (propOf ''workingDirectory'' (spec_of spec ''runtime'')),
      ch_env = child_environment base spec, ch_killed = False, ch_alive = True, ch_signals = []\<rparr>"

definition startWorkload :: "string \<Rightarrow> runner \<Rightarrow> runner_result \<times> runner" where
  "startWorkload workloadId r = (case map_of (rn_workloads r) workloadId of
     None \<Rightarrow> (failed ''no spec cached for this workload - a bot.update must run first'', r)
   | Some a \<Rightarrow>
       let e = rn_store r ! a; runtime = as_text (propOf ''type'' (spec_of (en_spec e) ''runtime'')) in
       if has_process r e then (failed ''already running'', r)
       else if runtime \<noteq> ''node'' then
         (failed (''runtime type '' @ [CHR 0x22] @ runtime @ [CHR 0x22] @ '' is not supported by this agent yet''), r)
       else (succeeded, set_entry a (\<lambda>e. e\<lparr>en_process := Some (length (rn_children r))\<rparr>)
              (r\<lparr>rn_children := rn_children r @ [new_child a (rn_environment r) (en_spec e)]\<rparr>)))"

text \<open>\<open>child.kill\<close> reaches only a process that exists, and only then marks the child as killed.\<close>

definition kill :: "nat \<Rightarrow> string \<Rightarrow> runner \<Rightarrow> runner" where
  "kill c signal r = (if ch_alive (rn_children r ! c)
     then set_child c (\<lambda>x. x\<lparr>ch_killed := True, ch_signals := ch_signals x @ [signal]\<rparr>) r else r)"

definition stopWorkload :: "string \<Rightarrow> runner \<Rightarrow> stop_result \<times> runner" where
  "stopWorkload workloadId r = (case entry_of workloadId r of
     None \<Rightarrow> (Settled (failed ''unknown workload''), r)
   | Some e \<Rightarrow> (case en_process e of
       None \<Rightarrow> (Settled succeeded, r)
     | Some c \<Rightarrow> if ch_killed (rn_children r ! c) then (Settled succeeded, r)
         else (Waiting c, kill c ''SIGTERM'' r)))"

definition graceful_ms :: "string \<Rightarrow> runner \<Rightarrow> int" where
  "graceful_ms workloadId r = (case entry_of workloadId r of
     None \<Rightarrow> 0
   | Some e \<Rightarrow> (case as_int (propOf ''gracefulShutdownTimeoutSeconds'' (spec_of (en_spec e) ''health'')) of
       None \<Rightarrow> 0 | Some s \<Rightarrow> s * 1000))"

text \<open>The timer of a waiting stop, and the continuation of a restart once its stop has settled.\<close>

definition forceKill :: "nat \<Rightarrow> runner \<Rightarrow> runner" where
  "forceKill c r = kill c ''SIGKILL'' r"

definition restart_after :: "runner_result \<Rightarrow> string \<Rightarrow> runner \<Rightarrow> runner_result \<times> runner" where
  "restart_after stopResult workloadId r = (if \<not> rr_ok stopResult then (stopResult, r) else startWorkload workloadId r)"

definition restartWorkload :: "string \<Rightarrow> runner \<Rightarrow> stop_result \<times> runner" where
  "restartWorkload workloadId r = (case stopWorkload workloadId r of
     (Waiting c, r') \<Rightarrow> (Waiting c, r')
   | (Settled res, r') \<Rightarrow> (case restart_after res workloadId r' of (res', r'') \<Rightarrow> (Settled res', r'')))"

text \<open>The handlers of a child: it exited, or it could not be spawned.\<close>

definition childExit :: "nat \<Rightarrow> runner \<Rightarrow> runner" where
  "childExit c r = set_entry (ch_entry (rn_children r ! c)) (\<lambda>e. e\<lparr>en_process := None\<rparr>)
     (set_child c (\<lambda>x. x\<lparr>ch_alive := False\<rparr>) r)"

definition isRunning :: "string \<Rightarrow> runner \<Rightarrow> bool" where
  "isRunning workloadId r = (case entry_of workloadId r of None \<Rightarrow> False | Some e \<Rightarrow> has_process r e)"

subsection \<open>The operations keep the store well formed\<close>

inductive runner_step :: "runner \<Rightarrow> runner \<Rightarrow> bool" where
  update: "runner_step r (snd (cacheWorkloadSpec safeParse wid b raw g r))"
| track: "runner_step r (trackGeneration wid g r)"
| start: "runner_step r (snd (startWorkload wid r))"
| stop: "runner_step r (snd (stopWorkload wid r))"
| force: "c < length (rn_children r) \<Longrightarrow> runner_step r (forceKill c r)"
| exited: "c < length (rn_children r) \<Longrightarrow> ch_alive (rn_children r ! c) \<Longrightarrow> runner_step r (childExit c r)"

inductive_cases runner_stepE: "runner_step r r'"

definition runner_ok :: "runner \<Rightarrow> bool" where
  "runner_ok r \<longleftrightarrow> distinct (map fst (rn_workloads r))
     \<and> (\<forall>wid a. map_of (rn_workloads r) wid = Some a \<longrightarrow> a < length (rn_store r))
     \<and> (\<forall>a c. a < length (rn_store r) \<longrightarrow> en_process (rn_store r ! a) = Some c \<longrightarrow> c < length (rn_children r))
     \<and> (\<forall>c < length (rn_children r). ch_entry (rn_children r ! c) < length (rn_store r))"

lemma runner_okI:
  assumes "distinct (map fst (rn_workloads r))"
    and "\<And>wid a. map_of (rn_workloads r) wid = Some a \<Longrightarrow> a < length (rn_store r)"
    and "\<And>a c. a < length (rn_store r) \<Longrightarrow> en_process (rn_store r ! a) = Some c \<Longrightarrow> c < length (rn_children r)"
    and "\<And>c. c < length (rn_children r) \<Longrightarrow> ch_entry (rn_children r ! c) < length (rn_store r)"
  shows "runner_ok r"
  using assms unfolding runner_ok_def by blast

lemma runner_okD:
  assumes "runner_ok r"
  shows "distinct (map fst (rn_workloads r))"
    and "map_of (rn_workloads r) wid = Some a \<Longrightarrow> a < length (rn_store r)"
    and "a < length (rn_store r) \<Longrightarrow> en_process (rn_store r ! a) = Some c \<Longrightarrow> c < length (rn_children r)"
    and "c < length (rn_children r) \<Longrightarrow> ch_entry (rn_children r ! c) < length (rn_store r)"
  using assms unfolding runner_ok_def by blast+

lemma entry_of_Some:
  "entry_of wid r = Some e \<longleftrightarrow> (\<exists>a. map_of (rn_workloads r) wid = Some a \<and> e = rn_store r ! a)"
  by (auto simp: entry_of_def)

lemma nth_update_if: "xs[a := v] ! b = (if b = a \<and> a < length xs then v else xs ! b)"
  by (cases "a < length xs") (auto simp: list_update_beyond)

lemma set_entry_frame [simp]:
  "rn_workloads (set_entry a f r) = rn_workloads r" "rn_children (set_entry a f r) = rn_children r"
  "length (rn_store (set_entry a f r)) = length (rn_store r)"
  "rn_store (set_entry a f r) ! b = (if b = a \<and> a < length (rn_store r) then f (rn_store r ! a) else rn_store r ! b)"
  by (simp_all add: set_entry_def nth_update_if)

lemma set_child_frame [simp]:
  "rn_workloads (set_child c f r) = rn_workloads r" "rn_store (set_child c f r) = rn_store r"
  "length (rn_children (set_child c f r)) = length (rn_children r)"
  "rn_children (set_child c f r) ! d =
     (if d = c \<and> c < length (rn_children r) then f (rn_children r ! c) else rn_children r ! d)"
  by (simp_all add: set_child_def nth_update_if)

lemma kill_frame [simp]:
  "rn_workloads (kill c s r) = rn_workloads r" "rn_store (kill c s r) = rn_store r"
  "length (rn_children (kill c s r)) = length (rn_children r)"
  "ch_entry (rn_children (kill c s r) ! d) = ch_entry (rn_children r ! d)"
  "ch_alive (rn_children (kill c s r) ! d) = ch_alive (rn_children r ! d)"
  "\<not> ch_alive (rn_children r ! d) \<Longrightarrow> rn_children (kill c s r) ! d = rn_children r ! d"
  by (auto simp: kill_def)

lemma ok_update:
  assumes "runner_ok r"
  shows "runner_ok (snd (cacheWorkloadSpec safeParse wid b raw g r))"
proof (cases "parseWorkloadSpec safeParse raw")
  case (SpecOk spec)
  have old: "c < length (rn_children r)" if "Option.bind (entry_of wid r) en_process = Some c" for c
    using that runner_okD(2,3) [OF assms] by (auto simp: entry_of_Some bind_eq_Some_conv)
  show ?thesis
  proof (rule runner_okI)
    fix wid' a
    assume "map_of (rn_workloads (snd (cacheWorkloadSpec safeParse wid b raw g r))) wid' = Some a"
    then show "a < length (rn_store (snd (cacheWorkloadSpec safeParse wid b raw g r)))"
      using SpecOk runner_okD(2) [OF assms, of wid']
      by (auto simp: cacheWorkloadSpec_def update_conv less_Suc_eq split: if_splits)
  next
    fix a c
    assume "a < length (rn_store (snd (cacheWorkloadSpec safeParse wid b raw g r)))"
      "en_process (rn_store (snd (cacheWorkloadSpec safeParse wid b raw g r)) ! a) = Some c"
    then show "c < length (rn_children (snd (cacheWorkloadSpec safeParse wid b raw g r)))"
      using SpecOk old runner_okD(3) [OF assms, of a c]
      by (auto simp: cacheWorkloadSpec_def nth_append less_Suc_eq split: if_splits)
  qed (use SpecOk runner_okD(1,4) [OF assms] in \<open>auto simp: cacheWorkloadSpec_def distinct_update less_SucI\<close>)
qed (simp add: cacheWorkloadSpec_def assms)

lemma ok_set_entry:
  assumes "runner_ok r" "\<And>e c. en_process (f e) = Some c \<Longrightarrow> en_process e = Some c \<or> c < length (rn_children r)"
  shows "runner_ok (set_entry a f r)"
  using assms(1) assms(2) [of "rn_store r ! a"] unfolding runner_ok_def by (auto split: if_splits)

lemma ok_set_child: "runner_ok r \<Longrightarrow> (\<And>x. ch_entry (f x) = ch_entry x) \<Longrightarrow> runner_ok (set_child c f r)"
  unfolding runner_ok_def by simp

lemma ok_start:
  assumes "runner_ok r"
  shows "runner_ok (snd (startWorkload wid r))"
proof (cases "map_of (rn_workloads r) wid")
  case (Some a)
  have "runner_ok (r\<lparr>rn_children := rn_children r @ [x]\<rparr>)" if "ch_entry x = a" for x
    using that assms runner_okD(2) [OF assms Some] unfolding runner_ok_def
    by (auto simp: nth_append less_Suc_eq less_SucI)
  then have "runner_ok (set_entry a (\<lambda>e. e\<lparr>en_process := Some (length (rn_children r))\<rparr>)
      (r\<lparr>rn_children := rn_children r @ [new_child a (rn_environment r) (en_spec (rn_store r ! a))]\<rparr>))"
    by (intro ok_set_entry) (simp_all add: new_child_def)
  with Some assms show ?thesis by (simp add: startWorkload_def Let_def)
qed (simp add: startWorkload_def assms)

lemma ok_kill: "runner_ok r \<Longrightarrow> runner_ok (kill c s r)"
  by (simp add: kill_def ok_set_child)

lemma ok_stop: "runner_ok r \<Longrightarrow> runner_ok (snd (stopWorkload wid r))"
  by (simp add: stopWorkload_def ok_kill split: option.split)

lemma runner_step_ok: "runner_step r r' \<Longrightarrow> runner_ok r \<Longrightarrow> runner_ok r'"
proof (induction rule: runner_step.induct)
  case (track r wid g)
  then show ?case by (auto simp: trackGeneration_def intro: ok_set_entry split: option.split)
qed (auto simp: ok_update ok_start ok_stop ok_kill forceKill_def childExit_def intro!: ok_set_entry ok_set_child)

subsection \<open>A process that exits after an update is never noticed\<close>

text \<open>
  \<open>stale wid c r\<close>: the entry of \<open>wid\<close> holds the child \<open>c\<close>, which no longer exists and was never
  killed, and no living child's handlers refer to that entry.
\<close>

definition stale :: "string \<Rightarrow> nat \<Rightarrow> runner \<Rightarrow> bool" where
  "stale wid c r \<longleftrightarrow> (\<exists>a. map_of (rn_workloads r) wid = Some a \<and> en_process (rn_store r ! a) = Some c
     \<and> (\<forall>d < length (rn_children r). ch_alive (rn_children r ! d) \<longrightarrow> ch_entry (rn_children r ! d) \<noteq> a))
     \<and> \<not> ch_alive (rn_children r ! c) \<and> \<not> ch_killed (rn_children r ! c)"

lemma stale_running: "stale wid c r \<Longrightarrow> isRunning wid r"
  by (auto simp: stale_def isRunning_def entry_of_def has_process_def)

lemma stale_start: "stale wid c r \<Longrightarrow> startWorkload wid r = (failed ''already running'', r)"
  by (auto simp: stale_def startWorkload_def has_process_def Let_def)

lemma stale_stop: "stale wid c r \<Longrightarrow> stopWorkload wid r = (Waiting c, r)"
  by (auto simp: stale_def stopWorkload_def entry_of_def kill_def)

lemma stale_kill: "stale wid c r \<Longrightarrow> stale wid c (kill d s r)"
  unfolding stale_def by (metis kill_frame)

lemma stale_update:
  assumes "stale wid c r" "runner_ok r"
  shows "stale wid c (snd (cacheWorkloadSpec sp wid' b raw g r))"
proof (cases "parseWorkloadSpec sp raw")
  case (SpecOk spec)
  obtain a where a: "map_of (rn_workloads r) wid = Some a" "en_process (rn_store r ! a) = Some c"
      "\<And>d. d < length (rn_children r) \<Longrightarrow> ch_alive (rn_children r ! d) \<Longrightarrow> ch_entry (rn_children r ! d) \<noteq> a"
      "\<not> ch_alive (rn_children r ! c)" "\<not> ch_killed (rn_children r ! c)"
    using assms(1) by (auto simp: stale_def)
  have "ch_entry (rn_children r ! d) \<noteq> length (rn_store r)" if "d < length (rn_children r)" for d
    using runner_okD(4) [OF assms(2) that] by simp
  moreover have "a < length (rn_store r)" using runner_okD(2) [OF assms(2) a(1)] .
  moreover have "entry_of wid r = Some (rn_store r ! a)" using a(1) by (simp add: entry_of_def)
  ultimately show ?thesis
    using SpecOk a by (auto simp: stale_def cacheWorkloadSpec_def update_conv nth_append)
qed (simp add: cacheWorkloadSpec_def assms(1))

lemma stale_start_other:
  assumes "stale wid c r" "runner_ok r"
  shows "stale wid c (snd (startWorkload wid' r))"
proof (cases "map_of (rn_workloads r) wid'")
  case (Some b)
  obtain a where a: "map_of (rn_workloads r) wid = Some a" "en_process (rn_store r ! a) = Some c"
      "\<And>d. d < length (rn_children r) \<Longrightarrow> ch_alive (rn_children r ! d) \<Longrightarrow> ch_entry (rn_children r ! d) \<noteq> a"
      "\<not> ch_alive (rn_children r ! c)" "\<not> ch_killed (rn_children r ! c)"
    using assms(1) by (auto simp: stale_def)
  have c: "c < length (rn_children r)" using runner_okD(2,3) [OF assms(2)] a by blast
  show ?thesis
  proof (cases "b = a")
    case True
    then have "has_process r (rn_store r ! b)" using a by (simp add: has_process_def)
    with Some assms(1) show ?thesis by (simp add: startWorkload_def)
  next
    case False
    with Some a c assms(1) show ?thesis
      by (auto simp: startWorkload_def Let_def stale_def nth_append less_Suc_eq new_child_def)
  qed
qed (simp add: startWorkload_def assms(1))

lemma stale_exit:
  assumes "stale wid c r" "runner_ok r" "d < length (rn_children r)" "ch_alive (rn_children r ! d)"
  shows "stale wid c (childExit d r)"
proof -
  obtain a where "map_of (rn_workloads r) wid = Some a" "en_process (rn_store r ! a) = Some c"
      "\<forall>d < length (rn_children r). ch_alive (rn_children r ! d) \<longrightarrow> ch_entry (rn_children r ! d) \<noteq> a"
      "\<not> ch_alive (rn_children r ! c)" "\<not> ch_killed (rn_children r ! c)"
    using assms(1) by (auto simp: stale_def)
  moreover have "c \<noteq> d" using calculation(4) assms(4) by auto
  ultimately show ?thesis
    using assms(3,4) unfolding stale_def childExit_def by (intro conjI exI [of _ a]) auto
qed

lemma stale_track: "stale wid c r \<Longrightarrow> stale wid c (trackGeneration wid' g r)"
  unfolding stale_def trackGeneration_def by (auto split: option.split)

lemma stale_step: "runner_step r r' \<Longrightarrow> runner_ok r \<Longrightarrow> stale wid c r \<Longrightarrow> stale wid c r'"
proof (induction rule: runner_step.induct)
  case (stop r wid')
  then show ?case by (auto simp: stopWorkload_def stale_kill split: option.split)
qed (auto simp: stale_update stale_track stale_start_other stale_kill stale_exit forceKill_def)

text \<open>
  C29: if a workload's specification is updated while its process runs, the exit of that process is
  never noticed, because its handlers clear the entry the update has replaced. Whatever the agent
  does afterwards, for ever: the workload counts as running and is in the inventory, every start is
  refused as "already running", and every stop waits for an exit that cannot come and sends no
  signal, so its command is never answered.
\<close>
theorem exit_after_update_is_lost:
  assumes "runner_ok r" "map_of (rn_workloads r) wid = Some a" "en_process (rn_store r ! a) = Some c"
    and "ch_entry (rn_children r ! c) = a" "ch_alive (rn_children r ! c)" "\<not> ch_killed (rn_children r ! c)"
    and update: "cacheWorkloadSpec safeParse wid b raw g r = (succeeded, r1)"
    and later: "runner_step\<^sup>*\<^sup>* (childExit c r1) r2"
  shows "isRunning wid r2 \<and> wid \<in> iv_workloadId ` set (getRunningInventory r2)
    \<and> startWorkload wid r2 = (failed ''already running'', r2)
    \<and> stopWorkload wid r2 = (Waiting c, r2) \<and> \<not> ch_alive (rn_children r2 ! c)"
proof -
  obtain spec where spec: "parseWorkloadSpec safeParse raw = SpecOk spec"
    using update by (cases "parseWorkloadSpec safeParse raw") (auto simp: cacheWorkloadSpec_def succeeded_def failed_def)
  have c: "c < length (rn_children r)" and a: "a < length (rn_store r)"
    using runner_okD(2,3) [OF assms(1)] assms(2,3) by blast+
  have "ch_entry (rn_children r ! d) \<noteq> length (rn_store r)" if "d < length (rn_children r)" for d
    using runner_okD(4) [OF assms(1) that] by simp
  moreover have "entry_of wid r = Some (rn_store r ! a)" using assms(2) by (simp add: entry_of_def)
  ultimately have "stale wid c (childExit c r1)"
    using update spec c a assms(3-6) unfolding stale_def
    by (intro conjI exI [of _ "length (rn_store r)"])
      (auto simp: cacheWorkloadSpec_def childExit_def update_conv nth_append)
  moreover have "runner_ok (childExit c r1)"
  proof -
    have "runner_ok r1" using ok_update [OF assms(1), of safeParse wid b raw g] update by simp
    then show ?thesis unfolding childExit_def by (intro ok_set_entry ok_set_child) auto
  qed
  ultimately have "stale wid c (childExit c r1) \<and> runner_ok (childExit c r1)" by simp
  with later have kept: "stale wid c r2 \<and> runner_ok r2"
    by (induction rule: rtranclp_induct) (auto intro: stale_step runner_step_ok)
  then obtain e where "map_of (rn_workloads r2) wid = Some e" "has_process r2 (rn_store r2 ! e)"
    by (auto simp: stale_def has_process_def)
  then have "wid \<in> iv_workloadId ` set (getRunningInventory r2)"
    by (auto simp: getRunningInventory_def image_iff dest!: map_of_SomeD intro!: bexI [of _ "(wid, e)"])
  with kept show ?thesis
    by (auto simp: stale_running stale_start stale_stop) (simp add: stale_def)
qed

definition sample_node_spec :: json where
  "sample_node_spec = JObj [(''spec'', JObj [(''runtime'', JObj [(''type'', JStr ''node''), (''command'', JStr ''node'')])])]"

text \<open>A validator that accepts everything and a runner with the workload \<open>w\<close> running.\<close>

definition lenient :: "schema \<Rightarrow> json option \<Rightarrow> issue list + json option" where
  "lenient s v = Inr v"

definition running_sample :: runner where
  "running_sample = snd (startWorkload ''w'' (snd (cacheWorkloadSpec lenient ''w'' ''b'' sample_node_spec 1 (new_runner []))))"

lemma running_sample_simps:
  "rn_workloads running_sample = [(''w'', 0)]" "en_process (rn_store running_sample ! 0) = Some 0"
  "rn_children running_sample = [new_child 0 [] sample_node_spec]"
  by (simp_all add: running_sample_def startWorkload_def cacheWorkloadSpec_def parseWorkloadSpec_def lenient_def
      new_runner_def entry_of_def has_process_def Let_def spec_of_def sample_node_spec_def as_text_def set_entry_def)

lemma running_sample_ok: "runner_ok running_sample"
  unfolding running_sample_def by (intro ok_start ok_update) (simp add: runner_ok_def new_runner_def)

theorem exit_after_update_is_lost_witness:
  "startWorkload ''w'' (childExit 0 (snd (cacheWorkloadSpec lenient ''w'' ''b'' sample_node_spec 2 running_sample))) =
     (failed ''already running'',
      childExit 0 (snd (cacheWorkloadSpec lenient ''w'' ''b'' sample_node_spec 2 running_sample)))"
proof -
  have "cacheWorkloadSpec lenient ''w'' ''b'' sample_node_spec 2 running_sample =
      (succeeded, snd (cacheWorkloadSpec lenient ''w'' ''b'' sample_node_spec 2 running_sample))"
    by (simp add: cacheWorkloadSpec_def parseWorkloadSpec_def lenient_def)
  from exit_after_update_is_lost [OF running_sample_ok _ _ _ _ _ this rtranclp.rtrancl_refl, of 0 0]
  show ?thesis by (simp add: running_sample_simps new_child_def)
qed

subsection \<open>Orderly use\<close>


















subsection \<open>Starting while a stop is pending\<close>

text \<open>
  A start that arrives while the process is still shutting down is accepted and makes a second
  process of the workload; when the first one exits, its handlers clear the entry, so the second
  process goes on running although the runner no longer knows it: it is not in the inventory, and a
  stop reports success without sending it any signal.
\<close>
theorem start_during_stop_leaks:
  assumes "runner_ok r" "map_of (rn_workloads r) wid = Some a" "en_process (rn_store r ! a) = Some c"
    and "ch_entry (rn_children r ! c) = a" "ch_alive (rn_children r ! c)" "\<not> ch_killed (rn_children r ! c)"
    and "as_text (propOf ''type'' (spec_of (en_spec (rn_store r ! a)) ''runtime'')) = ''node''"
    and "d = length (rn_children r)"
    and "r' = childExit c (snd (startWorkload wid (snd (stopWorkload wid r))))"
  shows "stopWorkload wid r = (Waiting c, snd (stopWorkload wid r))
    \<and> fst (startWorkload wid (snd (stopWorkload wid r))) = succeeded
    \<and> ch_alive (rn_children r' ! d) \<and> \<not> ch_killed (rn_children r' ! d) \<and> ch_entry (rn_children r' ! d) = a
    \<and> \<not> isRunning wid r' \<and> stopWorkload wid r' = (Settled succeeded, r')"
proof -
  have c: "c < length (rn_children r)" and a: "a < length (rn_store r)"
    using runner_okD(2,3) [OF assms(1)] assms(2,3) by blast+
  let ?s = "snd (stopWorkload wid r)"
  have stop: "stopWorkload wid r = (Waiting c, kill c ''SIGTERM'' r)"
    using assms(2,3,6) by (simp add: stopWorkload_def entry_of_def)
  have killed: "ch_killed (rn_children ?s ! c)" "rn_workloads ?s = rn_workloads r" "rn_store ?s = rn_store r"
      "length (rn_children ?s) = d" "ch_entry (rn_children ?s ! c) = a"
    using stop c assms(4,5,8) by (auto simp: kill_def)
  have start: "startWorkload wid ?s = (succeeded, set_entry a (\<lambda>e. e\<lparr>en_process := Some d\<rparr>)
      (?s\<lparr>rn_children := rn_children ?s @ [new_child a (rn_environment ?s) (en_spec (rn_store r ! a))]\<rparr>))"
    using killed assms(2,3,7) by (simp add: startWorkload_def has_process_def Let_def)
  have r': "rn_workloads r' = rn_workloads r" "en_process (rn_store r' ! a) = None"
      "rn_children r' ! d = new_child a (rn_environment ?s) (en_spec (rn_store r ! a))"
    using killed c a assms(8) unfolding assms(9) start by (simp_all add: childExit_def nth_append)
  show ?thesis
    using stop start r' assms(2)
    by (auto simp: isRunning_def stopWorkload_def entry_of_def has_process_def new_child_def)
qed

theorem start_during_stop_leaks_witness:
  "\<exists>r'. ch_alive (rn_children r' ! 1) \<and> \<not> isRunning ''w'' r' \<and> stopWorkload ''w'' r' = (Settled succeeded, r')"
proof -
  have "en_spec (rn_store running_sample ! 0) = sample_node_spec"
    by (simp add: running_sample_def startWorkload_def cacheWorkloadSpec_def parseWorkloadSpec_def lenient_def
        new_runner_def entry_of_def has_process_def Let_def spec_of_def sample_node_spec_def as_text_def set_entry_def)
  then have "as_text (propOf ''type'' (spec_of (en_spec (rn_store running_sample ! 0)) ''runtime'')) = ''node''"
    by (simp add: spec_of_def sample_node_spec_def as_text_def)
  from start_during_stop_leaks [OF running_sample_ok, of "''w''" 0 0, OF _ _ _ _ _ this _ refl]
  show ?thesis by (auto simp: running_sample_simps new_child_def)
qed

end
