(* ===== verification/Local_Ipc.thy ===== *)
theory Local_Ipc
  imports Protocol "HOL-Library.Word"
begin

text \<open>
  \<open>apps/agent/src/local-ipc.ts\<close>: the Unix socket on which bot processes report to their agent. One
  connection is a buffer that receives chunks of bytes; each chunk is decoded on its own, complete
  lines are parsed, checked and forwarded. Texts of the socket are UTF-16 code units, as JavaScript
  has them. \<open>JSON.parse\<close> is the parameter \<open>parseJson\<close>, \<open>None\<close> when it throws.
\<close>

type_synonym byte = "8 word"
type_synonym code_units = "16 word list"

definition ALLOWED_LOCAL_TYPES :: "string list" where
  "ALLOWED_LOCAL_TYPES = [''bot.ready'', ''bot.heartbeat'', ''bot.stopped'', ''bot.crashed'', ''bot.metrics'',
     ''bot.log'', ''shard.status'']"

definition newline :: "16 word" where
  "newline = 0x0A"

subsection \<open>Decoding a chunk\<close>

text \<open>
  \<open>chunk.toString()\<close>: the UTF-8 decoder of the encoding standard, which Node's buffers follow. The state
  is the code point read so far, how many bytes it still needs and the range of the next one; a byte
  outside the range is replaced, with what was read before it, by one U+FFFD and then looked at afresh.
  The state is new for every call, so a character that the end of a chunk cuts is replaced as well.
\<close>

record utf8_state =
  ut_point :: nat
  ut_needed :: nat
  ut_lower :: nat
  ut_upper :: nat

definition utf8_start :: utf8_state where
  "utf8_start = \<lparr>ut_point = 0, ut_needed = 0, ut_lower = 0x80, ut_upper = 0xBF\<rparr>"

definition replacement :: "16 word" where
  "replacement = 0xFFFD"

text \<open>A code point as UTF-16: one unit, or a surrogate pair.\<close>

definition units_of_point :: "nat \<Rightarrow> code_units" where
  "units_of_point p = (if p < 0x10000 then [word_of_nat p]
     else [word_of_nat (0xD800 + (p - 0x10000) div 0x400), word_of_nat (0xDC00 + (p - 0x10000) mod 0x400)])"

definition utf8_lead :: "nat \<Rightarrow> code_units \<times> utf8_state" where
  "utf8_lead b =
     (if b < 0x80 then ([word_of_nat b], utf8_start)
      else if 0xC2 \<le> b \<and> b \<le> 0xDF then
        ([], \<lparr>ut_point = b - 0xC0, ut_needed = 1, ut_lower = 0x80, ut_upper = 0xBF\<rparr>)
      else if 0xE0 \<le> b \<and> b \<le> 0xEF then
        ([], \<lparr>ut_point = b - 0xE0, ut_needed = 2, ut_lower = (if b = 0xE0 then 0xA0 else 0x80),
              ut_upper = (if b = 0xED then 0x9F else 0xBF)\<rparr>)
      else if 0xF0 \<le> b \<and> b \<le> 0xF4 then
        ([], \<lparr>ut_point = b - 0xF0, ut_needed = 3, ut_lower = (if b = 0xF0 then 0x90 else 0x80),
              ut_upper = (if b = 0xF4 then 0x8F else 0xBF)\<rparr>)
      else ([replacement], utf8_start))"

definition utf8_byte :: "utf8_state \<Rightarrow> byte \<Rightarrow> code_units \<times> utf8_state" where
  "utf8_byte st w = (let b = unat w in
     if ut_needed st = 0 then utf8_lead b
     else if b < ut_lower st \<or> ut_upper st < b then (case utf8_lead b of (out, st') \<Rightarrow> (replacement # out, st'))
     else let p = ut_point st * 64 + b mod 64 in
       if ut_needed st = 1 then (units_of_point p, utf8_start)
       else ([], \<lparr>ut_point = p, ut_needed = ut_needed st - 1, ut_lower = 0x80, ut_upper = 0xBF\<rparr>))"

fun utf8_run :: "utf8_state \<Rightarrow> byte list \<Rightarrow> code_units \<times> utf8_state" where
  "utf8_run st [] = ([], st)"
| "utf8_run st (b # bs) = (case utf8_byte st b of (out, st') \<Rightarrow>
     (case utf8_run st' bs of (rest, final) \<Rightarrow> (out @ rest, final)))"

definition buffer_toString :: "byte list \<Rightarrow> code_units" where
  "buffer_toString bytes = (case utf8_run utf8_start bytes of (out, st) \<Rightarrow>
     if ut_needed st = 0 then out else out @ [replacement])"

subsection \<open>Splitting the stream into lines\<close>

text \<open>The loop of the data handler: the complete lines of the buffer and what remains in it.\<close>

function take_lines :: "code_units \<Rightarrow> code_units list \<times> code_units" where
  "take_lines buffer =
     (if newline \<notin> set buffer then ([], buffer)
      else let line = takeWhile (\<lambda>c. c \<noteq> newline) buffer;
               (lines, rest) = take_lines (drop (length line + 1) buffer)
           in (line # lines, rest))"
  by pat_completeness auto

termination
proof (relation "measure length")
  fix buffer line
  assume *: "\<not> newline \<notin> set buffer" "line = takeWhile (\<lambda>c. c \<noteq> newline) buffer"
  then have "0 < length buffer" by auto
  then show "(drop (length line + 1) buffer, buffer) \<in> measure length" by simp
qed simp

declare take_lines.simps [simp del]

record ipc_socket =
  is_buffer :: code_units
  is_lines :: "code_units list"

text \<open>\<open>is_lines\<close> are the non-empty lines handed to \<open>handleLine\<close> so far.\<close>

definition new_socket :: ipc_socket where
  "new_socket = \<lparr>is_buffer = [], is_lines = []\<rparr>"

definition onData :: "byte list \<Rightarrow> ipc_socket \<Rightarrow> ipc_socket" where
  "onData chunk s = (case take_lines (is_buffer s @ buffer_toString chunk) of (lines, rest) \<Rightarrow>
     \<lparr>is_buffer = rest, is_lines = is_lines s @ filter (\<lambda>l. l \<noteq> []) lines\<rparr>)"

subsection \<open>One line\<close>

datatype line_outcome =
  Ignored
| Disallowed
| Malformed
| Forward string json

definition candidate_envelope :: "string \<Rightarrow> string \<Rightarrow> string \<Rightarrow> json option \<Rightarrow> json" where
  "candidate_envelope uuid timestamp t payload = JObj
     ([(''protocolVersion'', JNum (of_int PROTOCOL_VERSION)), (''messageId'', JStr uuid),
       (''timestamp'', JStr timestamp), (''senderId'', JStr ''local-bot-process''), (''type'', JStr t)]
      @ (case payload of None \<Rightarrow> [] | Some p \<Rightarrow> [(''payload'', p)]))"

definition handleLine ::
    "(code_units \<Rightarrow> json option) \<Rightarrow> (schema \<Rightarrow> json option \<Rightarrow> issue list + json option) \<Rightarrow>
     string \<Rightarrow> string \<Rightarrow> code_units \<Rightarrow> line_outcome" where
  "handleLine parseJson safeParse uuid timestamp line = (case parseJson line of
     None \<Rightarrow> Ignored
   | Some parsedJson \<Rightarrow> (case parsedJson of
       JObj kvs \<Rightarrow> (case map_of kvs ''type'' of
           Some (JStr t) \<Rightarrow>
             if t \<notin> set ALLOWED_LOCAL_TYPES then Disallowed
             else (case parseAgentToControlPlaneMessage safeParse
                     (candidate_envelope uuid timestamp t (map_of kvs ''payload'')) of
                 ParseOk m \<Rightarrow> Forward t (case map_of kvs ''payload'' of Some p \<Rightarrow> p | None \<Rightarrow> JNull)
               | _ \<Rightarrow> Malformed)
         | _ \<Rightarrow> Disallowed)
     | JArr xs \<Rightarrow> Disallowed
     | _ \<Rightarrow> Ignored))"

subsection \<open>How the stream is cut\<close>

text \<open>
  The abstract specification: the lines of a text are its pieces between newlines; the last piece,
  which no newline has ended yet, remains.
\<close>

abbreviation pieces :: "code_units \<Rightarrow> code_units list" where
  "pieces \<equiv> split_on newline"

lemma take_lines_pieces: "take_lines s = (butlast (pieces s), last (pieces s))"
proof (induction s rule: take_lines.induct)
  case (1 s)
  show ?case
  proof (cases "newline \<in> set s")
    case False
    then show ?thesis by (subst take_lines.simps) (simp add: split_on_none)
  next
    case True
    let ?l = "takeWhile (\<lambda>c. c \<noteq> newline) s" and ?rest = "drop (length (takeWhile (\<lambda>c. c \<noteq> newline) s) + 1) s"
    from split_list_first [OF True] obtain ys zs where s: "s = ys @ newline # zs" "newline \<notin> set ys" by blast
    then have l: "?l = ys" by (simp add: takeWhile_append)
    with s have "s = ?l @ newline # ?rest" "newline \<notin> set ?l" by simp_all
    then have "pieces s = ?l # pieces ?rest" by (metis split_on_join)
    with 1 True show ?thesis by (subst take_lines.simps) (simp add: Let_def)
  qed
qed

lemma pieces_append: "pieces (s @ t) = butlast (pieces s) @ pieces (last (pieces s) @ t)"
proof (induction s)
  case (Cons c s)
  then show ?case
    by (cases "split_on newline s") (auto simp: neq_Nil_conv split: list.splits)
qed simp

definition stream_lines :: "code_units \<Rightarrow> code_units list" where
  "stream_lines text = filter (\<lambda>l. l \<noteq> []) (butlast (pieces text))"

definition received :: "code_units \<Rightarrow> ipc_socket" where
  "received text = \<lparr>is_buffer = last (pieces text), is_lines = stream_lines text\<rparr>"

lemma onData_received: "onData chunk (received text) = received (text @ buffer_toString chunk)"
proof -
  have "pieces (text @ buffer_toString chunk) = butlast (pieces text) @ pieces (last (pieces text) @ buffer_toString chunk)"
    by (rule pieces_append)
  then show ?thesis
    by (simp add: onData_def received_def stream_lines_def take_lines_pieces butlast_append)
qed

lemma chunks_received:
  "foldl (\<lambda>s chunk. onData chunk s) (received w) chunks = received (w @ concat (map buffer_toString chunks))"
  by (induction chunks arbitrary: w) (simp_all add: onData_received)

text \<open>A run of the decoder over two parts; a state that needs no more bytes is the initial one.\<close>

lemma utf8_run_append:
  "utf8_run st (xs @ ys) = (case utf8_run st xs of (out, st') \<Rightarrow>
     (case utf8_run st' ys of (rest, final) \<Rightarrow> (out @ rest, final)))"
  by (induction xs arbitrary: st) (simp_all split: prod.split)

lemma utf8_lead_state: "ut_needed (snd (utf8_lead b)) = 0 \<Longrightarrow> snd (utf8_lead b) = utf8_start"
  by (auto simp: utf8_lead_def split: if_splits)

lemma utf8_byte_state: "ut_needed (snd (utf8_byte st w)) = 0 \<Longrightarrow> snd (utf8_byte st w) = utf8_start"
  using utf8_lead_state [of "unat w"] by (auto simp: utf8_byte_def Let_def split: if_splits prod.splits)

lemma utf8_run_state:
  "ut_needed st = 0 \<longrightarrow> st = utf8_start \<Longrightarrow> ut_needed (snd (utf8_run st bs)) = 0 \<Longrightarrow> snd (utf8_run st bs) = utf8_start"
proof (induction bs arbitrary: st)
  case (Cons b bs)
  let ?st = "snd (utf8_byte st b)"
  have "ut_needed (snd (utf8_run ?st bs)) = 0" using Cons.prems(2) by (simp split: prod.splits)
  then have "snd (utf8_run ?st bs) = utf8_start" using Cons.IH [of ?st] utf8_byte_state [of st b] by blast
  moreover have "snd (utf8_run st (b # bs)) = snd (utf8_run ?st bs)" by (simp split: prod.split)
  ultimately show ?case by simp
qed simp

text \<open>The chunk does not end inside a character.\<close>

definition ends_between :: "byte list \<Rightarrow> bool" where
  "ends_between chunk \<longleftrightarrow> ut_needed (snd (utf8_run utf8_start chunk)) = 0"

lemma toString_append:
  assumes "ends_between xs"
  shows "buffer_toString (xs @ ys) = buffer_toString xs @ buffer_toString ys"
proof -
  have "snd (utf8_run utf8_start xs) = utf8_start"
    using assms utf8_run_state [of utf8_start xs] by (simp add: ends_between_def utf8_start_def)
  then show ?thesis
    using assms by (auto simp: buffer_toString_def utf8_run_append ends_between_def split: prod.splits)
qed

lemma toString_concat:
  "\<forall>chunk \<in> set (butlast chunks). ends_between chunk \<Longrightarrow> concat (map buffer_toString chunks) = buffer_toString (concat chunks)"
proof (induction chunks)
  case (Cons chunk chunks)
  then show ?case by (cases "chunks = []") (simp_all add: toString_append)
qed (simp add: buffer_toString_def utf8_start_def)

lemma start_received: "new_socket = received []"
  by (simp add: new_socket_def received_def stream_lines_def)

text \<open>
  C18: the socket's data handler implements the splitting of a text at its newlines: after any sequence
  of chunks the lines handled are the non-empty lines of the chunks' texts put together, each chunk
  decoded on its own, in order, and the buffer is what follows the last newline. If no chunk but the last
  ends inside a character, that text is the decoded stream itself, so that how the stream was cut makes
  no difference. (A cut inside a character does: \<open>split_character_is_garbled\<close>.)
\<close>
theorem chunks_refine_lines:
  "foldl (\<lambda>s chunk. onData chunk s) new_socket chunks = received (concat (map buffer_toString chunks))
   \<and> ((\<forall>chunk \<in> set (butlast chunks). ends_between chunk) \<longrightarrow>
       foldl (\<lambda>s chunk. onData chunk s) new_socket chunks = received (buffer_toString (concat chunks)))"
  using chunks_received [of "[]" chunks] toString_concat [of chunks] by (simp add: start_received)

text \<open>Two chunks; the first ends after the two bytes of an e with an acute accent.\<close>

theorem chunks_refine_lines_witness:
  "foldl (\<lambda>s chunk. onData chunk s) new_socket [[0xC3, 0xA9], [0x41, 0x0A]] = received (buffer_toString [0xC3, 0xA9, 0x41, 0x0A])"
proof -
  have "ends_between [0xC3, 0xA9]"
    by (simp add: ends_between_def utf8_byte_def utf8_lead_def utf8_start_def Let_def)
  then have "\<forall>chunk \<in> set (butlast [[0xC3, 0xA9], [0x41, 0x0A]]). ends_between chunk" by simp
  with chunks_refine_lines [of "[[0xC3, 0xA9], [0x41, 0x0A]]"]
  have "foldl (\<lambda>s chunk. onData chunk s) new_socket [[0xC3, 0xA9], [0x41, 0x0A]] =
      received (buffer_toString (concat [[0xC3, 0xA9], [0x41, 0x0A]]))" by blast
  then show ?thesis by simp
qed

text \<open>
  A cut inside a character garbles the line: of the bytes of one two-byte character and a newline, sent
  at once, the line of that character is made; cut after the first byte, a line of two replacement
  characters.
\<close>
theorem split_character_is_garbled:
  assumes "b1 \<in> {0xC2..0xDF}" "b2 \<in> {0x80..0xBF}"
  shows "is_lines (onData [b1, b2, 0x0A] new_socket) = [[word_of_nat ((unat b1 - 0xC0) * 64 + unat b2 mod 64)]]"
    and "is_lines (onData [b2, 0x0A] (onData [b1] new_socket)) = [[replacement, replacement]]"
proof -
  have b1: "0xC2 \<le> unat b1" "unat b1 \<le> 0xDF" and b2: "0x80 \<le> unat b2" "unat b2 \<le> 0xBF"
    using assms by (simp_all add: word_le_nat_alt)
  let ?p = "(unat b1 - 0xC0) * 64 + unat b2 mod 64"
  have p: "0x0A < ?p" "?p < 0x10000" using b1 by linarith+
  have unit: "(word_of_nat n :: 16 word) \<noteq> newline" if "0x0A < n" "n < 0x10000" for n
  proof
    have "unat (word_of_nat n :: 16 word) = n" using that by (simp add: unat_of_nat take_bit_nat_eq_self)
    moreover assume "(word_of_nat n :: 16 word) = newline"
    ultimately show False using that by (simp add: newline_def)
  qed
  have "buffer_toString [b1, b2, 0x0A] = [word_of_nat ?p, newline]"
    using b1 b2 p by (simp add: buffer_toString_def utf8_byte_def utf8_lead_def utf8_start_def units_of_point_def newline_def Let_def)
  with unit [OF p] show "is_lines (onData [b1, b2, 0x0A] new_socket) = [[word_of_nat ?p]]"
    by (simp add: onData_def new_socket_def take_lines_pieces)
  have first: "buffer_toString [b1] = [replacement]"
    using b1 by (simp add: buffer_toString_def utf8_byte_def utf8_lead_def utf8_start_def Let_def)
  have second: "buffer_toString [b2, 0x0A] = [replacement, newline]"
    using b2 by (simp add: buffer_toString_def utf8_byte_def utf8_lead_def utf8_start_def newline_def Let_def)
  have "replacement \<noteq> newline" by (simp add: replacement_def newline_def)
  then show "is_lines (onData [b2, 0x0A] (onData [b1] new_socket)) = [[replacement, replacement]]"
    using first second by (simp add: onData_def new_socket_def take_lines_pieces)
qed

subsection \<open>What is forwarded\<close>

lemma allowed_in_catalog: "t \<in> set ALLOWED_LOCAL_TYPES \<Longrightarrow> map_of agentToControlPlaneCatalog t \<noteq> None"
  by (auto simp: ALLOWED_LOCAL_TYPES_def agentToControlPlaneCatalog_def)

lemma forwarded:
  assumes "zod safeParse F" "handleLine parseJson safeParse u ts line = Forward t p"
  shows "t \<in> set ALLOWED_LOCAL_TYPES"
    and "\<exists>fs kvs. map_of agentToControlPlaneCatalog t = Some fs \<and> p = JObj kvs \<and> conforms_fields F fs kvs"
proof -
  obtain kvs m where line: "map_of kvs ''type'' = Some (JStr t)" "t \<in> set ALLOWED_LOCAL_TYPES"
      "parseAgentToControlPlaneMessage safeParse (candidate_envelope u ts t (map_of kvs ''payload'')) = ParseOk m"
      "p = (case map_of kvs ''payload'' of Some p \<Rightarrow> p | None \<Rightarrow> JNull)"
    using assms(2) by (auto simp: handleLine_def split: option.splits json.splits if_splits parse_result.splits)
  then show "t \<in> set ALLOWED_LOCAL_TYPES" by blast
  from allowed_in_catalog [OF line(2)] obtain fs where fs: "map_of agentToControlPlaneCatalog t = Some fs" by blast
  obtain env where env: "candidate_envelope u ts t (map_of kvs ''payload'') = JObj env"
      "map_of env ''type'' = Some (JStr t)" "map_of env ''payload'' = map_of kvs ''payload''"
    by (auto simp: candidate_envelope_def split: option.split)
  have "str_prop ''type'' env = t" using env(2) by (simp add: str_prop_def)
  with zod.parse_message_answer [OF assms(1), of agentToControlPlaneCatalog "JObj env"] line(3) fs env
  have "conforms F (SObj fs None) (map_of kvs ''payload'')"
    by (auto simp: parse_answer_def parseAgentToControlPlaneMessage_def split: if_splits)
  with fs line(4) show "\<exists>fs kvs. map_of agentToControlPlaneCatalog t = Some fs \<and> p = JObj kvs \<and> conforms_fields F fs kvs"
    by (auto split: option.splits json.splits)
qed

end
