(* ===== verification/Agent_Process.thy ===== *)
theory Agent_Process
  imports Gateway Agent_Runner Local_Ipc
begin

text \<open>
  The agent process of \<open>apps/agent/src\<close>: its configuration (\<open>config.ts\<close>), persisted credential
  (\<open>state.ts\<close>), resource sampling (\<open>resources.ts\<close>) and main loop (\<open>index.ts\<close>): connecting and
  reconnecting, enrollment, heartbeats, workload commands and the forwarding of bot messages. Each
  callback is one function on the process state; the awaits inside a heartbeat are taken together.
\<close>

subsection \<open>Configuration\<close>

definition parseLabels :: "string option \<Rightarrow> entries" where
  "parseLabels raw = (case truthy raw of
     None \<Rightarrow> []
   | Some s \<Rightarrow> fold (\<lambda>pair labels. case map trim (split_on CHR ''='' pair) of
         key # val # _ \<Rightarrow> if key \<noteq> [] \<and> val \<noteq> [] then AList.update key val labels else labels
       | _ \<Rightarrow> labels) (split_on CHR '','' s) [])"

definition parseCapabilities :: "string option \<Rightarrow> string list" where
  "parseCapabilities raw = (case truthy raw of
     None \<Rightarrow> [''node'', ''custom-executable'']
   | Some s \<Rightarrow> filter (\<lambda>c. c \<noteq> []) (map trim (split_on CHR '','' s)))"

record agent_config =
  cf_controlPlaneUrl :: string
  cf_enrollmentToken :: "string option"
  cf_agentName :: string
  cf_labels :: entries
  cf_capabilities :: "string list"
  cf_stateFilePath :: string
  cf_localSocketPath :: string
  cf_agentVersion :: string

definition or_else :: "'a option \<Rightarrow> 'a \<Rightarrow> 'a" where
  "or_else v d = (case v of None \<Rightarrow> d | Some x \<Rightarrow> x)"

text \<open>\<open>loadConfig\<close> throws without a control plane URL.\<close>

definition loadConfig :: "(string \<Rightarrow> string option) \<Rightarrow> string \<Rightarrow> agent_config option" where
  "loadConfig env hostname = (case truthy (env ''BOTFLEET_CONTROL_PLANE_WS_URL'') of
     None \<Rightarrow> None
   | Some url \<Rightarrow> Some
       \<lparr>cf_controlPlaneUrl = url, cf_enrollmentToken = env ''BOTFLEET_AGENT_ENROLLMENT_TOKEN'',
        cf_agentName = or_else (env ''BOTFLEET_AGENT_NAME'') hostname,
        cf_labels = parseLabels (env ''BOTFLEET_AGENT_LABELS''),
        cf_capabilities = parseCapabilities (env ''BOTFLEET_AGENT_CAPABILITIES''),
        cf_stateFilePath = or_else (env ''BOTFLEET_AGENT_STATE_PATH'') ''./botfleet-agent-state.json'',
        cf_localSocketPath = or_else (env ''BOTFLEET_AGENT_SOCKET_PATH'') ''/tmp/botfleet-agent.sock'',
        cf_agentVersion = ''0.1.0''\<rparr>)"

subsection \<open>Platform\<close>

text \<open>A text the model writes as characters, as the code units that \<open>JSON.parse\<close> reads.\<close>

definition units_of :: "string \<Rightarrow> code_units" where
  "units_of = map (\<lambda>c. word_of_nat (of_char c))"

definition string_of :: "code_units \<Rightarrow> string" where
  "string_of = map (\<lambda>u. char_of (unat u))"

lemma string_of_units [simp]: "string_of (units_of s) = s"
proof -
  have "char_of (unat (word_of_nat (of_char c) :: 16 word)) = c" for c
  proof -
    have "(of_char c :: nat) < 2 ^ 16" by (rule less_trans [OF nat_of_char_less_256]) simp
    then show ?thesis by (simp add: unat_of_nat take_bit_nat_eq_self)
  qed
  then show ?thesis by (simp add: string_of_def units_of_def comp_def)
qed

lemma units_of_eq [simp]: "units_of s = units_of t \<longleftrightarrow> s = t"
  by (metis string_of_units)

record agent_platform =
  ap_base :: platform
  ap_stringify :: "json \<Rightarrow> string"
  ap_parseJson :: "code_units \<Rightarrow> json option"
  ap_hostname :: string
  ap_arch :: string
  ap_osName :: string

subsection \<open>The stored credential\<close>

record local_state =
  ls_agentId :: string
  ls_credentialSecret :: string

definition loadState :: "agent_platform \<Rightarrow> string option \<Rightarrow> local_state option" where
  "loadState ap file = (case Option.bind file (\<lambda>text. ap_parseJson ap (units_of text)) of
     None \<Rightarrow> None
   | Some v \<Rightarrow> (case (as_string (propOf ''agentId'' (Some v)), as_string (propOf ''credentialSecret'' (Some v))) of
       (Some a, Some s) \<Rightarrow> Some \<lparr>ls_agentId = a, ls_credentialSecret = s\<rparr>
     | _ \<Rightarrow> None))"

definition saveState :: "agent_platform \<Rightarrow> local_state \<Rightarrow> string" where
  "saveState ap s = ap_stringify ap (JObj [(''agentId'', JStr (ls_agentId s)), (''credentialSecret'', JStr (ls_credentialSecret s))])"

subsection \<open>Resources\<close>

record cpu_times =
  cp_user :: int
  cp_nice :: int
  cp_sys :: int
  cp_idle :: int
  cp_irq :: int

definition cpuTimes :: "cpu_times list \<Rightarrow> int \<times> int" where
  "cpuTimes cpus = foldl (\<lambda>(idle, total) c.
     (idle + cp_idle c, total + (cp_user c + cp_nice c + cp_sys c + cp_idle c + cp_irq c))) (0, 0) cpus"

definition sampleCpuUsagePercent :: "cpu_times list \<Rightarrow> cpu_times list \<Rightarrow> rat" where
  "sampleCpuUsagePercent before after =
     (let idleDelta = fst (cpuTimes after) - fst (cpuTimes before);
          totalDelta = snd (cpuTimes after) - snd (cpuTimes before)
      in if totalDelta \<le> 0 then 0
         else max 0 (min 100 (dbl (100 * dbl (1 - dbl (of_int idleDelta / of_int totalDelta))))))"

definition mb_of :: "int \<Rightarrow> int" where
  "mb_of bytes = math_round (dbl (of_int bytes / of_int (1024 * 1024)))"

record disk_stat =
  ds_blocks :: int
  ds_bavail :: int
  ds_bsize :: int

definition diskStats :: "disk_stat option \<Rightarrow> (string \<times> json) list" where
  "diskStats stat = (case stat of
     None \<Rightarrow> []
   | Some d \<Rightarrow> [(''diskTotalMb'', JNum (of_int (mb_of (ds_blocks d * ds_bsize d)))),
                 (''diskAvailableMb'', JNum (of_int (mb_of (ds_bavail d * ds_bsize d))))])"

record machine =
  mc_before :: "cpu_times list"
  mc_after :: "cpu_times list"
  mc_totalmem :: int
  mc_freemem :: int
  mc_disk :: "disk_stat option"
  mc_loadavg :: "rat \<times> rat \<times> rat"

definition sampleResources :: "machine \<Rightarrow> (string \<times> json) list" where
  "sampleResources m = (case mc_loadavg m of (l1, l5, l15) \<Rightarrow>
     [(''cpuUsagePercent'', JNum (sampleCpuUsagePercent (mc_before m) (mc_after m))),
      (''memoryTotalMb'', JNum (of_int (mb_of (mc_totalmem m)))),
      (''memoryAvailableMb'', JNum (of_int (mb_of (mc_freemem m))))]
     @ diskStats (mc_disk m) @
     [(''loadAverage1m'', JNum l1), (''loadAverage5m'', JNum l5), (''loadAverage15m'', JNum l15)])"

subsection \<open>The process\<close>

datatype ready_state = WsClosed | WsConnecting | WsOpen | WsClosing

text \<open>A stop or restart that waits for the exit of its child.\<close>

record pending_command =
  pc_child :: nat
  pc_restart :: bool
  pc_workloadId :: string
  pc_key :: string

record agent =
  pr_agentId :: "string option"
  pr_ws :: ready_state
  pr_header :: "string option"
  pr_state :: "local_state option"
  pr_heartbeatTimer :: bool
  pr_reconnectAttempt :: nat
  pr_reconnectIn :: "int option"
  pr_shuttingDown :: bool
  pr_file :: "string option"
  pr_runner :: runner
  pr_pending :: "pending_command list"
  pr_sent :: "json list"
  pr_seq :: nat
  pr_now :: int

definition backoffDelayMs :: "rat \<Rightarrow> nat \<Rightarrow> int" where
  "backoffDelayMs random attempt =
     (let base = min 30000 (1000 * 2 ^ attempt);
          jitter = dbl (dbl (random * of_int base) * dbl (3 / 10))
      in math_round (dbl (of_int base + jitter)))"

definition bearer_header :: "local_state \<Rightarrow> string" where
  "bearer_header s = ''Bearer '' @ ls_agentId s @ '':'' @ ls_credentialSecret s"

definition connect :: "agent_platform \<Rightarrow> agent \<Rightarrow> agent" where
  "connect ap p = (if pr_shuttingDown p then p
     else case loadState ap (pr_file p) of
       None \<Rightarrow> p\<lparr>pr_ws := WsConnecting, pr_header := None, pr_state := None\<rparr>
     | Some s \<Rightarrow> p\<lparr>pr_ws := WsConnecting, pr_header := Some (bearer_header s), pr_state := Some s,
                    pr_agentId := Some (ls_agentId s)\<rparr>)"

text \<open>\<open>ws.send(JSON.stringify(message))\<close>; identifiers and the clock come from the platform.\<close>

definition transmit :: "agent_platform \<Rightarrow> string \<Rightarrow> string \<Rightarrow> (string \<times> json) list \<Rightarrow> agent \<Rightarrow> agent" where
  "transmit ap sender t payload p =
     p\<lparr>pr_seq := Suc (pr_seq p),
       pr_sent := pr_sent p @ [JObj (createAgentToControlPlaneMessage (pf_randomUUID (ap_base ap) (pr_seq p))
         (pf_isoString (ap_base ap) (pr_now p)) t (JObj payload) \<lparr>ef_senderId = sender, ef_correlationId = None\<rparr>)]\<rparr>"

definition enroll_payload :: "agent_platform \<Rightarrow> agent_config \<Rightarrow> string \<Rightarrow> (string \<times> json) list" where
  "enroll_payload ap cf token =
     [(''enrollmentToken'', JStr token), (''agentName'', JStr (cf_agentName cf)), (''hostname'', JStr (ap_hostname ap)),
      (''architecture'', JStr (ap_arch ap)), (''operatingSystem'', JStr (ap_osName ap)),
      (''agentVersion'', JStr (cf_agentVersion cf)), (''capabilities'', JArr (map JStr (cf_capabilities cf))),
      (''labels'', JObj (map (\<lambda>(k, v). (k, JStr v)) (cf_labels cf)))]"

definition startHeartbeatLoop :: "agent \<Rightarrow> agent" where
  "startHeartbeatLoop p = p\<lparr>pr_heartbeatTimer := True\<rparr>"

definition stopHeartbeatLoop :: "agent \<Rightarrow> agent" where
  "stopHeartbeatLoop p = p\<lparr>pr_heartbeatTimer := False\<rparr>"

definition onOpen :: "agent_platform \<Rightarrow> agent_config \<Rightarrow> agent \<Rightarrow> agent" where
  "onOpen ap cf p = (let p = p\<lparr>pr_ws := WsOpen, pr_reconnectAttempt := 0\<rparr> in
     if pr_state p \<noteq> None then startHeartbeatLoop p
     else case truthy (cf_enrollmentToken cf) of
       None \<Rightarrow> p\<lparr>pr_ws := WsClosing\<rparr>
     | Some token \<Rightarrow> transmit ap (cf_agentName cf) ''agent.enroll'' (enroll_payload ap cf token) p)"

definition inventory_json :: "inventory_entry \<Rightarrow> json" where
  "inventory_json e = JObj [(''workloadId'', JStr (iv_workloadId e)), (''botId'', JStr (iv_botId e)),
     (''generation'', JNum (of_int (iv_generation e))), (''runtimeStatus'', JStr ''online'')]"

text \<open>One tick of the heartbeat loop, with what the machine reports.\<close>

definition sendHeartbeat :: "agent_platform \<Rightarrow> machine \<Rightarrow> agent \<Rightarrow> agent" where
  "sendHeartbeat ap m p = (case truthy (pr_agentId p) of
     None \<Rightarrow> p
   | Some a \<Rightarrow> if pr_ws p \<noteq> WsOpen then p
       else let inventory = getRunningInventory (pr_runner p) in
         transmit ap a ''agent.inventory''
           [(''agentId'', JStr a), (''workloads'', JArr (map inventory_json inventory))]
           (transmit ap a ''agent.heartbeat''
             [(''agentId'', JStr a), (''status'', JStr ''online''), (''resources'', JObj (sampleResources m)),
              (''workloadCount'', JNum (of_int (int (length inventory))))] p))"

definition forwardBotMessage :: "agent_platform \<Rightarrow> string \<Rightarrow> json \<Rightarrow> agent \<Rightarrow> agent" where
  "forwardBotMessage ap t payload p = (case truthy (pr_agentId p) of
     None \<Rightarrow> p
   | Some a \<Rightarrow> if pr_ws p \<noteq> WsOpen then p
       else p\<lparr>pr_seq := Suc (pr_seq p), pr_sent := pr_sent p @ [JObj
         [(''protocolVersion'', JNum (of_int PROTOCOL_VERSION)),
          (''messageId'', JStr (pf_randomUUID (ap_base ap) (pr_seq p))),
          (''timestamp'', JStr (pf_isoString (ap_base ap) (pr_now p))), (''senderId'', JStr a),
          (''type'', JStr t), (''payload'', payload)]]\<rparr>)"

subsection \<open>Workload commands\<close>

definition agent_id_json :: "agent \<Rightarrow> json" where
  "agent_id_json p = (case pr_agentId p of None \<Rightarrow> JNull | Some a \<Rightarrow> JStr a)"

definition ack_payload :: "agent \<Rightarrow> string \<Rightarrow> json" where
  "ack_payload p key = JObj [(''agentId'', agent_id_json p), (''commandId'', JStr key), (''idempotencyKey'', JStr key)]"

definition result_payload :: "agent \<Rightarrow> string \<Rightarrow> runner_result \<Rightarrow> json" where
  "result_payload p key res = JObj
     ([(''agentId'', agent_id_json p), (''commandId'', JStr key), (''idempotencyKey'', JStr key),
       (''status'', JStr (if rr_ok res then ''succeeded'' else ''failed''))]
      @ (case rr_error res of None \<Rightarrow> [] | Some e \<Rightarrow> [(''safeError'', JStr e)]))"

definition report :: "agent_platform \<Rightarrow> string \<Rightarrow> runner_result \<Rightarrow> agent \<Rightarrow> agent" where
  "report ap key res p = forwardBotMessage ap ''agent.command_result'' (result_payload p key res) p"

definition execute ::
    "agent_platform \<Rightarrow> string \<Rightarrow> (string \<times> json) list \<Rightarrow> runner \<Rightarrow> stop_result \<times> runner" where
  "execute ap t p r =
     (let wid = str_prop ''workloadId'' p; g = int_prop ''generation'' p; tracked = trackGeneration wid g r in
      if t = ''bot.update'' then
        (case cacheWorkloadSpec (pf_safeParse (ap_base ap)) wid (str_prop ''botId'' p)
                (case map_of p ''specification'' of Some v \<Rightarrow> v | None \<Rightarrow> JNull) g r of
           (res, r') \<Rightarrow> (Settled res, r'))
      else if t = ''bot.start'' then (case startWorkload wid tracked of (res, r') \<Rightarrow> (Settled res, r'))
      else if t = ''bot.stop'' then stopWorkload wid tracked
      else restartWorkload wid tracked)"

definition handleWorkloadCommand :: "agent_platform \<Rightarrow> string \<Rightarrow> (string \<times> json) list \<Rightarrow> agent \<Rightarrow> agent" where
  "handleWorkloadCommand ap t payload p =
     (let key = str_prop ''idempotencyKey'' payload;
          p = forwardBotMessage ap ''agent.command_ack'' (ack_payload p key) p
      in case execute ap t payload (pr_runner p) of
           (Settled res, r) \<Rightarrow> report ap key res (p\<lparr>pr_runner := r\<rparr>)
         | (Waiting c, r) \<Rightarrow> p\<lparr>pr_runner := r, pr_pending := pr_pending p @
             [\<lparr>pc_child = c, pc_restart = (t = ''bot.restart''),
               pc_workloadId = str_prop ''workloadId'' payload, pc_key = key\<rparr>]\<rparr>)"

text \<open>The continuation of a waiting command, run when its child has exited.\<close>

definition resume :: "agent_platform \<Rightarrow> pending_command \<Rightarrow> agent \<Rightarrow> agent" where
  "resume ap pc p =
     (if pc_restart pc
      then (case restart_after succeeded (pc_workloadId pc) (pr_runner p) of
        (res, r) \<Rightarrow> report ap (pc_key pc) res (p\<lparr>pr_runner := r\<rparr>))
      else report ap (pc_key pc) succeeded p)"

definition onChildExit :: "agent_platform \<Rightarrow> nat \<Rightarrow> agent \<Rightarrow> agent" where
  "onChildExit ap c p = fold (resume ap) (filter (\<lambda>pc. pc_child pc = c) (pr_pending p))
     (p\<lparr>pr_runner := childExit c (pr_runner p), pr_pending := filter (\<lambda>pc. pc_child pc \<noteq> c) (pr_pending p)\<rparr>)"

subsection \<open>Messages, closing, shutdown\<close>

definition onAccepted :: "agent_platform \<Rightarrow> (string \<times> json) list \<Rightarrow> agent \<Rightarrow> agent" where
  "onAccepted ap payload p =
     (let a = str_prop ''agentId'' payload; p = p\<lparr>pr_agentId := Some a\<rparr> in
      startHeartbeatLoop (case truthy (as_string (map_of payload ''credentialSecret'')) of
        None \<Rightarrow> p
      | Some s \<Rightarrow> p\<lparr>pr_file := Some (saveState ap \<lparr>ls_agentId = a, ls_credentialSecret = s\<rparr>)\<rparr>))"

definition onMessage :: "agent_platform \<Rightarrow> json option \<Rightarrow> agent \<Rightarrow> agent" where
  "onMessage ap raw p = (case raw of
     None \<Rightarrow> p
   | Some parsedJson \<Rightarrow> (case parseControlPlaneToAgentMessage (pf_safeParse (ap_base ap)) parsedJson of
       ParseOk message \<Rightarrow>
         let t = str_prop ''type'' message; payload = entries_of (map_of message ''payload'') in
         if t = ''agent.accepted'' then onAccepted ap payload p
         else if t \<in> {''bot.update'', ''bot.start'', ''bot.stop'', ''bot.restart''}
           then handleWorkloadCommand ap t payload p
         else p
     | _ \<Rightarrow> p))"

definition onSocketClose :: "rat \<Rightarrow> agent \<Rightarrow> agent" where
  "onSocketClose random p =
     (let p = (stopHeartbeatLoop p)\<lparr>pr_ws := WsClosed\<rparr> in
      if pr_shuttingDown p then p
      else p\<lparr>pr_reconnectAttempt := Suc (pr_reconnectAttempt p),
             pr_reconnectIn := Some (backoffDelayMs random (pr_reconnectAttempt p))\<rparr>)"

definition onReconnectTimer :: "agent_platform \<Rightarrow> agent \<Rightarrow> agent" where
  "onReconnectTimer ap p = connect ap (p\<lparr>pr_reconnectIn := None\<rparr>)"

definition onLine :: "agent_platform \<Rightarrow> code_units \<Rightarrow> agent \<Rightarrow> agent" where
  "onLine ap line p = (case handleLine (ap_parseJson ap) (pf_safeParse (ap_base ap))
       (pf_randomUUID (ap_base ap) (pr_seq p)) (pf_isoString (ap_base ap) (pr_now p)) line of
     Forward t payload \<Rightarrow> forwardBotMessage ap t payload (p\<lparr>pr_seq := Suc (pr_seq p)\<rparr>)
   | _ \<Rightarrow> p)"

definition shutdown :: "agent \<Rightarrow> agent" where
  "shutdown p = (stopHeartbeatLoop p)\<lparr>pr_shuttingDown := True, pr_ws := WsClosing\<rparr>"

definition boot :: "agent_platform \<Rightarrow> entries \<Rightarrow> string option \<Rightarrow> int \<Rightarrow> agent" where
  "boot ap env file now = connect ap
     \<lparr>pr_agentId = None, pr_ws = WsClosed, pr_header = None, pr_state = None, pr_heartbeatTimer = False,
      pr_reconnectAttempt = 0, pr_reconnectIn = None, pr_shuttingDown = False, pr_file = file,
      pr_runner = new_runner env, pr_pending = [], pr_sent = [], pr_seq = 0, pr_now = now\<rparr>"

subsection \<open>What the agent sends is understood\<close>

lemma agent_message_parses:
  assumes "platform_formats pf F" "1 \<le> length a" "length a \<le> 256" "t \<noteq> ''''"
    and "map_of agentToControlPlaneCatalog t = Some fs" "conforms_fields F fs payload"
  shows "\<exists>m. parseAgentToControlPlaneMessage (pf_safeParse pf) (JObj (create_message (pf_randomUUID pf n)
        (pf_isoString pf now) t (JObj payload) \<lparr>ef_senderId = a, ef_correlationId = None\<rparr>)) = ParseOk m
    \<and> map_of m ''type'' = Some (JStr t) \<and> map_of m ''payload'' = Some (JObj (parsed_fields fs payload))
    \<and> map_of m ''messageId'' = Some (JStr (pf_randomUUID pf n))"
proof -
  have z: "zod (pf_safeParse pf) F" and env: "conforms_fields F envelopeFields (create_message (pf_randomUUID pf n)
      (pf_isoString pf now) t (JObj payload) \<lparr>ef_senderId = a, ef_correlationId = None\<rparr>)"
    using assms by (auto simp: platform_formats_def intro!: conforms_created)
  from created_message_answer [OF zod.parse_message_answer [OF z] env assms(5,6)]
  show ?thesis by (auto simp: parseAgentToControlPlaneMessage_def)
qed

lemma agent_message_rejected:
  assumes "platform_formats pf F" "1 \<le> length a" "length a \<le> 256" "t \<noteq> ''''"
    and "map_of agentToControlPlaneCatalog t = Some fs" "\<not> conforms_fields F fs payload"
  shows "\<exists>is. parseAgentToControlPlaneMessage (pf_safeParse pf) (JObj (create_message (pf_randomUUID pf n)
        (pf_isoString pf now) t (JObj payload) \<lparr>ef_senderId = a, ef_correlationId = None\<rparr>)) = MalformedPayload t is"
proof -
  have z: "zod (pf_safeParse pf) F" and env: "conforms_fields F envelopeFields (create_message (pf_randomUUID pf n)
      (pf_isoString pf now) t (JObj payload) \<lparr>ef_senderId = a, ef_correlationId = None\<rparr>)"
    using assms by (auto simp: platform_formats_def intro!: conforms_created)
  from zod.parse_message_answer [OF z, of agentToControlPlaneCatalog "JObj (create_message (pf_randomUUID pf n)
      (pf_isoString pf now) t (JObj payload) \<lparr>ef_senderId = a, ef_correlationId = None\<rparr>)"] env assms(5,6)
  show ?thesis
    by (auto simp: parse_answer_def created_fields num_prop_def str_prop_def parseAgentToControlPlaneMessage_def)
qed

lemma forward_sends:
  assumes "pr_agentId p = Some a" "a \<noteq> ''''" "pr_ws p = WsOpen"
  shows "forwardBotMessage ap t payload p = p\<lparr>pr_seq := Suc (pr_seq p), pr_sent := pr_sent p @
    [JObj (create_message (pf_randomUUID (ap_base ap) (pr_seq p)) (pf_isoString (ap_base ap) (pr_now p)) t payload
      \<lparr>ef_senderId = a, ef_correlationId = None\<rparr>)]\<rparr>"
  using assms by (simp add: forwardBotMessage_def truthy_if create_message_def)

text \<open>
  The boundary between bot processes and the control plane. Whatever line a bot process writes,
  the agent forwards nothing but the seven reporting types, never a message of the agent itself, and
  what it forwards under its own identity is accepted by the gateway's parser with the same type and
  the payload the bot sent (unknown keys dropped).
\<close>
theorem forwarded_line_is_accepted:
  assumes "platform_formats (ap_base ap) F" "pr_agentId p = Some a" "a \<noteq> ''''" "length a \<le> 256" "pr_ws p = WsOpen"
    and "handleLine (ap_parseJson ap) (pf_safeParse (ap_base ap)) (pf_randomUUID (ap_base ap) (pr_seq p))
           (pf_isoString (ap_base ap) (pr_now p)) line = Forward t payload"
  shows "t \<in> {''bot.ready'', ''bot.heartbeat'', ''bot.stopped'', ''bot.crashed'', ''bot.metrics'', ''bot.log'', ''shard.status''}
    \<and> (\<exists>fs kvs sent m. map_of agentToControlPlaneCatalog t = Some fs \<and> payload = JObj kvs
        \<and> pr_sent (onLine ap line p) = pr_sent p @ [sent]
        \<and> parseAgentToControlPlaneMessage (pf_safeParse (ap_base ap)) sent = ParseOk m
        \<and> map_of m ''type'' = Some (JStr t) \<and> map_of m ''payload'' = Some (JObj (parsed_fields fs kvs)))"
proof -
  have z: "zod (pf_safeParse (ap_base ap)) F" using assms(1) by (simp add: platform_formats_def)
  note line = forwarded [OF z assms(6)]
  then obtain fs kvs where fs: "map_of agentToControlPlaneCatalog t = Some fs" "payload = JObj kvs" "conforms_fields F fs kvs"
    by blast
  have "t \<noteq> ''''" using line(1) by (auto simp: ALLOWED_LOCAL_TYPES_def)
  with agent_message_parses [OF assms(1) _ assms(4) _ fs(1,3), of "Suc (pr_seq p)" "pr_now p"] assms(2,3,5,6) fs line(1)
  show ?thesis
    by (auto simp: onLine_def forward_sends ALLOWED_LOCAL_TYPES_def Suc_le_eq)
qed

definition sample_bot_line :: json where
  "sample_bot_line = JObj [(''type'', JStr ''bot.stopped''), (''payload'', JObj [(''botId'', JStr ''b1'')])]"

definition sample_ap :: agent_platform where
  "sample_ap = \<lparr>ap_base = sample_platform,
     ap_stringify = (\<lambda>v. case v of JObj [(_, JStr a), (_, JStr s)] \<Rightarrow> a @ '' '' @ s | _ \<Rightarrow> []),
     ap_parseJson = (\<lambda>s. if s = units_of ''stopped'' then Some sample_bot_line
        else if s = units_of ''a1 k'' then Some (JObj [(''agentId'', JStr ''a1''), (''credentialSecret'', JStr ''k'')]) else None),
     ap_hostname = ''host'', ap_arch = ''x64'', ap_osName = ''linux''\<rparr>"

definition sample_process :: agent where
  "sample_process = (boot sample_ap [] None 0)\<lparr>pr_ws := WsOpen, pr_agentId := Some ''a1''\<rparr>"

lemma sample_ap_simps [simp]:
  "ap_base sample_ap = sample_platform" "ap_parseJson sample_ap (units_of ''stopped'') = Some sample_bot_line"
  by (simp_all add: sample_ap_def)

lemma sample_process_simps [simp]:
  "pr_agentId sample_process = Some ''a1''" "pr_ws sample_process = WsOpen" "pr_sent sample_process = []"
  "pr_seq sample_process = 0" "pr_now sample_process = 0" "pr_runner sample_process = new_runner []"
  "pr_pending sample_process = []"
  by (simp_all add: sample_process_def boot_def connect_def loadState_def)

theorem forwarded_line_is_accepted_witness:
  "\<exists>sent m. pr_sent (onLine sample_ap (units_of ''stopped'') sample_process) = [sent]
     \<and> parseAgentToControlPlaneMessage (pf_safeParse sample_platform) sent = ParseOk m"
proof -
  let ?env = "candidate_envelope (pf_randomUUID sample_platform 0) (pf_isoString sample_platform 0) ''bot.stopped''
      (Some (JObj [(''botId'', JStr ''b1'')]))"
  have "\<exists>m. parseAgentToControlPlaneMessage (pf_safeParse sample_platform) (JObj (create_message
      (pf_randomUUID sample_platform 0) (pf_isoString sample_platform 0) ''bot.stopped'' (JObj [(''botId'', JStr ''b1'')])
      \<lparr>ef_senderId = ''local-bot-process'', ef_correlationId = None\<rparr>)) = ParseOk m"
    using agent_message_parses [OF sample_platform_formats, of "''local-bot-process''" "''bot.stopped''" botStoppedPayload
        "[(''botId'', JStr ''b1'')]" 0 0]
    by (auto simp: agentToControlPlaneCatalog_def botStoppedPayload_def)
  moreover have "?env = JObj (create_message (pf_randomUUID sample_platform 0) (pf_isoString sample_platform 0)
      ''bot.stopped'' (JObj [(''botId'', JStr ''b1'')]) \<lparr>ef_senderId = ''local-bot-process'', ef_correlationId = None\<rparr>)"
    by (simp add: candidate_envelope_def create_message_def)
  ultimately obtain m0 where "parseAgentToControlPlaneMessage (pf_safeParse sample_platform) ?env = ParseOk m0"
    by auto
  then have "handleLine (ap_parseJson sample_ap) (pf_safeParse (ap_base sample_ap)) (pf_randomUUID (ap_base sample_ap) (pr_seq sample_process))
      (pf_isoString (ap_base sample_ap) (pr_now sample_process)) (units_of ''stopped'') = Forward ''bot.stopped'' (JObj [(''botId'', JStr ''b1'')])"
    by (simp add: handleLine_def sample_bot_line_def ALLOWED_LOCAL_TYPES_def)
  with forwarded_line_is_accepted [of sample_ap any_format sample_process "''a1''" "units_of ''stopped''"] sample_platform_formats
  show ?thesis by fastforce
qed

subsection \<open>Every command is acknowledged and answered\<close>

definition is_result :: "string \<Rightarrow> json \<Rightarrow> bool" where
  "is_result key m \<longleftrightarrow> type_of m = Some (JStr ''agent.command_result'')
     \<and> Option.bind (payload_of m) (\<lambda>p. as_string (propOf ''idempotencyKey'' (Some p))) = Some key"

lemma created_message_reads [simp]:
  "type_of (JObj (create_message u ts t p e)) = Some (JStr t)"
  "payload_of (JObj (create_message u ts t p e)) = Some p"
  by (simp_all add: created_fields type_of.simps payload_of.simps)

lemma report_sends:
  assumes "pr_agentId p = Some a" "a \<noteq> ''''" "pr_ws p = WsOpen"
  shows "\<exists>m. pr_sent (report ap key res p) = pr_sent p @ [m] \<and> is_result key m
    \<and> payload_of m = Some (result_payload p key res)"
    and "report ap key res p = p\<lparr>pr_seq := pr_seq (report ap key res p), pr_sent := pr_sent (report ap key res p)\<rparr>"
  using assms by (simp_all add: report_def forward_sends is_result_def result_payload_def split: option.split)

text \<open>
  C21: a command the connected agent receives is acknowledged at once under its idempotency key and
  then executed. Unless it has to wait for a process to exit, exactly one result with that key follows
  the acknowledgement; if it waits, it is remembered with its key and nothing more is sent.
\<close>
theorem command_is_acknowledged:
  assumes "pr_agentId p = Some a" "a \<noteq> ''''" "pr_ws p = WsOpen"
  shows "let p' = handleWorkloadCommand ap t payload p; key = str_prop ''idempotencyKey'' payload in
    \<exists>ack. type_of ack = Some (JStr ''agent.command_ack'') \<and> payload_of ack = Some (ack_payload p key)
      \<and> (case execute ap t payload (pr_runner p) of
          (Settled res, r) \<Rightarrow> pr_runner p' = r \<and> pr_pending p' = pr_pending p
            \<and> (\<exists>m. pr_sent p' = pr_sent p @ [ack, m] \<and> is_result key m \<and> payload_of m = Some (result_payload p key res))
        | (Waiting c, r) \<Rightarrow> pr_runner p' = r \<and> pr_sent p' = pr_sent p @ [ack]
            \<and> map (\<lambda>pc. (pc_child pc, pc_key pc)) (pr_pending p') =
                map (\<lambda>pc. (pc_child pc, pc_key pc)) (pr_pending p) @ [(c, key)])"
proof -
  let ?key = "str_prop ''idempotencyKey'' payload"
  let ?p1 = "forwardBotMessage ap ''agent.command_ack'' (ack_payload p ?key) p"
  obtain ack where ack: "pr_sent ?p1 = pr_sent p @ [ack]" "type_of ack = Some (JStr ''agent.command_ack'')"
      "payload_of ack = Some (ack_payload p ?key)"
      and frame: "pr_agentId ?p1 = Some a" "pr_ws ?p1 = WsOpen" "pr_runner ?p1 = pr_runner p" "pr_pending ?p1 = pr_pending p"
    using assms by (simp add: forward_sends)
  have same: "result_payload (p'\<lparr>pr_runner := r\<rparr>) k res = result_payload p k res" if "pr_agentId p' = pr_agentId p" for p' k res r
    using that by (simp add: result_payload_def agent_id_json_def cong: option.case_cong)
  show ?thesis
  proof (cases "execute ap t payload (pr_runner p)")
    case (Pair v r)
    show ?thesis
    proof (cases v)
      case (Settled res)
      have f: "handleWorkloadCommand ap t payload p = report ap ?key res (?p1\<lparr>pr_runner := r\<rparr>)"
        using Pair Settled frame by (simp add: handleWorkloadCommand_def Let_def)
      obtain m where m: "pr_sent (report ap ?key res (?p1\<lparr>pr_runner := r\<rparr>)) = pr_sent p @ [ack] @ [m]" "is_result ?key m"
          "payload_of m = Some (result_payload p ?key res)"
        using report_sends(1) [of "?p1\<lparr>pr_runner := r\<rparr>" a ap ?key res] frame assms ack(1) same [of ?p1] by auto
      have g: "pr_runner (report ap ?key res (?p1\<lparr>pr_runner := r\<rparr>)) = r"
          "pr_pending (report ap ?key res (?p1\<lparr>pr_runner := r\<rparr>)) = pr_pending p"
        by (subst report_sends(2) [of _ a]; use frame assms in simp)+
      show ?thesis unfolding Let_def Pair Settled f using ack m g by (auto intro!: exI [of _ ack])
    next
      case (Waiting c)
      then have "handleWorkloadCommand ap t payload p = ?p1\<lparr>pr_runner := r, pr_pending := pr_pending p @
          [\<lparr>pc_child = c, pc_restart = (t = ''bot.restart''), pc_workloadId = str_prop ''workloadId'' payload, pc_key = ?key\<rparr>]\<rparr>"
        using Pair frame by (simp add: handleWorkloadCommand_def Let_def)
      with ack Pair Waiting show ?thesis by (simp add: Let_def)
    qed
  qed
qed

theorem command_is_acknowledged_witness:
  "\<exists>ack m. pr_sent (handleWorkloadCommand sample_ap ''bot.stop'' stop_payload sample_process) = [ack, m]
     \<and> type_of ack = Some (JStr ''agent.command_ack'') \<and> is_result ''fence-w1'' m"
proof -
  have "execute sample_ap ''bot.stop'' stop_payload (pr_runner sample_process) =
      (Settled (failed ''unknown workload''), new_runner [])"
    by (simp add: execute_def Let_def stopWorkload_def entry_of_def trackGeneration_def new_runner_def)
  moreover have "str_prop ''idempotencyKey'' stop_payload = ''fence-w1''"
    by (simp add: str_prop_def stop_payload_def)
  ultimately show ?thesis
    using command_is_acknowledged [of sample_process "''a1''" sample_ap "''bot.stop''" stop_payload]
    by (auto simp: Let_def)
qed

definition online :: "agent \<Rightarrow> bool" where
  "online p \<longleftrightarrow> truthy (pr_agentId p) \<noteq> None \<and> pr_ws p = WsOpen"

lemma report_offline: "\<not> online p \<Longrightarrow> report ap key res p = p"
  by (auto simp: online_def report_def forwardBotMessage_def split: option.split)

text \<open>
  What the commands that wait for one process come to when it exits: a stop has succeeded, a restart has
  the result of starting the workload again; with the runner after all of them.
\<close>

fun settle_waiting :: "pending_command list \<Rightarrow> runner \<Rightarrow> (pending_command \<times> runner_result) list \<times> runner" where
  "settle_waiting [] r = ([], r)"
| "settle_waiting (pc # pcs) r =
     (let (res, r1) = (if pc_restart pc then startWorkload (pc_workloadId pc) r else (succeeded, r));
          (rest, r2) = settle_waiting pcs r1 in ((pc, res) # rest, r2))"

definition answers :: "agent \<Rightarrow> pending_command \<times> runner_result \<Rightarrow> json \<Rightarrow> bool" where
  "answers p x m \<longleftrightarrow> is_result (pc_key (fst x)) m \<and> payload_of m = Some (result_payload p (pc_key (fst x)) (snd x))"

lemma resume_reports: "resume ap pc p =
    (case (if pc_restart pc then startWorkload (pc_workloadId pc) (pr_runner p) else (succeeded, pr_runner p)) of
       (res, r) \<Rightarrow> report ap (pc_key pc) res (p\<lparr>pr_runner := r\<rparr>))"
  by (simp add: resume_def restart_after_def succeeded_def)

lemma report_frame:
  "pr_runner (report ap key res p) = pr_runner p" "pr_pending (report ap key res p) = pr_pending p"
  "pr_agentId (report ap key res p) = pr_agentId p" "online (report ap key res p) = online p"
  by (auto simp: report_def forwardBotMessage_def online_def split: option.split)

lemma report_answers:
  assumes "pr_agentId q = pr_agentId p" "online q"
  shows "\<exists>m. pr_sent (report ap (pc_key pc) res q) = pr_sent q @ [m] \<and> answers p (pc, res) m"
proof -
  obtain a where a: "pr_agentId q = Some a" "a \<noteq> ''''" "pr_ws q = WsOpen"
    using assms(2) by (cases "pr_agentId q") (auto simp: online_def truthy_if split: if_splits)
  have "result_payload q k res = result_payload p k res" for k
    using assms(1) by (simp add: result_payload_def agent_id_json_def)
  with report_sends(1) [OF a, of ap "pc_key pc" res] show ?thesis by (simp add: answers_def)
qed

lemma resume_all:
  assumes "pr_agentId q = pr_agentId p" "online q = online p" "settle_waiting pcs (pr_runner q) = (outcomes, r)"
  shows "pr_runner (fold (resume ap) pcs q) = r \<and> pr_pending (fold (resume ap) pcs q) = pr_pending q
    \<and> map fst outcomes = pcs
    \<and> (if online p then \<exists>ms. pr_sent (fold (resume ap) pcs q) = pr_sent q @ ms \<and> list_all2 (answers p) outcomes ms
       else pr_sent (fold (resume ap) pcs q) = pr_sent q)"
  using assms
proof (induction pcs arbitrary: q outcomes)
  case (Cons pc pcs)
  obtain res r1 where step: "(if pc_restart pc then startWorkload (pc_workloadId pc) (pr_runner q) else (succeeded, pr_runner q)) = (res, r1)"
    by (metis surj_pair)
  obtain rest where rest: "settle_waiting pcs r1 = (rest, r)" and sd: "outcomes = (pc, res) # rest"
    using Cons.prems(3) step by (auto simp: Let_def split: prod.splits)
  let ?q = "q\<lparr>pr_runner := r1\<rparr>"
  have q: "resume ap pc q = report ap (pc_key pc) res ?q" using step by (simp add: resume_reports)
  have same: "pr_agentId ?q = pr_agentId p" "online ?q = online p" using Cons.prems by (simp_all add: online_def)
  have IH: "pr_runner (fold (resume ap) pcs (resume ap pc q)) = r \<and> pr_pending (fold (resume ap) pcs (resume ap pc q)) = pr_pending q
    \<and> map fst rest = pcs
    \<and> (if online p then \<exists>ms. pr_sent (fold (resume ap) pcs (resume ap pc q)) = pr_sent (resume ap pc q) @ ms \<and> list_all2 (answers p) rest ms
       else pr_sent (fold (resume ap) pcs (resume ap pc q)) = pr_sent (resume ap pc q))"
    using Cons.IH [of "resume ap pc q" rest] same rest by (simp add: q report_frame cong: if_cong)
  show ?case
  proof (cases "online p")
    case True
    obtain m where "pr_sent (resume ap pc q) = pr_sent q @ [m]" "answers p (pc, res) m"
      using report_answers [of ?q p ap pc res] same True by (auto simp: q)
    with IH True show ?thesis by (fastforce simp: sd intro: exI [of _ "m # ms" for ms])
  next
    case False
    with IH same report_offline [of ?q ap "pc_key pc" res] show ?thesis by (simp add: q sd)
  qed
qed simp

text \<open>
  C22: when a process exits, every stop and restart that waits for it is settled, a stop as succeeded
  and a restart with the result of starting the workload again, and no longer waits; commands that wait
  for other processes keep waiting. If the agent has its id and an open socket at that moment, one answer
  is sent for each, under its key and with exactly its result; otherwise nothing is sent, then or later,
  and the control plane never hears of the outcome.
\<close>
theorem waiting_commands_are_answered:
  "let waiting = filter (\<lambda>pc. pc_child pc = c) (pr_pending p);
       (outcomes, r) = settle_waiting waiting (childExit c (pr_runner p));
       p' = onChildExit ap c p
   in map fst outcomes = waiting \<and> pr_runner p' = r \<and> pr_pending p' = filter (\<lambda>pc. pc_child pc \<noteq> c) (pr_pending p)
     \<and> (if truthy (pr_agentId p) \<noteq> None \<and> pr_ws p = WsOpen
        then \<exists>ms. pr_sent p' = pr_sent p @ ms
          \<and> list_all2 (\<lambda>(pc, res) m. is_result (pc_key pc) m \<and> payload_of m = Some (result_payload p (pc_key pc) res)) outcomes ms
        else pr_sent p' = pr_sent p)"
proof -
  let ?q = "p\<lparr>pr_runner := childExit c (pr_runner p), pr_pending := filter (\<lambda>pc. pc_child pc \<noteq> c) (pr_pending p)\<rparr>"
  obtain outcomes r where s: "settle_waiting (filter (\<lambda>pc. pc_child pc = c) (pr_pending p)) (childExit c (pr_runner p)) = (outcomes, r)"
    by (metis surj_pair)
  have "answers p = (\<lambda>(pc, res) m. is_result (pc_key pc) m \<and> payload_of m = Some (result_payload p (pc_key pc) res))"
    by (auto simp: answers_def fun_eq_iff)
  with resume_all [of ?q p "filter (\<lambda>pc. pc_child pc = c) (pr_pending p)" outcomes r ap] s
  show ?thesis by (simp add: onChildExit_def Let_def online_def cong: if_cong)
qed

definition waiting_process :: agent where
  "waiting_process = sample_process\<lparr>pr_runner := running_sample,
     pr_pending := [\<lparr>pc_child = 0, pc_restart = False, pc_workloadId = ''w'', pc_key = ''k1''\<rparr>]\<rparr>"

theorem waiting_commands_are_answered_witness:
  "(\<exists>m. pr_sent (onChildExit sample_ap 0 waiting_process) = [m] \<and> is_result ''k1'' m)
   \<and> pr_sent (onChildExit sample_ap 0 (waiting_process\<lparr>pr_ws := WsClosed\<rparr>)) = []"
  using waiting_commands_are_answered [of 0 waiting_process sample_ap]
    waiting_commands_are_answered [of 0 "waiting_process\<lparr>pr_ws := WsClosed\<rparr>" sample_ap]
  by (auto simp: waiting_process_def list_all2_Cons1 truthy_if Let_def)

subsection \<open>Which results the control plane accepts\<close>

text \<open>
  The gateway accepts every acknowledgement and every success of the agent, and a failure exactly
  when its error text has at most 2000 characters. The agent does not shorten the text (the issues of
  an invalid specification are joined into one), so a longer one is rejected as malformed and the
  command stays accepted for ever.
\<close>
theorem result_is_accepted_iff:
  assumes "platform_formats pf F" "pr_agentId p = Some a" "a \<noteq> ''''" "length a \<le> 256" "key \<noteq> ''''" "length key \<le> 128"
  shows "let msg = (\<lambda>t payload. JObj (create_message (pf_randomUUID pf n) (pf_isoString pf now) t payload
        \<lparr>ef_senderId = a, ef_correlationId = None\<rparr>)) in
      (\<exists>m. parseAgentToControlPlaneMessage (pf_safeParse pf) (msg ''agent.command_ack'' (ack_payload p key)) = ParseOk m)
    \<and> ((\<exists>m. parseAgentToControlPlaneMessage (pf_safeParse pf) (msg ''agent.command_result'' (result_payload p key res)) = ParseOk m)
        \<longleftrightarrow> (case rr_error res of None \<Rightarrow> True | Some e \<Rightarrow> length e \<le> 2000))"
proof -
  obtain kvs where kvs: "result_payload p key res = JObj kvs"
      "conforms_fields F agentCommandResultPayload kvs \<longleftrightarrow> (case rr_error res of None \<Rightarrow> True | Some e \<Rightarrow> length e \<le> 2000)"
    using assms
    by (cases "rr_error res")
      (simp_all add: result_payload_def agent_id_json_def agentCommandResultPayload_def Suc_le_eq)
  obtain ack where ack: "ack_payload p key = JObj ack" "conforms_fields F agentCommandAckPayload ack"
    using assms by (simp add: ack_payload_def agent_id_json_def agentCommandAckPayload_def Suc_le_eq)
  have cat: "map_of agentToControlPlaneCatalog ''agent.command_result'' = Some agentCommandResultPayload"
      "map_of agentToControlPlaneCatalog ''agent.command_ack'' = Some agentCommandAckPayload"
    by (simp_all add: agentToControlPlaneCatalog_def)
  have a: "1 \<le> length a" using assms(3) by (simp add: Suc_le_eq)
  show ?thesis
    using agent_message_parses [OF assms(1) a assms(4) _ cat(2) ack(2), of n now]
      agent_message_parses [OF assms(1) a assms(4) _ cat(1), of kvs n now]
      agent_message_rejected [OF assms(1) a assms(4) _ cat(1), of kvs n now] kvs ack(1)
    by (auto simp: Let_def)
qed

theorem result_is_accepted_iff_witness:
  "\<not> (\<exists>m. parseAgentToControlPlaneMessage (pf_safeParse sample_platform) (JObj (create_message (pf_randomUUID sample_platform 0)
       (pf_isoString sample_platform 0) ''agent.command_result'' (result_payload sample_process ''k'' (failed (replicate 2001 CHR ''x'')))
       \<lparr>ef_senderId = ''a1'', ef_correlationId = None\<rparr>)) = ParseOk m)"
  using result_is_accepted_iff [OF sample_platform_formats, of sample_process "''a1''" "''k''" 0 0 "failed (replicate 2001 CHR ''x'')"]
  by (simp add: Let_def failed_def)

subsection \<open>Reconnecting\<close>

text \<open>What \<open>saveState\<close> and \<open>loadState\<close> rely on: JSON text that was written reads back as the same value.\<close>

definition json_codec :: "agent_platform \<Rightarrow> bool" where
  "json_codec ap \<longleftrightarrow> (\<forall>a s. ap_parseJson ap (units_of (ap_stringify ap (JObj [(''agentId'', JStr a), (''credentialSecret'', JStr s)]))) =
     Some (JObj [(''agentId'', JStr a), (''credentialSecret'', JStr s)]))"

text \<open>
  Enrollment survives a restart. After \<open>agent.accepted\<close> with a secret, the state file reads back
  as that agent and secret, and whenever the process connects again it presents a header from which
  the gateway reads exactly that agent id and secret (provided neither contains a colon, which the ids
  and base64url tokens the control plane gives out do not).
\<close>
theorem credential_survives_restart:
  assumes "json_codec ap" "str_prop ''agentId'' payload = a" "map_of payload ''credentialSecret'' = Some (JStr s)"
    and "a \<noteq> ''''" "s \<noteq> ''''" "CHR '':'' \<notin> set a" "CHR '':'' \<notin> set s"
  shows "loadState ap (pr_file (onAccepted ap payload p)) = Some \<lparr>ls_agentId = a, ls_credentialSecret = s\<rparr>
    \<and> parse_bearer (pr_header (boot ap env (pr_file (onAccepted ap payload p)) now)) = Some (a, s)"
proof -
  have load: "loadState ap (pr_file (onAccepted ap payload p)) = Some \<lparr>ls_agentId = a, ls_credentialSecret = s\<rparr>"
    using assms by (simp add: onAccepted_def Let_def truthy_if startHeartbeatLoop_def loadState_def saveState_def json_codec_def)
  have "split_on CHR '':'' (a @ CHR '':'' # s) = [a, s]"
    using assms(6,7) by (simp add: split_on_join split_on_none)
  then have "parse_bearer (Some (bearer_header \<lparr>ls_agentId = a, ls_credentialSecret = s\<rparr>)) = Some (a, s)"
    using assms(4,5) by (simp add: parse_bearer_def bearer_header_def starts_with_def)
  with load show ?thesis by (simp add: boot_def connect_def)
qed

lemma sample_codec: "loadState sample_ap (Some ''a1 k'') = Some \<lparr>ls_agentId = ''a1'', ls_credentialSecret = ''k''\<rparr>"
  by (simp add: loadState_def sample_ap_def)

text \<open>A codec of the two strings, for the witness: each is written with its length in front.\<close>

definition unary :: "nat \<Rightarrow> string" where
  "unary n = replicate n CHR ''1'' @ ''.''"

definition codec_ap :: agent_platform where
  "codec_ap = sample_ap\<lparr>
     ap_stringify := (\<lambda>v. case v of JObj [(_, JStr a), (_, JStr s)] \<Rightarrow> unary (length a) @ a @ s | _ \<Rightarrow> []),
     ap_parseJson := (\<lambda>u. let t = string_of u; n = length (takeWhile (\<lambda>c. c = CHR ''1'') t); rest = drop (Suc n) t in
       Some (JObj [(''agentId'', JStr (take n rest)), (''credentialSecret'', JStr (drop n rest))]))\<rparr>"

lemma codec_ok: "json_codec codec_ap"
proof -
  have "takeWhile (\<lambda>c. c = CHR ''1'') (unary n @ w) = replicate n CHR ''1''" for n w
    by (induction n) (simp_all add: unary_def)
  moreover have "length (unary n) = Suc n" for n by (simp add: unary_def)
  ultimately show ?thesis by (simp add: json_codec_def codec_ap_def Let_def)
qed

theorem credential_survives_restart_witness:
  "parse_bearer (pr_header (boot codec_ap [] (pr_file (onAccepted codec_ap
     [(''agentId'', JStr ''a1''), (''credentialSecret'', JStr ''k'')] sample_process)) 5)) = Some (''a1'', ''k'')"
  using credential_survives_restart [OF codec_ok, of "[(''agentId'', JStr ''a1''), (''credentialSecret'', JStr ''k'')]"
      "''a1''" "''k''" sample_process "[]" 5]
  by (simp add: str_prop_def)

text \<open>
  The delay before a reconnect doubles from one second to at most thirty, plus a jitter that never
  makes it shorter and never longer than 39 seconds, whatever number in the unit interval
  \<open>Math.random\<close> gives and however often the agent has already failed (rounding included).
\<close>
theorem backoff_bounds:
  assumes "0 \<le> random" "random \<le> 1"
  shows "min 30000 (1000 * 2 ^ attempt) \<le> backoffDelayMs random attempt \<and> backoffDelayMs random attempt \<le> 39000"
proof -
  let ?base = "min 30000 (1000 * 2 ^ attempt) :: int"
  let ?j = "dbl (dbl (random * of_int ?base) * dbl (3 / 10))"
  have base: "1000 \<le> ?base" "?base \<le> 30000" by (simp_all add: min_def)
  have "dbl (of_int ?base) = of_int ?base" using base by (intro dbl_int) simp
  then have r: "0 \<le> dbl (random * of_int ?base)" "dbl (random * of_int ?base) \<le> of_int ?base"
    using base assms dbl_mono [of 0 "random * of_int ?base"] dbl_mono [of "random * of_int ?base" "of_int ?base"]
    by (auto simp: mult_left_le_one_le)
  have third: "0 \<le> dbl (3 / 10)" "dbl (3 / 10) \<le> 19661 / 65536"
    using dbl_mono [of 0 "3 / 10"] dbl_mono [of "3 / 10" "19661 / 65536"] dbl_exact [of 19661 "- 16"]
    by (simp_all add: power_int_def power_divide)
  have "dbl (random * of_int ?base) * dbl (3 / 10) \<le> 30000 * (19661 / 65536)"
    using r third base by (intro mult_mono) auto
  then have "dbl (random * of_int ?base) * dbl (3 / 10) \<le> 36001 / 4" by simp
  from dbl_mono [OF this] have j: "?j \<le> 36001 / 4"
    using dbl_exact [of 36001 "- 2"] by (simp add: power_int_def power_divide)
  have j0: "0 \<le> ?j" using dbl_mono [of 0 "dbl (random * of_int ?base) * dbl (3 / 10)"] r third by simp
  have "dbl (of_int ?base) \<le> dbl (of_int ?base + ?j)" using j0 by (intro dbl_mono) simp
  moreover have "dbl (of_int ?base + ?j) \<le> dbl (156001 / 4)" using j base by (intro dbl_mono) simp
  ultimately have "of_int ?base \<le> dbl (of_int ?base + ?j)" "dbl (of_int ?base + ?j) \<le> 156001 / 4"
    using \<open>dbl (of_int ?base) = of_int ?base\<close> dbl_exact [of 156001 "- 2"] by (simp_all add: power_int_def power_divide)
  then have "math_round (of_int ?base) \<le> math_round (dbl (of_int ?base + ?j))"
      "math_round (dbl (of_int ?base + ?j)) \<le> math_round (156001 / 4)"
    by (simp_all only: math_round_mono)
  moreover have "math_round (156001 / 4) = 39000"
    by (simp add: math_round_def floor_eq_iff)
  ultimately show ?thesis unfolding backoffDelayMs_def Let_def math_round_int by simp
qed

theorem backoff_bounds_witness: "30000 \<le> backoffDelayMs (1 / 2) 9 \<and> backoffDelayMs (1 / 2) 9 \<le> 39000"
  using backoff_bounds [of "1 / 2" 9] by simp

subsection \<open>The agent never gives up\<close>

text \<open>
  The events of the process: they come in any order, each only when it can. The state file may be
  changed by others at any time, and the clock runs.
\<close>

inductive process_step :: "agent_platform \<Rightarrow> agent_config \<Rightarrow> agent \<Rightarrow> agent \<Rightarrow> bool" for ap cf where
  opens: "pr_ws p = WsConnecting \<Longrightarrow> process_step ap cf p (onOpen ap cf p)"
| message: "pr_ws p = WsOpen \<Longrightarrow> process_step ap cf p (onMessage ap raw p)"
| closes: "pr_ws p \<noteq> WsClosed \<Longrightarrow> process_step ap cf p (onSocketClose random p)"
| timer: "pr_reconnectIn p \<noteq> None \<Longrightarrow> process_step ap cf p (onReconnectTimer ap p)"
| tick: "pr_heartbeatTimer p \<Longrightarrow> process_step ap cf p (sendHeartbeat ap m p)"
| line: "process_step ap cf p (onLine ap l p)"
| exited: "process_step ap cf p (onChildExit ap c p)"
| force: "process_step ap cf p (p\<lparr>pr_runner := forceKill c (pr_runner p)\<rparr>)"
| stops: "process_step ap cf p (shutdown p)"
| other: "process_step ap cf p (p\<lparr>pr_file := f, pr_now := t\<rparr>)"

inductive_cases process_stepE: "process_step ap cf p p'"

text \<open>
  Either a socket is there (connecting, open or about to report its close) and no reconnect is due, or
  there is none and the reconnect timer runs; heartbeats only run on an open socket.
\<close>

definition connection_ok :: "agent \<Rightarrow> bool" where
  "connection_ok p \<longleftrightarrow> pr_shuttingDown p
     \<or> (pr_ws p = WsClosed \<longleftrightarrow> pr_reconnectIn p \<noteq> None) \<and> (pr_heartbeatTimer p \<longrightarrow> pr_ws p \<in> {WsOpen, WsClosing})"

definition same_connection :: "agent \<Rightarrow> agent \<Rightarrow> bool" where
  "same_connection p p' \<longleftrightarrow> pr_shuttingDown p' = pr_shuttingDown p \<and> pr_ws p' = pr_ws p
     \<and> pr_reconnectIn p' = pr_reconnectIn p \<and> (pr_heartbeatTimer p' = pr_heartbeatTimer p \<or> pr_ws p = WsOpen)"

lemma same_connection_ok: "same_connection p p' \<Longrightarrow> connection_ok p \<Longrightarrow> connection_ok p'"
  by (auto simp: same_connection_def connection_ok_def)

lemma same_refl: "same_connection p p"
  and same_trans: "same_connection p q \<Longrightarrow> same_connection q r \<Longrightarrow> same_connection p r"
  by (auto simp: same_connection_def)

lemma same_forward: "same_connection p (forwardBotMessage ap t payload p)"
  by (auto simp: same_connection_def forwardBotMessage_def split: option.split)

lemma same_runner: "same_connection p q \<Longrightarrow> same_connection p (q\<lparr>pr_runner := r\<rparr>)"
  "same_connection p q \<Longrightarrow> same_connection p (q\<lparr>pr_pending := pcs\<rparr>)"
  "same_connection p q \<Longrightarrow> same_connection p (q\<lparr>pr_seq := n\<rparr>)"
  by (auto simp: same_connection_def)

lemma same_report: "same_connection p q \<Longrightarrow> same_connection p (report ap key res q)"
  unfolding report_def by (rule same_trans [OF _ same_forward])

lemma same_command: "same_connection p (handleWorkloadCommand ap t payload p)"
  unfolding handleWorkloadCommand_def Let_def
  by (auto intro!: same_report same_runner same_forward split: prod.split stop_result.split)

lemma same_resume: "same_connection p q \<Longrightarrow> same_connection p (resume ap pc q)"
  unfolding resume_def by (auto intro!: same_report same_runner split: prod.split)

lemma same_exit: "same_connection p (onChildExit ap c p)"
proof -
  have loop: "same_connection p (fold (resume ap) pcs q)" if "same_connection p q" for pcs q
    using that by (induction pcs arbitrary: q) (auto intro: same_resume)
  show ?thesis unfolding onChildExit_def by (intro loop same_runner same_refl)
qed

lemma same_accepted: "pr_ws p = WsOpen \<Longrightarrow> same_connection p (onAccepted ap payload p)"
  by (simp add: onAccepted_def startHeartbeatLoop_def same_connection_def Let_def split: option.split)

lemma same_message: "pr_ws p = WsOpen \<Longrightarrow> same_connection p (onMessage ap raw p)"
  by (simp add: onMessage_def Let_def same_refl same_command same_accepted split: option.split parse_result.split)

lemma same_heartbeat: "same_connection p (sendHeartbeat ap m p)"
  by (auto simp: sendHeartbeat_def transmit_def same_connection_def Let_def split: option.split)

lemma same_line: "same_connection p (onLine ap l p)"
  unfolding onLine_def
  by (auto intro: same_refl same_trans [OF same_runner(3) [OF same_refl] same_forward] split: line_outcome.split)

lemma process_step_ok: "process_step ap cf p p' \<Longrightarrow> connection_ok p \<Longrightarrow> connection_ok p'"
proof (induction rule: process_step.induct)
  case (opens p)
  then show ?case
    by (auto simp: connection_ok_def onOpen_def Let_def startHeartbeatLoop_def transmit_def split: option.split)
next
  case (closes p random)
  then show ?case
    by (auto simp: connection_ok_def onSocketClose_def Let_def stopHeartbeatLoop_def)
next
  case (timer p)
  then show ?case
    by (auto simp: connection_ok_def onReconnectTimer_def connect_def split: option.split)
next
  case (force p c)
  show ?case by (rule same_connection_ok [OF same_runner(1) [OF same_refl] force])
next
  case (stops p)
  show ?case by (simp add: connection_ok_def shutdown_def)
next
  case (other p f t)
  then show ?case by (simp add: connection_ok_def)
qed (auto intro: same_connection_ok same_message same_heartbeat same_line same_exit)

text \<open>
  C23: the agent never gives up. In every state the process can reach, unless it is shutting down,
  either there is a socket that is connecting, open or about to close, or a reconnect timer is
  running; and when that timer fires the agent connects again, presenting the credential of its state
  file if it has one.
\<close>
theorem never_gives_up:
  assumes "(process_step ap cf)\<^sup>*\<^sup>* (boot ap env file now) p" "\<not> pr_shuttingDown p"
  shows "if pr_ws p = WsClosed
    then (\<exists>d. pr_reconnectIn p = Some d) \<and> pr_ws (onReconnectTimer ap p) = WsConnecting
      \<and> pr_header (onReconnectTimer ap p) = map_option bearer_header (loadState ap (pr_file p))
    else pr_reconnectIn p = None"
proof -
  have "connection_ok (boot ap env file now)"
    by (auto simp: connection_ok_def boot_def connect_def split: option.split)
  with assms(1) have "connection_ok p"
    by (induction rule: rtranclp_induct) (auto intro: process_step_ok)
  with assms(2) show ?thesis
    by (auto simp: connection_ok_def onReconnectTimer_def connect_def split: option.split)
qed

theorem never_gives_up_witness:
  "pr_reconnectIn (onSocketClose (1 / 2) (boot sample_ap [] None 0)) \<noteq> None"
proof -
  let ?p = "boot sample_ap [] None 0"
  have p: "pr_ws ?p = WsConnecting" "\<not> pr_shuttingDown ?p"
    by (simp_all add: boot_def connect_def loadState_def)
  have "(process_step sample_ap cf)\<^sup>*\<^sup>* ?p (onSocketClose (1 / 2) ?p)" for cf
    using p by (intro r_into_rtranclp process_step.closes) simp
  moreover have "pr_ws (onSocketClose (1 / 2) ?p) = WsClosed" "\<not> pr_shuttingDown (onSocketClose (1 / 2) ?p)"
    using p by (simp_all add: onSocketClose_def Let_def stopHeartbeatLoop_def)
  ultimately show ?thesis
    using never_gives_up [of sample_ap undefined "[]" None 0 "onSocketClose (1 / 2) ?p"] by auto
qed

end
