(* ===== verification/Runtime_Sdk.thy ===== *)
theory Runtime_Sdk
  imports Agent_Process "HOL-Library.Sublist"
begin

text \<open>
  \<open>packages/runtime-sdk/src\<close>: what a bot process uses to report to its agent: the fixed-window rate
  limiter (\<open>rate-limiter.ts\<close>), the socket client with its bounded queue (\<open>socket-client.ts\<close>) and the
  runtime on top of them (\<open>runtime.ts\<close>). A message is the pair of its type and its payload.
\<close>

subsection \<open>Rate limiter\<close>

record limiter =
  lm_maxPerWindow :: nat
  lm_windowMs :: int
  lm_windowStart :: int
  lm_count :: nat

definition newLimiter :: "nat \<Rightarrow> int \<Rightarrow> int \<Rightarrow> limiter" where
  "newLimiter maxPerWindow windowMs now =
     \<lparr>lm_maxPerWindow = maxPerWindow, lm_windowMs = windowMs, lm_windowStart = now, lm_count = 0\<rparr>"

definition tryConsume :: "int \<Rightarrow> limiter \<Rightarrow> bool \<times> limiter" where
  "tryConsume current l =
     (let l = (if current - lm_windowStart l \<ge> lm_windowMs l
               then l\<lparr>lm_windowStart := current, lm_count := 0\<rparr> else l)
      in if lm_count l \<ge> lm_maxPerWindow l then (False, l)
         else (True, l\<lparr>lm_count := lm_count l + 1\<rparr>))"

text \<open>The calls at the times \<open>ts\<close>: how many are let through, and the limiter after them.\<close>

fun consume_all :: "int list \<Rightarrow> limiter \<Rightarrow> nat \<times> limiter" where
  "consume_all [] l = (0, l)"
| "consume_all (t # ts) l = (case tryConsume t l of (ok, l') \<Rightarrow> (case consume_all ts l' of (n, l'') \<Rightarrow>
     ((if ok then 1 else 0) + n, l'')))"

lemma consume_all_step [simp]:
  "fst (consume_all (t # ts) l) = (if fst (tryConsume t l) then 1 else 0) + fst (consume_all ts (snd (tryConsume t l)))"
  "snd (consume_all (t # ts) l) = snd (consume_all ts (snd (tryConsume t l)))"
  by (simp_all split: prod.split)

declare consume_all.simps(2) [simp del]

lemma tryConsume_fields [simp]:
  "lm_maxPerWindow (snd (tryConsume t l)) = lm_maxPerWindow l" "lm_windowMs (snd (tryConsume t l)) = lm_windowMs l"
  by (simp_all add: tryConsume_def Let_def)

lemma consume_all_fields [simp]:
  "lm_maxPerWindow (snd (consume_all ts l)) = lm_maxPerWindow l" "lm_windowMs (snd (consume_all ts l)) = lm_windowMs l"
  by (induction ts arbitrary: l) simp_all

lemma within_window:
  assumes "\<And>t. t \<in> set ts \<Longrightarrow> t < lm_windowStart l + lm_windowMs l" "lm_count l \<le> lm_maxPerWindow l"
  shows "fst (consume_all ts l) + lm_count l \<le> lm_maxPerWindow l"
  using assms
proof (induction ts arbitrary: l)
  case (Cons t ts)
  have same: "\<not> t - lm_windowStart l \<ge> lm_windowMs l" using Cons.prems(1) [of t] by simp
  show ?case
  proof (cases "lm_count l \<ge> lm_maxPerWindow l")
    case True
    then have "tryConsume t l = (False, l)" using same by (simp add: tryConsume_def)
    with Cons.IH [of l] Cons.prems show ?thesis by simp
  next
    case False
    then have "tryConsume t l = (True, l\<lparr>lm_count := lm_count l + 1\<rparr>)" using same by (simp add: tryConsume_def)
    with Cons.IH [of "l\<lparr>lm_count := lm_count l + 1\<rparr>"] Cons.prems False show ?thesis by simp
  qed
qed simp

lemma short_span:
  assumes "\<And>t. t \<in> set ts \<Longrightarrow> lo \<le> t \<and> t < lo + lm_windowMs l" "lm_windowStart l \<le> lo" "lm_count l \<le> lm_maxPerWindow l"
  shows "fst (consume_all ts l) + lm_count l \<le> 2 * lm_maxPerWindow l"
  using assms
proof (induction ts arbitrary: l)
  case (Cons t ts)
  show ?case
  proof (cases "t - lm_windowStart l \<ge> lm_windowMs l")
    case True
    let ?l = "l\<lparr>lm_windowStart := t, lm_count := 0\<rparr>"
    have "tryConsume t l = tryConsume t ?l \<or> lm_windowMs l \<le> 0" using True by (auto simp: tryConsume_def)
    moreover have "0 < lm_windowMs l" using Cons.prems(1) [of t] by simp
    ultimately have "consume_all (t # ts) l = consume_all (t # ts) ?l" by (simp add: consume_all.simps(2))
    moreover have "fst (consume_all (t # ts) ?l) + lm_count ?l \<le> lm_maxPerWindow ?l"
    proof (rule within_window)
      fix x assume "x \<in> set (t # ts)"
      then have "x < lo + lm_windowMs l" "lo \<le> t" using Cons.prems(1) [of x] Cons.prems(1) [of t] by simp_all
      then show "x < lm_windowStart ?l + lm_windowMs ?l" by simp
    qed simp
    ultimately show ?thesis using Cons.prems(3) by simp
  next
    case False
    show ?thesis
    proof (cases "lm_count l \<ge> lm_maxPerWindow l")
      case True
      then have "tryConsume t l = (False, l)" using False by (simp add: tryConsume_def)
      with Cons.IH [of l] Cons.prems show ?thesis by simp
    next
      case below: False
      then have "tryConsume t l = (True, l\<lparr>lm_count := lm_count l + 1\<rparr>)" using False by (simp add: tryConsume_def)
      with Cons.IH [of "l\<lparr>lm_count := lm_count l + 1\<rparr>"] Cons.prems below show ?thesis by simp
    qed
  qed
qed simp

lemma consume_state:
  assumes "\<And>t. t \<in> set ts \<Longrightarrow> t \<le> hi" "lm_windowStart l \<le> hi" "lm_count l \<le> lm_maxPerWindow l"
  shows "lm_windowStart (snd (consume_all ts l)) \<le> hi \<and> lm_count (snd (consume_all ts l)) \<le> lm_maxPerWindow l"
  using assms
proof (induction ts arbitrary: l)
  case (Cons t ts)
  have "lm_windowStart (snd (tryConsume t l)) \<le> hi" "lm_count (snd (tryConsume t l)) \<le> lm_maxPerWindow l"
    using Cons.prems by (auto simp: tryConsume_def Let_def)
  with Cons.IH [of "snd (tryConsume t l)"] Cons.prems(1) show ?case by auto
qed simp

text \<open>
  Whatever the history, among calls that all fall within one span of the window's length at most
  twice the window's budget is let through. (The budget itself is not the bound: a span may straddle
  two windows.)
\<close>
theorem limiter_bound:
  assumes "\<And>t. t \<in> set past \<Longrightarrow> t \<le> lo" "start \<le> lo" "\<And>t. t \<in> set ts \<Longrightarrow> lo \<le> t \<and> t < lo + windowMs"
  shows "fst (consume_all ts (snd (consume_all past (newLimiter budget windowMs start)))) \<le> 2 * budget"
proof -
  let ?l = "snd (consume_all past (newLimiter budget windowMs start))"
  have "lm_windowStart ?l \<le> lo" "lm_count ?l \<le> budget"
    using consume_state [of past lo "newLimiter budget windowMs start"] assms(1,2) by (simp_all add: newLimiter_def)
  moreover have "lm_maxPerWindow ?l = budget" "lm_windowMs ?l = windowMs"
    using consume_all_fields [of past "newLimiter budget windowMs start"] by (simp_all add: newLimiter_def)
  ultimately show ?thesis
    using short_span [of ts lo ?l] assms(3) by simp
qed

theorem limiter_bound_witness:
  "fst (consume_all [990, 995, 1000, 1010] (snd (consume_all [] (newLimiter 2 1000 0)))) \<le> 4
   \<and> fst (consume_all [990, 995, 1000, 1010] (newLimiter 2 1000 0)) = 4"
  using limiter_bound [of "[]" 900 0 "[990, 995, 1000, 1010]" 1000 2]
  by (simp add: newLimiter_def tryConsume_def Let_def)

subsection \<open>Socket client\<close>

text \<open>
  The payloads are what \<open>JSON.stringify\<close> sees: a property that is \<open>undefined\<close> is absent. A socket has
  been created (and may be established) or has been ended by \<open>close\<close>; what is written to an ended
  socket is lost. \<open>sc_written\<close> are the messages written, one line each.
\<close>

record local_message =
  lm_type :: string
  lm_payload :: "(string \<times> json) list"

datatype client_socket = Live | Ended

record socket_client =
  sc_socket :: "client_socket option"
  sc_connected :: bool
  sc_queue :: "local_message list"
  sc_reconnectAttempt :: nat
  sc_closed :: bool
  sc_reconnectTimer :: "int option"
  sc_written :: "local_message list"

definition maxQueueSize :: nat where
  "maxQueueSize = 100"

definition new_client :: socket_client where
  "new_client = \<lparr>sc_socket = None, sc_connected = False, sc_queue = [], sc_reconnectAttempt = 0,
     sc_closed = False, sc_reconnectTimer = None, sc_written = []\<rparr>"

definition write_all :: "local_message list \<Rightarrow> socket_client \<Rightarrow> socket_client" where
  "write_all ms c = (if sc_socket c = Some Live then c\<lparr>sc_written := sc_written c @ ms\<rparr> else c)"

definition attemptConnect :: "socket_client \<Rightarrow> socket_client" where
  "attemptConnect c = (if sc_closed c then c else c\<lparr>sc_socket := Some Live\<rparr>)"

definition client_connect :: "socket_client \<Rightarrow> socket_client" where
  "client_connect c = attemptConnect (c\<lparr>sc_closed := False\<rparr>)"

definition flushQueue :: "socket_client \<Rightarrow> socket_client" where
  "flushQueue c = (if sc_socket c = None then c else (write_all (sc_queue c) c)\<lparr>sc_queue := []\<rparr>)"

definition on_connect :: "socket_client \<Rightarrow> socket_client" where
  "on_connect c = flushQueue (c\<lparr>sc_connected := True, sc_reconnectAttempt := 0\<rparr>)"

definition reconnect_delay :: "nat \<Rightarrow> int" where
  "reconnect_delay attempt = min 10000 (500 * 2 ^ attempt)"

definition on_close :: "socket_client \<Rightarrow> socket_client" where
  "on_close c = (let c = c\<lparr>sc_connected := False, sc_socket := None\<rparr> in
     if sc_closed c then c
     else c\<lparr>sc_reconnectAttempt := Suc (sc_reconnectAttempt c),
            sc_reconnectTimer := Some (reconnect_delay (sc_reconnectAttempt c))\<rparr>)"

definition on_reconnect_timer :: "socket_client \<Rightarrow> socket_client" where
  "on_reconnect_timer c = attemptConnect (c\<lparr>sc_reconnectTimer := None\<rparr>)"

fun shift_to :: "nat \<Rightarrow> 'a list \<Rightarrow> 'a list" where
  "shift_to bound [] = []"
| "shift_to bound (x # xs) = (if length (x # xs) > bound then shift_to bound xs else x # xs)"

definition client_send :: "local_message \<Rightarrow> socket_client \<Rightarrow> socket_client" where
  "client_send message c =
     (if sc_connected c \<and> sc_socket c \<noteq> None then write_all [message] c
      else c\<lparr>sc_queue := shift_to maxQueueSize (sc_queue c @ [message])\<rparr>)"

definition client_close :: "socket_client \<Rightarrow> socket_client" where
  "client_close c = c\<lparr>sc_closed := True, sc_reconnectTimer := None, sc_socket := map_option (\<lambda>_. Ended) (sc_socket c)\<rparr>"

lemma shift_to_drop: "shift_to bound xs = drop (length xs - bound) xs"
proof (induction xs)
  case (Cons x xs)
  then show ?case by (cases "length (x # xs) > bound") (simp_all add: Suc_diff_le less_Suc_eq_le)
qed simp

text \<open>
  What can happen to a client that is connected once: messages are sent, the socket opens and closes,
  the reconnect timer fires, the client is closed. The first component collects what was sent.
\<close>

inductive client_step :: "local_message list \<times> socket_client \<Rightarrow> local_message list \<times> socket_client \<Rightarrow> bool" where
  sends: "client_step (sent, c) (sent @ [m], client_send m c)"
| opens: "sc_socket c \<noteq> None \<Longrightarrow> \<not> sc_connected c \<Longrightarrow> client_step (sent, c) (sent, on_connect c)"
| drops: "sc_socket c \<noteq> None \<Longrightarrow> client_step (sent, c) (sent, on_close c)"
| fires: "sc_reconnectTimer c \<noteq> None \<Longrightarrow> client_step (sent, c) (sent, on_reconnect_timer c)"
| closed: "client_step (sent, c) (sent, client_close c)"

definition client_ok :: "local_message list \<times> socket_client \<Rightarrow> bool" where
  "client_ok = (\<lambda>(sent, c). subseq (sc_written c @ sc_queue c) sent
     \<and> length (sc_queue c) \<le> maxQueueSize
     \<and> (sc_connected c \<longrightarrow> sc_socket c \<noteq> None \<and> sc_queue c = [])
     \<and> (sc_socket c = None \<longrightarrow> sc_closed c \<or> (\<exists>d \<in> {500..10000}. sc_reconnectTimer c = Some d))
     \<and> (sc_socket c \<noteq> None \<longrightarrow> sc_reconnectTimer c = None))"

lemma subseq_shift: "subseq (ws @ q) sent \<Longrightarrow> subseq (ws @ drop n (q @ [m])) (sent @ [m])"
proof -
  assume "subseq (ws @ q) sent"
  then have "subseq ((ws @ q) @ [m]) (sent @ [m])" by (intro list_emb_append_mono) auto
  moreover have "subseq (drop n (q @ [m])) (q @ [m])" by (rule suffix_imp_subseq [OF suffix_drop])
  then have "subseq (ws @ drop n (q @ [m])) (ws @ (q @ [m]))" by (rule list_emb_append_mono [OF subseq_order.refl])
  ultimately show ?thesis by (metis append.assoc subseq_order.trans)
qed

lemma reconnect_delay_bounds: "reconnect_delay n \<in> {500..10000}"
proof -
  have "(500::int) \<le> 500 * 2 ^ n" by simp
  then show ?thesis by (simp add: reconnect_delay_def)
qed

lemma client_step_ok: "client_step p p' \<Longrightarrow> client_ok p \<Longrightarrow> client_ok p'"
proof (induction rule: client_step.induct)
  case (sends sent c m)
  then have sent: "subseq (sc_written c @ sc_queue c) sent" by (simp add: client_ok_def)
  show ?case
  proof (cases "sc_connected c \<and> sc_socket c \<noteq> None")
    case True
    with sends have "sc_queue c = []" by (simp add: client_ok_def)
    with sent have "subseq (sc_written c @ [m]) (sent @ [m])" "subseq (sc_written c) (sent @ [m])"
      by (auto intro: list_emb_append_mono list_emb_append2)
    with True sends show ?thesis by (auto simp: client_ok_def client_send_def write_all_def)
  next
    case False
    with sends show ?thesis
      by (auto simp: client_ok_def client_send_def shift_to_drop simp del: drop_append intro: subseq_shift)
  qed
next
  case (opens c sent)
  then have "subseq (sc_written c @ sc_queue c) sent" by (simp add: client_ok_def)
  moreover from this have "subseq (sc_written c) sent"
    by (rule subseq_order.trans [rotated]) (auto intro: prefix_imp_subseq)
  ultimately show ?case using opens
    by (auto simp: client_ok_def on_connect_def flushQueue_def write_all_def)
next
  case (drops c sent)
  then show ?case
    using reconnect_delay_bounds [of "sc_reconnectAttempt c"] by (auto simp: client_ok_def on_close_def Let_def)
next
  case (fires c sent)
  then show ?case by (auto simp: client_ok_def on_reconnect_timer_def attemptConnect_def)
next
  case (closed sent c)
  then show ?case by (auto simp: client_ok_def client_close_def)
qed

text \<open>
  C20: whatever happens to the socket, what the client has written followed by what it still holds is
  a subsequence of what the bot sent (nothing is duplicated, reordered or invented), it never holds more
  than a hundred messages, and unless it was closed it either has a socket or is about to try again
  within ten seconds.
\<close>
theorem client_keeps_order:
  assumes "client_step\<^sup>*\<^sup>* ([], client_connect new_client) (sent, c)"
  shows "subseq (sc_written c @ sc_queue c) sent \<and> length (sc_queue c) \<le> 100
    \<and> (sc_closed c \<or> sc_socket c \<noteq> None \<or> (\<exists>d. sc_reconnectTimer c = Some d \<and> d \<le> 10000))"
proof -
  have "client_ok ([], client_connect new_client)"
    by (simp add: client_ok_def client_connect_def attemptConnect_def new_client_def)
  with assms have "client_ok (sent, c)"
    by (induction rule: rtranclp_induct) (auto intro: client_step_ok)
  then show ?thesis by (auto simp: client_ok_def maxQueueSize_def)
qed

definition sample_message :: local_message where
  "sample_message = \<lparr>lm_type = ''bot.stopped'', lm_payload = [(''botId'', JStr ''b1'')]\<rparr>"

theorem client_keeps_order_witness:
  "subseq (sc_written (on_close (client_send sample_message (client_connect new_client))) @ [sample_message]) [sample_message]"
proof -
  let ?c = "client_connect new_client"
  have "client_step ([], ?c) ([] @ [sample_message], client_send sample_message ?c)" by (rule client_step.sends)
  moreover have "client_step ([sample_message], client_send sample_message ?c) ([sample_message], on_close (client_send sample_message ?c))"
    by (rule client_step.drops) (simp add: client_send_def client_connect_def attemptConnect_def new_client_def)
  ultimately have "client_step\<^sup>*\<^sup>* ([], ?c) ([sample_message], on_close (client_send sample_message ?c))"
    by (simp add: converse_rtranclp_into_rtranclp)
  from client_keeps_order [OF this] show ?thesis
    by (simp add: client_send_def client_connect_def attemptConnect_def new_client_def on_close_def Let_def maxQueueSize_def)
qed

text \<open>
  An outage loses only the oldest messages: of what is sent while there is no connection, exactly
  the last hundred messages are written when the socket opens again, in order, before anything that is
  sent afterwards.
\<close>
theorem outage_keeps_newest:
  assumes "\<not> sc_connected c" "sc_queue c = []" "sc_socket c = Some Live"
  shows "sc_written (fold client_send later (on_connect (fold client_send ms c))) =
    sc_written c @ drop (length ms - 100) ms @ later"
proof -
  have off: "fold client_send ms c = c\<lparr>sc_queue := drop (length ms - 100) ms\<rparr>"
  proof (induction ms rule: rev_induct)
    case Nil
    show ?case using assms(2) by simp
  next
    case (snoc m ms)
    have "drop (length (drop (length ms - 100) ms) + 1 - 100) (drop (length ms - 100) ms @ [m]) = drop (length (ms @ [m]) - 100) (ms @ [m])"
    proof (cases "length ms \<le> 100")
      case False
      then have "Suc (length ms - 100) = length ms - 99" by simp
      with False show ?thesis by simp
    qed simp
    with snoc assms(1) show ?case by (simp add: client_send_def shift_to_drop maxQueueSize_def del: drop_append)
  qed
  have on: "fold client_send later d = d\<lparr>sc_written := sc_written d @ later\<rparr>"
    if "sc_connected d" "sc_socket d = Some Live" for d
    using that by (induction later arbitrary: d) (simp_all add: client_send_def write_all_def)
  from off assms(3) show ?thesis by (simp add: on_connect_def flushQueue_def write_all_def on)
qed

theorem outage_keeps_newest_witness:
  "length (sc_written (on_connect (fold client_send (replicate 150 sample_message) (client_connect new_client)))) = 100"
  using outage_keeps_newest [of "client_connect new_client" "[]" "replicate 150 sample_message"]
  by (simp add: client_connect_def attemptConnect_def new_client_def)

subsection \<open>The runtime of a bot\<close>

text \<open>A JavaScript number that reaches the wire: \<open>JSON.stringify\<close> writes what is not finite as \<open>null\<close>.\<close>

datatype js_number = Finite rat | PosInfinity | NegInfinity | NotANumber

fun num_json :: "js_number \<Rightarrow> json" where
  "num_json (Finite x) = JNum x"
| "num_json _ = JNull"

definition opt_json :: "string \<Rightarrow> json option \<Rightarrow> (string \<times> json) list" where
  "opt_json k v = (case v of None \<Rightarrow> [] | Some j \<Rightarrow> [(k, j)])"

record bot_runtime =
  br_botId :: string
  br_client :: socket_client
  br_logLimiter :: limiter
  br_metricLimiter :: limiter

definition MAX_LOG_MESSAGE_LENGTH :: nat where
  "MAX_LOG_MESSAGE_LENGTH = 2000"

definition LOG_RATE_LIMIT_PER_WINDOW :: nat where
  "LOG_RATE_LIMIT_PER_WINDOW = 20"

definition LOG_RATE_LIMIT_WINDOW_MS :: int where
  "LOG_RATE_LIMIT_WINDOW_MS = 1000"

definition METRIC_RATE_LIMIT_PER_WINDOW :: nat where
  "METRIC_RATE_LIMIT_PER_WINDOW = 50"

definition METRIC_RATE_LIMIT_WINDOW_MS :: int where
  "METRIC_RATE_LIMIT_WINDOW_MS = 1000"

definition createBotFleetRuntime :: "string \<Rightarrow> int \<Rightarrow> bot_runtime" where
  "createBotFleetRuntime botId now = \<lparr>br_botId = botId, br_client = new_client,
     br_logLimiter = newLimiter LOG_RATE_LIMIT_PER_WINDOW LOG_RATE_LIMIT_WINDOW_MS now,
     br_metricLimiter = newLimiter METRIC_RATE_LIMIT_PER_WINDOW METRIC_RATE_LIMIT_WINDOW_MS now\<rparr>"

definition emit :: "string \<Rightarrow> (string \<times> json) list \<Rightarrow> bot_runtime \<Rightarrow> bot_runtime" where
  "emit t payload r = r\<lparr>br_client := client_send \<lparr>lm_type = t, lm_payload = (''botId'', JStr (br_botId r)) # payload\<rparr> (br_client r)\<rparr>"

definition rt_start :: "bot_runtime \<Rightarrow> bot_runtime" where
  "rt_start r = r\<lparr>br_client := client_connect (br_client r)\<rparr>"

definition rt_ready :: "int \<Rightarrow> int \<Rightarrow> string option \<Rightarrow> bot_runtime \<Rightarrow> bot_runtime" where
  "rt_ready guildCount shardCount version = emit ''bot.ready''
     ([(''guildCount'', JNum (of_int guildCount)), (''shardCount'', JNum (of_int shardCount))]
      @ opt_json ''version'' (map_option JStr version))"

definition rt_heartbeat :: "int \<Rightarrow> int \<Rightarrow> js_number option \<Rightarrow> bot_runtime \<Rightarrow> bot_runtime" where
  "rt_heartbeat shardCount guildCount pingMs = emit ''bot.heartbeat''
     ([(''shardCount'', JNum (of_int shardCount)), (''guildCount'', JNum (of_int guildCount))]
      @ opt_json ''pingMs'' (map_option num_json pingMs))"

definition rt_metric :: "int \<Rightarrow> string \<Rightarrow> js_number \<Rightarrow> string option \<Rightarrow> bot_runtime \<Rightarrow> bot_runtime" where
  "rt_metric now metric v unit r = (case tryConsume now (br_metricLimiter r) of
     (ok, l) \<Rightarrow> let r = r\<lparr>br_metricLimiter := l\<rparr> in
       if \<not> ok then r
       else emit ''bot.metrics'' ([(''metric'', JStr metric), (''value'', num_json v)] @ opt_json ''unit'' (map_option JStr unit)) r)"

definition rt_log :: "int \<Rightarrow> string \<Rightarrow> string \<Rightarrow> bot_runtime \<Rightarrow> bot_runtime" where
  "rt_log now level message r = (case tryConsume now (br_logLimiter r) of
     (ok, l) \<Rightarrow> let r = r\<lparr>br_logLimiter := l\<rparr> in
       if \<not> ok then r
       else let truncated = (if length message > MAX_LOG_MESSAGE_LENGTH then take MAX_LOG_MESSAGE_LENGTH message else message)
         in emit ''bot.log'' [(''level'', JStr level), (''message'', JStr truncated)] r)"

definition rt_shardStatus :: "int \<Rightarrow> string \<Rightarrow> int \<Rightarrow> js_number option \<Rightarrow> bot_runtime \<Rightarrow> bot_runtime" where
  "rt_shardStatus shardId status guildCount pingMs = emit ''shard.status''
     ([(''shardId'', JNum (of_int shardId)), (''status'', JStr status), (''guildCount'', JNum (of_int guildCount))]
      @ opt_json ''pingMs'' (map_option num_json pingMs))"

definition rt_crashed :: "string \<Rightarrow> bot_runtime \<Rightarrow> bot_runtime" where
  "rt_crashed safeError = emit ''bot.crashed'' [(''safeError'', JStr safeError)]"

definition rt_gracefulShutdown :: "bot_runtime \<Rightarrow> bot_runtime" where
  "rt_gracefulShutdown r = (emit ''bot.stopped'' [] r)\<lparr>br_client := client_close (br_client (emit ''bot.stopped'' [] r))\<rparr>"

text \<open>The line of a message on the socket, as the agent's \<open>JSON.parse\<close> reads it back.\<close>

definition line_value :: "local_message \<Rightarrow> json" where
  "line_value m = JObj [(''type'', JStr (lm_type m)), (''payload'', JObj (lm_payload m))]"

definition valid_ping :: "js_number option \<Rightarrow> bool" where
  "valid_ping p = (case p of None \<Rightarrow> True | Some (Finite x) \<Rightarrow> num_ok x IsInt \<and> 0 \<le> x | _ \<Rightarrow> False)"

definition count_ok :: "int \<Rightarrow> bool" where
  "count_ok n \<longleftrightarrow> 0 \<le> n \<and> n < 2 ^ 53"

lemma handle_local_message:
  assumes "zod safeParse F" "conforms_fields F envelopeFields (create_message u ts (lm_type m) (JObj (lm_payload m))
      \<lparr>ef_senderId = ''local-bot-process'', ef_correlationId = None\<rparr>)"
    and "parseJson line = Some (line_value m)" "lm_type m \<in> set ALLOWED_LOCAL_TYPES"
    and "map_of agentToControlPlaneCatalog (lm_type m) = Some fs"
  shows "handleLine parseJson safeParse u ts line =
    (if conforms_fields F fs (lm_payload m) then Forward (lm_type m) (JObj (lm_payload m)) else Malformed)"
proof -
  let ?env = "create_message u ts (lm_type m) (JObj (lm_payload m)) \<lparr>ef_senderId = ''local-bot-process'', ef_correlationId = None\<rparr>"
  have env: "candidate_envelope u ts (lm_type m) (Some (JObj (lm_payload m))) = JObj ?env"
    by (simp add: candidate_envelope_def create_message_def)
  have "(\<exists>p. parseAgentToControlPlaneMessage safeParse (JObj ?env) = ParseOk p) \<longleftrightarrow> conforms_fields F fs (lm_payload m)"
    using zod.parse_message_answer [OF assms(1), of agentToControlPlaneCatalog "JObj ?env"] assms(2,5)
    by (auto simp: parse_answer_def created_fields num_prop_def str_prop_def parseAgentToControlPlaneMessage_def split: if_splits)
  then show ?thesis using assms(3,4) env
    by (auto simp: handleLine_def line_value_def split: parse_result.split)
qed

text \<open>The agent forwards the line of this message (which its \<open>JSON.parse\<close> reads back as it was written).\<close>

definition is_forwarded :: "platform \<Rightarrow> nat \<Rightarrow> int \<Rightarrow> local_message \<Rightarrow> bool" where
  "is_forwarded pf n now m \<longleftrightarrow> handleLine (\<lambda>_. Some (line_value m)) (pf_safeParse pf) (pf_randomUUID pf n)
     (pf_isoString pf now) [] = Forward (lm_type m) (JObj (lm_payload m))"

lemma is_forwarded_iff:
  assumes "platform_formats pf F" "lm_type m \<in> set ALLOWED_LOCAL_TYPES" "map_of agentToControlPlaneCatalog (lm_type m) = Some fs"
  shows "is_forwarded pf n now m \<longleftrightarrow> conforms_fields F fs (lm_payload m)"
proof -
  have "lm_type m \<noteq> ''''" using assms(2) by (auto simp: ALLOWED_LOCAL_TYPES_def)
  with assms(1) have "zod (pf_safeParse pf) F" "conforms_fields F envelopeFields (create_message (pf_randomUUID pf n)
      (pf_isoString pf now) (lm_type m) (JObj (lm_payload m)) \<lparr>ef_senderId = ''local-bot-process'', ef_correlationId = None\<rparr>)"
    by (auto simp: platform_formats_def intro!: conforms_created)
  from handle_local_message [OF this _ assms(2,3), of "\<lambda>_. Some (line_value m)" "[]"]
  show ?thesis by (simp add: is_forwarded_def)
qed

definition writes :: "bot_runtime \<Rightarrow> bot_runtime \<Rightarrow> local_message \<Rightarrow> bool" where
  "writes r r' m \<longleftrightarrow> sc_written (br_client r') = sc_written (br_client r) @ [m]"

lemma emit_writes:
  assumes "sc_connected (br_client r)" "sc_socket (br_client r) = Some Live"
  shows "writes r (emit t payload r) m \<longleftrightarrow> m = \<lparr>lm_type = t, lm_payload = (''botId'', JStr (br_botId r)) # payload\<rparr>"
  using assms by (auto simp: writes_def emit_def client_send_def write_all_def)

lemma sdk_catalog:
  "map_of agentToControlPlaneCatalog ''bot.log'' = Some botLogPayload"
  "map_of agentToControlPlaneCatalog ''bot.crashed'' = Some botCrashedPayload"
  "map_of agentToControlPlaneCatalog ''bot.heartbeat'' = Some botHeartbeatPayload"
  "map_of agentToControlPlaneCatalog ''shard.status'' = Some shardStatusPayload"
  by (simp_all add: agentToControlPlaneCatalog_def)

lemma sdk_allowed:
  "{''bot.log'', ''bot.crashed'', ''bot.heartbeat'', ''shard.status''} \<subseteq> set ALLOWED_LOCAL_TYPES"
  by (simp add: ALLOWED_LOCAL_TYPES_def)

lemma ping_conforms:
  "conforms F (SOpt (SNum [IsInt, NonNegative])) (map_of (opt_json ''pingMs'' (map_option num_json p)) ''pingMs'') \<longleftrightarrow> valid_ping p"
  by (auto simp: opt_json_def valid_ping_def split: option.split js_number.split)

lemma count_conforms: "count_ok n \<Longrightarrow> conforms F (SNum [IsInt, NonNegative]) (Some (JNum (of_int n)))"
  by (simp add: count_ok_def)

lemma log_forwarded:
  assumes "platform_formats pf F" "br_botId r \<noteq> ''''" "sc_connected (br_client r)" "sc_socket (br_client r) = Some Live"
    and "level \<in> {''debug'', ''info'', ''warn'', ''error''}" "message \<noteq> ''''" "fst (tryConsume now (br_logLimiter r))"
  shows "\<exists>m. writes r (rt_log now level message r) m \<and> is_forwarded pf n t m"
proof -
  obtain l where "tryConsume now (br_logLimiter r) = (True, l)" using assms(7) by (cases "tryConsume now (br_logLimiter r)") auto
  then have "writes r (rt_log now level message r) m \<longleftrightarrow> m = \<lparr>lm_type = ''bot.log'', lm_payload =
      [(''botId'', JStr (br_botId r)), (''level'', JStr level), (''message'', JStr (take 2000 message))]\<rparr>" for m
    using emit_writes [of "r\<lparr>br_logLimiter := l\<rparr>" "''bot.log''"] assms(3,4)
    by (auto simp: rt_log_def Let_def writes_def MAX_LOG_MESSAGE_LENGTH_def)
  moreover have "conforms_fields F botLogPayload
      [(''botId'', JStr (br_botId r)), (''level'', JStr level), (''message'', JStr (take 2000 message))]"
    using assms(2,5,6) by (simp add: botLogPayload_def logLevelSchema_def Suc_le_eq)
  ultimately show ?thesis using sdk_allowed by (simp add: is_forwarded_iff [OF assms(1)] sdk_catalog)
qed

lemma heartbeat_forwarded:
  assumes "platform_formats pf F" "br_botId r \<noteq> ''''" "sc_connected (br_client r)" "sc_socket (br_client r) = Some Live"
    and "count_ok shards" "count_ok guilds"
  shows "\<exists>m. writes r (rt_heartbeat shards guilds ping r) m \<and> (is_forwarded pf n t m \<longleftrightarrow> valid_ping ping)"
proof -
  have "conforms_fields F botHeartbeatPayload ((''botId'', JStr (br_botId r)) #
      [(''shardCount'', JNum (of_int shards)), (''guildCount'', JNum (of_int guilds))] @ opt_json ''pingMs'' (map_option num_json ping))
      \<longleftrightarrow> valid_ping ping"
    using assms(2) count_conforms [OF assms(5)] count_conforms [OF assms(6)] ping_conforms [of F ping]
    by (simp add: botHeartbeatPayload_def Suc_le_eq del: conforms.simps(2,12))
  then show ?thesis
    using sdk_allowed by (simp add: rt_heartbeat_def emit_writes [OF assms(3,4)] is_forwarded_iff [OF assms(1)] sdk_catalog)
qed

lemma shard_forwarded:
  assumes "platform_formats pf F" "br_botId r \<noteq> ''''" "sc_connected (br_client r)" "sc_socket (br_client r) = Some Live"
    and "count_ok shard" "count_ok guilds" "status \<in> {''connected'', ''disconnected''}"
  shows "\<exists>m. writes r (rt_shardStatus shard status guilds ping r) m \<and> (is_forwarded pf n t m \<longleftrightarrow> valid_ping ping)"
proof -
  have "conforms_fields F shardStatusPayload ((''botId'', JStr (br_botId r)) #
      [(''shardId'', JNum (of_int shard)), (''status'', JStr status), (''guildCount'', JNum (of_int guilds))]
      @ opt_json ''pingMs'' (map_option num_json ping)) \<longleftrightarrow> valid_ping ping"
    using assms(2,7) count_conforms [OF assms(5)] count_conforms [OF assms(6)] ping_conforms [of F ping]
    by (auto simp add: shardStatusPayload_def shardRuntimeStatusSchema_def Suc_le_eq simp del: conforms.simps(2,12))
  then show ?thesis
    using sdk_allowed by (simp add: rt_shardStatus_def emit_writes [OF assms(3,4)] is_forwarded_iff [OF assms(1)] sdk_catalog)
qed

lemma crash_forwarded:
  assumes "platform_formats pf F" "br_botId r \<noteq> ''''" "sc_connected (br_client r)" "sc_socket (br_client r) = Some Live"
  shows "\<exists>m. writes r (rt_crashed safeError r) m \<and> (is_forwarded pf n t m \<longleftrightarrow> length safeError \<le> 2000)"
proof -
  have "conforms_fields F botCrashedPayload [(''botId'', JStr (br_botId r)), (''safeError'', JStr safeError)] \<longleftrightarrow> length safeError \<le> 2000"
    using assms(2) by (simp add: botCrashedPayload_def Suc_le_eq)
  then show ?thesis
    using sdk_allowed by (simp add: rt_crashed_def emit_writes [OF assms(3,4)] is_forwarded_iff [OF assms(1)] sdk_catalog)
qed

text \<open>
  What a connected bot reports reaches the control plane's parser. A log line that the rate
  limiter lets through is written and forwarded by the agent however long it is (the runtime shortens
  it); a heartbeat or a shard status exactly when its ping is a non-negative integer or absent; a crash
  report exactly when its text has at most 2000 characters, for \<open>crashed\<close> does not shorten it.
\<close>
theorem reports_are_forwarded:
  assumes "platform_formats pf F" "br_botId r \<noteq> ''''" "sc_connected (br_client r)" "sc_socket (br_client r) = Some Live"
    and "level \<in> {''debug'', ''info'', ''warn'', ''error''}" "message \<noteq> ''''"
    and "fst (tryConsume now (br_logLimiter r))"
    and "count_ok shards" "count_ok guilds" "count_ok shard" "status \<in> {''connected'', ''disconnected''}"
  shows "(\<exists>m. writes r (rt_log now level message r) m \<and> is_forwarded pf n t m)
    \<and> (\<exists>m. writes r (rt_heartbeat shards guilds ping r) m \<and> (is_forwarded pf n t m \<longleftrightarrow> valid_ping ping))
    \<and> (\<exists>m. writes r (rt_shardStatus shard status guilds ping r) m \<and> (is_forwarded pf n t m \<longleftrightarrow> valid_ping ping))
    \<and> (\<exists>m. writes r (rt_crashed safeError r) m \<and> (is_forwarded pf n t m \<longleftrightarrow> length safeError \<le> 2000))"
  using log_forwarded [OF assms(1-7)] heartbeat_forwarded [OF assms(1-4,8,9)]
    shard_forwarded [OF assms(1-4,10,9,11)] crash_forwarded [OF assms(1-4)]
  by blast

definition sample_runtime :: bot_runtime where
  "sample_runtime = (createBotFleetRuntime ''b1'' 0)\<lparr>br_client := on_connect (client_connect new_client)\<rparr>"

theorem reports_are_forwarded_witness:
  "(\<exists>m. writes sample_runtime (rt_log 5 ''info'' ''x'' sample_runtime) m \<and> is_forwarded sample_platform 0 0 m)
   \<and> (\<exists>m. writes sample_runtime (rt_heartbeat 1 1 (Some (Finite (85 / 2))) sample_runtime) m \<and> \<not> is_forwarded sample_platform 0 0 m)"
proof -
  have "sc_connected (br_client sample_runtime)" "sc_socket (br_client sample_runtime) = Some Live" "br_botId sample_runtime = ''b1''"
      "fst (tryConsume 5 (br_logLimiter sample_runtime))"
    by (simp_all add: sample_runtime_def createBotFleetRuntime_def on_connect_def flushQueue_def write_all_def
        client_connect_def attemptConnect_def new_client_def tryConsume_def newLimiter_def LOG_RATE_LIMIT_PER_WINDOW_def
        LOG_RATE_LIMIT_WINDOW_MS_def)
  moreover have "\<not> valid_ping (Some (Finite (85 / 2)))"
  proof -
    have "\<lfloor>85 / 2 :: rat\<rfloor> = 42" by (simp add: floor_eq_iff)
    then show ?thesis by (simp add: valid_ping_def)
  qed
  ultimately show ?thesis
    using reports_are_forwarded [OF sample_platform_formats, of sample_runtime "''info''" "''x''" 5 1 1 0 "''connected''" 0 0
        "Some (Finite (85 / 2))" "''x''"]
    by (auto simp: count_ok_def)
qed

end
