(* ===== verification/Bot_Adapters.thy ===== *)
theory Bot_Adapters
  imports Runtime_Sdk
begin

text \<open>
  \<open>packages/adapter-discordjs/src/index.ts\<close> and \<open>packages/adapter-eris/src/index.ts\<close>: the listeners
  that turn a Discord client's events into runtime calls. The client is outside the repository: what
  the listeners read of it (guilds with the shard they are on, shards with their ping, the client's own
  average ping, the library's version) is a snapshot given with every event. An adapter's state is
  whether its listeners are attached, whether the one-time ready listener of discord.js is still
  waiting, how many heartbeat intervals run, and whether \<open>heartbeatTimer\<close> names one (the last started).
\<close>

record adapter =
  ad_attached :: bool
  ad_waiting :: bool
  ad_intervals :: nat
  ad_heartbeatTimer :: bool

definition attach :: adapter where
  "attach = \<lparr>ad_attached = True, ad_waiting = True, ad_intervals = 0, ad_heartbeatTimer = False\<rparr>"

definition detach :: "adapter \<Rightarrow> adapter" where
  "detach a = \<lparr>ad_attached = False, ad_waiting = False,
     ad_intervals = (if ad_heartbeatTimer a then ad_intervals a - 1 else ad_intervals a), ad_heartbeatTimer = ad_heartbeatTimer a\<rparr>"

definition start_interval :: "adapter \<Rightarrow> adapter" where
  "start_interval a = a\<lparr>ad_intervals := Suc (ad_intervals a), ad_heartbeatTimer := True\<rparr>"

type_synonym step = "adapter \<times> bot_runtime"

fun non_negative :: "js_number \<Rightarrow> bool" where
  "non_negative (Finite x) = (0 \<le> x)"
| "non_negative PosInfinity = True"
| "non_negative NegInfinity = False"
| "non_negative NotANumber = False"

definition when_valid :: "js_number option \<Rightarrow> js_number option" where
  "when_valid p = (case p of None \<Rightarrow> None | Some x \<Rightarrow> if non_negative x then Some x else None)"

subsection \<open>discord.js\<close>

record discord_client =
  dc_guilds :: "int list"
  dc_shards :: "(int \<times> js_number) list"
  dc_ping :: js_number
  dc_version :: string

text \<open>\<open>dc_guilds\<close> holds the shard of each guild.\<close>

definition shard_guilds :: "int \<Rightarrow> int list \<Rightarrow> int" where
  "shard_guilds shardId guilds = int (length (filter (\<lambda>s. s = shardId) guilds))"

definition dj_ready :: "discord_client \<Rightarrow> step \<Rightarrow> step" where
  "dj_ready client = (\<lambda>(a, r). if \<not> ad_waiting a then (a, r)
     else (start_interval (a\<lparr>ad_waiting := False\<rparr>),
           rt_ready (int (length (dc_guilds client))) (int (length (dc_shards client))) (Some (dc_version client)) r))"

definition dj_heartbeat :: "discord_client \<Rightarrow> step \<Rightarrow> step" where
  "dj_heartbeat client = (\<lambda>(a, r). if ad_intervals a = 0 then (a, r)
     else (a, rt_heartbeat (int (length (dc_shards client))) (int (length (dc_guilds client)))
                (when_valid (Some (dc_ping client))) r))"

definition dj_shardReconnecting :: "int \<Rightarrow> int \<Rightarrow> step \<Rightarrow> step" where
  "dj_shardReconnecting now shardId = (\<lambda>(a, r). if \<not> ad_attached a then (a, r)
     else (a, rt_log now ''warn'' (''Shard '' @ show_int shardId @ '' reconnecting'') r))"

definition dj_shardResume :: "discord_client \<Rightarrow> int \<Rightarrow> step \<Rightarrow> step" where
  "dj_shardResume client shardId = (\<lambda>(a, r). if \<not> ad_attached a then (a, r)
     else (a, rt_shardStatus shardId ''connected'' (shard_guilds shardId (dc_guilds client))
                (when_valid (map_of (dc_shards client) shardId)) r))"

definition dj_shardDisconnect :: "discord_client \<Rightarrow> int \<Rightarrow> step \<Rightarrow> step" where
  "dj_shardDisconnect client shardId = (\<lambda>(a, r). if \<not> ad_attached a then (a, r)
     else (a, rt_shardStatus shardId ''disconnected'' (shard_guilds shardId (dc_guilds client)) None r))"

definition dj_invalidated :: "int \<Rightarrow> step \<Rightarrow> step" where
  "dj_invalidated now = (\<lambda>(a, r). if \<not> ad_attached a then (a, r)
     else (a, rt_log now ''error'' ''Discord session invalidated'' r))"

definition dj_clientError :: "int \<Rightarrow> string \<Rightarrow> step \<Rightarrow> step" where
  "dj_clientError now message = (\<lambda>(a, r). if \<not> ad_attached a then (a, r)
     else (a, rt_log now ''error'' (''discord.js client error: '' @ message) r))"

subsection \<open>Eris\<close>

record eris_client =
  er_guilds :: "int list"
  er_shards :: "(int \<times> js_number) list"
  er_version :: string

fun finite_latency :: "js_number \<Rightarrow> rat option" where
  "finite_latency (Finite x) = (if 0 \<le> x then Some x else None)"
| "finite_latency _ = None"

definition averageShardLatency :: "eris_client \<Rightarrow> int option" where
  "averageShardLatency client =
     (let latencies = List.map_filter finite_latency (map snd (er_shards client)) in
      if latencies = [] then None
      else Some (math_round (dbl (foldl (\<lambda>sum l. dbl (sum + l)) 0 latencies / of_nat (length latencies)))))"

definition er_ready :: "eris_client \<Rightarrow> step \<Rightarrow> step" where
  "er_ready client = (\<lambda>(a, r). if \<not> ad_attached a then (a, r)
     else (start_interval a,
           rt_ready (int (length (er_guilds client))) (int (length (er_shards client))) (Some (er_version client)) r))"

definition er_heartbeat :: "eris_client \<Rightarrow> step \<Rightarrow> step" where
  "er_heartbeat client = (\<lambda>(a, r). if ad_intervals a = 0 then (a, r)
     else (a, rt_heartbeat (int (length (er_shards client))) (int (length (er_guilds client)))
                (map_option (\<lambda>n. Finite (of_int n)) (averageShardLatency client)) r))"

text \<open>The listeners of \<open>shardReady\<close> and \<open>shardResume\<close> are the same.\<close>

definition er_shardConnected :: "eris_client \<Rightarrow> int \<Rightarrow> step \<Rightarrow> step" where
  "er_shardConnected client shardId = (\<lambda>(a, r). if \<not> ad_attached a then (a, r)
     else (a, rt_shardStatus shardId ''connected'' (shard_guilds shardId (er_guilds client)) (map_of (er_shards client) shardId) r))"

definition er_shardDisconnect :: "eris_client \<Rightarrow> int \<Rightarrow> string option \<Rightarrow> int \<Rightarrow> step \<Rightarrow> step" where
  "er_shardDisconnect client now err shardId = (\<lambda>(a, r). if \<not> ad_attached a then (a, r)
     else (a, rt_shardStatus shardId ''disconnected'' (shard_guilds shardId (er_guilds client)) None
       (case err of None \<Rightarrow> r
        | Some message \<Rightarrow> rt_log now ''warn'' (''Shard '' @ show_int shardId @ '' disconnected: '' @ message) r)))"

definition er_warn :: "int \<Rightarrow> string \<Rightarrow> step \<Rightarrow> step" where
  "er_warn now message = (\<lambda>(a, r). if \<not> ad_attached a then (a, r) else (a, rt_log now ''warn'' message r))"

definition er_error :: "int \<Rightarrow> string \<Rightarrow> step \<Rightarrow> step" where
  "er_error now message = (\<lambda>(a, r). if \<not> ad_attached a then (a, r)
     else (a, rt_log now ''error'' (''Eris client error: '' @ message) r))"

subsection \<open>Lemmas\<close>

lemma sum_latencies_nonneg:
  "0 \<le> acc \<Longrightarrow> \<forall>l \<in> set ls. 0 \<le> l \<Longrightarrow> 0 \<le> foldl (\<lambda>sum l. dbl (sum + l)) acc ls"
proof (induction ls arbitrary: acc)
  case (Cons l ls)
  have "dbl 0 \<le> dbl (acc + l)" using Cons.prems by (intro dbl_mono) simp
  with Cons show ?case by simp
qed simp

lemma averageShardLatency_nonneg: "averageShardLatency client = Some n \<Longrightarrow> 0 \<le> n"
proof -
  let ?ls = "List.map_filter finite_latency (map snd (er_shards client))"
  assume "averageShardLatency client = Some n"
  then have n: "n = math_round (dbl (foldl (\<lambda>sum l. dbl (sum + l)) 0 ?ls / of_nat (length ?ls)))"
    by (auto simp: averageShardLatency_def Let_def split: if_splits)
  have "\<forall>l \<in> set ?ls. 0 \<le> l"
    by (auto simp: List.map_filter_def elim!: finite_latency.elims split: if_splits)
  then have "0 \<le> foldl (\<lambda>sum l. dbl (sum + l)) 0 ?ls / of_nat (length ?ls)"
    by (intro divide_nonneg_nonneg sum_latencies_nonneg) simp_all
  from dbl_mono [OF this] have "math_round 0 \<le> n" unfolding n by (intro math_round_mono) simp
  then show ?thesis using math_round_int [of 0] by simp
qed

subsection \<open>Detaching\<close>

datatype dj_event =
  DjReady discord_client
| DjHeartbeat discord_client
| DjShardReconnecting int
| DjShardResume discord_client int
| DjShardDisconnect discord_client int
| DjInvalidated
| DjError string

fun dj_handle :: "int \<Rightarrow> dj_event \<Rightarrow> step \<Rightarrow> step" where
  "dj_handle now (DjReady client) = dj_ready client"
| "dj_handle now (DjHeartbeat client) = dj_heartbeat client"
| "dj_handle now (DjShardReconnecting i) = dj_shardReconnecting now i"
| "dj_handle now (DjShardResume client i) = dj_shardResume client i"
| "dj_handle now (DjShardDisconnect client i) = dj_shardDisconnect client i"
| "dj_handle now DjInvalidated = dj_invalidated now"
| "dj_handle now (DjError message) = dj_clientError now message"

definition dj_run :: "(int \<times> dj_event) list \<Rightarrow> step \<Rightarrow> step" where
  "dj_run = fold (\<lambda>(now, e). dj_handle now e)"

lemmas dj_defs = dj_ready_def dj_heartbeat_def dj_shardReconnecting_def dj_shardResume_def
  dj_shardDisconnect_def dj_invalidated_def dj_clientError_def

definition dj_ok :: "adapter \<Rightarrow> bool" where
  "dj_ok a \<longleftrightarrow> ad_attached a \<and> ad_intervals a = (if ad_heartbeatTimer a then 1 else 0) \<and> ad_waiting a = (\<not> ad_heartbeatTimer a)"

lemma dj_handle_ok: "dj_ok (fst s) \<Longrightarrow> dj_ok (fst (dj_handle now e s))"
  by (cases s; cases e) (auto simp: dj_ok_def dj_defs start_interval_def)

lemma dj_run_ok: "dj_ok (fst s) \<Longrightarrow> dj_ok (fst (dj_run es s))"
  unfolding dj_run_def by (induction es arbitrary: s) (simp_all add: dj_handle_ok split_def)

lemma silent_handle:
  assumes "\<not> ad_attached a" "\<not> ad_waiting a" "ad_intervals a = 0"
  shows "dj_handle now e (a, r) = (a, r)"
  using assms by (cases e) (simp_all add: dj_defs)

text \<open>
  Detaching the discord.js adapter is complete: whatever happened before, after \<open>detach\<close> no event
  of the client and no heartbeat interval makes the runtime report anything.
\<close>
theorem detached_adapter_is_silent:
  "snd (dj_run later (detach (fst (dj_run es (attach, r))), r')) = r'"
proof -
  have "dj_ok (fst (dj_run es (attach, r)))" by (rule dj_run_ok) (simp add: dj_ok_def attach_def)
  then have off: "\<not> ad_attached a" "\<not> ad_waiting a" "ad_intervals a = 0" if "a = detach (fst (dj_run es (attach, r)))" for a
    using that by (auto simp: dj_ok_def detach_def)
  have "dj_run later (a, r') = (a, r')" if "\<not> ad_attached a" "\<not> ad_waiting a" "ad_intervals a = 0" for a
    unfolding dj_run_def by (induction later) (auto simp: silent_handle [OF that])
  from this [OF off] show ?thesis by simp
qed

text \<open>
  The Eris adapter starts a new interval on every ready event, and \<open>detach\<close> stops only the last:
  when the client becomes ready again, the runtime keeps sending heartbeats after it was detached.
\<close>
theorem eris_detach_leaks_interval:
  assumes "sc_connected (br_client r)" "sc_socket (br_client r) = Some Live"
  shows "let (a, r1) = er_ready client (er_ready client (attach, r)) in
    \<exists>m. writes r1 (snd (er_heartbeat client (detach a, r1))) m \<and> lm_type m = ''bot.heartbeat''"
proof -
  let ?r1 = "snd (er_ready client (er_ready client (attach, r)))"
  have "sc_connected (br_client ?r1) \<and> sc_socket (br_client ?r1) = Some Live"
    using assms by (simp add: er_ready_def attach_def start_interval_def rt_ready_def emit_def client_send_def write_all_def)
  then show ?thesis
    by (auto simp: er_ready_def attach_def start_interval_def detach_def er_heartbeat_def rt_heartbeat_def emit_writes)
qed

theorem eris_detach_leaks_interval_witness:
  "let client = \<lparr>er_guilds = [0], er_shards = [(0, Finite 40)], er_version = ''0.17''\<rparr>;
       (a, r1) = er_ready client (er_ready client (attach, sample_runtime))
   in \<exists>m. writes r1 (snd (er_heartbeat client (detach a, r1))) m"
  using eris_detach_leaks_interval [of sample_runtime "\<lparr>er_guilds = [0], er_shards = [(0, Finite 40)], er_version = ''0.17''\<rparr>"]
  by (auto simp: Let_def sample_runtime_def createBotFleetRuntime_def on_connect_def flushQueue_def write_all_def
      client_connect_def attemptConnect_def new_client_def split: prod.splits)

subsection \<open>Pings\<close>

lemma when_valid_iff: "valid_ping (when_valid (Some p)) \<longleftrightarrow>
    (case p of Finite x \<Rightarrow> 0 \<le> x \<longrightarrow> num_ok x IsInt | PosInfinity \<Rightarrow> False | _ \<Rightarrow> True)"
  by (cases p) (auto simp: when_valid_def valid_ping_def)

lemma eris_ping: "averageShardLatency client = Some n \<Longrightarrow> n < 2 ^ 53 \<Longrightarrow> valid_ping (Some (Finite (of_int n)))"
  using averageShardLatency_nonneg [of client n] by (simp add: valid_ping_def)

text \<open>
  Which adapter heartbeats the control plane accepts. Eris's average is a rounded, non-negative
  integer, so its heartbeats are forwarded; discord.js's average ping is sent as it is, so a heartbeat
  is forwarded exactly when that average is not a fraction (and not infinite): with two shards at 42 and
  43 ms every heartbeat of the bot is dropped. A shard that Eris reports with an infinite latency,
  as it does until the first heartbeat of the shard, loses its status report.
\<close>
theorem adapter_heartbeats_accepted:
  assumes "platform_formats pf F" "br_botId r \<noteq> ''''" "sc_connected (br_client r)" "sc_socket (br_client r) = Some Live"
    and "count_ok (int (length (er_shards e)))" "count_ok (int (length (er_guilds e)))"
    and "\<And>n. averageShardLatency e = Some n \<Longrightarrow> n < 2 ^ 53"
    and "count_ok (int (length (dc_shards d)))" "count_ok (int (length (dc_guilds d)))"
    and "count_ok shard" "map_of (er_shards e) shard = Some PosInfinity" "0 < ad_intervals a" "ad_attached a"
  shows "(\<exists>m. writes r (snd (er_heartbeat e (a, r))) m \<and> is_forwarded pf n t m)
    \<and> (\<exists>m. writes r (snd (dj_heartbeat d (a, r))) m \<and> (is_forwarded pf n t m \<longleftrightarrow>
        (case dc_ping d of Finite x \<Rightarrow> 0 \<le> x \<longrightarrow> num_ok x IsInt | PosInfinity \<Rightarrow> False | _ \<Rightarrow> True)))
    \<and> (\<exists>m. writes r (snd (er_shardConnected e shard (a, r))) m \<and> \<not> is_forwarded pf n t m)"
proof -
  have "valid_ping (map_option (\<lambda>n. Finite (of_int n)) (averageShardLatency e))"
    using eris_ping [of e] assms(7) by (cases "averageShardLatency e") (simp_all add: valid_ping_def)
  moreover have "\<not> valid_ping (Some PosInfinity)" by (simp add: valid_ping_def)
  moreover have "shard_guilds shard (er_guilds e) \<le> int (length (er_guilds e))" "0 \<le> shard_guilds shard (er_guilds e)"
    by (simp_all add: shard_guilds_def)
  then have "count_ok (shard_guilds shard (er_guilds e))" using assms(6) by (simp add: count_ok_def)
  ultimately show ?thesis
    using heartbeat_forwarded [OF assms(1-6), of "map_option (\<lambda>n. Finite (of_int n)) (averageShardLatency e)" n t]
      heartbeat_forwarded [OF assms(1-4,8,9), of "when_valid (Some (dc_ping d))" n t]
      shard_forwarded [OF assms(1-4,10), of "shard_guilds shard (er_guilds e)" "''connected''" "Some PosInfinity" n t]
      assms(11-13)
    by (simp add: er_heartbeat_def dj_heartbeat_def er_shardConnected_def when_valid_iff)
qed

end
