(* ===== verification/Rebalance.thy ===== *)
theory Rebalance
  imports Stable_Sort Doubles "HOL-Library.Sublist"
begin

text \<open>
  \<open>lib/rebalance.ts\<close>: the rebalancer of the panel. A pure function from the workers and bots of the
  fleet to a list of recommended moves. The table of loads is a function on worker ids. Rows have a
  positive \<open>maxBots\<close>; the quotient of two integers is rounded to a double as in the source, and the
  sign of a difference of doubles is that of the exact difference.
\<close>

datatype worker_status = WkOnline | WkOffline | WkOverloaded | WkFailed | WkDraining

fun worker_status_name :: "worker_status \<Rightarrow> string" where
  "worker_status_name WkOnline = ''online''"
| "worker_status_name WkOffline = ''offline''"
| "worker_status_name WkOverloaded = ''overloaded''"
| "worker_status_name WkFailed = ''failed''"
| "worker_status_name WkDraining = ''draining''"

record rebalance_worker =
  rw_id :: string
  rw_name :: string
  rw_maxBots :: int
  rw_currentBots :: int
  rw_status :: worker_status

record rebalance_bot =
  rb_id :: string
  rb_name :: string
  rb_workerGroupId :: "string option"

datatype recommendation_type = Move | Assign

record recommendation =
  rm_type :: recommendation_type
  rm_botId :: string
  rm_botName :: string
  rm_fromWorkerId :: "string option"
  rm_fromWorkerName :: "string option"
  rm_toWorkerId :: string
  rm_toWorkerName :: string
  rm_reason :: string

type_synonym loads = "string \<Rightarrow> int option"

definition load_of :: "loads \<Rightarrow> string \<Rightarrow> int" where
  "load_of load w = (case load w of None \<Rightarrow> 0 | Some n \<Rightarrow> n)"

definition initial_load :: "rebalance_worker list \<Rightarrow> loads" where
  "initial_load workers = fold (\<lambda>w load. load(rw_id w \<mapsto> rw_currentBots w)) workers (\<lambda>_. None)"

definition evacuated :: "rebalance_worker \<Rightarrow> bool" where
  "evacuated w \<longleftrightarrow> rw_status w = WkDraining \<or> rw_status w = WkFailed"

definition effectiveMax :: "rebalance_worker \<Rightarrow> int" where
  "effectiveMax w = (if evacuated w then 0 else rw_maxBots w)"

definition fill_le :: "loads \<Rightarrow> rebalance_worker \<Rightarrow> rebalance_worker \<Rightarrow> bool" where
  "fill_le load a b \<longleftrightarrow> dbl (of_int (load_of load (rw_id a)) / of_int (rw_maxBots a))
     - dbl (of_int (load_of load (rw_id b)) / of_int (rw_maxBots b)) \<le> 0"

definition can_take :: "loads \<Rightarrow> string option \<Rightarrow> rebalance_worker \<Rightarrow> bool" where
  "can_take load exclude w \<longleftrightarrow> Some (rw_id w) \<noteq> exclude \<and> rw_status w = WkOnline
     \<and> load_of load (rw_id w) < effectiveMax w"

definition leastLoaded :: "rebalance_worker list \<Rightarrow> loads \<Rightarrow> string option \<Rightarrow> rebalance_worker option" where
  "leastLoaded workers load exclude = (case js_sort (fill_le load) (filter (can_take load exclude) workers) of
     [] \<Rightarrow> None | w # _ \<Rightarrow> Some w)"

definition assign_recommendation :: "rebalance_bot \<Rightarrow> rebalance_worker \<Rightarrow> recommendation" where
  "assign_recommendation b target =
     \<lparr>rm_type = Assign, rm_botId = rb_id b, rm_botName = rb_name b, rm_fromWorkerId = None,
      rm_fromWorkerName = None, rm_toWorkerId = rw_id target, rm_toWorkerName = rw_name target,
      rm_reason = ''Unassigned bot - no worker currently owns it''\<rparr>"

definition assign_step ::
    "rebalance_worker list \<Rightarrow> rebalance_bot \<Rightarrow> recommendation list \<times> loads \<Rightarrow> recommendation list \<times> loads" where
  "assign_step workers b = (\<lambda>(recs, load).
     if rb_workerGroupId b \<noteq> None \<and> rb_workerGroupId b \<noteq> Some [] then (recs, load)
     else case leastLoaded workers load None of
       None \<Rightarrow> (recs, load)
     | Some target \<Rightarrow> (recs @ [assign_recommendation b target],
                       load(rw_id target \<mapsto> load_of load (rw_id target) + 1)))"

definition move_reason :: "rebalance_worker \<Rightarrow> int \<Rightarrow> string" where
  "move_reason worker currentLoad =
     (if evacuated worker then rw_name worker @ '' is '' @ worker_status_name (rw_status worker) @ '' - moving its bots off''
      else rw_name worker @ '' is over its max bots ('' @ show_int currentLoad @ ''/'' @ show_int (rw_maxBots worker) @ '')'')"

definition move_recommendation :: "rebalance_worker \<Rightarrow> int \<Rightarrow> rebalance_bot \<Rightarrow> rebalance_worker \<Rightarrow> recommendation" where
  "move_recommendation worker currentLoad b target =
     \<lparr>rm_type = Move, rm_botId = rb_id b, rm_botName = rb_name b, rm_fromWorkerId = Some (rw_id worker),
      rm_fromWorkerName = Some (rw_name worker), rm_toWorkerId = rw_id target, rm_toWorkerName = rw_name target,
      rm_reason = move_reason worker currentLoad\<rparr>"

definition move_load :: "string \<Rightarrow> string \<Rightarrow> loads \<Rightarrow> loads" where
  "move_load source target load =
     (let load' = load(source \<mapsto> load_of load source - 1) in load'(target \<mapsto> load_of load' target + 1))"

definition move_step ::
    "rebalance_worker list \<Rightarrow> rebalance_worker \<Rightarrow> int \<Rightarrow> rebalance_bot \<Rightarrow>
     recommendation list \<times> loads \<Rightarrow> recommendation list \<times> loads" where
  "move_step workers worker currentLoad b = (\<lambda>(recs, load).
     case leastLoaded workers load (Some (rw_id worker)) of
       None \<Rightarrow> (recs, load)
     | Some target \<Rightarrow> (recs @ [move_recommendation worker currentLoad b target],
                       move_load (rw_id worker) (rw_id target) load))"

definition overflow_bots :: "rebalance_bot list \<Rightarrow> rebalance_worker \<Rightarrow> int \<Rightarrow> rebalance_bot list" where
  "overflow_bots bots worker excess = take (nat excess) (filter (\<lambda>b. rb_workerGroupId b = Some (rw_id worker)) bots)"

definition worker_step ::
    "rebalance_worker list \<Rightarrow> rebalance_bot list \<Rightarrow> rebalance_worker \<Rightarrow>
     recommendation list \<times> loads \<Rightarrow> recommendation list \<times> loads" where
  "worker_step workers bots worker = (\<lambda>(recs, load).
     let currentLoad = load_of load (rw_id worker); excess = currentLoad - effectiveMax worker in
     if excess \<le> 0 then (recs, load)
     else fold (move_step workers worker currentLoad) (overflow_bots bots worker excess) (recs, load))"

definition assign_phase :: "rebalance_worker list \<Rightarrow> rebalance_bot list \<Rightarrow> recommendation list \<times> loads" where
  "assign_phase workers bots = fold (assign_step workers) bots ([], initial_load workers)"

definition computeRebalanceRecommendations :: "rebalance_worker list \<Rightarrow> rebalance_bot list \<Rightarrow> recommendation list" where
  "computeRebalanceRecommendations workers bots =
     fst (fold (worker_step workers bots) workers (assign_phase workers bots))"

subsection \<open>The least loaded worker\<close>

interpretation fill: comparison "fill_le load" for load
  by unfold_locales (auto simp: fill_le_def)

lemma leastLoaded_Some:
  assumes "leastLoaded workers load exclude = Some w"
  shows "w \<in> set workers" "can_take load exclude w"
    and "\<And>v. v \<in> set workers \<Longrightarrow> can_take load exclude v \<Longrightarrow> fill_le load w v"
proof -
  let ?ws = "filter (can_take load exclude) workers"
  have w: "js_sort (fill_le load) ?ws \<noteq> []" "hd (js_sort (fill_le load) ?ws) = w"
    using assms by (auto simp: leastLoaded_def split: list.splits)
  then have "w \<in> set ?ws" using fill.hd_in [of ?ws load] by auto
  then show "w \<in> set workers" "can_take load exclude w" by simp_all
  show "fill_le load w v" if "v \<in> set workers" "can_take load exclude v" for v
    using fill.hd_least [of v ?ws load] that w by simp
qed

lemma leastLoaded_None: "leastLoaded workers load exclude = None \<longleftrightarrow> (\<forall>w \<in> set workers. \<not> can_take load exclude w)"
proof -
  have "leastLoaded workers load exclude = None \<longleftrightarrow> js_sort (fill_le load) (filter (can_take load exclude) workers) = []"
    by (cases "js_sort (fill_le load) (filter (can_take load exclude) workers)") (simp_all add: leastLoaded_def)
  then show ?thesis by (simp add: filter_empty_conv)
qed

subsection \<open>Incoming and outgoing moves\<close>

definition incoming :: "string \<Rightarrow> recommendation list \<Rightarrow> int" where
  "incoming i recs = int (length (filter (\<lambda>r. rm_toWorkerId r = i) recs))"

definition outgoing :: "string \<Rightarrow> recommendation list \<Rightarrow> int" where
  "outgoing i recs = int (length (filter (\<lambda>r. rm_fromWorkerId r = Some i) recs))"

lemma flow_simps [simp]:
  "incoming i [] = 0" "outgoing i [] = 0"
  "incoming i (recs @ recs') = incoming i recs + incoming i recs'"
  "outgoing i (recs @ recs') = outgoing i recs + outgoing i recs'"
  "incoming i [r] = (if rm_toWorkerId r = i then 1 else 0)"
  "outgoing i [r] = (if rm_fromWorkerId r = Some i then 1 else 0)"
  by (simp_all add: incoming_def outgoing_def)

lemma load_of_simps [simp]:
  "load_of (load(i \<mapsto> n)) j = (if j = i then n else load_of load j)"
  by (simp add: load_of_def)

lemma load_of_move: "load_of (move_load source target load) i =
    load_of load i + (if i = target then 1 else 0) - (if i = source then 1 else 0)"
  by (simp add: move_load_def)

lemma initial_load_of:
  assumes "distinct (map rw_id workers)" "w \<in> set workers"
  shows "load_of (initial_load workers) (rw_id w) = rw_currentBots w"
proof -
  have keep: "rw_id w \<notin> rw_id ` set ws \<Longrightarrow> fold (\<lambda>w load. load(rw_id w \<mapsto> rw_currentBots w)) ws load (rw_id w) = load (rw_id w)"
    for ws load by (induction ws arbitrary: load) auto
  have "distinct (map rw_id ws) \<Longrightarrow> w \<in> set ws \<Longrightarrow>
      fold (\<lambda>w load. load(rw_id w \<mapsto> rw_currentBots w)) ws load (rw_id w) = Some (rw_currentBots w)" for ws load
    by (induction ws arbitrary: load) (auto simp: keep)
  with assms show ?thesis by (simp add: initial_load_def load_of_def)
qed

text \<open>The invariant of both loops, and the end state of a fleet without spare capacity.\<close>

definition plan_ok :: "rebalance_worker list \<Rightarrow> recommendation list \<times> loads \<Rightarrow> bool" where
  "plan_ok workers = (\<lambda>(recs, load).
     (\<forall>i. load_of load i = load_of (initial_load workers) i + incoming i recs - outgoing i recs)
     \<and> (\<forall>r \<in> set recs. \<exists>w \<in> set workers. rw_id w = rm_toWorkerId r \<and> rw_status w = WkOnline
          \<and> rm_fromWorkerId r \<noteq> Some (rw_id w))
     \<and> (\<forall>w \<in> set workers. 0 < incoming (rw_id w) recs \<longrightarrow> load_of load (rw_id w) \<le> effectiveMax w)
     \<and> (\<forall>w \<in> set workers. 0 < outgoing (rw_id w) recs \<longrightarrow> effectiveMax w \<le> load_of load (rw_id w))
     \<and> (\<forall>i. incoming i recs = 0 \<or> outgoing i recs = 0))"

definition all_full :: "rebalance_worker list \<Rightarrow> loads \<Rightarrow> bool" where
  "all_full workers load \<longleftrightarrow> (\<forall>w \<in> set workers. rw_status w = WkOnline \<longrightarrow> rw_maxBots w \<le> load_of load (rw_id w))"

lemma distinct_ids: "distinct (map rw_id ws) \<Longrightarrow> v \<in> set ws \<Longrightarrow> w \<in> set ws \<Longrightarrow> rw_id v = rw_id w \<Longrightarrow> v = w"
  by (auto simp: distinct_map dest: inj_onD)

lemma flow_nonneg [simp]: "0 \<le> incoming i recs" "0 \<le> outgoing i recs"
  by (simp_all add: incoming_def outgoing_def)

lemma assign_step_ok:
  assumes "distinct (map rw_id workers)" "plan_ok workers p"
  shows "plan_ok workers (assign_step workers b p)"
proof (cases p)
  case (Pair recs load)
  show ?thesis
  proof (cases "leastLoaded workers load None")
    case (Some t)
    note t = leastLoaded_Some [OF Some]
    then have room: "load_of load (rw_id t) + 1 \<le> effectiveMax t" by (simp add: can_take_def)
    then have "outgoing (rw_id t) recs \<le> 0" using assms(2) t(1) Pair by (force simp: plan_ok_def)
    then have "outgoing (rw_id t) recs = 0" using flow_nonneg(2) [of "rw_id t" recs] by linarith
    with room t(1,2) assms Pair Some show ?thesis
      by (auto simp: assign_step_def plan_ok_def assign_recommendation_def can_take_def
          dest: distinct_ids [OF assms(1) t(1)])
  qed (use assms Pair in \<open>simp add: assign_step_def\<close>)
qed

lemma move_step_ok:
  assumes "distinct (map rw_id workers)" "plan_ok workers p" "w \<in> set workers" "effectiveMax w < load_of (snd p) (rw_id w)"
  shows "plan_ok workers (move_step workers w n b p)
    \<and> load_of (snd p) (rw_id w) - 1 \<le> load_of (snd (move_step workers w n b p)) (rw_id w)"
proof (cases p)
  case (Pair recs load)
  show ?thesis
  proof (cases "leastLoaded workers load (Some (rw_id w))")
    case (Some t)
    note t = leastLoaded_Some [OF Some]
    then have room: "load_of load (rw_id t) + 1 \<le> effectiveMax t" "rw_id t \<noteq> rw_id w" by (simp_all add: can_take_def)
    have "incoming (rw_id w) recs \<le> 0" "outgoing (rw_id t) recs \<le> 0"
      using assms(2-4) room(1) t(1) Pair by (force simp: plan_ok_def)+
    then have none: "incoming (rw_id w) recs = 0" "outgoing (rw_id t) recs = 0"
      using flow_nonneg [of "rw_id w" recs] flow_nonneg [of "rw_id t" recs] by linarith+
    have step: "move_step workers w n b p = (recs @ [move_recommendation w n b t], move_load (rw_id w) (rw_id t) load)"
      using Pair Some by (simp add: move_step_def)
    show ?thesis unfolding step
      using t(1,2) room none assms Pair
      by (auto simp: plan_ok_def move_recommendation_def can_take_def load_of_move
          dest: distinct_ids [OF assms(1) t(1)] distinct_ids [OF assms(1,3)])
  qed (use assms Pair in \<open>simp add: move_step_def\<close>)
qed

lemma moves_ok:
  assumes "distinct (map rw_id workers)" "w \<in> set workers"
  shows "plan_ok workers p \<Longrightarrow> int (length bs) \<le> load_of (snd p) (rw_id w) - effectiveMax w \<Longrightarrow>
    plan_ok workers (fold (move_step workers w n) bs p)"
proof (induction bs arbitrary: p)
  case (Cons b bs)
  then have "effectiveMax w < load_of (snd p) (rw_id w)" by simp
  from move_step_ok [OF assms(1) Cons.prems(1) assms(2) this, of n b] Cons show ?case by simp
qed simp

lemma fold_keeps: "(\<And>x p. x \<in> set xs \<Longrightarrow> P p \<Longrightarrow> P (f x p)) \<Longrightarrow> P p \<Longrightarrow> P (fold f xs p)"
  by (induction xs arbitrary: p) auto

lemma worker_step_ok:
  assumes "distinct (map rw_id workers)" "w \<in> set workers" "plan_ok workers p"
  shows "plan_ok workers (worker_step workers bots w p)"
proof (cases p)
  case (Pair recs load)
  with moves_ok [OF assms(1,2,3)] assms(3) show ?thesis
    by (auto simp: worker_step_def Let_def overflow_bots_def)
qed

lemma plan_ok_result:
  assumes "distinct (map rw_id workers)"
  shows "plan_ok workers (fold (worker_step workers bots) workers (assign_phase workers bots))"
proof -
  have "plan_ok workers ([], initial_load workers)" by (simp add: plan_ok_def)
  then have "plan_ok workers (assign_phase workers bots)"
    unfolding assign_phase_def by (intro fold_keeps [where P = "plan_ok workers"] assign_step_ok [OF assms])
  moreover have "plan_ok workers (fold (worker_step workers bots) ws p)" if "set ws \<subseteq> set workers" "plan_ok workers p" for ws p
    using that by (induction ws arbitrary: p) (simp_all add: worker_step_ok [OF assms])
  ultimately show ?thesis by simp
qed

lemma plan_respects_capacity_core:
  assumes "distinct (map rw_id workers)"
  shows "(\<forall>r \<in> set (computeRebalanceRecommendations workers bots). \<exists>w \<in> set workers. rw_id w = rm_toWorkerId r
      \<and> rw_status w = WkOnline \<and> rm_fromWorkerId r \<noteq> Some (rw_id w))
    \<and> (\<forall>w \<in> set workers. 0 < incoming (rw_id w) (computeRebalanceRecommendations workers bots) \<longrightarrow>
        outgoing (rw_id w) (computeRebalanceRecommendations workers bots) = 0
        \<and> rw_currentBots w + incoming (rw_id w) (computeRebalanceRecommendations workers bots) \<le> rw_maxBots w)"
proof -
  obtain recs load where p: "fold (worker_step workers bots) workers (assign_phase workers bots) = (recs, load)"
    and recs: "computeRebalanceRecommendations workers bots = recs"
    by (cases "fold (worker_step workers bots) workers (assign_phase workers bots)")
      (simp add: computeRebalanceRecommendations_def)
  have ok: "plan_ok workers (recs, load)" using plan_ok_result [OF assms, of bots] p by simp
  have "outgoing (rw_id w) recs = 0 \<and> rw_currentBots w + incoming (rw_id w) recs \<le> rw_maxBots w"
    if "w \<in> set workers" "0 < incoming (rw_id w) recs" for w
  proof -
    have "\<exists>r \<in> set recs. rm_toWorkerId r = rw_id w"
      using that(2) by (auto simp: incoming_def filter_empty_conv)
    with ok obtain v where v: "v \<in> set workers" "rw_id v = rw_id w" "rw_status v = WkOnline"
      by (auto simp: plan_ok_def)
    then have "v = w" using distinct_ids [OF assms] that(1) by blast
    moreover have "incoming (rw_id w) recs = 0 \<or> outgoing (rw_id w) recs = 0" using ok by (simp add: plan_ok_def)
    with that(2) have "outgoing (rw_id w) recs = 0" by linarith
    ultimately show ?thesis using v ok that
      by (auto simp: plan_ok_def initial_load_of [OF assms] effectiveMax_def evacuated_def)
  qed
  with ok show ?thesis by (simp add: plan_ok_def recs)
qed

text \<open>
  C33: a plan never overfills a worker. Every recommendation leads to an online worker other than the
  bot's current one, no worker both gives and receives, and a worker that receives bots holds at most its
  \<open>maxBots\<close> with all of them, whatever the fleet looked like before.
\<close>
theorem plan_respects_capacity:
  assumes "distinct (map rw_id workers)" "recs = computeRebalanceRecommendations workers bots"
  shows "(\<forall>r \<in> set recs. \<exists>w \<in> set workers. rw_id w = rm_toWorkerId r \<and> rw_status w = WkOnline
      \<and> rm_fromWorkerId r \<noteq> Some (rw_id w))
    \<and> (\<forall>w \<in> set workers. 0 < incoming (rw_id w) recs \<longrightarrow>
        outgoing (rw_id w) recs = 0 \<and> rw_currentBots w + incoming (rw_id w) recs \<le> rw_maxBots w)"
  unfolding assms(2) by (rule plan_respects_capacity_core [OF assms(1)])

definition sample_fleet :: "rebalance_worker list" where
  "sample_fleet = [\<lparr>rw_id = ''w1'', rw_name = ''one'', rw_maxBots = 5, rw_currentBots = 2, rw_status = WkDraining\<rparr>,
                   \<lparr>rw_id = ''w2'', rw_name = ''two'', rw_maxBots = 2, rw_currentBots = 1, rw_status = WkOnline\<rparr>]"

definition sample_bots :: "rebalance_bot list" where
  "sample_bots = [\<lparr>rb_id = ''b1'', rb_name = ''x'', rb_workerGroupId = Some ''w1''\<rparr>,
                  \<lparr>rb_id = ''b2'', rb_name = ''y'', rb_workerGroupId = Some ''w1''\<rparr>,
                  \<lparr>rb_id = ''b3'', rb_name = ''z'', rb_workerGroupId = Some ''w2''\<rparr>]"

lemma sample_plan: "map (\<lambda>r. (rm_botId r, rm_toWorkerId r)) (computeRebalanceRecommendations sample_fleet sample_bots) = [(''b1'', ''w2'')]"
  by (simp add: computeRebalanceRecommendations_def assign_phase_def assign_step_def sample_fleet_def sample_bots_def
      worker_step_def overflow_bots_def move_step_def leastLoaded_def can_take_def initial_load_def load_of_def
      effectiveMax_def evacuated_def move_load_def move_recommendation_def Let_def)

theorem plan_respects_capacity_witness:
  "1 + incoming ''w2'' (computeRebalanceRecommendations sample_fleet sample_bots) \<le> 2"
proof -
  have "incoming ''w2'' recs = int (length (filter (\<lambda>p. snd p = ''w2'') (map (\<lambda>r. (rm_botId r, rm_toWorkerId r)) recs)))" for recs
    by (simp add: incoming_def filter_map o_def)
  then have "0 < incoming ''w2'' (computeRebalanceRecommendations sample_fleet sample_bots)"
    by (simp only: sample_plan) simp
  with plan_respects_capacity [of sample_fleet "computeRebalanceRecommendations sample_fleet sample_bots" sample_bots]
  show ?thesis by (simp add: sample_fleet_def)
qed

subsection \<open>What is left behind\<close>

lemma full_none: "all_full workers load \<Longrightarrow> leastLoaded workers load exclude = None"
  by (auto simp: leastLoaded_None all_full_def can_take_def effectiveMax_def evacuated_def)

lemma none_full:
  assumes "leastLoaded workers load exclude = None"
    and "\<And>w. w \<in> set workers \<Longrightarrow> rw_status w = WkOnline \<Longrightarrow> Some (rw_id w) \<noteq> exclude"
  shows "all_full workers load"
  using assms by (fastforce simp: leastLoaded_None all_full_def can_take_def effectiveMax_def evacuated_def)

lemma full_stuck:
  assumes "all_full workers (snd p)"
  shows "assign_step workers b p = p" "move_step workers w n b p = p"
  using full_none [OF assms] by (cases p; simp add: assign_step_def move_step_def)+

lemma full_fold:
  assumes "all_full workers (snd p)"
  shows "fold (assign_step workers) bs p = p" "fold (move_step workers w n) bs p = p"
    "fold (worker_step workers bots) ws p = p"
proof -
  show "fold (assign_step workers) bs p = p"
    by (induction bs) (simp_all add: full_stuck [OF assms])
  show moves: "fold (move_step workers w n) bs p = p" for w n bs
    by (induction bs) (simp_all add: full_stuck [OF assms])
  have "worker_step workers bots w p = p" for w
    by (cases p) (use moves in \<open>auto simp: worker_step_def Let_def\<close>)
  then show "fold (worker_step workers bots) ws p = p"
    by (induction ws) simp_all
qed

lemma fold_grow: "(\<And>x p. set (fst p) \<subseteq> set (fst (f x p))) \<Longrightarrow> set (fst p) \<subseteq> set (fst (fold f xs p))"
  by (induction xs arbitrary: p) (simp, metis fold_simps(2) subset_trans)

lemma recs_grow:
  "set (fst p) \<subseteq> set (fst (assign_step workers b p))"
  "set (fst p) \<subseteq> set (fst (move_step workers w n b p))"
  "set (fst p) \<subseteq> set (fst (fold (move_step workers w n) bs p))"
  "set (fst p) \<subseteq> set (fst (worker_step workers bots w p))"
  "set (fst p) \<subseteq> set (fst (fold (assign_step workers) bs p))"
  "set (fst p) \<subseteq> set (fst (fold (worker_step workers bots) ws p))"
proof -
  show a: "set (fst p) \<subseteq> set (fst (assign_step workers b p))" for b p
    by (cases p) (auto simp: assign_step_def split: option.split)
  show m: "set (fst p) \<subseteq> set (fst (move_step workers w n b p))" for w n b p
    by (cases p) (auto simp: move_step_def split: option.split)
  show ms: "set (fst p) \<subseteq> set (fst (fold (move_step workers w n) bs p))" for w n bs p
    by (rule fold_grow [OF m])
  show w: "set (fst p) \<subseteq> set (fst (worker_step workers bots w p))" for w p
    by (cases p) (use ms [of "p"] in \<open>auto simp: worker_step_def Let_def\<close>)
  show "set (fst p) \<subseteq> set (fst (fold (assign_step workers) bs p))"
    by (rule fold_grow [OF a])
  show "set (fst p) \<subseteq> set (fst (fold (worker_step workers bots) ws p))"
    by (rule fold_grow [OF w])
qed

text \<open>A bot is missed by a step only when the fleet is full.\<close>

lemma assign_step_missed:
  assumes "rb_workerGroupId b = None \<or> rb_workerGroupId b = Some []"
  shows "(\<exists>r \<in> set (fst (assign_step workers b p)). rm_botId r = rb_id b) \<or> all_full workers (snd p)"
  using assms none_full [of workers "snd p" None]
  by (cases p) (auto simp: assign_step_def assign_recommendation_def split: option.splits)

lemma move_step_missed:
  assumes "rw_status w \<noteq> WkOnline" "distinct (map rw_id workers)" "w \<in> set workers"
  shows "(\<exists>r \<in> set (fst (move_step workers w n b p)). rm_botId r = rb_id b) \<or> all_full workers (snd p)"
proof -
  have "leastLoaded workers (snd p) (Some (rw_id w)) = None \<Longrightarrow> all_full workers (snd p)"
    using assms(1) by (intro none_full) (auto dest: distinct_ids [OF assms(2) _ assms(3)])
  then show ?thesis
    by (cases p) (auto simp: move_step_def move_recommendation_def split: option.splits)
qed

lemma fold_missed:
  assumes "\<And>b p. b \<in> set bs \<Longrightarrow> Q b \<Longrightarrow> (\<exists>r \<in> set (fst (f b p)). rm_botId r = rb_id b) \<or> all_full workers (snd p)"
    and "\<And>b p. all_full workers (snd p) \<Longrightarrow> f b p = p" "\<And>b p. set (fst p) \<subseteq> set (fst (f b p))"
    and "b \<in> set bs" "Q b"
  shows "(\<exists>r \<in> set (fst (fold f bs p)). rm_botId r = rb_id b) \<or> all_full workers (snd (fold f bs p))"
  using assms(1,4)
proof (induction bs arbitrary: p)
  case (Cons x xs)
  have stuck: "fold f xs p = p" if "all_full workers (snd p)" for p
    using assms(2) [OF that] by (induction xs) simp_all
  show ?case
  proof (cases "x = b")
    case True
    with Cons.prems(1) [of x p] assms(5) have "(\<exists>r \<in> set (fst (f b p)). rm_botId r = rb_id b) \<or> all_full workers (snd p)" by simp
    then show ?thesis
    proof
      assume "\<exists>r \<in> set (fst (f b p)). rm_botId r = rb_id b"
      with fold_grow [of f "f b p" xs, OF assms(3)] True show ?thesis by auto
    next
      assume full: "all_full workers (snd p)"
      with assms(2) [OF full] stuck [OF full] True show ?thesis by simp
    qed
  next
    case False
    with Cons show ?thesis by simp
  qed
qed simp

lemma untouched_load:
  assumes "rw_status d \<noteq> WkOnline" "d \<in> set workers" "distinct (map rw_id workers)"
  shows "load_of (snd (assign_step workers b p)) (rw_id d) = load_of (snd p) (rw_id d)"
    and "rw_id v \<noteq> rw_id d \<Longrightarrow> load_of (snd (worker_step workers bots v p)) (rw_id d) = load_of (snd p) (rw_id d)"
proof -
  have off: "leastLoaded workers load e = Some t \<Longrightarrow> rw_id t \<noteq> rw_id d" for load e t
    using leastLoaded_Some(1,2) [of workers load e t] assms distinct_ids [OF assms(3), of t d] by (auto simp: can_take_def)
  show "load_of (snd (assign_step workers b p)) (rw_id d) = load_of (snd p) (rw_id d)"
    by (cases p) (auto simp: assign_step_def split: option.split dest: off)
  assume v: "rw_id v \<noteq> rw_id d"
  have move: "load_of (snd (move_step workers v n b p)) (rw_id d) = load_of (snd p) (rw_id d)" for n b p
    using v by (cases p) (auto simp: move_step_def load_of_move split: option.split dest: off)
  have "load_of (snd (fold (move_step workers v n) bs p)) (rw_id d) = load_of (snd p) (rw_id d)" for n bs p
    by (induction bs arbitrary: p) (simp_all add: move)
  from this [of "load_of (snd p) (rw_id v)" _ p] show "load_of (snd (worker_step workers bots v p)) (rw_id d) = load_of (snd p) (rw_id d)"
    by (cases p) (simp add: worker_step_def Let_def)
qed

lemma unassigned_missed:
  assumes "b \<in> set bots" "rb_workerGroupId b = None"
  shows "let p = fold (worker_step workers bots) workers (assign_phase workers bots) in
    (\<exists>r \<in> set (fst p). rm_botId r = rb_id b) \<or> all_full workers (snd p)"
proof -
  let ?p = "assign_phase workers bots"
  have "(\<exists>r \<in> set (fst ?p). rm_botId r = rb_id b) \<or> all_full workers (snd ?p)"
    unfolding assign_phase_def
    by (rule fold_missed [where Q = "\<lambda>b. rb_workerGroupId b = None", OF assign_step_missed [OF disjI1] full_stuck(1) recs_grow(1)])
      (use assms in simp_all)
  then show ?thesis
    using recs_grow(6) [of ?p workers bots workers] full_fold(3) [of workers ?p bots workers] by (auto simp: Let_def)
qed

lemma evacuated_load:
  assumes "rw_status d \<noteq> WkOnline" "d \<in> set workers" "distinct (map rw_id workers)" "rw_id d \<notin> rw_id ` set ws"
  shows "load_of (snd (fold (worker_step workers bots) ws (assign_phase workers bots))) (rw_id d) = rw_currentBots d"
proof -
  have "load_of (snd (fold (assign_step workers) bs p)) (rw_id d) = load_of (snd p) (rw_id d)" for bs p
    by (induction bs arbitrary: p) (simp_all add: untouched_load(1) [OF assms(1-3)])
  then have "load_of (snd (assign_phase workers bots)) (rw_id d) = rw_currentBots d"
    by (simp add: assign_phase_def initial_load_of [OF assms(3,2)])
  moreover have "load_of (snd (fold (worker_step workers bots) ws p)) (rw_id d) = load_of (snd p) (rw_id d)" for p
    using assms(4) by (induction ws arbitrary: p) (auto simp: untouched_load(2) [OF assms(1-3)])
  ultimately show ?thesis by simp
qed

lemma evacuated_missed:
  assumes "distinct (map rw_id workers)" "b \<in> set bots" "d \<in> set workers" "rb_workerGroupId b = Some (rw_id d)" "evacuated d"
    and "int (length (filter (\<lambda>b. rb_workerGroupId b = Some (rw_id d)) bots)) \<le> rw_currentBots d"
  shows "let p = fold (worker_step workers bots) workers (assign_phase workers bots) in
    (\<exists>r \<in> set (fst p). rm_botId r = rb_id b) \<or> all_full workers (snd p)"
proof -
  have off: "rw_status d \<noteq> WkOnline" using assms(5) by (auto simp: evacuated_def)
  obtain ws1 ws2 where ws: "workers = ws1 @ d # ws2" using split_list [OF assms(3)] by blast
  let ?q = "fold (worker_step workers bots) ws1 (assign_phase workers bots)"
  have load: "load_of (snd ?q) (rw_id d) = rw_currentBots d"
    using assms(1) ws by (intro evacuated_load [OF off assms(3,1)]) auto
  define bs where "bs = overflow_bots bots d (rw_currentBots d)"
  have b: "b \<in> set bs"
    using assms(2,4,6) by (simp add: bs_def overflow_bots_def)
  then have "0 < rw_currentBots d" by (cases "0 < rw_currentBots d") (simp_all add: bs_def overflow_bots_def)
  then have step: "worker_step workers bots d ?q = fold (move_step workers d (rw_currentBots d)) bs ?q"
    using load assms(5) by (cases ?q) (simp add: worker_step_def Let_def effectiveMax_def bs_def)
  have "(\<exists>r \<in> set (fst (fold (move_step workers d (rw_currentBots d)) bs ?q)). rm_botId r = rb_id b)
      \<or> all_full workers (snd (fold (move_step workers d (rw_currentBots d)) bs ?q))"
    by (rule fold_missed [where Q = "\<lambda>_. True", OF move_step_missed [OF off assms(1,3)] full_stuck(2) recs_grow(2)])
      (use b in simp_all)
  moreover have "fold f workers p = fold f ws2 (f d (fold f ws1 p))" for f and p :: "recommendation list \<times> loads"
    by (simp add: ws)
  ultimately show ?thesis
    using recs_grow(6) [of "worker_step workers bots d ?q" workers bots ws2]
      full_fold(3) [of workers "worker_step workers bots d ?q" bots ws2] step by (auto simp: Let_def)
qed

text \<open>
  A bot that needs a place is left without one only when the fleet has none: if a bot without
  worker, or on a draining or failed worker whose counter covers its bots, gets no recommendation, then
  with all recommendations applied every online worker is full.
\<close>
theorem left_behind_only_when_full:
  assumes "distinct (map rw_id workers)" "recs = computeRebalanceRecommendations workers bots" "b \<in> set bots"
    and "rb_workerGroupId b = None \<or> (\<exists>d \<in> set workers. rb_workerGroupId b = Some (rw_id d) \<and> evacuated d
      \<and> int (length (filter (\<lambda>b. rb_workerGroupId b = Some (rw_id d)) bots)) \<le> rw_currentBots d)"
    and "\<forall>r \<in> set recs. rm_botId r \<noteq> rb_id b" "w \<in> set workers" "rw_status w = WkOnline"
  shows "rw_maxBots w \<le> rw_currentBots w + incoming (rw_id w) recs - outgoing (rw_id w) recs"
proof -
  let ?p = "fold (worker_step workers bots) workers (assign_phase workers bots)"
  have recs: "recs = fst ?p" using assms(2) by (simp add: computeRebalanceRecommendations_def)
  have "(\<exists>r \<in> set (fst ?p). rm_botId r = rb_id b) \<or> all_full workers (snd ?p)"
    using assms(4) unassigned_missed [OF assms(3)] evacuated_missed [OF assms(1,3)] by (auto simp: Let_def)
  with assms(5) recs have "all_full workers (snd ?p)" by blast
  moreover have "plan_ok workers (recs, snd ?p)" using plan_ok_result [OF assms(1), of bots] recs by simp
  ultimately show ?thesis
    using assms(6,7) by (auto simp: all_full_def plan_ok_def initial_load_of [OF assms(1)])
qed

theorem left_behind_only_when_full_witness:
  "2 \<le> 1 + incoming ''w2'' (computeRebalanceRecommendations sample_fleet sample_bots)
    - outgoing ''w2'' (computeRebalanceRecommendations sample_fleet sample_bots)"
proof -
  have "rm_botId ` set recs = fst ` set (map (\<lambda>r. (rm_botId r, rm_toWorkerId r)) recs)" for recs
    by force
  from this [of "computeRebalanceRecommendations sample_fleet sample_bots"]
  have ids: "rm_botId ` set (computeRebalanceRecommendations sample_fleet sample_bots) = {''b1''}"
    unfolding sample_plan by simp
  have "rm_botId r \<noteq> ''b2''" if "r \<in> set (computeRebalanceRecommendations sample_fleet sample_bots)" for r
    using imageI [OF that, of rm_botId] unfolding ids by simp
  then have "\<forall>r \<in> set (computeRebalanceRecommendations sample_fleet sample_bots). rm_botId r \<noteq> ''b2''" by (rule ballI)
  with left_behind_only_when_full [of sample_fleet "computeRebalanceRecommendations sample_fleet sample_bots" sample_bots
      "sample_bots ! 1" "sample_fleet ! 1"]
  show ?thesis by (simp add: sample_fleet_def sample_bots_def evacuated_def)
qed

subsection \<open>Each recommendation is about a bot of its worker\<close>

lemma subseq_distinct_set: "subseq xs ys \<Longrightarrow> set xs \<subseteq> set ys \<and> (distinct ys \<longrightarrow> distinct xs)"
  by (induction rule: list_emb.induct) auto

lemma moves_append:
  "\<exists>rs. fst (fold (move_step workers w n) bs p) = fst p @ rs \<and> (\<forall>r \<in> set rs. rm_fromWorkerId r = Some (rw_id w))
    \<and> subseq (map rm_botId rs) (map rb_id bs)"
proof (induction bs arbitrary: p)
  case (Cons b bs)
  have "\<exists>rs. fst (move_step workers w n b p) = fst p @ rs \<and> (rs = [] \<or> (\<exists>t. rs = [move_recommendation w n b t]))"
    by (cases p; cases "leastLoaded workers (snd p) (Some (rw_id w))") (auto simp: move_step_def)
  then obtain rs0 where rs0: "fst (move_step workers w n b p) = fst p @ rs0" "rs0 = [] \<or> (\<exists>t. rs0 = [move_recommendation w n b t])" by blast
  obtain rs where "fst (fold (move_step workers w n) bs (move_step workers w n b p)) = fst (move_step workers w n b p) @ rs"
      "\<forall>r \<in> set rs. rm_fromWorkerId r = Some (rw_id w)" "subseq (map rm_botId rs) (map rb_id bs)"
    using Cons by blast
  with rs0 show ?case by (intro exI [of _ "rs0 @ rs"]) (auto simp: move_recommendation_def)
qed simp

lemma worker_step_append:
  "\<exists>rs. fst (worker_step workers bots w p) = fst p @ rs \<and> (\<forall>r \<in> set rs. rm_fromWorkerId r = Some (rw_id w))
    \<and> subseq (map rm_botId rs) (map rb_id (filter (\<lambda>b. rb_workerGroupId b = Some (rw_id w)) bots))"
proof (cases p)
  case (Pair recs load)
  have "subseq (map rb_id (take k bs)) (map rb_id bs)" for k bs
    by (intro subseq_map prefix_imp_subseq take_is_prefix)
  with Pair moves_append [of workers w "load_of load (rw_id w)"
      "overflow_bots bots w (load_of load (rw_id w) - effectiveMax w)" p]
  show ?thesis
    unfolding overflow_bots_def by (fastforce simp: worker_step_def Let_def overflow_bots_def intro: subseq_order.trans)
qed

lemma assign_phase_unmoved:
  "r \<in> set (fst (assign_phase workers bots)) \<Longrightarrow> rm_fromWorkerId r = None
    \<and> (\<exists>b \<in> set bots. rb_id b = rm_botId r \<and> (rb_workerGroupId b = None \<or> rb_workerGroupId b = Some []))"
proof -
  let ?Q = "\<lambda>r. rm_fromWorkerId r = None
    \<and> (\<exists>b \<in> set bots. rb_id b = rm_botId r \<and> (rb_workerGroupId b = None \<or> rb_workerGroupId b = Some []))"
  have "\<forall>r \<in> set (fst (assign_phase workers bots)). ?Q r"
    unfolding assign_phase_def
  proof (rule fold_keeps [where P = "\<lambda>p. \<forall>r \<in> set (fst p). ?Q r"])
    fix b and p :: "recommendation list \<times> loads"
    assume b: "b \<in> set bots" and p: "\<forall>r \<in> set (fst p). ?Q r"
    show "\<forall>r \<in> set (fst (assign_step workers b p)). ?Q r"
    proof (cases p)
      case (Pair recs load)
      with b p show ?thesis
        by (cases "leastLoaded workers load None") (auto simp: assign_step_def assign_recommendation_def)
    qed
  qed simp
  then show "r \<in> set (fst (assign_phase workers bots)) \<Longrightarrow> ?thesis" by blast
qed

text \<open>The moves away from one worker name different bots of that worker, in order.\<close>

lemma moves_from:
  assumes "distinct (map rw_id workers)"
  shows "subseq (map rm_botId (filter (\<lambda>r. rm_fromWorkerId r = Some i) (computeRebalanceRecommendations workers bots)))
    (map rb_id (filter (\<lambda>b. rb_workerGroupId b = Some i) bots))"
proof -
  let ?from = "filter (\<lambda>r. rm_fromWorkerId r = Some i)" and ?bots = "map rb_id (filter (\<lambda>b. rb_workerGroupId b = Some i) bots)"
  have "(\<exists>rs. ?from (fst (fold (worker_step workers bots) ws p)) = ?from (fst p) @ rs \<and> subseq (map rm_botId rs) ?bots
      \<and> (i \<notin> rw_id ` set ws \<longrightarrow> rs = []))" if "distinct (map rw_id ws)" for ws p
    using that
  proof (induction ws arbitrary: p)
    case (Cons w ws)
    obtain rs where rs: "fst (worker_step workers bots w p) = fst p @ rs" "\<forall>r \<in> set rs. rm_fromWorkerId r = Some (rw_id w)"
        "subseq (map rm_botId rs) (map rb_id (filter (\<lambda>b. rb_workerGroupId b = Some (rw_id w)) bots))"
      using worker_step_append [of workers bots w p] by blast
    obtain rs' where rs': "?from (fst (fold (worker_step workers bots) ws (worker_step workers bots w p))) =
        ?from (fst (worker_step workers bots w p)) @ rs'" "subseq (map rm_botId rs') ?bots" "i \<notin> rw_id ` set ws \<longrightarrow> rs' = []"
      using Cons.IH [of "worker_step workers bots w p"] Cons.prems by auto
    show ?case
    proof (cases "rw_id w = i")
      case True
      with rs have "?from rs = rs" by (simp add: filter_id_conv)
      moreover have "rs' = []" using rs'(3) Cons.prems True by auto
      ultimately show ?thesis using rs rs' True by auto
    next
      case False
      with rs have "?from rs = []" by (simp add: filter_empty_conv)
      with rs rs' False show ?thesis by auto
    qed
  qed simp
  from this [OF assms, of "assign_phase workers bots"]
  show ?thesis
    using assign_phase_unmoved [of _ workers bots]
    by (fastforce simp: computeRebalanceRecommendations_def filter_empty_conv)
qed

end
