(* ===== verification/Secrets.thy ===== *)
theory Secrets
  imports Prelude "HOL-Library.Word"
begin

text \<open>
  \<open>lib/crypto.ts\<close>: secrets at rest. AES-256-GCM, the random generator and the byte encodings are
  Node's; they are the parameter \<open>crypto\<close>, and \<open>crypto_laws\<close> states their documented behaviour:
  decoding inverts encoding, base64 text has no dot and is empty only for no bytes, decryption under
  the same key, nonce and tag inverts encryption, a ciphertext is as long as its plaintext and a tag
  is not empty.
\<close>

type_synonym bytes = "8 word list"

record crypto =
  cy_utf8 :: "string \<Rightarrow> bytes"
  cy_utf8_decode :: "bytes \<Rightarrow> string"
  cy_base64 :: "bytes \<Rightarrow> string"
  cy_unbase64 :: "string \<Rightarrow> bytes"
  cy_seal :: "bytes \<Rightarrow> bytes \<Rightarrow> bytes \<Rightarrow> bytes \<times> bytes"
  cy_unseal :: "bytes \<Rightarrow> bytes \<Rightarrow> bytes \<Rightarrow> bytes \<Rightarrow> bytes option"
  cy_randomBytes :: "nat \<Rightarrow> nat \<Rightarrow> bytes"

datatype secret_error = KeyNotSet | KeyNotThirtyTwoBytes | MalformedSecret | NotAuthentic

definition IV_LENGTH :: nat where
  "IV_LENGTH = 12"

definition getMasterKey :: "crypto \<Rightarrow> string option \<Rightarrow> secret_error + bytes" where
  "getMasterKey cy env = (case env of
     None \<Rightarrow> Inl KeyNotSet
   | Some key \<Rightarrow> if key = [] then Inl KeyNotSet
       else let buf = cy_unbase64 cy key in if length buf \<noteq> 32 then Inl KeyNotThirtyTwoBytes else Inr buf)"

text \<open>\<open>draw\<close> numbers the calls of the random generator.\<close>

definition encryptSecret :: "crypto \<Rightarrow> string option \<Rightarrow> nat \<Rightarrow> string \<Rightarrow> secret_error + string" where
  "encryptSecret cy env draw plaintext = (case getMasterKey cy env of
     Inl e \<Rightarrow> Inl e
   | Inr key \<Rightarrow>
       (let iv = cy_randomBytes cy draw IV_LENGTH in
        case cy_seal cy key iv (cy_utf8 cy plaintext) of (ciphertext, authTag) \<Rightarrow>
          Inr (join_with ''.'' [cy_base64 cy iv, cy_base64 cy authTag, cy_base64 cy ciphertext])))"

definition decryptSecret :: "crypto \<Rightarrow> string option \<Rightarrow> string \<Rightarrow> secret_error + string" where
  "decryptSecret cy env encrypted = (case getMasterKey cy env of
     Inl e \<Rightarrow> Inl e
   | Inr key \<Rightarrow> (case split_on CHR ''.'' encrypted of
       ivB64 # authTagB64 # ciphertextB64 # _ \<Rightarrow>
         if ivB64 = [] \<or> authTagB64 = [] \<or> ciphertextB64 = [] then Inl MalformedSecret
         else (case cy_unseal cy key (cy_unbase64 cy ivB64) (cy_unbase64 cy authTagB64) (cy_unbase64 cy ciphertextB64) of
             None \<Rightarrow> Inl NotAuthentic
           | Some plaintext \<Rightarrow> Inr (cy_utf8_decode cy plaintext))
     | _ \<Rightarrow> Inl MalformedSecret))"

definition maskSecret :: "string \<Rightarrow> string" where
  "maskSecret plaintext =
     (if length plaintext \<le> 4 then replicate (length plaintext) CHR ''*''
      else replicate (min (length plaintext - 4) 20) CHR ''*'' @ drop (length plaintext - 4) plaintext)"

definition isEncryptionKeyConfigured :: "crypto \<Rightarrow> string option \<Rightarrow> bool" where
  "isEncryptionKeyConfigured cy env = (case env of
     None \<Rightarrow> False | Some key \<Rightarrow> key \<noteq> [] \<and> length (cy_unbase64 cy key) = 32)"

definition crypto_laws :: "crypto \<Rightarrow> bool" where
  "crypto_laws cy \<longleftrightarrow>
     (\<forall>s. cy_utf8_decode cy (cy_utf8 cy s) = s \<and> (cy_utf8 cy s = [] \<longleftrightarrow> s = []))
   \<and> (\<forall>b. cy_unbase64 cy (cy_base64 cy b) = b \<and> CHR ''.'' \<notin> set (cy_base64 cy b) \<and> (cy_base64 cy b = [] \<longleftrightarrow> b = []))
   \<and> (\<forall>k iv p. case cy_seal cy k iv p of (c, t) \<Rightarrow> cy_unseal cy k iv t c = Some p \<and> length c = length p \<and> t \<noteq> [])
   \<and> (\<forall>d n. length (cy_randomBytes cy d n) = n)"

lemma crypto_lawsD:
  assumes "crypto_laws cy"
  shows "cy_utf8_decode cy (cy_utf8 cy s) = s" "cy_utf8 cy s = [] \<longleftrightarrow> s = []" "cy_unbase64 cy (cy_base64 cy b) = b"
    "CHR ''.'' \<notin> set (cy_base64 cy b)" "cy_base64 cy b = [] \<longleftrightarrow> b = []" "length (cy_randomBytes cy d n) = n"
  using assms unfolding crypto_laws_def by blast+

lemma split_three:
  assumes "CHR ''.'' \<notin> set a" "CHR ''.'' \<notin> set b" "CHR ''.'' \<notin> set c"
  shows "split_on CHR ''.'' (join_with ''.'' [a, b, c]) = [a, b, c]"
  using assms by (simp add: split_on_join split_on_none)

lemma sealed_parts:
  assumes "crypto_laws cy"
  obtains c t where "cy_seal cy k iv p = (c, t)" "cy_unseal cy k iv t c = Some p" "length c = length p" "t \<noteq> []"
proof (cases "cy_seal cy k iv p")
  case (Pair c t)
  have "case cy_seal cy k iv p of (c, t) \<Rightarrow> cy_unseal cy k iv t c = Some p \<and> length c = length p \<and> t \<noteq> []"
    using assms by (simp add: crypto_laws_def)
  with Pair that [of c t] show ?thesis by simp
qed

lemma secret_roundtrip_core:
  assumes "crypto_laws cy" "isEncryptionKeyConfigured cy env"
  shows "\<exists>stored. encryptSecret cy env draw plaintext = Inr stored
    \<and> decryptSecret cy env stored = (if plaintext = [] then Inl MalformedSecret else Inr plaintext)"
proof -
  obtain key where key: "getMasterKey cy env = Inr key"
    using assms(2) by (auto simp: isEncryptionKeyConfigured_def getMasterKey_def Let_def split: option.splits)
  let ?iv = "cy_randomBytes cy draw IV_LENGTH" and ?p = "cy_utf8 cy plaintext"
  obtain c t where s: "cy_seal cy key ?iv ?p = (c, t)" "cy_unseal cy key ?iv t c = Some ?p" "length c = length ?p" "t \<noteq> []"
    using sealed_parts [OF assms(1)] by blast
  note law = crypto_lawsD [OF assms(1)]
  have iv: "?iv \<noteq> []" using law(6) [of draw IV_LENGTH] by (auto simp: IV_LENGTH_def)
  have "c = [] \<longleftrightarrow> plaintext = []" using s(3) law(2) [of plaintext] by (metis length_0_conv)
  let ?stored = "join_with ''.'' [cy_base64 cy ?iv, cy_base64 cy t, cy_base64 cy c]"
  have "split_on CHR ''.'' ?stored = [cy_base64 cy ?iv, cy_base64 cy t, cy_base64 cy c]"
    by (intro split_three law(4))
  with \<open>c = [] \<longleftrightarrow> plaintext = []\<close> have "decryptSecret cy env ?stored = (if plaintext = [] then Inl MalformedSecret else Inr plaintext)"
    using key s(2,4) iv by (simp add: decryptSecret_def law(1,3,5))
  moreover have "encryptSecret cy env draw plaintext = Inr ?stored"
    using key s(1) by (simp add: encryptSecret_def Let_def)
  ultimately show ?thesis by blast
qed

text \<open>
  C34: with a key of 32 bytes configured, a secret that is stored can be read back, except the empty
  one: its ciphertext is empty, and what \<open>encryptSecret\<close> returns for it is rejected as malformed.
\<close>
theorem secret_roundtrip:
  assumes "crypto_laws cy" "isEncryptionKeyConfigured cy env"
  shows "\<exists>stored. encryptSecret cy env draw plaintext = Inr stored
    \<and> decryptSecret cy env stored = (if plaintext = [] then Inl MalformedSecret else Inr plaintext)"
  using assms by (rule secret_roundtrip_core)

text \<open>For the witness: bytes in hexadecimal, and a cipher that only appends a tag.\<close>

fun unhex :: "string \<Rightarrow> bytes" where
  "unhex (a # b # s) = of_nat ((of_char a - 65) * 16 + (of_char b - 65)) # unhex s"
| "unhex _ = []"

definition hex :: "bytes \<Rightarrow> string" where
  "hex bs = concat (map (\<lambda>b. [char_of (unat b div 16 + 65), char_of (unat b mod 16 + 65)]) bs)"

definition plain_crypto :: crypto where
  "plain_crypto = \<lparr>cy_utf8 = map (\<lambda>c. of_nat (of_char c)), cy_utf8_decode = map (\<lambda>b. char_of (unat b)),
     cy_base64 = hex, cy_unbase64 = unhex, cy_seal = (\<lambda>k iv p. (p, [1])),
     cy_unseal = (\<lambda>k iv t c. if t = [1] then Some c else None), cy_randomBytes = (\<lambda>d n. replicate n 0)\<rparr>"

lemma unhex_hex: "unhex (hex bs) = bs"
proof (induction bs)
  case (Cons b bs)
  have "unat b < 256" using unsigned_less [of b] by simp
  then have "(of_char (char_of (unat b div 16 + 65) :: char) :: nat) = unat b div 16 + 65"
      "(of_char (char_of (unat b mod 16 + 65) :: char) :: nat) = unat b mod 16 + 65"
    by simp_all
  with Cons show ?case by (simp add: hex_def mult.commute)
qed (simp add: hex_def)

lemma letter_not_dot: "65 \<le> n \<Longrightarrow> n < 256 \<Longrightarrow> char_of (n :: nat) \<noteq> CHR ''.''"
proof
  assume n: "65 \<le> n" "n < 256" and eq: "char_of n = CHR ''.''"
  have "of_char (char_of n :: char) = n" using n(2) by simp
  then have "of_char CHR ''.'' = n" by (simp only: eq)
  with n(1) show False by simp
qed

lemma plain_crypto_laws: "crypto_laws plain_crypto"
proof -
  have nibble: "unat b div 16 + 65 < 256" "unat b mod 16 + 65 < 256" for b :: "8 word"
  proof -
    have "unat b < 256" using unsigned_less [of b] by simp
    then show "unat b div 16 + 65 < 256" "unat b mod 16 + 65 < 256" by simp_all
  qed
  have "CHR ''.'' \<notin> set (hex bs)" for bs
    by (induction bs) (use letter_not_dot [OF _ nibble(1)] letter_not_dot [OF _ nibble(2)] in \<open>auto simp: hex_def dest: sym\<close>)
  moreover have "hex bs = [] \<longleftrightarrow> bs = []" for bs by (cases bs) (simp_all add: hex_def)
  moreover have "char_of (unat (of_nat (of_char c) :: 8 word)) = c" for c
  proof -
    have "(of_char c :: nat) < 256" by simp
    then show ?thesis by (simp add: unsigned_of_nat take_bit_nat_eq_self)
  qed
  ultimately show ?thesis by (simp add: crypto_laws_def plain_crypto_def unhex_hex o_def)
qed

theorem secret_roundtrip_witness:
  "\<exists>stored. encryptSecret plain_crypto (Some (replicate 64 CHR ''A'')) 0 ''tok'' = Inr stored
    \<and> decryptSecret plain_crypto (Some (replicate 64 CHR ''A'')) stored = Inr ''tok''"
proof -
  have "length (unhex (concat (replicate n ''AA''))) = n" for n by (induction n) simp_all
  from this [of 32] have "length (unhex (replicate 64 CHR ''A'')) = 32" by (simp add: numeral_eq_Suc)
  then have "isEncryptionKeyConfigured plain_crypto (Some (replicate 64 CHR ''A''))"
    by (simp add: isEncryptionKeyConfigured_def plain_crypto_def)
  from secret_roundtrip [OF plain_crypto_laws this, of 0 "''tok''"] show ?thesis by simp
qed

subsection \<open>Masking\<close>

text \<open>
  A mask gives away at most the last four characters and, below 24, the length: two secrets of at
  least five characters with the same last four and the same length up to 24 look the same, and a mask
  is never longer than 24 characters.
\<close>
theorem mask_hides:
  assumes "5 \<le> length s" "5 \<le> length t" "drop (length s - 4) s = drop (length t - 4) t" "min (length s) 24 = min (length t) 24"
  shows "maskSecret s = maskSecret t \<and> length (maskSecret s) \<le> 24"
  using assms by (auto simp: maskSecret_def)

theorem mask_hides_witness:
  "maskSecret ''abcdefghijklmnopqrstuvwxyz1234'' = maskSecret ''ABCDEFGHIJKLMNOPQRSTUVWXYZ0001234''"
  using mask_hides [of "''abcdefghijklmnopqrstuvwxyz1234''" "''ABCDEFGHIJKLMNOPQRSTUVWXYZ0001234''"] by simp

end
