(* ===== verification/Ai_Queue.thy ===== *)
theory Ai_Queue
  imports Prelude "HOL-Library.Word" "HOL-Library.Sublist"
begin

text \<open>
  \<open>lib/queue/crash-analysis.ts\<close> and \<open>lib/queue/ai-queue.ts\<close>: the rule set that explains a crash, and
  the queue of explanation jobs with its cache key. BullMQ is not part of the repository: a queue is
  the list of its jobs, and adding a job whose id it still holds adds nothing, as documented.
\<close>

subsection \<open>Crash analysis\<close>

datatype confidence = Low | Medium | High

record crash_analysis =
  ca_summary :: string
  ca_suggestedAction :: string
  ca_confidence :: confidence

record crash_rule =
  ru_pattern :: "string list"
  ru_summary :: string
  ru_suggestedAction :: string
  ru_confidence :: confidence

text \<open>A pattern \<open>/a|b|\<dots>/i\<close> of literal words matches a text that contains one of them in any case.\<close>

definition lower :: "string \<Rightarrow> string" where
  "lower = map (\<lambda>c. let n = of_char c :: nat in if 65 \<le> n \<and> n \<le> 90 then char_of (n + 32) else c)"

definition pattern_test :: "string list \<Rightarrow> string \<Rightarrow> bool" where
  "pattern_test words message \<longleftrightarrow> list_ex (\<lambda>word. sublist (lower word) (lower message)) words"

definition CRASH_RULES :: "crash_rule list" where
  "CRASH_RULES =
     [\<lparr>ru_pattern = [''4004'', ''invalid token'', ''401''],
       ru_summary = ''The bot's token appears to be invalid or was revoked.'',
       ru_suggestedAction = ''Rotate the bot's token from its detail page.'', ru_confidence = High\<rparr>,
      \<lparr>ru_pattern = [''4014'', ''disallowed intent''],
       ru_summary = ''Discord rejected a privileged intent the bot requested.'',
       ru_suggestedAction = ''Enable the required privileged intents (Presence/Server Members/Message Content) for this bot in the Discord Developer Portal.'',
       ru_confidence = High\<rparr>,
      \<lparr>ru_pattern = [''429'', ''rate limit''],
       ru_summary = ''The bot is being rate-limited by Discord.'',
       ru_suggestedAction = ''Check for a restart loop or excessive API calls; consider spacing out reconnect attempts.'',
       ru_confidence = Medium\<rparr>,
      \<lparr>ru_pattern = [''ECONNREFUSED'', ''ENOTFOUND'', ''ETIMEDOUT''],
       ru_summary = ''The bot's process couldn't reach Discord's network.'',
       ru_suggestedAction = ''Check the worker host's network/DNS connectivity.'', ru_confidence = Medium\<rparr>]"

definition analyzeCrash :: "string \<Rightarrow> crash_analysis" where
  "analyzeCrash errorMessage = (case find (\<lambda>r. pattern_test (ru_pattern r) errorMessage) CRASH_RULES of
     Some rule \<Rightarrow> \<lparr>ca_summary = ru_summary rule, ca_suggestedAction = ru_suggestedAction rule, ca_confidence = ru_confidence rule\<rparr>
   | None \<Rightarrow> \<lparr>ca_summary = ''No known pattern matched this error.'',
               ca_suggestedAction = ''Review the full logs manually for this bot.'', ca_confidence = Low\<rparr>)"

subsection \<open>Cache key\<close>

text \<open>\<open>hash = (hash * 31 + charCode) | 0\<close> on 32-bit integers, printed in base 36.\<close>

definition hash32 :: "string \<Rightarrow> 32 word" where
  "hash32 message = foldl (\<lambda>hash c. hash * 31 + of_nat (of_char c)) 0 message"

fun show_base36 :: "nat \<Rightarrow> string" where
  "show_base36 n = (if n < 36 then [''0123456789abcdefghijklmnopqrstuvwxyz'' ! n]
     else show_base36 (n div 36) @ [''0123456789abcdefghijklmnopqrstuvwxyz'' ! (n mod 36)])"

definition hashError :: "string \<Rightarrow> string" where
  "hashError message = show_base36 (nat \<bar>sint (hash32 message)\<bar>)"

record explain_job =
  ej_jobId :: string
  ej_botId :: string
  ej_errorMessage :: string

definition explain_jobId :: "string \<Rightarrow> string \<Rightarrow> string" where
  "explain_jobId botId errorMessage = ''explain-crash:'' @ botId @ '':'' @ hashError errorMessage"

text \<open>The queue is \<open>None\<close> when \<open>REDIS_URL\<close> is not set; then opening it throws.\<close>

definition enqueueCrashExplanation :: "string \<Rightarrow> string \<Rightarrow> (explain_job list option, string, string) run" where
  "enqueueCrashExplanation botId errorMessage = (\<lambda>q. case q of
     None \<Rightarrow> (Inl ''REDIS_URL is not set - the AI worker queue is not configured.'', q)
   | Some jobs \<Rightarrow> let jobId = explain_jobId botId errorMessage in
       (Inr jobId, Some (if jobId \<in> ej_jobId ` set jobs then jobs
         else jobs @ [\<lparr>ej_jobId = jobId, ej_botId = botId, ej_errorMessage = errorMessage\<rparr>])))"

definition getCrashExplanationJob :: "string \<Rightarrow> explain_job list \<Rightarrow> explain_job option" where
  "getCrashExplanationJob jobId jobs = find (\<lambda>j. ej_jobId j = jobId) jobs"

subsection \<open>Properties\<close>

lemma lower_append: "lower (s @ t) = lower s @ lower t"
  by (simp add: lower_def)

lemma lower_digits: "lower ''4014'' = ''4014''" "lower ''401'' = ''401''"
  by (simp_all add: lower_def Let_def)

text \<open>
  The rules are tried in order, and the first pattern contains the text of the second: every
  message with Discord's close code 4014 (disallowed intent) is explained as an invalid token.
\<close>
theorem disallowed_intent_misdiagnosed:
  "ca_summary (analyzeCrash (before @ ''4014'' @ after)) = ''The bot's token appears to be invalid or was revoked.''
    \<and> ca_suggestedAction (analyzeCrash (before @ ''4014'' @ after)) = ''Rotate the bot's token from its detail page.''"
proof -
  have "sublist ''401'' (lower before @ ''401'' @ (''4'' @ lower after))"
    by (rule sublist_appendI)
  then have "sublist (lower ''401'') (lower (before @ ''4014'' @ after))"
    by (simp only: lower_append lower_digits) simp
  then have "pattern_test [''4004'', ''invalid token'', ''401''] (before @ ''4014'' @ after)"
    by (simp add: pattern_test_def)
  then show ?thesis by (simp add: analyzeCrash_def CRASH_RULES_def)
qed

lemma hash32_append: "hash32 (s @ t) = foldl (\<lambda>hash c. hash * 31 + of_nat (of_char c)) (hash32 s) t"
  by (simp add: hash32_def)

lemma length_base36: "n < 36 ^ Suc k \<Longrightarrow> length (show_base36 n) \<le> Suc k"
proof (induction k arbitrary: n)
  case (Suc k)
  show ?case
  proof (cases "n < 36")
    case False
    have "n div 36 < 36 ^ Suc k" using Suc.prems by (simp add: less_mult_imp_div_less mult.commute)
    from Suc.IH [OF this] False show ?thesis by (simp del: power_Suc)
  qed simp
qed simp

text \<open>
  A cache key has at most six digits, and adding the same crash again returns the same job
  without adding one; but the key does not identify the message: replacing \<open>Aa\<close> by \<open>BB\<close> anywhere in it
  gives the same key, so a second, different crash of the bot is answered with the first one's job.
\<close>
theorem crash_jobs_are_shared:
  "length (hashError message) \<le> 6
    \<and> (case enqueueCrashExplanation b message (Some jobs) of (r, q) \<Rightarrow>
        enqueueCrashExplanation b message q = (r, q)
        \<and> (case r of Inr jobId \<Rightarrow> \<exists>j \<in> set (the q). ej_jobId j = jobId | Inl e \<Rightarrow> False))
    \<and> enqueueCrashExplanation b (p @ ''BB'' @ s) (snd (enqueueCrashExplanation b (p @ ''Aa'' @ s) (Some jobs))) =
        enqueueCrashExplanation b (p @ ''Aa'' @ s) (Some jobs)"
proof (intro conjI)
  have "\<bar>sint (hash32 message)\<bar> \<le> 2 ^ 31"
    using sint_greater_eq [of "hash32 message"] sint_less [of "hash32 message"] by (simp add: abs_le_iff)
  then have "nat \<bar>sint (hash32 message)\<bar> < 36 ^ Suc 5" by simp
  from length_base36 [OF this] show "length (hashError message) \<le> 6" by (simp add: hashError_def)
  have "hash32 (p @ ''BB'') = hash32 (p @ ''Aa'')" by (simp add: hash32_append algebra_simps)
  then have "hash32 ((p @ ''BB'') @ s) = hash32 ((p @ ''Aa'') @ s)" by (simp only: hash32_append)
  then have same: "explain_jobId b (p @ ''BB'' @ s) = explain_jobId b (p @ ''Aa'' @ s)"
    by (simp add: explain_jobId_def hashError_def)
  then show "enqueueCrashExplanation b (p @ ''BB'' @ s) (snd (enqueueCrashExplanation b (p @ ''Aa'' @ s) (Some jobs))) =
      enqueueCrashExplanation b (p @ ''Aa'' @ s) (Some jobs)"
    by (auto simp: enqueueCrashExplanation_def Let_def)
qed (auto simp: enqueueCrashExplanation_def Let_def)

end
