(* ===== verification/Panel.thy ===== *)
theory Panel
  imports Store Rebalance Secrets Ai_Queue
begin

text \<open>
  The admin panel's part of the control plane: customers, bots, workers, deployments and alerts
  (\<open>prisma/schema.prisma\<close>), who may call what (\<open>lib/require-admin.ts\<close>, \<open>lib/require-customer.ts\<close>), plan
  limits (\<open>lib/plans.ts\<close>), the maintenance switch (\<open>lib/system-state.ts\<close>), moving bots between workers
  (\<open>lib/worker-assignment.ts\<close>, \<open>lib/workers/drain.ts\<close>) and what leaves the server (\<open>lib/serialize.ts\<close>).
  Its functions are computations on the record \<open>panel\<close>. The rows leave out the columns no modelled
  function reads or writes, and \<open>updatedAt\<close>, which the ORM maintains by itself.
\<close>

subsection \<open>Rows\<close>

datatype role = RoleOwner | RoleAdmin | RoleMember

datatype plan_tier = PlanFree | PlanStarter | PlanPro | PlanEnterprise | PlanCustom

datatype bot_status =
  BsOnline | BsOffline | BsStarting | BsStopping | BsFailed | BsDisabled | BsExpired | BsRateLimited

datatype worker_mode = ModePm2 | ModeDocker

datatype assignment_status = AsActive | AsDraining | AsRemoved

datatype shard_status = ShConnected | ShConnecting | ShDisconnected | ShReconnecting

datatype alert_severity = SevInfo | SevWarning | SevError | SevCritical

datatype alert_status = AlOpen | AlAcknowledged | AlResolved

datatype deployment_status = DepPending | DepInProgress | DepSuccess | DepFailed | DepRolledBack

record user_row =
  us_id :: string
  us_name :: "string option"
  us_email :: "string option"
  us_discordUserId :: "string option"
  us_role :: role
  us_createdAt :: int

text \<open>A linked OAuth account, written by the Auth.js adapter.\<close>

record account_row =
  ax_userId :: string
  ax_provider :: string
  ax_providerAccountId :: string

record customer_row =
  cu_id :: string
  cu_ownerUserId :: string
  cu_name :: string
  cu_plan :: plan_tier
  cu_createdAt :: int

record bot_row =
  bo_id :: string
  bo_customerId :: string
  bo_name :: string
  bo_clientId :: string
  bo_tokenEncrypted :: string
  bo_publicKey :: "string option"
  bo_plan :: plan_tier
  bo_status :: bot_status
  bo_guildLimit :: int
  bo_shardCount :: int
  bo_workerGroupId :: "string option"
  bo_lastReadyAt :: "int option"
  bo_lastHeartbeatAt :: "int option"
  bo_createdAt :: int

record health_row =
  bh_botId :: string
  bh_status :: bot_status
  bh_guildCount :: int
  bh_restartCount :: int
  bh_lastErrorSafe :: "string option"

record worker_row =
  wk_id :: string
  wk_name :: string
  wk_mode :: worker_mode
  wk_status :: worker_status
  wk_host :: "string option"
  wk_maxBots :: int
  wk_currentBots :: int
  wk_memoryMb :: "int option"
  wk_createdAt :: int

record assignment_row =
  as_workerId :: string
  as_botId :: string
  as_status :: assignment_status

record alert_row =
  al_eventType :: string
  al_severity :: alert_severity
  al_title :: string
  al_message :: string
  al_status :: alert_status
  al_createdAt :: int

record shard_row =
  sh_botId :: string
  sh_shardId :: int
  sh_status :: shard_status

record webhook_row =
  wh_id :: string
  wh_name :: string
  wh_urlEncrypted :: string
  wh_enabled :: bool
  wh_eventsJson :: "string list"
  wh_lastSuccessAt :: "int option"
  wh_lastFailureAt :: "int option"
  wh_createdAt :: int

record deployment_row =
  dp_id :: string
  dp_version :: string
  dp_commitSha :: string
  dp_status :: deployment_status
  dp_deployedById :: "string option"
  dp_startedAt :: "int option"
  dp_finishedAt :: "int option"
  dp_notes :: "string option"

text \<open>A job of the restart queue; the queue is \<open>None\<close> when \<open>REDIS_URL\<close> is not set.\<close>

record restart_job =
  rj_botId :: string
  rj_deploymentId :: string
  rj_actorUserId :: string
  rj_delay :: int
  rj_jobId :: string

text \<open>What is asked of PM2 and of Docker, which are not part of the repository, and their answers.\<close>

datatype runner_call =
  PmStart string "(string \<times> string) list" | PmStop string | PmDelete string | PmRestart string
| DkFind string | DkRemove string | DkCreate string "(string \<times> string) list" | DkStart string | DkStop string | DkRestart string

datatype reply = ReplyOk | ReplyMissing | ReplyError

record panel_platform =
  pp_cuid :: "nat \<Rightarrow> string"
  pp_runner :: "runner_call list \<Rightarrow> runner_call \<Rightarrow> reply"
  pp_crypto :: crypto
  pp_env :: "string \<Rightarrow> string option"
  pp_nodeVersion :: string
  pp_isoString :: "int \<Rightarrow> string"
  pp_safeParse :: "schema \<Rightarrow> json option \<Rightarrow> issue list + json option"
  pp_flatten :: "issue list \<Rightarrow> json"

definition pp_encryptionKey :: "panel_platform \<Rightarrow> string option" where
  "pp_encryptionKey pp = pp_env pp ''BOTFLEET_ENCRYPTION_KEY''"

record panel =
  pn_now :: int
  pn_seq :: nat
  pn_users :: "user_row list"
  pn_accounts :: "account_row list"
  pn_customers :: "customer_row list"
  pn_bots :: "bot_row list"
  pn_health :: "health_row list"
  pn_workers :: "worker_row list"
  pn_assignments :: "assignment_row list"
  pn_alerts :: "alert_row list"
  pn_shards :: "shard_row list"
  pn_webhooks :: "webhook_row list"
  pn_deployments :: "deployment_row list"
  pn_maintenance :: "bool option"
  pn_restarts :: "restart_job list option"
  pn_explain :: "explain_job list option"
  pn_calls :: "runner_call list"
  pn_audit :: "audit_row list"

datatype panel_exn =
  RowNotFound | ForeignKey | SecretError secret_error | RunnerError
| UniqueViolation | BodyNotJson | FetchFailed | BotNotFoundError | WorkerNotFoundError | QueueNotConfigured
| InvalidArgument

type_synonym 'a pact = "(panel, panel_exn, 'a) run"

interpretation bots: keyed_table bo_id pn_bots pn_bots_update
  by unfold_locales simp

interpretation workers: keyed_table wk_id pn_workers pn_workers_update
  by unfold_locales simp

interpretation users: keyed_table us_id pn_users pn_users_update
  by unfold_locales simp

definition panel_audit :: "string option \<Rightarrow> string \<Rightarrow> string \<Rightarrow> string \<Rightarrow> json option \<Rightarrow> unit pact" where
  "panel_audit actor action targetType targetId metadata =
     modify (\<lambda>s. s\<lparr>pn_audit := pn_audit s @
       [\<lparr>au_actorUserId = actor, au_action = action, au_targetType = targetType, au_targetId = targetId,
         au_metadataJson = metadata, au_createdAt = pn_now s\<rparr>]\<rparr>)"

definition panel_cuid :: "panel_platform \<Rightarrow> string pact" where
  "panel_cuid pp = (\<lambda>s. (Inr (pp_cuid pp (pn_seq s)), s\<lparr>pn_seq := Suc (pn_seq s)\<rparr>))"

text \<open>\<open>db.x.update({where: {id}})\<close> throws when there is no such row.\<close>

definition update_bot :: "string \<Rightarrow> (bot_row \<Rightarrow> bot_row) \<Rightarrow> unit pact" where
  "update_bot i g = (\<lambda>s. if findBy bo_id i (pn_bots s) = None then (Inl RowNotFound, s)
     else (Inr (), s\<lparr>pn_bots := updateWhere (\<lambda>r. bo_id r = i) g (pn_bots s)\<rparr>))"

definition update_worker :: "string \<Rightarrow> (worker_row \<Rightarrow> worker_row) \<Rightarrow> unit pact" where
  "update_worker i g = (\<lambda>s. if findBy wk_id i (pn_workers s) = None then (Inl RowNotFound, s)
     else (Inr (), s\<lparr>pn_workers := updateWhere (\<lambda>r. wk_id r = i) g (pn_workers s)\<rparr>))"

subsection \<open>Plans\<close>

record plan_limits =
  pl_maxBots :: int
  pl_maxGuildsPerBot :: int
  pl_maxShardsPerBot :: int
  pl_logRetentionDays :: int
  pl_restartControlsAllowed :: bool
  pl_customBrandingAllowed :: bool
  pl_priorityWorkerAllowed :: bool
  pl_aiWorkerAllowed :: bool

fun getPlanLimits :: "plan_tier \<Rightarrow> plan_limits" where
  "getPlanLimits PlanFree = \<lparr>pl_maxBots = 1, pl_maxGuildsPerBot = 50, pl_maxShardsPerBot = 1, pl_logRetentionDays = 3,
     pl_restartControlsAllowed = False, pl_customBrandingAllowed = False, pl_priorityWorkerAllowed = False, pl_aiWorkerAllowed = False\<rparr>"
| "getPlanLimits PlanStarter = \<lparr>pl_maxBots = 3, pl_maxGuildsPerBot = 250, pl_maxShardsPerBot = 2, pl_logRetentionDays = 7,
     pl_restartControlsAllowed = True, pl_customBrandingAllowed = False, pl_priorityWorkerAllowed = False, pl_aiWorkerAllowed = False\<rparr>"
| "getPlanLimits PlanPro = \<lparr>pl_maxBots = 10, pl_maxGuildsPerBot = 2500, pl_maxShardsPerBot = 8, pl_logRetentionDays = 30,
     pl_restartControlsAllowed = True, pl_customBrandingAllowed = True, pl_priorityWorkerAllowed = True, pl_aiWorkerAllowed = True\<rparr>"
| "getPlanLimits PlanEnterprise = \<lparr>pl_maxBots = 100, pl_maxGuildsPerBot = 100000, pl_maxShardsPerBot = 256, pl_logRetentionDays = 90,
     pl_restartControlsAllowed = True, pl_customBrandingAllowed = True, pl_priorityWorkerAllowed = True, pl_aiWorkerAllowed = True\<rparr>"
| "getPlanLimits PlanCustom = \<lparr>pl_maxBots = 10, pl_maxGuildsPerBot = 2500, pl_maxShardsPerBot = 8, pl_logRetentionDays = 30,
     pl_restartControlsAllowed = True, pl_customBrandingAllowed = True, pl_priorityWorkerAllowed = True, pl_aiWorkerAllowed = True\<rparr>"

fun plan_name :: "plan_tier \<Rightarrow> string" where
  "plan_name PlanFree = ''free''"
| "plan_name PlanStarter = ''starter''"
| "plan_name PlanPro = ''pro''"
| "plan_name PlanEnterprise = ''enterprise''"
| "plan_name PlanCustom = ''custom''"

text \<open>The three assertions: the message of the \<open>PlanLimitError\<close>, if one is thrown.\<close>

definition assertGuildLimitWithinPlan :: "plan_tier \<Rightarrow> int \<Rightarrow> string option" where
  "assertGuildLimitWithinPlan plan guildLimit = (let limits = getPlanLimits plan in
     if guildLimit > pl_maxGuildsPerBot limits
     then Some (''Guild limit '' @ show_int guildLimit @ '' exceeds the '' @ plan_name plan @ '' plan's cap of ''
       @ show_int (pl_maxGuildsPerBot limits) @ ''.'') else None)"

definition assertShardCountWithinPlan :: "plan_tier \<Rightarrow> int \<Rightarrow> string option" where
  "assertShardCountWithinPlan plan shardCount = (let limits = getPlanLimits plan in
     if shardCount > pl_maxShardsPerBot limits
     then Some (''Shard count '' @ show_int shardCount @ '' exceeds the '' @ plan_name plan @ '' plan's cap of ''
       @ show_int (pl_maxShardsPerBot limits) @ ''.'') else None)"

definition assertBotCountWithinPlan :: "plan_tier \<Rightarrow> int \<Rightarrow> string option" where
  "assertBotCountWithinPlan plan currentBotCount = (let limits = getPlanLimits plan in
     if currentBotCount \<ge> pl_maxBots limits
     then Some (''This customer already has '' @ show_int currentBotCount @ '' bot(s), the '' @ plan_name plan @ '' plan's cap.'')
     else None)"

subsection \<open>Maintenance mode\<close>

definition SINGLETON_ID :: string where
  "SINGLETON_ID = ''singleton''"

definition isMaintenanceModeEnabled :: "panel \<Rightarrow> bool" where
  "isMaintenanceModeEnabled s = (case pn_maintenance s of None \<Rightarrow> False | Some b \<Rightarrow> b)"

definition setMaintenanceMode :: "bool \<Rightarrow> string \<Rightarrow> unit pact" where
  "setMaintenanceMode enabled actor =
     andThen (modify (\<lambda>s. s\<lparr>pn_maintenance := Some enabled\<rparr>))
       (\<lambda>_. panel_audit (Some actor) (if enabled then ''system.maintenance_mode_enabled'' else ''system.maintenance_mode_disabled'')
          ''system_state'' SINGLETON_ID None)"

subsection \<open>Roles and severities are ordered\<close>

text \<open>
  What the guards and the filters of the sources compare by listing members of an enum is an order: a
  member is below an administrator, who is below an owner, and severities rise from info to critical.
\<close>

fun role_rank :: "role \<Rightarrow> nat" where
  "role_rank RoleMember = 0"
| "role_rank RoleAdmin = 1"
| "role_rank RoleOwner = 2"

lemma role_rank_inj: "role_rank a = role_rank b \<longleftrightarrow> a = b"
  by (cases a; cases b) simp_all

instantiation role :: linorder
begin

definition less_eq_role :: "role \<Rightarrow> role \<Rightarrow> bool" where
  "less_eq_role a b \<longleftrightarrow> role_rank a \<le> role_rank b"

definition less_role :: "role \<Rightarrow> role \<Rightarrow> bool" where
  "less_role a b \<longleftrightarrow> role_rank a < role_rank b"

instance
  by standard (auto simp: less_eq_role_def less_role_def role_rank_inj)

end

fun severity_rank :: "alert_severity \<Rightarrow> nat" where
  "severity_rank SevInfo = 0"
| "severity_rank SevWarning = 1"
| "severity_rank SevError = 2"
| "severity_rank SevCritical = 3"

lemma severity_rank_inj: "severity_rank a = severity_rank b \<longleftrightarrow> a = b"
  by (cases a; cases b) simp_all

instantiation alert_severity :: linorder
begin

definition less_eq_alert_severity :: "alert_severity \<Rightarrow> alert_severity \<Rightarrow> bool" where
  "less_eq_alert_severity a b \<longleftrightarrow> severity_rank a \<le> severity_rank b"

definition less_alert_severity :: "alert_severity \<Rightarrow> alert_severity \<Rightarrow> bool" where
  "less_alert_severity a b \<longleftrightarrow> severity_rank a < severity_rank b"

instance
  by standard (auto simp: less_eq_alert_severity_def less_alert_severity_def severity_rank_inj)

end

end
