(* ===== verification/Fleet.thy ===== *)
theory Fleet
  imports Panel
begin

text \<open>
  \<open>lib/worker-assignment.ts\<close> and \<open>lib/workers/drain.ts\<close>: the only code that moves a bot between
  workers, and draining a worker with it. The cached counter of a worker and the join table are views
  of one relation, the worker group of each bot; \<open>fleet_ok\<close> says that they agree with it.
\<close>

subsection \<open>Moving a bot\<close>

definition leave_worker :: "string \<Rightarrow> string option \<Rightarrow> unit pact" where
  "leave_worker botId oldWorkerId = (case truthy oldWorkerId of
     None \<Rightarrow> ret ()
   | Some old \<Rightarrow> andThen (update_worker old (\<lambda>w. w\<lparr>wk_currentBots := wk_currentBots w - 1\<rparr>)) (\<lambda>_.
       modify (\<lambda>s. s\<lparr>pn_assignments := updateWhere
         (\<lambda>a. as_workerId a = old \<and> as_botId a = botId \<and> as_status a = AsActive)
         (\<lambda>a. a\<lparr>as_status := AsRemoved\<rparr>) (pn_assignments s)\<rparr>)))"

definition join_worker :: "string \<Rightarrow> string option \<Rightarrow> unit pact" where
  "join_worker botId newWorkerId = (case truthy newWorkerId of
     None \<Rightarrow> ret ()
   | Some new \<Rightarrow> andThen (update_worker new (\<lambda>w. w\<lparr>wk_currentBots := wk_currentBots w + 1\<rparr>)) (\<lambda>_.
       modify (\<lambda>s. s\<lparr>pn_assignments := pn_assignments s @
         [\<lparr>as_workerId = new, as_botId = botId, as_status = AsActive\<rparr>]\<rparr>)))"

text \<open>The column \<open>worker_group_id\<close> references the workers.\<close>

definition set_group :: "string \<Rightarrow> string option \<Rightarrow> unit pact" where
  "set_group botId newWorkerId = (\<lambda>s.
     if (case newWorkerId of None \<Rightarrow> False | Some w \<Rightarrow> w \<notin> wk_id ` set (pn_workers s)) then (Inl ForeignKey, s)
     else update_bot botId (\<lambda>b. b\<lparr>bo_workerGroupId := newWorkerId\<rparr>) s)"

definition setBotWorker :: "string \<Rightarrow> string option \<Rightarrow> unit pact" where
  "setBotWorker botId newWorkerId = transaction (\<lambda>s. case findBy bo_id botId (pn_bots s) of
     None \<Rightarrow> (Inl RowNotFound, s)
   | Some bot_ \<Rightarrow>
       if bo_workerGroupId bot_ = newWorkerId then (Inr (), s)
       else andThen (leave_worker botId (bo_workerGroupId bot_)) (\<lambda>_.
         andThen (join_worker botId newWorkerId) (\<lambda>_. set_group botId newWorkerId)) s)"

subsection \<open>Draining a worker\<close>

record drain_worker_result =
  dw_movedBotIds :: "string list"
  dw_strandedBotIds :: "string list"

definition rebalance_worker_of :: "worker_row \<Rightarrow> rebalance_worker" where
  "rebalance_worker_of w = \<lparr>rw_id = wk_id w, rw_name = wk_name w, rw_maxBots = wk_maxBots w,
     rw_currentBots = wk_currentBots w, rw_status = wk_status w\<rparr>"

definition rebalance_bot_of :: "bot_row \<Rightarrow> rebalance_bot" where
  "rebalance_bot_of b = \<lparr>rb_id = bo_id b, rb_name = bo_name b, rb_workerGroupId = bo_workerGroupId b\<rparr>"

definition rebalance_recommendations :: "panel \<Rightarrow> recommendation list" where
  "rebalance_recommendations s =
     computeRebalanceRecommendations (map rebalance_worker_of (pn_workers s)) (map rebalance_bot_of (pn_bots s))"

definition drain_recommendations :: "string \<Rightarrow> panel \<Rightarrow> recommendation list" where
  "drain_recommendations workerId s = filter (\<lambda>r. rm_fromWorkerId r = Some workerId)
     (computeRebalanceRecommendations
       (map (\<lambda>w. if wk_id w = workerId then (rebalance_worker_of w)\<lparr>rw_status := WkDraining\<rparr> else rebalance_worker_of w) (pn_workers s))
       (map rebalance_bot_of (pn_bots s)))"

definition apply_moves :: "recommendation list \<Rightarrow> string list pact" where
  "apply_moves recs = forEach recs [] (\<lambda>rec moved.
     andThen (setBotWorker (rm_botId rec) (Some (rm_toWorkerId rec))) (\<lambda>_. ret (moved @ [rm_botId rec])))"

definition stranded_bots :: "string \<Rightarrow> panel \<Rightarrow> string list" where
  "stranded_bots workerId s = map bo_id (filter (\<lambda>b. bo_workerGroupId b = Some workerId) (pn_bots s))"

definition id_list :: "string list \<Rightarrow> json" where
  "id_list ids = JArr (map JStr ids)"

definition finish_worker_drain :: "string \<Rightarrow> string \<Rightarrow> string list \<Rightarrow> drain_worker_result pact" where
  "finish_worker_drain workerId actorUserId moved = (\<lambda>s.
     let stranded = stranded_bots workerId s in
     andThen (if stranded = [] then update_worker workerId (\<lambda>w. w\<lparr>wk_status := WkOffline\<rparr>) else ret ()) (\<lambda>_.
       andThen (panel_audit (Some actorUserId) ''worker.drain'' ''worker'' workerId
           (Some (JObj [(''movedBotIds'', id_list moved), (''strandedBotIds'', id_list stranded)])))
         (\<lambda>_. ret \<lparr>dw_movedBotIds = moved, dw_strandedBotIds = stranded\<rparr>)) s)"

definition drainWorker :: "string \<Rightarrow> string \<Rightarrow> drain_worker_result pact" where
  "drainWorker workerId actorUserId = (\<lambda>s.
     if findBy wk_id workerId (pn_workers s) = None then (Inl WorkerNotFoundError, s)
     else andThen (update_worker workerId (\<lambda>w. w\<lparr>wk_status := WkDraining\<rparr>)) (\<lambda>_ s.
       andThen (apply_moves (drain_recommendations workerId s)) (finish_worker_drain workerId actorUserId) s) s)"

subsection \<open>The counters and the join table follow the bots\<close>

definition group_size :: "string \<Rightarrow> bot_row list \<Rightarrow> int" where
  "group_size i bots = int (length (filter (\<lambda>b. bo_workerGroupId b = Some i) bots))"

definition active_workers :: "string \<Rightarrow> assignment_row list \<Rightarrow> string list" where
  "active_workers b rows = map as_workerId (filter (\<lambda>a. as_botId a = b \<and> as_status a = AsActive) rows)"

definition group_list :: "bot_row \<Rightarrow> string list" where
  "group_list b = (case bo_workerGroupId b of None \<Rightarrow> [] | Some i \<Rightarrow> [i])"

definition fleet_ok :: "panel \<Rightarrow> bool" where
  "fleet_ok s \<longleftrightarrow> distinct (map bo_id (pn_bots s)) \<and> distinct (map wk_id (pn_workers s)) \<and> [] \<notin> wk_id ` set (pn_workers s)
     \<and> (\<forall>b \<in> set (pn_bots s). set (group_list b) \<subseteq> wk_id ` set (pn_workers s))
     \<and> (\<forall>w \<in> set (pn_workers s). wk_currentBots w = group_size (wk_id w) (pn_bots s))
     \<and> (\<forall>b \<in> set (pn_bots s). active_workers (bo_id b) (pn_assignments s) = group_list b)
     \<and> (\<forall>a \<in> set (pn_assignments s). as_botId a \<in> bo_id ` set (pn_bots s))"

definition regroup :: "string \<Rightarrow> string option \<Rightarrow> bot_row list \<Rightarrow> bot_row list" where
  "regroup i g = updateWhere (\<lambda>b. bo_id b = i) (\<lambda>b. b\<lparr>bo_workerGroupId := g\<rparr>)"

definition count_by :: "string option \<Rightarrow> int \<Rightarrow> worker_row list \<Rightarrow> worker_row list" where
  "count_by g d = updateWhere (\<lambda>w. Some (wk_id w) = g) (\<lambda>w. w\<lparr>wk_currentBots := wk_currentBots w + d\<rparr>)"

lemma regroup_keys [simp]: "map bo_id (regroup i g bots) = map bo_id bots"
  and count_by_keys [simp]: "map wk_id (count_by g' d ws) = map wk_id ws"
  by (simp_all add: regroup_def count_by_def updateWhere_keys)

lemma regroup_ids [simp]: "bo_id ` set (regroup i g bots) = bo_id ` set bots"
  and count_by_ids [simp]: "wk_id ` set (count_by g' d ws) = wk_id ` set ws"
  by (simp_all flip: set_map)

lemma group_size_regroup:
  assumes "distinct (map bo_id bots)" "findBy bo_id i bots = Some b"
  shows "group_size j (regroup i g bots) = group_size j bots
    + (if g = Some j then 1 else 0) - (if bo_workerGroupId b = Some j then 1 else 0)"
  using assms
proof (induction bots)
  case (Cons c bots)
  show ?case
  proof (cases "bo_id c = i")
    case True
    then have "i \<notin> bo_id ` set bots" using Cons.prems(1) by auto
    then have "regroup i g bots = bots" unfolding regroup_def by (intro updateWhere_other) (metis imageI)
    with True Cons.prems(2) show ?thesis by (auto simp: group_size_def regroup_def)
  next
    case False
    with Cons show ?thesis by (auto simp: group_size_def regroup_def)
  qed
qed simp

definition after_move :: "string \<Rightarrow> string option \<Rightarrow> string option \<Rightarrow> panel \<Rightarrow> panel" where
  "after_move i old new s = s\<lparr>pn_bots := regroup i new (pn_bots s),
     pn_workers := count_by new 1 (count_by old (- 1) (pn_workers s)),
     pn_assignments := updateWhere (\<lambda>a. Some (as_workerId a) = old \<and> as_botId a = i \<and> as_status a = AsActive)
         (\<lambda>a. a\<lparr>as_status := AsRemoved\<rparr>) (pn_assignments s)
       @ (case new of None \<Rightarrow> [] | Some n \<Rightarrow> [\<lparr>as_workerId = n, as_botId = i, as_status = AsActive\<rparr>])\<rparr>"

abbreviation known_worker :: "string option \<Rightarrow> panel \<Rightarrow> bool" where
  "known_worker g s \<equiv> (case g of None \<Rightarrow> True | Some i \<Rightarrow> i \<noteq> [] \<and> i \<in> wk_id ` set (pn_workers s))"

lemma updateWhere_never: "updateWhere (\<lambda>r. False) g rows = rows"
  by (simp add: updateWhere_def)

lemma leave_worker_run:
  assumes "known_worker old s"
  shows "leave_worker i old s = (Inr (), s\<lparr>pn_workers := count_by old (- 1) (pn_workers s),
    pn_assignments := updateWhere (\<lambda>a. Some (as_workerId a) = old \<and> as_botId a = i \<and> as_status a = AsActive)
      (\<lambda>a. a\<lparr>as_status := AsRemoved\<rparr>) (pn_assignments s)\<rparr>)"
  using assms by (auto simp: leave_worker_def count_by_def updateWhere_never run_simps truthy_if update_worker_def
      andThen_def findBy_None split: option.splits)

lemma join_worker_run:
  assumes "known_worker new s"
  shows "join_worker i new s = (Inr (), s\<lparr>pn_workers := count_by new 1 (pn_workers s),
    pn_assignments := pn_assignments s @ (case new of None \<Rightarrow> [] | Some n \<Rightarrow> [\<lparr>as_workerId = n, as_botId = i, as_status = AsActive\<rparr>])\<rparr>)"
  using assms by (auto simp: join_worker_def count_by_def updateWhere_never run_simps truthy_if update_worker_def
      andThen_def findBy_None split: option.splits)

lemma set_group_run:
  assumes "known_worker new s" "i \<in> bo_id ` set (pn_bots s)"
  shows "set_group i new s = (Inr (), s\<lparr>pn_bots := regroup i new (pn_bots s)\<rparr>)"
  using assms by (auto simp: set_group_def regroup_def update_bot_def findBy_None split: option.splits)

lemma known_group:
  assumes "fleet_ok s" "b \<in> set (pn_bots s)"
  shows "known_worker (bo_workerGroupId b) s"
  using assms by (fastforce simp: fleet_ok_def group_list_def split: option.splits)

lemma setBotWorker_moves:
  assumes "fleet_ok s" "findBy bo_id i (pn_bots s) = Some b" "known_worker new s" "bo_workerGroupId b \<noteq> new"
  shows "setBotWorker i new s = (Inr (), after_move i (bo_workerGroupId b) new s)"
proof -
  have b: "b \<in> set (pn_bots s)" "bo_id b = i" using assms(2) by (auto dest: findBy_in findBy_key)
  let ?s1 = "s\<lparr>pn_workers := count_by (bo_workerGroupId b) (- 1) (pn_workers s),
    pn_assignments := updateWhere (\<lambda>a. Some (as_workerId a) = bo_workerGroupId b \<and> as_botId a = i \<and> as_status a = AsActive)
      (\<lambda>a. a\<lparr>as_status := AsRemoved\<rparr>) (pn_assignments s)\<rparr>"
  have k: "known_worker new ?s1" using assms(3) by (auto split: option.splits)
  have "join_worker i new ?s1 = (Inr (), ?s1\<lparr>pn_workers := count_by new 1 (pn_workers ?s1),
      pn_assignments := pn_assignments ?s1 @ (case new of None \<Rightarrow> [] | Some n \<Rightarrow> [\<lparr>as_workerId = n, as_botId = i, as_status = AsActive\<rparr>])\<rparr>)"
      (is "_ = (Inr (), ?s2)") by (rule join_worker_run [OF k])
  moreover have "known_worker new ?s2" "i \<in> bo_id ` set (pn_bots ?s2)"
    using assms(3) b by (auto split: option.splits)
  from set_group_run [OF this] have "set_group i new ?s2 = (Inr (), after_move i (bo_workerGroupId b) new s)"
    by (simp add: after_move_def)
  ultimately show ?thesis
    using assms(2,4) by (simp add: setBotWorker_def transaction_def andThen_def leave_worker_run [OF known_group [OF assms(1) b(1)]])
qed

lemma setBotWorker_same:
  "findBy bo_id i (pn_bots s) = Some b \<Longrightarrow> bo_workerGroupId b = new \<Longrightarrow> setBotWorker i new s = (Inr (), s)"
  by (simp add: setBotWorker_def transaction_def)

lemma setBotWorker_missing: "findBy bo_id i (pn_bots s) = None \<Longrightarrow> setBotWorker i new s = (Inl RowNotFound, s)"
  by (simp add: setBotWorker_def transaction_def)

lemma setBotWorker_unknown:
  assumes "fleet_ok s" "findBy bo_id i (pn_bots s) = Some b" "\<not> known_worker new s"
  shows "\<exists>e. setBotWorker i new s = (Inl e, s)"
proof -
  have b: "b \<in> set (pn_bots s)" using assms(2) by (rule findBy_in)
  have n: "new = Some n \<Longrightarrow> n = [] \<or> n \<notin> wk_id ` set (pn_workers s)" for n using assms(3) by auto
  obtain n where new: "new = Some n" using assms(3) by (cases new) auto
  have "bo_workerGroupId b \<noteq> new" using known_group [OF assms(1) b] assms(3) by auto
  moreover have "[] \<notin> wk_id ` set (pn_workers s)" using assms(1) by (simp add: fleet_ok_def)
  with n [OF new] have out: "n \<notin> wk_id ` set (pn_workers s)" by metis
  let ?s1 = "snd (leave_worker i (bo_workerGroupId b) s)"
  have "wk_id ` set (pn_workers ?s1) = wk_id ` set (pn_workers s)"
    by (simp add: leave_worker_run [OF known_group [OF assms(1) b]])
  with out have out1: "n \<notin> wk_id ` set (pn_workers ?s1)" by simp
  have "\<exists>e t. andThen (join_worker i new) (\<lambda>_. set_group i new) ?s1 = (Inl e, t)"
  proof (cases "n = []")
    case True
    with new out1 show ?thesis by (simp add: join_worker_def run_simps set_group_def)
  next
    case False
    with new out1 show ?thesis
      by (simp add: join_worker_def truthy_if update_worker_def andThen_def findBy_None)
  qed
  ultimately show ?thesis using assms(2)
    by (auto simp: setBotWorker_def transaction_def andThen_def [of "leave_worker _ _"] leave_worker_run [OF known_group [OF assms(1) b]])
qed

lemma active_workers_append [simp]: "active_workers i (rows @ rows') = active_workers i rows @ active_workers i rows'"
  by (simp add: active_workers_def)

lemma active_workers_simps [simp]:
  "active_workers j [] = []"
  "active_workers j [\<lparr>as_workerId = n, as_botId = i, as_status = AsActive\<rparr>] = (if j = i then [n] else [])"
  by (simp_all add: active_workers_def)

lemma active_workers_removed:
  "active_workers j (updateWhere (\<lambda>a. Some (as_workerId a) = old \<and> as_botId a = i \<and> as_status a = AsActive)
      (\<lambda>a. a\<lparr>as_status := AsRemoved\<rparr>) rows) =
    (if j = i then filter (\<lambda>w. Some w \<noteq> old) (active_workers j rows) else active_workers j rows)"
  by (induction rows) (auto simp: active_workers_def)

lemma count_by_cases:
  assumes "w \<in> set (count_by g d ws)"
  obtains w0 where "w0 \<in> set ws" "w = w0\<lparr>wk_currentBots := wk_currentBots w0 + (if Some (wk_id w0) = g then d else 0)\<rparr>"
  using assms by (auto simp: count_by_def set_updateWhere)

lemma after_move_ok:
  assumes ok: "fleet_ok s" and b: "findBy bo_id i (pn_bots s) = Some b" and new: "known_worker new s"
    and ne: "bo_workerGroupId b \<noteq> new"
  shows "fleet_ok (after_move i (bo_workerGroupId b) new s)"
  unfolding fleet_ok_def
proof (intro conjI ballI)
  let ?t = "after_move i (bo_workerGroupId b) new s"
  have keys: "map bo_id (pn_bots ?t) = map bo_id (pn_bots s)" "map wk_id (pn_workers ?t) = map wk_id (pn_workers s)"
    by (simp_all add: after_move_def)
  then have ids: "bo_id ` set (pn_bots ?t) = bo_id ` set (pn_bots s)" "wk_id ` set (pn_workers ?t) = wk_id ` set (pn_workers s)"
    by (simp_all flip: set_map)
  show "distinct (map bo_id (pn_bots ?t))" "distinct (map wk_id (pn_workers ?t))" "[] \<notin> wk_id ` set (pn_workers ?t)"
    using ok by (simp_all add: keys ids fleet_ok_def)
  have origin: "\<exists>c0 \<in> set (pn_bots s). bo_id c0 = bo_id c \<and> (if bo_id c = i then bo_workerGroupId c = new else c = c0)"
    if "c \<in> set (pn_bots ?t)" for c
  proof -
    from that obtain c0 where c0: "c0 \<in> set (pn_bots s)" "c = (if bo_id c0 = i then c0\<lparr>bo_workerGroupId := new\<rparr> else c0)"
      unfolding after_move_def regroup_def by (auto simp: set_updateWhere)
    from c0(2) show ?thesis by (intro bexI [OF _ c0(1)]) simp
  qed
  have bi: "b \<in> set (pn_bots s)" "bo_id b = i" using b by (auto dest: findBy_in findBy_key)
  have uniq: "c0 = b" if "c0 \<in> set (pn_bots s)" "bo_id c0 = i" for c0
    using findBy_Some_distinct [of bo_id "pn_bots s" c0] that b ok by (simp add: fleet_ok_def)
  show "set (group_list c) \<subseteq> wk_id ` set (pn_workers ?t)" if "c \<in> set (pn_bots ?t)" for c
    using origin [OF that] ok new by (auto simp: ids fleet_ok_def group_list_def split: if_splits option.splits)
  show "wk_currentBots w = group_size (wk_id w) (pn_bots ?t)" if "w \<in> set (pn_workers ?t)" for w
  proof -
    have "w \<in> set (count_by new 1 (count_by (bo_workerGroupId b) (- 1) (pn_workers s)))"
      using that by (simp add: after_move_def)
    then obtain w1 where w1: "w1 \<in> set (count_by (bo_workerGroupId b) (- 1) (pn_workers s))"
        "w = w1\<lparr>wk_currentBots := wk_currentBots w1 + (if Some (wk_id w1) = new then 1 else 0)\<rparr>"
      by (rule count_by_cases)
    from w1(1) obtain w0 where w0: "w0 \<in> set (pn_workers s)"
        "w1 = w0\<lparr>wk_currentBots := wk_currentBots w0 + (if Some (wk_id w0) = bo_workerGroupId b then - 1 else 0)\<rparr>"
      by (rule count_by_cases)
    have "wk_id w = wk_id w0" "wk_currentBots w = wk_currentBots w0
        + (if Some (wk_id w0) = bo_workerGroupId b then - 1 else 0) + (if Some (wk_id w0) = new then 1 else 0)"
      using w0(2) w1(2) by simp_all
    moreover note w0(1)
    moreover have "group_size j (pn_bots ?t) = group_size j (pn_bots s) + (if new = Some j then 1 else 0)
        - (if bo_workerGroupId b = Some j then 1 else 0)" for j
      using group_size_regroup [OF _ b] ok by (simp add: after_move_def fleet_ok_def)
    ultimately show ?thesis using ok by (auto simp: fleet_ok_def)
  qed
  show "active_workers (bo_id c) (pn_assignments ?t) = group_list c" if c: "c \<in> set (pn_bots ?t)" for c
  proof -
    obtain c0 where c0: "c0 \<in> set (pn_bots s)" "bo_id c0 = bo_id c" "if bo_id c = i then bo_workerGroupId c = new else c = c0"
      using origin [OF c] by blast
    have "active_workers (bo_id c0) (pn_assignments s) = group_list c0" using ok c0(1) by (simp add: fleet_ok_def)
    then show ?thesis
      using c0 uniq [OF c0(1)]
      by (cases "bo_id c = i")
        (auto simp: after_move_def active_workers_removed group_list_def split: option.splits)
  qed
  show "as_botId a \<in> bo_id ` set (pn_bots ?t)" if "a \<in> set (pn_assignments ?t)" for a
    using that ok bi by (force simp: ids after_move_def fleet_ok_def set_updateWhere split: option.splits if_splits)
qed

lemma setBotWorker_ok: "fleet_ok s \<Longrightarrow> fleet_ok (snd (setBotWorker i new s))"
proof -
  assume ok: "fleet_ok s"
  show ?thesis
  proof (cases "findBy bo_id i (pn_bots s)")
    case None
    with ok show ?thesis by (simp add: setBotWorker_missing)
  next
    case (Some b)
    consider "bo_workerGroupId b = new" | "bo_workerGroupId b \<noteq> new" "known_worker new s" | "\<not> known_worker new s" by blast
    then show ?thesis
    proof cases
      case 1
      with Some ok show ?thesis by (simp add: setBotWorker_same)
    next
      case 2
      with Some ok show ?thesis by (simp add: setBotWorker_moves after_move_ok)
    next
      case 3
      from setBotWorker_unknown [OF ok Some this] ok show ?thesis by auto
    qed
  qed
qed

subsection \<open>A series of moves away from one worker\<close>

definition valid_moves :: "string \<Rightarrow> recommendation list \<Rightarrow> panel \<Rightarrow> bool" where
  "valid_moves d rs s \<longleftrightarrow> distinct (map rm_botId rs)
     \<and> (\<forall>r \<in> set rs. \<exists>b. findBy bo_id (rm_botId r) (pn_bots s) = Some b \<and> bo_workerGroupId b = Some d)
     \<and> (\<forall>r \<in> set rs. rm_toWorkerId r \<noteq> d \<and> known_worker (Some (rm_toWorkerId r)) s)"

definition regroup_all :: "recommendation list \<Rightarrow> bot_row list \<Rightarrow> bot_row list" where
  "regroup_all = fold (\<lambda>r. regroup (rm_botId r) (Some (rm_toWorkerId r)))"

definition worker_facts :: "panel \<Rightarrow> (string \<times> worker_status \<times> int) list" where
  "worker_facts s = map (\<lambda>w. (wk_id w, wk_status w, wk_maxBots w)) (pn_workers s)"

lemma after_move_facts [simp]: "worker_facts (after_move i old new s) = worker_facts s"
proof -
  have "map (\<lambda>w. (wk_id w, wk_status w, wk_maxBots w)) (count_by g c ws) = map (\<lambda>w. (wk_id w, wk_status w, wk_maxBots w)) ws" for g c ws
    by (simp add: count_by_def updateWhere_keys)
  then show ?thesis by (simp add: worker_facts_def after_move_def)
qed

lemma worker_facts_ids: "worker_facts s' = worker_facts s \<Longrightarrow> wk_id ` set (pn_workers s') = wk_id ` set (pn_workers s)"
proof -
  have "wk_id ` set (pn_workers s) = fst ` set (worker_facts s)" for s by (force simp: worker_facts_def)
  then show "worker_facts s' = worker_facts s \<Longrightarrow> ?thesis" by simp
qed

lemma find_regroup: "findBy bo_id j (regroup i g bots) =
    map_option (\<lambda>b. if j = i then b\<lparr>bo_workerGroupId := g\<rparr> else b) (findBy bo_id j bots)"
proof (cases "findBy bo_id j bots")
  case (Some b)
  then have "bo_id b = j" by (rule findBy_key)
  with Some show ?thesis by (simp add: regroup_def findBy_updateWhere [where key = bo_id])
qed (simp add: regroup_def findBy_updateWhere [where key = bo_id])

lemma apply_moves_run:
  assumes "fleet_ok s" "valid_moves d rs s"
  shows "\<exists>s'. forEach rs acc (\<lambda>rec moved. andThen (setBotWorker (rm_botId rec) (Some (rm_toWorkerId rec)))
        (\<lambda>_. ret (moved @ [rm_botId rec]))) s = (Inr (acc @ map rm_botId rs), s')
    \<and> fleet_ok s' \<and> worker_facts s' = worker_facts s \<and> pn_bots s' = regroup_all rs (pn_bots s)"
  using assms
proof (induction rs arbitrary: acc s)
  case Nil
  then show ?case by (simp add: ret_run regroup_all_def)
next
  case (Cons r rs)
  then obtain b where b: "findBy bo_id (rm_botId r) (pn_bots s) = Some b" "bo_workerGroupId b = Some d"
    by (auto simp: valid_moves_def)
  have to: "rm_toWorkerId r \<noteq> d" "known_worker (Some (rm_toWorkerId r)) s"
    using Cons.prems(2) by (simp_all add: valid_moves_def)
  then have ne: "bo_workerGroupId b \<noteq> Some (rm_toWorkerId r)" using b(2) by simp
  let ?t = "after_move (rm_botId r) (Some d) (Some (rm_toWorkerId r)) s"
  have step: "setBotWorker (rm_botId r) (Some (rm_toWorkerId r)) s = (Inr (), ?t)"
    using setBotWorker_moves [OF Cons.prems(1) b(1) to(2) ne] b(2) by simp
  have ok: "fleet_ok ?t" using after_move_ok [OF Cons.prems(1) b(1) to(2) ne] b(2) by simp
  have bots: "pn_bots ?t = regroup (rm_botId r) (Some (rm_toWorkerId r)) (pn_bots s)" by (simp add: after_move_def)
  have "valid_moves d rs ?t"
    unfolding valid_moves_def bots find_regroup
  proof (intro conjI ballI)
    show "distinct (map rm_botId rs)" using Cons.prems(2) by (simp add: valid_moves_def)
    fix r' assume r': "r' \<in> set rs"
    then have "rm_botId r' \<in> rm_botId ` set rs" by (rule imageI)
    then have other: "rm_botId r' \<noteq> rm_botId r" using Cons.prems(2) by (auto simp: valid_moves_def)
    from r' Cons.prems(2) obtain b' where "findBy bo_id (rm_botId r') (pn_bots s) = Some b'" "bo_workerGroupId b' = Some d"
      by (auto simp: valid_moves_def)
    with other show "\<exists>b. map_option (\<lambda>b. if rm_botId r' = rm_botId r then b\<lparr>bo_workerGroupId := Some (rm_toWorkerId r)\<rparr> else b)
        (findBy bo_id (rm_botId r') (pn_bots s)) = Some b \<and> bo_workerGroupId b = Some d"
      by simp
    show "rm_toWorkerId r' \<noteq> d" "known_worker (Some (rm_toWorkerId r')) ?t"
      using Cons.prems(2) r' worker_facts_ids [of ?t s] by (simp_all add: valid_moves_def)
  qed
  from Cons.IH [OF ok this, of "acc @ [rm_botId r]"] show ?case
    by (simp add: andThen_def step ret_def bots regroup_all_def)
qed

lemma regroup_all_find:
  "distinct (map rm_botId rs) \<Longrightarrow> r \<in> set rs \<Longrightarrow> findBy bo_id (rm_botId r) bots = Some b \<Longrightarrow>
    findBy bo_id (rm_botId r) (regroup_all rs bots) = Some (b\<lparr>bo_workerGroupId := Some (rm_toWorkerId r)\<rparr>)"
  "i \<notin> rm_botId ` set rs \<Longrightarrow> findBy bo_id i (regroup_all rs bots) = findBy bo_id i bots"
proof -
  show other: "findBy bo_id i (regroup_all rs bots) = findBy bo_id i bots" if "i \<notin> rm_botId ` set rs" for i rs bots
    using that by (induction rs arbitrary: bots) (auto simp: regroup_all_def find_regroup option.map_ident)
  show "distinct (map rm_botId rs) \<Longrightarrow> r \<in> set rs \<Longrightarrow> findBy bo_id (rm_botId r) bots = Some b \<Longrightarrow>
    findBy bo_id (rm_botId r) (regroup_all rs bots) = Some (b\<lparr>bo_workerGroupId := Some (rm_toWorkerId r)\<rparr>)"
  proof (induction rs arbitrary: bots b)
    case (Cons x rs)
    show ?case
    proof (cases "r = x")
      case True
      then have "rm_botId r \<notin> rm_botId ` set rs" using Cons.prems(1) by auto
      from other [OF this] True Cons.prems(3) show ?thesis by (simp add: regroup_all_def find_regroup)
    next
      case False
      with Cons.prems have r: "r \<in> set rs" by simp
      moreover from this have "rm_botId r \<in> rm_botId ` set rs" by (rule imageI)
      with Cons.prems(1) have "rm_botId r \<noteq> rm_botId x" by auto
      ultimately show ?thesis using Cons.IH [of "regroup (rm_botId x) (Some (rm_toWorkerId x)) bots" b] Cons.prems
        by (simp add: regroup_all_def find_regroup)
    qed
  qed simp
qed

subsection \<open>What a drain does\<close>

definition drain_view :: "string \<Rightarrow> panel \<Rightarrow> rebalance_worker list" where
  "drain_view d s = map (\<lambda>w. if wk_id w = d then (rebalance_worker_of w)\<lparr>rw_status := WkDraining\<rparr> else rebalance_worker_of w) (pn_workers s)"

lemma drain_view_ids: "map rw_id (drain_view d s) = map wk_id (pn_workers s)"
  by (simp add: drain_view_def rebalance_worker_of_def)

lemma drain_view_online:
  "v \<in> set (drain_view d s) \<Longrightarrow> rw_status v = WkOnline \<Longrightarrow>
    \<exists>w \<in> set (pn_workers s). v = rebalance_worker_of w \<and> wk_status w = WkOnline \<and> wk_id w \<noteq> d"
  by (auto simp: drain_view_def rebalance_worker_of_def split: if_splits)

lemma drain_recommendations_alt: "drain_recommendations d s = filter (\<lambda>r. rm_fromWorkerId r = Some d)
    (computeRebalanceRecommendations (drain_view d s) (map rebalance_bot_of (pn_bots s)))"
  by (simp add: drain_recommendations_def drain_view_def)

lemma drain_moves_subseq:
  assumes "fleet_ok s"
  shows "subseq (map rm_botId (drain_recommendations d s)) (stranded_bots d s)"
proof -
  have "map rb_id (filter (\<lambda>b. rb_workerGroupId b = Some d) (map rebalance_bot_of (pn_bots s))) = stranded_bots d s"
    by (simp add: stranded_bots_def rebalance_bot_of_def filter_map o_def)
  with moves_from [of "drain_view d s" d "map rebalance_bot_of (pn_bots s)"] assms
  show ?thesis by (simp add: drain_recommendations_alt drain_view_ids fleet_ok_def)
qed

lemma stranded_find:
  assumes "fleet_ok s"
  shows "i \<in> set (stranded_bots d s) \<longleftrightarrow> (\<exists>b. findBy bo_id i (pn_bots s) = Some b \<and> bo_workerGroupId b = Some d)"
  using assms findBy_Some_distinct [of bo_id "pn_bots s"]
  by (auto simp: stranded_bots_def fleet_ok_def dest: findBy_in findBy_key)

lemma incoming_filter: "incoming i (filter P recs) \<le> incoming i recs"
  by (induction recs) (auto simp: incoming_def)

lemma drain_recommendations_valid:
  assumes "fleet_ok s"
  shows "valid_moves d (drain_recommendations d s) s"
    and "\<forall>r \<in> set (drain_recommendations d s). \<exists>w \<in> set (pn_workers s). wk_id w = rm_toWorkerId r \<and> wk_status w = WkOnline"
    and "\<forall>w \<in> set (pn_workers s). 0 < incoming (wk_id w) (drain_recommendations d s) \<longrightarrow>
      wk_currentBots w + incoming (wk_id w) (drain_recommendations d s) \<le> wk_maxBots w"
proof -
  let ?recs = "computeRebalanceRecommendations (drain_view d s) (map rebalance_bot_of (pn_bots s))"
  have dist: "distinct (map rw_id (drain_view d s))" using assms by (simp add: drain_view_ids fleet_ok_def)
  note plan = plan_respects_capacity_core [OF dist, of "map rebalance_bot_of (pn_bots s)"]
  have target: "\<exists>w \<in> set (pn_workers s). wk_id w = rm_toWorkerId r \<and> wk_status w = WkOnline \<and> wk_id w \<noteq> d" if "r \<in> set ?recs" for r
  proof -
    from plan that obtain v where "v \<in> set (drain_view d s)" "rw_id v = rm_toWorkerId r" "rw_status v = WkOnline" by blast
    with drain_view_online [of v d s] show ?thesis by (auto simp: rebalance_worker_of_def)
  qed
  then show "\<forall>r \<in> set (drain_recommendations d s). \<exists>w \<in> set (pn_workers s). wk_id w = rm_toWorkerId r \<and> wk_status w = WkOnline"
    by (fastforce simp: drain_recommendations_alt)
  have sub: "subseq (map rm_botId (drain_recommendations d s)) (stranded_bots d s)" by (rule drain_moves_subseq [OF assms])
  have "distinct (stranded_bots d s)" using assms by (simp add: stranded_bots_def fleet_ok_def distinct_map inj_on_def)
  with subseq_distinct_set [OF sub] have "distinct (map rm_botId (drain_recommendations d s))"
      "set (map rm_botId (drain_recommendations d s)) \<subseteq> set (stranded_bots d s)" by simp_all
  note ids = this
  have nonempty: "[] \<notin> wk_id ` set (pn_workers s)" using assms by (simp add: fleet_ok_def)
  show "valid_moves d (drain_recommendations d s) s"
    unfolding valid_moves_def
  proof (intro conjI ballI ids(1))
    fix r assume r: "r \<in> set (drain_recommendations d s)"
    then have "rm_botId r \<in> set (stranded_bots d s)" using ids(2) by auto
    then show "\<exists>b. findBy bo_id (rm_botId r) (pn_bots s) = Some b \<and> bo_workerGroupId b = Some d"
      by (simp only: stranded_find [OF assms])
    from r have "r \<in> set ?recs" by (simp add: drain_recommendations_alt)
    from target [OF this] obtain w where w: "w \<in> set (pn_workers s)" "wk_id w = rm_toWorkerId r" "wk_id w \<noteq> d" by blast
    from w(1) have "wk_id w \<in> wk_id ` set (pn_workers s)" by (rule imageI)
    with w(2,3) nonempty show "rm_toWorkerId r \<noteq> d" "known_worker (Some (rm_toWorkerId r)) s" by auto
  qed
  show "\<forall>w \<in> set (pn_workers s). 0 < incoming (wk_id w) (drain_recommendations d s) \<longrightarrow>
      wk_currentBots w + incoming (wk_id w) (drain_recommendations d s) \<le> wk_maxBots w"
  proof (intro ballI impI)
    fix w assume w: "w \<in> set (pn_workers s)" "0 < incoming (wk_id w) (drain_recommendations d s)"
    have le: "incoming (wk_id w) (drain_recommendations d s) \<le> incoming (wk_id w) ?recs"
      unfolding drain_recommendations_alt by (rule incoming_filter)
    define v where "v = (if wk_id w = d then (rebalance_worker_of w)\<lparr>rw_status := WkDraining\<rparr> else rebalance_worker_of w)"
    have v: "v \<in> set (drain_view d s)" using w(1) by (simp add: drain_view_def v_def)
    have f: "rw_id v = wk_id w" "rw_currentBots v = wk_currentBots w" "rw_maxBots v = wk_maxBots w"
      by (simp_all add: v_def rebalance_worker_of_def)
    have "0 < incoming (rw_id v) ?recs" using w(2) le f(1) by simp
    with plan v have "rw_currentBots v + incoming (rw_id v) ?recs \<le> rw_maxBots v" by blast
    with le show "wk_currentBots w + incoming (wk_id w) (drain_recommendations d s) \<le> wk_maxBots w"
      unfolding f by linarith
  qed
qed

lemma group_size_moves:
  assumes "j \<noteq> d"
  shows "distinct (map bo_id bots) \<Longrightarrow> distinct (map rm_botId rs) \<Longrightarrow>
    \<forall>r \<in> set rs. \<exists>b. findBy bo_id (rm_botId r) bots = Some b \<and> bo_workerGroupId b = Some d \<Longrightarrow>
    group_size j (regroup_all rs bots) = group_size j bots + incoming j rs"
proof (induction rs arbitrary: bots)
  case (Cons r rs)
  obtain b where b: "findBy bo_id (rm_botId r) bots = Some b" "bo_workerGroupId b = Some d" using Cons.prems(3) by auto
  let ?bots = "regroup (rm_botId r) (Some (rm_toWorkerId r)) bots"
  have "\<forall>r' \<in> set rs. \<exists>b. findBy bo_id (rm_botId r') ?bots = Some b \<and> bo_workerGroupId b = Some d"
  proof
    fix r' assume r': "r' \<in> set rs"
    then have "rm_botId r' \<in> rm_botId ` set rs" by (rule imageI)
    then have "rm_botId r' \<noteq> rm_botId r" using Cons.prems(2) by auto
    with Cons.prems(3) r' show "\<exists>b. findBy bo_id (rm_botId r') ?bots = Some b \<and> bo_workerGroupId b = Some d"
      by (auto simp: find_regroup)
  qed
  then have "group_size j (regroup_all rs ?bots) = group_size j ?bots + incoming j rs"
    using Cons.prems(1,2) by (intro Cons.IH) simp_all
  then show ?case
    using group_size_regroup [OF Cons.prems(1) b(1), of j "Some (rm_toWorkerId r)"] b(2) assms
    by (auto simp: regroup_all_def incoming_def)
qed (simp add: regroup_all_def incoming_def)

definition set_status :: "string \<Rightarrow> worker_status \<Rightarrow> panel \<Rightarrow> panel" where
  "set_status d st s = s\<lparr>pn_workers := updateWhere (\<lambda>w. wk_id w = d) (\<lambda>w. w\<lparr>wk_status := st\<rparr>) (pn_workers s)\<rparr>"

lemma set_status_ok: "fleet_ok s \<Longrightarrow> fleet_ok (set_status d st s)"
proof -
  have ids: "map wk_id (pn_workers (set_status d st s)) = map wk_id (pn_workers s)"
    by (simp add: set_status_def updateWhere_keys)
  then have ids': "wk_id ` set (pn_workers (set_status d st s)) = wk_id ` set (pn_workers s)" by (simp flip: set_map)
  have count: "\<exists>w0 \<in> set (pn_workers s). wk_id w = wk_id w0 \<and> wk_currentBots w = wk_currentBots w0"
    if "w \<in> set (pn_workers (set_status d st s))" for w
    using that by (auto simp: set_status_def set_updateWhere intro: bexI)
  have rest: "pn_bots (set_status d st s) = pn_bots s" "pn_assignments (set_status d st s) = pn_assignments s"
    by (simp_all add: set_status_def)
  assume "fleet_ok s"
  then show ?thesis
    unfolding fleet_ok_def ids ids' rest using count by fastforce
qed

lemma set_status_find: "findBy wk_id d (pn_workers (set_status d st s)) =
    map_option (\<lambda>w. w\<lparr>wk_status := st\<rparr>) (findBy wk_id d (pn_workers s))"
  by (simp add: set_status_def workers.find_update_key [of "\<lambda>w. w\<lparr>wk_status := st\<rparr>" d d s, simplified])

lemma drain_run:
  assumes "fleet_ok s" "findBy wk_id d (pn_workers s) = Some w0"
  defines "s1 \<equiv> set_status d WkDraining s"
  shows "\<exists>s2 s3. fleet_ok s2 \<and> worker_facts s2 = worker_facts s1
    \<and> pn_bots s2 = regroup_all (drain_recommendations d s1) (pn_bots s)
    \<and> s3 = (if stranded_bots d s2 = [] then set_status d WkOffline s2 else s2)
    \<and> drainWorker d actor s = (Inr \<lparr>dw_movedBotIds = map rm_botId (drain_recommendations d s1),
          dw_strandedBotIds = stranded_bots d s2\<rparr>,
        snd (panel_audit (Some actor) ''worker.drain'' ''worker'' d (Some (JObj
          [(''movedBotIds'', id_list (map rm_botId (drain_recommendations d s1))),
           (''strandedBotIds'', id_list (stranded_bots d s2))])) s3))"
proof -
  have ok: "fleet_ok s1" unfolding s1_def by (rule set_status_ok [OF assms(1)])
  have bots: "pn_bots s1 = pn_bots s" by (simp add: s1_def set_status_def)
  obtain s2 where s2: "apply_moves (drain_recommendations d s1) s1 = (Inr (map rm_botId (drain_recommendations d s1)), s2)"
      "fleet_ok s2" "worker_facts s2 = worker_facts s1" "pn_bots s2 = regroup_all (drain_recommendations d s1) (pn_bots s)"
    using apply_moves_run [OF ok drain_recommendations_valid(1) [OF ok, of d], of "[]"] by (auto simp: apply_moves_def bots)
  have "findBy wk_id d (pn_workers s2) \<noteq> None"
  proof -
    have "findBy wk_id d (pn_workers s1) \<noteq> None" unfolding s1_def set_status_find by (simp add: assms(2))
    with worker_facts_ids [OF s2(3)] show ?thesis by (simp add: findBy_None)
  qed
  then have off: "update_worker d (\<lambda>w. w\<lparr>wk_status := WkOffline\<rparr>) s2 = (Inr (), set_status d WkOffline s2)"
    by (simp add: update_worker_def set_status_def)
  have start: "update_worker d (\<lambda>w. w\<lparr>wk_status := WkDraining\<rparr>) s = (Inr (), s1)"
    using assms(2) by (simp add: update_worker_def s1_def set_status_def)
  have "drainWorker d actor s = finish_worker_drain d actor (map rm_botId (drain_recommendations d s1)) s2"
    using assms(2) by (simp add: drainWorker_def andThen_def start s2(1))
  moreover have "finish_worker_drain d actor moved s2 = (Inr \<lparr>dw_movedBotIds = moved, dw_strandedBotIds = stranded_bots d s2\<rparr>,
      snd (panel_audit (Some actor) ''worker.drain'' ''worker'' d (Some (JObj [(''movedBotIds'', id_list moved),
        (''strandedBotIds'', id_list (stranded_bots d s2))]))
        (if stranded_bots d s2 = [] then set_status d WkOffline s2 else s2)))" for moved
    by (simp add: finish_worker_drain_def Let_def andThen_def off ret_def panel_audit_def modify_def)
  ultimately show ?thesis
    by (intro exI [of _ s2] exI [of _ "if stranded_bots d s2 = [] then set_status d WkOffline s2 else s2"] conjI s2(2,3,4) refl)
      simp
qed

lemma drained_bots:
  assumes "fleet_ok s1" "fleet_ok s2" "valid_moves d rs s1" "pn_bots s2 = regroup_all rs (pn_bots s1)"
  shows "rm_botId ` set rs \<subseteq> set (stranded_bots d s1)"
    and "set (stranded_bots d s2) = set (stranded_bots d s1) - rm_botId ` set rs"
    and "r \<in> set rs \<Longrightarrow> \<exists>b. findBy bo_id (rm_botId r) (pn_bots s2) = Some b \<and> bo_workerGroupId b = Some (rm_toWorkerId r)"
proof -
  have dist: "distinct (map rm_botId rs)" using assms(3) by (simp add: valid_moves_def)
  have at: "\<exists>b. findBy bo_id (rm_botId r) (pn_bots s1) = Some b \<and> bo_workerGroupId b = Some d" if "r \<in> set rs" for r
    using assms(3) that by (simp add: valid_moves_def)
  then show "rm_botId ` set rs \<subseteq> set (stranded_bots d s1)" by (auto simp: stranded_find [OF assms(1)])
  have new: "\<exists>b. findBy bo_id (rm_botId r) (pn_bots s2) = Some b \<and> bo_workerGroupId b = Some (rm_toWorkerId r)"
    if r: "r \<in> set rs" for r
    using at [OF r] regroup_all_find(1) [OF dist r] by (auto simp: assms(4))
  then show "r \<in> set rs \<Longrightarrow> \<exists>b. findBy bo_id (rm_botId r) (pn_bots s2) = Some b \<and> bo_workerGroupId b = Some (rm_toWorkerId r)" .
  have away: "rm_botId r \<notin> set (stranded_bots d s2)" if "r \<in> set rs" for r
    using new [OF that] assms(3) that by (auto simp: stranded_find [OF assms(2)] valid_moves_def)
  have "i \<in> set (stranded_bots d s2) \<longleftrightarrow> i \<in> set (stranded_bots d s1)" if "i \<notin> rm_botId ` set rs" for i
    using regroup_all_find(2) [OF that] by (simp add: stranded_find [OF assms(1)] stranded_find [OF assms(2)] assms(4))
  moreover have "i \<notin> set (stranded_bots d s2)" if "i \<in> rm_botId ` set rs" for i
    using that away by (metis imageE)
  ultimately have "i \<in> set (stranded_bots d s2) \<longleftrightarrow> i \<in> set (stranded_bots d s1) \<and> i \<notin> rm_botId ` set rs" for i
    by (cases "i \<in> rm_botId ` set rs") simp_all
  then show "set (stranded_bots d s2) = set (stranded_bots d s1) - rm_botId ` set rs" by (intro set_eqI) simp
qed

lemma worker_of_facts:
  "worker_facts s' = worker_facts s \<Longrightarrow> w \<in> set (pn_workers s') \<Longrightarrow>
    \<exists>v \<in> set (pn_workers s). wk_id v = wk_id w \<and> wk_status v = wk_status w \<and> wk_maxBots v = wk_maxBots w"
proof -
  assume same: "worker_facts s' = worker_facts s" and w: "w \<in> set (pn_workers s')"
  from w have "(wk_id w, wk_status w, wk_maxBots w) \<in> set (worker_facts s')" by (force simp: worker_facts_def)
  then have "(wk_id w, wk_status w, wk_maxBots w) \<in> set (worker_facts s)" by (simp only: same)
  then show ?thesis by (auto simp: worker_facts_def)
qed

lemma status_of_facts:
  assumes "fleet_ok s2" "worker_facts s2 = worker_facts s1" "findBy wk_id d (pn_workers s1) = Some v"
  shows "map_option wk_status (findBy wk_id d (pn_workers s2)) = Some (wk_status v)"
proof -
  have "v \<in> set (pn_workers s1)" "wk_id v = d" using assms(3) by (auto dest: findBy_in findBy_key)
  then obtain w where w: "w \<in> set (pn_workers s2)" "wk_id w = d" "wk_status w = wk_status v"
    using worker_of_facts [OF assms(2)[symmetric]] by metis
  moreover have "distinct (map wk_id (pn_workers s2))" using assms(1) by (simp add: fleet_ok_def)
  ultimately show ?thesis using findBy_Some_distinct [of wk_id "pn_workers s2" w] by simp
qed

lemma drained_counters:
  assumes "fleet_ok s1" "fleet_ok s2" "valid_moves d rs s1" "pn_bots s2 = regroup_all rs (pn_bots s1)"
    and "worker_facts s2 = worker_facts s1" "w \<in> set (pn_workers s2)" "wk_id w \<noteq> d"
    and "\<forall>w \<in> set (pn_workers s1). 0 < incoming (wk_id w) rs \<longrightarrow> wk_currentBots w + incoming (wk_id w) rs \<le> wk_maxBots w"
  shows "wk_currentBots w \<le> wk_maxBots w \<or> wk_currentBots w = group_size (wk_id w) (pn_bots s1)"
proof -
  obtain v where v: "v \<in> set (pn_workers s1)" "wk_id v = wk_id w" "wk_maxBots v = wk_maxBots w"
    using worker_of_facts [OF assms(5,6)] by blast
  have "wk_currentBots w = group_size (wk_id w) (pn_bots s2)" using assms(2,6) by (simp add: fleet_ok_def)
  also have "\<dots> = group_size (wk_id w) (pn_bots s1) + incoming (wk_id w) rs"
    unfolding assms(4) using assms(1,3) by (intro group_size_moves [OF assms(7)]) (simp_all add: fleet_ok_def valid_moves_def)
  finally have count: "wk_currentBots w = group_size (wk_id w) (pn_bots s1) + incoming (wk_id w) rs" .
  have "wk_currentBots v = group_size (wk_id w) (pn_bots s1)" using assms(1) v by (auto simp: fleet_ok_def)
  with assms(8) v(1,2) have "0 < incoming (wk_id w) rs \<Longrightarrow> group_size (wk_id w) (pn_bots s1) + incoming (wk_id w) rs \<le> wk_maxBots v"
    by metis
  moreover have "incoming (wk_id w) rs = 0 \<or> 0 < incoming (wk_id w) rs"
    using flow_nonneg(1) [of "wk_id w" rs] by linarith
  ultimately show ?thesis using v(3) count by auto
qed

lemma moved_bot_is_online:
  assumes "fleet_ok s1" "fleet_ok s2" "valid_moves d rs s1" "pn_bots s2 = regroup_all rs (pn_bots s1)"
    and "worker_facts s2 = worker_facts s1"
    and "\<forall>r \<in> set rs. \<exists>w \<in> set (pn_workers s1). wk_id w = rm_toWorkerId r \<and> wk_status w = WkOnline"
    and "i \<in> rm_botId ` set rs"
  shows "\<exists>b w. findBy bo_id i (pn_bots s2) = Some b \<and> bo_workerGroupId b = Some (wk_id w)
    \<and> w \<in> set (pn_workers s2) \<and> wk_id w \<noteq> d \<and> wk_status w = WkOnline"
proof -
  obtain r where r: "r \<in> set rs" "i = rm_botId r" using assms(7) by blast
  obtain v where "v \<in> set (pn_workers s1)" "wk_id v = rm_toWorkerId r" "wk_status v = WkOnline" using assms(6) r(1) by blast
  then obtain w where w: "w \<in> set (pn_workers s2)" "wk_id w = rm_toWorkerId r" "wk_status w = WkOnline"
    using worker_of_facts [OF assms(5)[symmetric]] by metis
  have "rm_toWorkerId r \<noteq> d" using assms(3) r(1) by (simp add: valid_moves_def)
  with w drained_bots(3) [OF assms(1-4) r(1)] r(2) show ?thesis by metis
qed

text \<open>
  C35: draining a worker. Every bot of the worker is either moved, to a worker that is online, or still
  there and reported as stranded, never both; no worker that receives bots exceeds its \<open>maxBots\<close>; the
  worker ends offline when it is empty and draining otherwise; and the counters and the assignment
  table agree with the bots afterwards as they did before.
\<close>
theorem drain_worker_outcome:
  assumes "fleet_ok s" "findBy wk_id d (pn_workers s) = Some w0"
  shows "\<exists>moved stranded s'. drainWorker d actor s = (Inr \<lparr>dw_movedBotIds = moved, dw_strandedBotIds = stranded\<rparr>, s')
    \<and> fleet_ok s' \<and> set moved \<union> set stranded = set (stranded_bots d s) \<and> set moved \<inter> set stranded = {}
    \<and> stranded = stranded_bots d s'
    \<and> (\<forall>i \<in> set moved. \<exists>b w. findBy bo_id i (pn_bots s') = Some b \<and> bo_workerGroupId b = Some (wk_id w)
         \<and> w \<in> set (pn_workers s') \<and> wk_status w = WkOnline)
    \<and> map_option wk_status (findBy wk_id d (pn_workers s')) = Some (if stranded = [] then WkOffline else WkDraining)
    \<and> (\<forall>w \<in> set (pn_workers s'). wk_id w \<noteq> d \<longrightarrow> wk_currentBots w \<le> wk_maxBots w
         \<or> wk_currentBots w = group_size (wk_id w) (pn_bots s))"
proof -
  define s1 where "s1 = set_status d WkDraining s"
  define rs where "rs = drain_recommendations d s1"
  obtain s2 s3 where s2: "fleet_ok s2" "worker_facts s2 = worker_facts s1" "pn_bots s2 = regroup_all rs (pn_bots s)"
    and s3: "s3 = (if stranded_bots d s2 = [] then set_status d WkOffline s2 else s2)"
    and run: "drainWorker d actor s = (Inr \<lparr>dw_movedBotIds = map rm_botId rs, dw_strandedBotIds = stranded_bots d s2\<rparr>,
        snd (panel_audit (Some actor) ''worker.drain'' ''worker'' d (Some (JObj [(''movedBotIds'', id_list (map rm_botId rs)),
           (''strandedBotIds'', id_list (stranded_bots d s2))])) s3))"
    using drain_run [OF assms] unfolding rs_def s1_def by blast
  define s4 where "s4 = snd (panel_audit (Some actor) ''worker.drain'' ''worker'' d (Some (JObj [(''movedBotIds'', id_list (map rm_botId rs)),
           (''strandedBotIds'', id_list (stranded_bots d s2))])) s3)"
  have s4: "pn_workers s4 = pn_workers s3" "pn_bots s4 = pn_bots s2" "pn_assignments s4 = pn_assignments s3" "pn_bots s3 = pn_bots s2"
    by (simp_all add: s4_def panel_audit_def modify_def s3 set_status_def)
  have ok1: "fleet_ok s1" unfolding s1_def by (rule set_status_ok [OF assms(1)])
  have bots1: "pn_bots s1 = pn_bots s" by (simp add: s1_def set_status_def)
  note valid = drain_recommendations_valid [OF ok1, of d, folded rs_def]
  note moved = drained_bots [OF ok1 s2(1) valid(1) s2(3)[folded bots1]]
  have "fleet_ok s3" using s2(1) by (simp add: s3 set_status_ok)
  then have ok4: "fleet_ok s4" by (simp add: fleet_ok_def s4)
  have still: "stranded_bots d s4 = stranded_bots d s2" "stranded_bots d s1 = stranded_bots d s"
    by (simp_all add: stranded_bots_def s4 bots1)
  have workers: "w \<in> set (pn_workers s4) \<longleftrightarrow> w \<in> set (pn_workers s2)" if "wk_id w \<noteq> d" for w
    using that by (auto simp: s4 s3 set_status_def set_updateWhere)
  have target: "\<exists>b w. findBy bo_id i (pn_bots s4) = Some b \<and> bo_workerGroupId b = Some (wk_id w)
      \<and> w \<in> set (pn_workers s4) \<and> wk_status w = WkOnline" if "i \<in> rm_botId ` set rs" for i
    using moved_bot_is_online [OF ok1 s2(1) valid(1) s2(3)[folded bots1] s2(2) valid(2) that] workers unfolding s4(2) by blast
  have "findBy wk_id d (pn_workers s1) = Some (w0\<lparr>wk_status := WkDraining\<rparr>)"
    unfolding s1_def set_status_find by (simp add: assms(2))
  from status_of_facts [OF s2(1,2) this]
  have "map_option wk_status (findBy wk_id d (pn_workers s2)) = Some WkDraining" by simp
  then have status: "map_option wk_status (findBy wk_id d (pn_workers s4)) = Some (if stranded_bots d s2 = [] then WkOffline else WkDraining)"
    by (auto simp: s4 s3 set_status_find)
  have "wk_currentBots w \<le> wk_maxBots w \<or> wk_currentBots w = group_size (wk_id w) (pn_bots s)"
    if "w \<in> set (pn_workers s4)" "wk_id w \<noteq> d" for w
    using drained_counters [OF ok1 s2(1) valid(1) s2(3)[folded bots1] s2(2) _ that(2) valid(3)] that workers [of w] by (simp add: bots1)
  with ok4 moved(1,2) target status show ?thesis
    unfolding run s4_def [symmetric]
    by (intro exI [of _ "map rm_botId rs"] exI [of _ "stranded_bots d s2"] exI [of _ s4]) (auto simp: still)
qed

subsection \<open>A drain on a concrete fleet\<close>

definition sample_bot :: "string \<Rightarrow> string option \<Rightarrow> bot_row" where
  "sample_bot i g = \<lparr>bo_id = i, bo_customerId = ''c1'', bo_name = i, bo_clientId = ''cl'', bo_tokenEncrypted = ''t'',
     bo_publicKey = None, bo_plan = PlanFree, bo_status = BsOnline, bo_guildLimit = 50, bo_shardCount = 1,
     bo_workerGroupId = g, bo_lastReadyAt = None, bo_lastHeartbeatAt = None, bo_createdAt = 0\<rparr>"

definition sample_worker :: "string \<Rightarrow> int \<Rightarrow> int \<Rightarrow> worker_row" where
  "sample_worker i maxBots bots = \<lparr>wk_id = i, wk_name = i, wk_mode = ModePm2, wk_status = WkOnline, wk_host = None,
     wk_maxBots = maxBots, wk_currentBots = bots, wk_memoryMb = None, wk_createdAt = 0\<rparr>"

text \<open>One bot without worker, one on \<open>w1\<close>; \<open>w2\<close> has room for one.\<close>

definition sample_panel :: panel where
  "sample_panel = \<lparr>pn_now = 0, pn_seq = 0, pn_users = [], pn_accounts = [], pn_customers = [],
     pn_bots = [sample_bot ''b0'' None, sample_bot ''b1'' (Some ''w1'')], pn_health = [],
     pn_workers = [sample_worker ''w1'' 5 1, sample_worker ''w2'' 1 0],
     pn_assignments = [\<lparr>as_workerId = ''w1'', as_botId = ''b1'', as_status = AsActive\<rparr>],
     pn_alerts = [], pn_shards = [], pn_webhooks = [], pn_deployments = [], pn_maintenance = None, pn_restarts = Some [],
     pn_explain = Some [], pn_calls = [], pn_audit = []\<rparr>"

lemma sample_panel_ok: "fleet_ok sample_panel"
  by (simp add: fleet_ok_def sample_panel_def sample_bot_def sample_worker_def group_size_def active_workers_def group_list_def)

theorem drain_worker_outcome_witness:
  "\<exists>moved stranded s'. drainWorker ''w1'' ''u1'' sample_panel = (Inr \<lparr>dw_movedBotIds = moved, dw_strandedBotIds = stranded\<rparr>, s')
    \<and> set moved \<union> set stranded = {''b1''} \<and> fleet_ok s'"
proof -
  have "findBy wk_id ''w1'' (pn_workers sample_panel) = Some (sample_worker ''w1'' 5 1)"
    "set (stranded_bots ''w1'' sample_panel) = {''b1''}"
    by (simp_all add: sample_panel_def sample_worker_def sample_bot_def stranded_bots_def)
  with drain_worker_outcome [OF sample_panel_ok, of "''w1''" "sample_worker ''w1'' 5 1" "''u1''"] show ?thesis by metis
qed

lemma sample_drain: "drain_recommendations ''w1'' (set_status ''w1'' WkDraining sample_panel) = []"
  by (simp add: drain_recommendations_def set_status_def sample_panel_def sample_bot_def sample_worker_def
      rebalance_worker_of_def rebalance_bot_of_def computeRebalanceRecommendations_def assign_phase_def assign_step_def
      worker_step_def overflow_bots_def move_step_def leastLoaded_def can_take_def initial_load_def load_of_def
      effectiveMax_def evacuated_def assign_recommendation_def Let_def)

text \<open>
  A drain can strand a bot although a worker has room: the plan it takes its moves from first gives
  the free places to bots without worker, and the drain carries out only the moves away from its own
  worker. Here \<open>b1\<close> stays on \<open>w1\<close> while \<open>w2\<close> is online, empty and stays empty.
\<close>
theorem drain_strands_despite_room:
  "\<exists>s'. drainWorker ''w1'' ''u1'' sample_panel = (Inr \<lparr>dw_movedBotIds = [], dw_strandedBotIds = [''b1'']\<rparr>, s')
    \<and> (\<exists>w \<in> set (pn_workers s'). wk_id w = ''w2'' \<and> wk_status w = WkOnline \<and> wk_currentBots w < wk_maxBots w)"
proof -
  have find: "findBy wk_id ''w1'' (pn_workers sample_panel) = Some (sample_worker ''w1'' 5 1)"
    by (simp add: sample_panel_def sample_worker_def)
  let ?s1 = "set_status ''w1'' WkDraining sample_panel"
  have start: "update_worker ''w1'' (\<lambda>w. w\<lparr>wk_status := WkDraining\<rparr>) sample_panel = (Inr (), ?s1)"
    by (simp add: update_worker_def find set_status_def)
  have stranded: "stranded_bots ''w1'' ?s1 = [''b1'']"
    by (simp add: stranded_bots_def set_status_def sample_panel_def sample_bot_def)
  have w2: "sample_worker ''w2'' 1 0 \<in> set (pn_workers ?s1)"
    by (simp add: set_status_def sample_panel_def sample_worker_def)
  show ?thesis
    by (simp add: drainWorker_def find andThen_def start sample_drain apply_moves_def ret_def finish_worker_drain_def
        stranded Let_def panel_audit_def modify_def)
      (rule bexI [OF _ w2], simp add: sample_worker_def)
qed

end
