(* ===== verification/Bot_Actions.thy ===== *)
theory Bot_Actions
  imports Fleet
begin

text \<open>
  Starting, stopping and restarting a bot under PM2 or Docker (\<open>lib/runner\<close>, \<open>lib/bot-actions.ts\<close>), the
  restart queue (\<open>lib/queue/restart-queue.ts\<close>), its worker (\<open>processStaggeredRestart\<close> of
  \<open>lib/queue/ai-worker.ts\<close>), the explanation of a crash.
  PM2 and Docker answer through the platform; what is asked of them is recorded in \<open>pn_calls\<close>.
\<close>

subsection \<open>Runner clients\<close>

definition invoke :: "panel_platform \<Rightarrow> runner_call \<Rightarrow> reply pact" where
  "invoke pp c = (\<lambda>s. (Inr (pp_runner pp (pn_calls s) c), s\<lparr>pn_calls := pn_calls s @ [c]\<rparr>))"

definition invoke_or_throw :: "panel_platform \<Rightarrow> runner_call \<Rightarrow> unit pact" where
  "invoke_or_throw pp c = andThen (invoke pp c) (\<lambda>r. if r = ReplyError then raise RunnerError else ret ())"

text \<open>\<open>.catch(() => undefined)\<close> and \<open>try { m } catch { h }\<close>.\<close>

definition ignoring :: "panel_platform \<Rightarrow> runner_call \<Rightarrow> unit pact" where
  "ignoring pp c = andThen (invoke pp c) (\<lambda>_. ret ())"

definition or_else_run :: "unit pact \<Rightarrow> unit pact \<Rightarrow> unit pact" where
  "or_else_run m h = (\<lambda>s. case m s of (Inl _, s') \<Rightarrow> h s' | (Inr x, s') \<Rightarrow> (Inr x, s'))"

definition pm2StartBotProcess :: "panel_platform \<Rightarrow> string \<Rightarrow> entries \<Rightarrow> unit pact" where
  "pm2StartBotProcess pp name env = invoke_or_throw pp (PmStart name env)"

definition pm2StopProcess :: "panel_platform \<Rightarrow> string \<Rightarrow> unit pact" where
  "pm2StopProcess pp name = invoke_or_throw pp (PmStop name)"

definition pm2DeleteProcess :: "panel_platform \<Rightarrow> string \<Rightarrow> unit pact" where
  "pm2DeleteProcess pp name = ignoring pp (PmDelete name)"

definition pm2RestartProcess :: "panel_platform \<Rightarrow> string \<Rightarrow> unit pact" where
  "pm2RestartProcess pp name = invoke_or_throw pp (PmRestart name)"

definition containerName :: "string \<Rightarrow> string" where
  "containerName botId = ''botfleet-bot-'' @ botId"

text \<open>\<open>findContainer\<close>: whether there is one; the daemon may be unreachable.\<close>

definition findContainer :: "panel_platform \<Rightarrow> string \<Rightarrow> bool pact" where
  "findContainer pp botId = andThen (invoke pp (DkFind (containerName botId)))
     (\<lambda>r. case r of ReplyOk \<Rightarrow> ret True | ReplyMissing \<Rightarrow> ret False | ReplyError \<Rightarrow> raise RunnerError)"

definition dockerStartBotContainer :: "panel_platform \<Rightarrow> string \<Rightarrow> entries \<Rightarrow> unit pact" where
  "dockerStartBotContainer pp botId env = andThen (findContainer pp botId) (\<lambda>existing.
     andThen (if existing then ignoring pp (DkRemove (containerName botId)) else ret ()) (\<lambda>_.
       andThen (invoke_or_throw pp (DkCreate (containerName botId) env)) (\<lambda>_.
         invoke_or_throw pp (DkStart (containerName botId)))))"

definition dockerStopBotContainer :: "panel_platform \<Rightarrow> string \<Rightarrow> unit pact" where
  "dockerStopBotContainer pp botId = andThen (findContainer pp botId) (\<lambda>found.
     if \<not> found then ret ()
     else andThen (ignoring pp (DkStop (containerName botId))) (\<lambda>_. ignoring pp (DkRemove (containerName botId))))"

definition dockerRestartBotContainer :: "panel_platform \<Rightarrow> string \<Rightarrow> unit pact" where
  "dockerRestartBotContainer pp botId = andThen (findContainer pp botId) (\<lambda>found.
     if \<not> found then raise RunnerError else invoke_or_throw pp (DkRestart (containerName botId)))"

subsection \<open>Runner adapters\<close>

definition upsert_health :: "string \<Rightarrow> bot_status \<Rightarrow> health_row list \<Rightarrow> health_row list" where
  "upsert_health botId st rows =
     (if findBy bh_botId botId rows = None
      then rows @ [\<lparr>bh_botId = botId, bh_status = st, bh_guildCount = 0, bh_restartCount = 0, bh_lastErrorSafe = None\<rparr>]
      else updateWhere (\<lambda>h. bh_botId h = botId) (\<lambda>h. h\<lparr>bh_status := st\<rparr>) rows)"

definition setStatus :: "string \<Rightarrow> bot_status \<Rightarrow> unit pact" where
  "setStatus botId st = andThen (update_bot botId (\<lambda>b. b\<lparr>bo_status := st\<rparr>))
     (\<lambda>_. modify (\<lambda>s. s\<lparr>pn_health := upsert_health botId st (pn_health s)\<rparr>))"

definition processName :: "string \<Rightarrow> string" where
  "processName botId = ''botfleet-bot-'' @ botId"

text \<open>The environment of the process, with the decrypted token.\<close>

definition bot_environment :: "panel_platform \<Rightarrow> string \<Rightarrow> entries pact" where
  "bot_environment pp botId = (\<lambda>s. case findBy bo_id botId (pn_bots s) of
     None \<Rightarrow> (Inl RowNotFound, s)
   | Some b \<Rightarrow> (case decryptSecret (pp_crypto pp) (pp_encryptionKey pp) (bo_tokenEncrypted b) of
       Inl e \<Rightarrow> (Inl (SecretError e), s)
     | Inr token \<Rightarrow> (Inr [(''BOTFLEET_BOT_ID'', botId), (''BOTFLEET_BOT_TOKEN'', token)], s)))"

text \<open>The object that carries the three operations of one mode.\<close>

record runner_adapter =
  ra_start :: "string \<Rightarrow> unit pact"
  ra_stop :: "string \<Rightarrow> unit pact"
  ra_restart :: "string \<Rightarrow> unit pact"

definition pm2Adapter :: "panel_platform \<Rightarrow> runner_adapter" where
  "pm2Adapter pp = \<lparr>
     ra_start = (\<lambda>botId. andThen (setStatus botId BsStarting) (\<lambda>_.
       andThen (bot_environment pp botId) (\<lambda>env.
         andThen (pm2StartBotProcess pp (processName botId) env) (\<lambda>_. setStatus botId BsOnline)))),
     ra_stop = (\<lambda>botId. andThen (setStatus botId BsStopping) (\<lambda>_.
       andThen (pm2StopProcess pp (processName botId)) (\<lambda>_.
         andThen (pm2DeleteProcess pp (processName botId)) (\<lambda>_. setStatus botId BsOffline)))),
     ra_restart = (\<lambda>botId. andThen (setStatus botId BsStopping) (\<lambda>_.
       andThen (or_else_run (pm2RestartProcess pp (processName botId))
           (andThen (bot_environment pp botId) (pm2StartBotProcess pp (processName botId))))
         (\<lambda>_. setStatus botId BsOnline)))\<rparr>"

definition dockerAdapter :: "panel_platform \<Rightarrow> runner_adapter" where
  "dockerAdapter pp = \<lparr>
     ra_start = (\<lambda>botId. andThen (setStatus botId BsStarting) (\<lambda>_.
       andThen (bot_environment pp botId) (\<lambda>env.
         andThen (dockerStartBotContainer pp botId env) (\<lambda>_. setStatus botId BsOnline)))),
     ra_stop = (\<lambda>botId. andThen (setStatus botId BsStopping) (\<lambda>_.
       andThen (dockerStopBotContainer pp botId) (\<lambda>_. setStatus botId BsOffline))),
     ra_restart = (\<lambda>botId. andThen (setStatus botId BsStopping) (\<lambda>_.
       andThen (or_else_run (dockerRestartBotContainer pp botId)
           (andThen (bot_environment pp botId) (dockerStartBotContainer pp botId)))
         (\<lambda>_. setStatus botId BsOnline)))\<rparr>"

definition getRunnerAdapter :: "panel_platform \<Rightarrow> worker_mode \<Rightarrow> runner_adapter" where
  "getRunnerAdapter pp mode = (if mode = ModeDocker then dockerAdapter pp else pm2Adapter pp)"

subsection \<open>Bot actions\<close>

datatype bot_action = ActStart | ActStop | ActRestart

fun action_name :: "bot_action \<Rightarrow> string" where
  "action_name ActStart = ''start''"
| "action_name ActStop = ''stop''"
| "action_name ActRestart = ''restart''"

fun run_action :: "bot_action \<Rightarrow> runner_adapter \<Rightarrow> string \<Rightarrow> unit pact" where
  "run_action ActStart a = ra_start a"
| "run_action ActStop a = ra_stop a"
| "run_action ActRestart a = ra_restart a"

definition worker_of :: "bot_row \<Rightarrow> panel \<Rightarrow> worker_row option" where
  "worker_of b s = Option.bind (bo_workerGroupId b) (\<lambda>w. findBy wk_id w (pn_workers s))"

definition count_restart :: "string \<Rightarrow> unit pact" where
  "count_restart botId = (\<lambda>s. if findBy bh_botId botId (pn_health s) = None then (Inl RowNotFound, s)
     else (Inr (), s\<lparr>pn_health := updateWhere (\<lambda>h. bh_botId h = botId)
             (\<lambda>h. h\<lparr>bh_restartCount := bh_restartCount h + 1\<rparr>) (pn_health s)\<rparr>))"

definition performBotAction :: "panel_platform \<Rightarrow> string \<Rightarrow> bot_action \<Rightarrow> string \<Rightarrow> unit pact" where
  "performBotAction pp botId action actorUserId = (\<lambda>s. case findBy bo_id botId (pn_bots s) of
     None \<Rightarrow> (Inl BotNotFoundError, s)
   | Some b \<Rightarrow>
       let mode = (case worker_of b s of None \<Rightarrow> ModePm2 | Some w \<Rightarrow> wk_mode w) in
       andThen (run_action action (getRunnerAdapter pp mode) botId) (\<lambda>_.
         andThen (if action = ActRestart then count_restart botId else ret ()) (\<lambda>_.
           panel_audit (Some actorUserId) (''bot.'' @ action_name action) ''bot'' botId None)) s)"

subsection \<open>Staggered restarts\<close>

definition RESTART_STAGGER_MS :: int where
  "RESTART_STAGGER_MS = 15000"

definition restart_job_of :: "string \<Rightarrow> string \<Rightarrow> nat \<Rightarrow> string \<Rightarrow> restart_job" where
  "restart_job_of deploymentId actorUserId index botId =
     \<lparr>rj_botId = botId, rj_deploymentId = deploymentId, rj_actorUserId = actorUserId,
      rj_delay = int index * RESTART_STAGGER_MS,
      rj_jobId = ''staggered-restart:'' @ deploymentId @ '':'' @ botId\<rparr>"

definition add_job :: "restart_job \<Rightarrow> restart_job list \<Rightarrow> restart_job list" where
  "add_job j jobs = (if rj_jobId j \<in> rj_jobId ` set jobs then jobs else jobs @ [j])"

definition enqueueStaggeredRestarts :: "string list \<Rightarrow> string \<Rightarrow> string \<Rightarrow> int pact" where
  "enqueueStaggeredRestarts botIds deploymentId actorUserId = (\<lambda>s.
     if botIds = [] then (Inr 0, s)
     else case pn_restarts s of
       None \<Rightarrow> (Inl QueueNotConfigured, s)
     | Some jobs \<Rightarrow> (Inr (int (length botIds)), s\<lparr>pn_restarts := Some
         (fold (\<lambda>(index, botId). add_job (restart_job_of deploymentId actorUserId index botId))
           (List.enumerate 0 botIds) jobs)\<rparr>))"

datatype restart_result = Restarted | Skipped string

fun bot_status_name :: "bot_status \<Rightarrow> string" where
  "bot_status_name BsOnline = ''online''"
| "bot_status_name BsOffline = ''offline''"
| "bot_status_name BsStarting = ''starting''"
| "bot_status_name BsStopping = ''stopping''"
| "bot_status_name BsFailed = ''failed''"
| "bot_status_name BsDisabled = ''disabled''"
| "bot_status_name BsExpired = ''expired''"
| "bot_status_name BsRateLimited = ''rate_limited''"

text \<open>Why a job is skipped, if it is.\<close>

definition skip_reason :: "restart_job \<Rightarrow> panel \<Rightarrow> string option" where
  "skip_reason job s =
     (if isMaintenanceModeEnabled s then Some ''maintenance mode is enabled''
      else case findBy bo_id (rj_botId job) (pn_bots s) of
        None \<Rightarrow> Some ''bot no longer exists''
      | Some b \<Rightarrow>
          if bo_status b \<noteq> BsOnline
          then Some (''bot status is \"'' @ bot_status_name (bo_status b) @ ''\", not online'')
          else case worker_of b s of
            None \<Rightarrow> None
          | Some w \<Rightarrow> if wk_status w \<noteq> WkOnline
              then Some (''worker status is \"'' @ worker_status_name (wk_status w) @ ''\"'') else None)"

definition processStaggeredRestart :: "panel_platform \<Rightarrow> restart_job \<Rightarrow> restart_result pact" where
  "processStaggeredRestart pp job = (\<lambda>s. case skip_reason job s of
     Some reason \<Rightarrow> (Inr (Skipped reason), s)
   | None \<Rightarrow> andThen (performBotAction pp (rj_botId job) ActRestart (rj_actorUserId job)) (\<lambda>_.
       andThen (panel_audit (Some (rj_actorUserId job)) ''deployment.staggered_restart'' ''bot'' (rj_botId job)
           (Some (JObj [(''deploymentId'', JStr (rj_deploymentId job))])))
         (\<lambda>_. ret Restarted)) s)"

subsection \<open>Crash explanations\<close>

fun confidence_name :: "confidence \<Rightarrow> string" where
  "confidence_name Low = ''low''"
| "confidence_name Medium = ''medium''"
| "confidence_name High = ''high''"

definition processExplainCrash :: "explain_job \<Rightarrow> crash_analysis pact" where
  "processExplainCrash job = (let result = analyzeCrash (ej_errorMessage job) in
     andThen (panel_audit None ''ai.crash_explanation'' ''bot'' (ej_botId job)
         (Some (JObj [(''summary'', JStr (ca_summary result)), (''confidence'', JStr (confidence_name (ca_confidence result)))])))
       (\<lambda>_. ret result))"

subsection \<open>What an action leaves behind\<close>

text \<open>The state after the status of bot \<open>i\<close> became \<open>st\<close> and \<open>calls\<close> were made to the runner.\<close>

definition restatus :: "string \<Rightarrow> bot_status \<Rightarrow> bot_row list \<Rightarrow> bot_row list" where
  "restatus i st = updateWhere (\<lambda>b. bo_id b = i) (\<lambda>b. b\<lparr>bo_status := st\<rparr>)"

definition marked :: "string \<Rightarrow> bot_status \<Rightarrow> runner_call list \<Rightarrow> panel \<Rightarrow> panel" where
  "marked i st calls s = s\<lparr>pn_bots := restatus i st (pn_bots s), pn_health := upsert_health i st (pn_health s),
     pn_calls := pn_calls s @ calls\<rparr>"

lemma find_restatus: "findBy bo_id j (restatus i st bots) =
    map_option (\<lambda>b. if bo_id b = i then b\<lparr>bo_status := st\<rparr> else b) (findBy bo_id j bots)"
  unfolding restatus_def by (rule findBy_updateWhere) simp

lemma restatus_twice: "restatus i st (restatus i st' bots) = restatus i st bots"
  by (induction bots) (auto simp: restatus_def)

lemma find_upsert: "findBy bh_botId j (upsert_health i st rows) =
    (if j = i \<and> findBy bh_botId i rows = None
     then Some \<lparr>bh_botId = i, bh_status = st, bh_guildCount = 0, bh_restartCount = 0, bh_lastErrorSafe = None\<rparr>
     else map_option (\<lambda>h. if bh_botId h = i then h\<lparr>bh_status := st\<rparr> else h) (findBy bh_botId j rows))"
proof -
  have u: "findBy bh_botId j (updateWhere (\<lambda>h. bh_botId h = i) (\<lambda>h. h\<lparr>bh_status := st\<rparr>) rows) =
      map_option (\<lambda>h. if bh_botId h = i then h\<lparr>bh_status := st\<rparr> else h) (findBy bh_botId j rows)"
    by (rule findBy_updateWhere) simp
  have k: "map_option (\<lambda>h. if bh_botId h = i then h\<lparr>bh_status := st\<rparr> else h) (findBy bh_botId j rows) = findBy bh_botId j rows"
    if "findBy bh_botId i rows = None"
    using that by (induction rows) (auto split: if_splits)
  show ?thesis using u k by (auto simp: upsert_health_def findBy_append split: option.splits)
qed

lemma upsert_known: "findBy bh_botId i rows \<noteq> None \<Longrightarrow>
    upsert_health i st rows = updateWhere (\<lambda>h. bh_botId h = i) (\<lambda>h. h\<lparr>bh_status := st\<rparr>) rows"
  by (simp only: upsert_health_def if_False)

lemma upsert_twice: "upsert_health i st (upsert_health i st' rows) = upsert_health i st rows"
proof (cases "findBy bh_botId i rows = None")
  case True
  have "updateWhere (\<lambda>h. bh_botId h = i) g rows = rows" for g :: "health_row \<Rightarrow> health_row"
    using True by (intro updateWhere_other) (auto simp: findBy_None)
  with True show ?thesis by (simp add: upsert_health_def findBy_append)
next
  case False
  then have "findBy bh_botId i (upsert_health i st' rows) \<noteq> None"
    by (auto simp: find_upsert)
  then have "upsert_health i st (upsert_health i st' rows)
      = updateWhere (\<lambda>h. bh_botId h = i) (\<lambda>h. h\<lparr>bh_status := st\<rparr>) (upsert_health i st' rows)"
    by (rule upsert_known)
  moreover have "updateWhere (\<lambda>h. bh_botId h = i) (\<lambda>h. h\<lparr>bh_status := st\<rparr>) (updateWhere (\<lambda>h. bh_botId h = i) (\<lambda>h. h\<lparr>bh_status := st'\<rparr>) rows)
      = updateWhere (\<lambda>h. bh_botId h = i) (\<lambda>h. h\<lparr>bh_status := st\<rparr>) rows"
    by (induction rows) auto
  ultimately show ?thesis by (simp only: upsert_known [OF False])
qed

lemma marked_marked: "marked i st calls' (marked i st' calls s) = marked i st (calls @ calls') s"
  by (simp add: marked_def restatus_twice upsert_twice)

lemma marked_calls: "(marked i st calls s)\<lparr>pn_calls := pn_calls (marked i st calls s) @ calls'\<rparr> = marked i st (calls @ calls') s"
  by (simp add: marked_def)

lemma setStatus_run: "findBy bo_id i (pn_bots s) \<noteq> None \<Longrightarrow> setStatus i st s = (Inr (), marked i st [] s)"
  by (simp add: setStatus_def update_bot_def andThen_def modify_def marked_def restatus_def)

text \<open>Computations that do nothing but talk to the runner.\<close>

definition calls_only :: "'a pact \<Rightarrow> bool" where
  "calls_only m \<longleftrightarrow> (\<forall>s. \<exists>r calls. m s = (r, s\<lparr>pn_calls := pn_calls s @ calls\<rparr>))"

lemma calls_onlyE:
  assumes "calls_only m"
  obtains r calls where "m s = (r, s\<lparr>pn_calls := pn_calls s @ calls\<rparr>)"
  using assms unfolding calls_only_def by blast

lemma calls_only_pure: "(\<And>s. snd (m s) = s) \<Longrightarrow> calls_only m"
  unfolding calls_only_def by (metis append_Nil2 panel.surjective panel.update_convs(17) prod.collapse)

lemma calls_only_andThen:
  assumes "calls_only m" and "\<And>x. calls_only (k x)" shows "calls_only (andThen m k)"
  unfolding calls_only_def
proof
  fix s
  obtain r calls where m: "m s = (r, s\<lparr>pn_calls := pn_calls s @ calls\<rparr>)" using assms(1) by (rule calls_onlyE)
  show "\<exists>r calls. andThen m k s = (r, s\<lparr>pn_calls := pn_calls s @ calls\<rparr>)"
  proof (cases r)
    case (Inl e)
    with m have "andThen m k s = (Inl e, s\<lparr>pn_calls := pn_calls s @ calls\<rparr>)" by (simp add: andThen_def)
    then show ?thesis by blast
  next
    case (Inr x)
    obtain r' calls' where "k x (s\<lparr>pn_calls := pn_calls s @ calls\<rparr>) = (r', (s\<lparr>pn_calls := pn_calls s @ calls\<rparr>)\<lparr>pn_calls := pn_calls (s\<lparr>pn_calls := pn_calls s @ calls\<rparr>) @ calls'\<rparr>)"
      using assms(2) by (rule calls_onlyE)
    then have "andThen m k s = (r', s\<lparr>pn_calls := pn_calls s @ (calls @ calls')\<rparr>)"
      using m Inr by (simp add: andThen_def)
    then show ?thesis by blast
  qed
qed

lemma calls_only_or_else: 
  assumes "calls_only m" and "calls_only h" shows "calls_only (or_else_run m h)"
  unfolding calls_only_def
proof
  fix s
  obtain r calls where m: "m s = (r, s\<lparr>pn_calls := pn_calls s @ calls\<rparr>)" using assms(1) by (rule calls_onlyE)
  obtain r' calls' where h: "h (s\<lparr>pn_calls := pn_calls s @ calls\<rparr>) = (r', (s\<lparr>pn_calls := pn_calls s @ calls\<rparr>)\<lparr>pn_calls := pn_calls (s\<lparr>pn_calls := pn_calls s @ calls\<rparr>) @ calls'\<rparr>)"
    using assms(2) by (rule calls_onlyE)
  show "\<exists>r calls. or_else_run m h s = (r, s\<lparr>pn_calls := pn_calls s @ calls\<rparr>)"
  proof (cases r)
    case (Inl e)
    with m h have "or_else_run m h s = (r', s\<lparr>pn_calls := pn_calls s @ (calls @ calls')\<rparr>)" by (simp add: or_else_run_def)
    then show ?thesis by blast
  next
    case (Inr x)
    with m have "or_else_run m h s = (r, s\<lparr>pn_calls := pn_calls s @ calls\<rparr>)" by (simp add: or_else_run_def)
    then show ?thesis by blast
  qed
qed

lemmas calls_only_intros = calls_only_andThen calls_only_or_else

lemma calls_only_basic:
  "calls_only (ret x)" "calls_only (raise e)" "calls_only (bot_environment pp i)"
  by (auto simp: run_simps bot_environment_def split: option.splits sum.splits intro!: calls_only_pure)

lemma calls_only_invoke: "calls_only (invoke pp c)"
  by (auto simp: calls_only_def invoke_def)

lemma calls_only_clients:
  "calls_only (invoke_or_throw pp c)" "calls_only (ignoring pp c)" "calls_only (findContainer pp i)"
  "calls_only (pm2StartBotProcess pp n env)" "calls_only (pm2StopProcess pp n)" "calls_only (pm2DeleteProcess pp n)"
  "calls_only (pm2RestartProcess pp n)" "calls_only (dockerStartBotContainer pp i env)"
  "calls_only (dockerStopBotContainer pp i)" "calls_only (dockerRestartBotContainer pp i)"
  unfolding pm2StartBotProcess_def pm2StopProcess_def pm2DeleteProcess_def pm2RestartProcess_def dockerStartBotContainer_def
    dockerStopBotContainer_def dockerRestartBotContainer_def findContainer_def ignoring_def invoke_or_throw_def
  by (auto intro!: calls_only_intros simp: calls_only_basic calls_only_invoke split: reply.splits)

text \<open>The three operations have one shape: mark the bot, talk to the runner, mark it again.\<close>

fun pending_status :: "bot_action \<Rightarrow> bot_status" where
  "pending_status ActStart = BsStarting"
| "pending_status ActStop = BsStopping"
| "pending_status ActRestart = BsStopping"

fun final_status :: "bot_action \<Rightarrow> bot_status" where
  "final_status ActStart = BsOnline"
| "final_status ActStop = BsOffline"
| "final_status ActRestart = BsOnline"

definition runner_talk :: "panel_platform \<Rightarrow> worker_mode \<Rightarrow> bot_action \<Rightarrow> string \<Rightarrow> unit pact" where
  "runner_talk pp mode act i = (let environment = bot_environment pp i in
     if mode = ModeDocker then (case act of
       ActStart \<Rightarrow> andThen environment (dockerStartBotContainer pp i)
     | ActStop \<Rightarrow> dockerStopBotContainer pp i
     | ActRestart \<Rightarrow> or_else_run (dockerRestartBotContainer pp i) (andThen environment (dockerStartBotContainer pp i)))
     else (case act of
       ActStart \<Rightarrow> andThen environment (pm2StartBotProcess pp (processName i))
     | ActStop \<Rightarrow> andThen (pm2StopProcess pp (processName i)) (\<lambda>_. pm2DeleteProcess pp (processName i))
     | ActRestart \<Rightarrow> or_else_run (pm2RestartProcess pp (processName i)) (andThen environment (pm2StartBotProcess pp (processName i)))))"

lemma run_action_shape: "run_action act (getRunnerAdapter pp mode) i =
    andThen (setStatus i (pending_status act)) (\<lambda>_. andThen (runner_talk pp mode act i) (\<lambda>_. setStatus i (final_status act)))"
  by (cases act) (simp_all add: getRunnerAdapter_def dockerAdapter_def pm2Adapter_def runner_talk_def andThen_assoc)

lemma runner_talk_calls: "calls_only (runner_talk pp mode act i)"
  unfolding runner_talk_def Let_def
  by (auto intro!: calls_only_intros simp: calls_only_basic calls_only_clients split: bot_action.splits)

lemma run_action_cases:
  assumes "findBy bo_id i (pn_bots s) \<noteq> None"
  obtains (completed) calls where "run_action act (getRunnerAdapter pp mode) i s = (Inr (), marked i (final_status act) calls s)"
  | (failed) e calls where "run_action act (getRunnerAdapter pp mode) i s = (Inl e, marked i (pending_status act) calls s)"
proof -
  let ?s = "marked i (pending_status act) [] s"
  obtain r calls where talk: "runner_talk pp mode act i ?s = (r, marked i (pending_status act) calls s)"
    using runner_talk_calls by (rule calls_onlyE [of _ ?s]) (simp add: marked_calls)
  have known: "findBy bo_id i (pn_bots (marked i (pending_status act) calls s)) \<noteq> None"
    using assms by (auto simp: marked_def find_restatus)
  show ?thesis
  proof (cases r)
    case (Inl e)
    then show ?thesis
      using failed talk by (simp add: run_action_shape andThen_def setStatus_run [OF assms])
  next
    case (Inr x)
    then show ?thesis
      using completed talk setStatus_run [OF known, of "final_status act"]
      by (simp add: run_action_shape andThen_def setStatus_run [OF assms] marked_marked)
  qed
qed

definition restarts_of :: "string \<Rightarrow> panel \<Rightarrow> int" where
  "restarts_of i s = (case findBy bh_botId i (pn_health s) of None \<Rightarrow> 0 | Some h \<Rightarrow> bh_restartCount h)"

definition audit_entry :: "string option \<Rightarrow> string \<Rightarrow> string \<Rightarrow> string \<Rightarrow> json option \<Rightarrow> panel \<Rightarrow> audit_row" where
  "audit_entry actor action targetType targetId metadata s = \<lparr>au_actorUserId = actor, au_action = action,
     au_targetType = targetType, au_targetId = targetId, au_metadataJson = metadata, au_createdAt = pn_now s\<rparr>"

lemma panel_audit_run: "panel_audit actor action ty i md s = (Inr (), s\<lparr>pn_audit := pn_audit s @ [audit_entry actor action ty i md s]\<rparr>)"
  by (simp add: panel_audit_def modify_def audit_entry_def)

lemma marked_simps [simp]:
  "pn_bots (marked i st calls s) = restatus i st (pn_bots s)" "pn_audit (marked i st calls s) = pn_audit s" "pn_workers (marked i st calls s) = pn_workers s"
  "pn_assignments (marked i st calls s) = pn_assignments s" "pn_now (marked i st calls s) = pn_now s"
  "pn_maintenance (marked i st calls s) = pn_maintenance s" "pn_restarts (marked i st calls s) = pn_restarts s"
  by (simp_all add: marked_def)

lemma restarts_of_marked [simp]: "restarts_of j (marked i st calls s) = restarts_of j s"
  by (auto simp: restarts_of_def marked_def find_upsert split: option.splits)

definition count_one :: "string \<Rightarrow> panel \<Rightarrow> panel" where
  "count_one i s = s\<lparr>pn_health := updateWhere (\<lambda>h. bh_botId h = i) (\<lambda>h. h\<lparr>bh_restartCount := bh_restartCount h + 1\<rparr>) (pn_health s)\<rparr>"

lemma count_restart_run: "count_restart i (marked i st calls s) = (Inr (), count_one i (marked i st calls s))"
  by (simp add: count_restart_def count_one_def marked_def find_upsert)

lemma find_counted: "findBy bh_botId j (updateWhere (\<lambda>h. bh_botId h = i) (\<lambda>h. h\<lparr>bh_restartCount := bh_restartCount h + 1\<rparr>) rows) =
    map_option (\<lambda>h. if bh_botId h = i then h\<lparr>bh_restartCount := bh_restartCount h + 1\<rparr> else h) (findBy bh_botId j rows)"
  by (rule findBy_updateWhere) simp

lemma restarts_of_count_one: "restarts_of j (count_one i s) =
    restarts_of j s + (if j = i \<and> findBy bh_botId i (pn_health s) \<noteq> None then 1 else 0)"
proof (cases "j = i")
  case True
  then show ?thesis by (auto simp: restarts_of_def count_one_def find_counted dest: findBy_key split: option.splits)
next
  case False
  then show ?thesis by (auto simp: restarts_of_def count_one_def find_counted dest!: findBy_key split: option.splits)
qed

lemma count_one_restarts: "restarts_of j (count_one i (marked i st calls s)) = restarts_of j s + (if j = i then 1 else 0)"
  by (simp add: restarts_of_count_one) (auto simp: marked_def find_upsert)

lemma performBotAction_run:
  assumes "findBy bo_id i (pn_bots s) \<noteq> None"
  obtains (completed) calls where "performBotAction pp i act actor s =
      (let t = (if act = ActRestart then count_one i else id) (marked i (final_status act) calls s) in
       (Inr (), t\<lparr>pn_audit := pn_audit t @ [audit_entry (Some actor) (''bot.'' @ action_name act) ''bot'' i None s]\<rparr>))"
  | (failed) e calls where "performBotAction pp i act actor s = (Inl e, marked i (pending_status act) calls s)"
proof -
  obtain b where b: "findBy bo_id i (pn_bots s) = Some b" using assms by auto
  define mode where "mode = (case worker_of b s of None \<Rightarrow> ModePm2 | Some w \<Rightarrow> wk_mode w)"
  have run: "performBotAction pp i act actor s = andThen (run_action act (getRunnerAdapter pp mode) i) (\<lambda>_.
      andThen (if act = ActRestart then count_restart i else ret ()) (\<lambda>_.
        panel_audit (Some actor) (''bot.'' @ action_name act) ''bot'' i None)) s"
    by (simp add: performBotAction_def b mode_def Let_def)
  have entry: "audit_entry a x y z m (count_one i (marked i st c s)) = audit_entry a x y z m s"
    "audit_entry a x y z m (marked i st c s) = audit_entry a x y z m s" for a x y z m st c
    by (simp_all add: audit_entry_def count_one_def)
  show ?thesis
  proof (cases rule: run_action_cases [OF assms, of act pp mode])
    case (1 calls)
    show ?thesis
      by (rule completed [of calls])
        (simp add: run andThen_def 1 count_restart_run ret_def panel_audit_run entry Let_def)
  next
    case (2 e calls)
    then show ?thesis using failed [of e calls] by (simp add: run andThen_Inl)
  qed
qed

lemma bot_action_facts:
  assumes "findBy bo_id i (pn_bots s) = Some b" and "performBotAction pp i act actor s = (r, t)"
  shows "findBy bo_id i (pn_bots t) = Some (b\<lparr>bo_status := if r = Inr () then final_status act else pending_status act\<rparr>)
    \<and> pn_audit t = pn_audit s @ (if r = Inr () then [audit_entry (Some actor) (''bot.'' @ action_name act) ''bot'' i None s] else [])
    \<and> restarts_of i t = restarts_of i s + (if r = Inr () \<and> act = ActRestart then 1 else 0)
    \<and> (\<forall>j. j = i \<or> findBy bo_id j (pn_bots t) = findBy bo_id j (pn_bots s) \<and> restarts_of j t = restarts_of j s)
    \<and> pn_workers t = pn_workers s \<and> pn_assignments t = pn_assignments s"
proof -
  have known: "findBy bo_id i (pn_bots s) \<noteq> None" using assms(1) by simp
  have key: "bo_id b = i" using assms(1) by (rule findBy_key)
  have other: "findBy bo_id j (restatus i st (pn_bots s)) = findBy bo_id j (pn_bots s)" if "j \<noteq> i" for j st
    using that by (cases "findBy bo_id j (pn_bots s)") (auto simp: find_restatus dest: findBy_key)
  have bots: "pn_bots (count_one i u) = pn_bots u" "pn_workers (count_one i u) = pn_workers u"
    "pn_assignments (count_one i u) = pn_assignments u" "pn_audit (count_one i u) = pn_audit u" for u
    by (simp_all add: count_one_def)
  have rest: "restarts_of j (u\<lparr>pn_audit := a\<rparr>) = restarts_of j u" for j u a
    by (simp add: restarts_of_def)
  show ?thesis
  proof (cases rule: performBotAction_run [OF known, of pp act actor])
    case (1 calls)
    then show ?thesis using assms key other
      by (auto simp: Let_def bots rest count_one_restarts find_restatus)
  next
    case (2 e calls)
    then show ?thesis using assms key other
      by (auto simp: find_restatus)
  qed
qed

text \<open>
  C36: Starting, stopping or restarting a bot touches that bot alone. When it succeeds the bot has the
  final status of the action, a restart is counted once and one audit entry is appended; when PM2,
  Docker or the decryption of the token fails, the bot is left with the transitional status
  (\<open>starting\<close> or \<open>stopping\<close>), nothing is counted and nothing is audited.
\<close>

theorem bot_action_outcome:
  assumes "findBy bo_id i (pn_bots s) = Some b" and "performBotAction pp i act actor s = (r, t)"
  shows "findBy bo_id i (pn_bots t) = Some (b\<lparr>bo_status := if r = Inr () then final_status act else pending_status act\<rparr>)
    \<and> pn_audit t = pn_audit s @ (if r = Inr () then [audit_entry (Some actor) (''bot.'' @ action_name act) ''bot'' i None s] else [])
    \<and> restarts_of i t = restarts_of i s + (if r = Inr () \<and> act = ActRestart then 1 else 0)
    \<and> (\<forall>j. j = i \<or> findBy bo_id j (pn_bots t) = findBy bo_id j (pn_bots s) \<and> restarts_of j t = restarts_of j s)
    \<and> pn_workers t = pn_workers s \<and> pn_assignments t = pn_assignments s"
  using assms by (rule bot_action_facts)

text \<open>A bot under PM2 that is asked to start while PM2 is not reachable.\<close>

definition refusing_platform :: panel_platform where
  "refusing_platform = \<lparr>pp_cuid = (\<lambda>n. ''id'' @ show_nat n), pp_runner = (\<lambda>_ _. ReplyError), pp_crypto = plain_crypto,
     pp_env = Map.empty, pp_nodeVersion = ''20.1.0'', pp_isoString = show_int, pp_safeParse = plain_validator (\<lambda>_ _. True), pp_flatten = (\<lambda>_. JNull)\<rparr>"

theorem bot_action_outcome_witness:
  "findBy bo_id ''b1'' (pn_bots (snd (performBotAction refusing_platform ''b1'' ActStop ''u1'' sample_panel)))
     = Some ((sample_bot ''b1'' (Some ''w1''))\<lparr>bo_status := BsStopping\<rparr>)"
proof -
  have find: "findBy bo_id ''b1'' (pn_bots sample_panel) = Some (sample_bot ''b1'' (Some ''w1''))"
    by (simp add: sample_panel_def sample_bot_def)
  obtain r t where run: "performBotAction refusing_platform ''b1'' ActStop ''u1'' sample_panel = (r, t)" by fastforce
  have "r = Inl RunnerError"
    using run by (simp add: performBotAction_def find worker_of_def Let_def getRunnerAdapter_def pm2Adapter_def
      setStatus_def update_bot_def andThen_def modify_def pm2StopProcess_def invoke_or_throw_def invoke_def refusing_platform_def
      raise_def sample_panel_def sample_worker_def sample_bot_def)
  then show ?thesis using bot_action_outcome [OF find run] by (simp add: run)
qed

subsection \<open>Staggered restarts\<close>

text \<open>
  A staggered restart job acts only on a bot that is online at that moment, outside maintenance
  mode, and whose worker, if it has one, is online; in every other case the state is left exactly as it
  was and the job reports that it was skipped. Whatever happens, no other bot changes.
\<close>

theorem restart_job_is_guarded:
  assumes "processStaggeredRestart pp job s = (r, t)"
  shows "(if \<not> isMaintenanceModeEnabled s
           \<and> (\<exists>b. findBy bo_id (rj_botId job) (pn_bots s) = Some b \<and> bo_status b = BsOnline
                \<and> (case worker_of b s of None \<Rightarrow> True | Some w \<Rightarrow> wk_status w = WkOnline))
          then case r of
            Inr outcome \<Rightarrow> outcome = Restarted \<and> restarts_of (rj_botId job) t = restarts_of (rj_botId job) s + 1
              \<and> map au_action (pn_audit t) = map au_action (pn_audit s) @ [''bot.restart'', ''deployment.staggered_restart'']
          | Inl e \<Rightarrow> map_option bo_status (findBy bo_id (rj_botId job) (pn_bots t)) = Some BsStopping \<and> pn_audit t = pn_audit s
          else t = s \<and> (\<exists>reason. r = Inr (Skipped reason)))
    \<and> (\<forall>j. j = rj_botId job \<or> findBy bo_id j (pn_bots t) = findBy bo_id j (pn_bots s))"
proof (cases "skip_reason job s")
  case (Some reason)
  then have "t = s \<and> r = Inr (Skipped reason)" using assms by (simp add: processStaggeredRestart_def)
  moreover have "isMaintenanceModeEnabled s \<or> \<not> (\<exists>b. findBy bo_id (rj_botId job) (pn_bots s) = Some b \<and> bo_status b = BsOnline
      \<and> (case worker_of b s of None \<Rightarrow> True | Some w \<Rightarrow> wk_status w = WkOnline))"
    using Some by (auto simp: skip_reason_def split: if_splits option.splits)
  ultimately show ?thesis by auto
next
  case None
  then obtain b where b: "\<not> isMaintenanceModeEnabled s" "findBy bo_id (rj_botId job) (pn_bots s) = Some b" "bo_status b = BsOnline"
    "case worker_of b s of None \<Rightarrow> True | Some w \<Rightarrow> wk_status w = WkOnline"
    by (auto simp: skip_reason_def split: if_splits option.splits)
  obtain r' t' where run: "performBotAction pp (rj_botId job) ActRestart (rj_actorUserId job) s = (r', t')" by fastforce
  note outcome = bot_action_facts [OF b(2) run]
  show ?thesis
  proof (cases r')
    case (Inl e)
    then show ?thesis using assms None run outcome b by (auto simp: processStaggeredRestart_def andThen_def)
  next
    case (Inr u)
    then show ?thesis using assms None run outcome b
      by (auto simp: processStaggeredRestart_def andThen_def panel_audit_run ret_def restarts_of_def audit_entry_def)
  qed
qed

lemma refusing_invoke: "invoke_or_throw refusing_platform c s = (Inl RunnerError, s\<lparr>pn_calls := pn_calls s @ [c]\<rparr>)"
  by (simp add: invoke_or_throw_def invoke_def refusing_platform_def andThen_def raise_def)

lemma refusing_talk: "\<exists>e. fst (runner_talk refusing_platform ModePm2 ActRestart i s) = Inl e"
  by (auto simp: runner_talk_def or_else_run_def pm2RestartProcess_def pm2StartBotProcess_def refusing_invoke andThen_def
    split: prod.splits sum.splits)

lemma refusing_restart:
  assumes "findBy bo_id i (pn_bots s) = Some b" and "worker_of b s = Some w" and "wk_mode w = ModePm2"
  shows "\<exists>e. fst (performBotAction refusing_platform i ActRestart a s) = Inl e"
proof -
  obtain e t where "runner_talk refusing_platform ModePm2 ActRestart i (marked i BsStopping [] s) = (Inl e, t)"
    using refusing_talk [of i "marked i BsStopping [] s"] by (metis prod.collapse)
  then have "run_action ActRestart (getRunnerAdapter refusing_platform ModePm2) i s = (Inl e, t)"
    using assms(1) by (simp add: run_action_shape andThen_def setStatus_run del: run_action.simps)
  then show ?thesis
    using assms by (simp add: performBotAction_def andThen_def)
qed

theorem restart_job_is_guarded_witness:
  "map_option bo_status (findBy bo_id ''b1'' (pn_bots (snd (processStaggeredRestart refusing_platform
     (restart_job_of ''d1'' ''u1'' 0 ''b1'') sample_panel)))) = Some BsStopping"
proof -
  let ?job = "restart_job_of ''d1'' ''u1'' 0 ''b1''"
  have find: "findBy bo_id ''b1'' (pn_bots sample_panel) = Some (sample_bot ''b1'' (Some ''w1''))"
    by (simp add: sample_panel_def sample_bot_def)
  have worker: "worker_of (sample_bot ''b1'' (Some ''w1'')) sample_panel = Some (sample_worker ''w1'' 5 1)"
    by (simp add: worker_of_def sample_panel_def sample_bot_def sample_worker_def)
  have job: "rj_botId ?job = ''b1''" by (simp add: restart_job_of_def)
  have go: "skip_reason ?job sample_panel = None"
    by (simp add: skip_reason_def job find worker isMaintenanceModeEnabled_def) (simp add: sample_panel_def sample_bot_def sample_worker_def)
  obtain r t where run: "processStaggeredRestart refusing_platform ?job sample_panel = (r, t)" by fastforce
  have failed: "\<exists>e. r = Inl e"
    using refusing_restart [OF find worker, of "rj_actorUserId ?job"] run
    by (auto simp: processStaggeredRestart_def go job andThen_def sample_worker_def split: prod.splits)
  have facts: "\<not> isMaintenanceModeEnabled sample_panel" "bo_status (sample_bot ''b1'' (Some ''w1'')) = BsOnline"
    "wk_status (sample_worker ''w1'' 5 1) = WkOnline"
    by (simp_all add: isMaintenanceModeEnabled_def sample_panel_def sample_bot_def sample_worker_def)
  show ?thesis
    using restart_job_is_guarded [OF run] failed by (auto simp: run job find worker facts)
qed

lemma restart_jobId_inj: "rj_jobId (restart_job_of d a k i) = rj_jobId (restart_job_of d a' k' i') \<longleftrightarrow> i = i'"
  by (simp add: restart_job_of_def)

definition deployment_jobs :: "string \<Rightarrow> string \<Rightarrow> nat \<Rightarrow> string list \<Rightarrow> restart_job list" where
  "deployment_jobs d a k ids = map (\<lambda>(n, i). restart_job_of d a n i) (List.enumerate k ids)"

lemma deployment_jobs_fields:
  "map rj_botId (deployment_jobs d a k ids) = ids"
  "map rj_delay (deployment_jobs d a k ids) = map (\<lambda>n. 15000 * int n) [k..<k + length ids]"
  "map rj_jobId (deployment_jobs d a k ids) = map (\<lambda>i. rj_jobId (restart_job_of d a 0 i)) ids"
  by (induction ids arbitrary: k) (simp_all add: deployment_jobs_def restart_job_of_def RESTART_STAGGER_MS_def upt_conv_Cons del: upt_Suc)

lemma add_jobs_fresh:
  assumes "distinct ids" and "\<forall>i \<in> set ids. rj_jobId (restart_job_of d a 0 i) \<notin> rj_jobId ` set jobs"
  shows "fold (\<lambda>(n, i). add_job (restart_job_of d a n i)) (List.enumerate k ids) jobs = jobs @ deployment_jobs d a k ids"
  using assms
proof (induction ids arbitrary: k jobs)
  case (Cons i ids)
  have same: "rj_jobId (restart_job_of d a n j) = rj_jobId (restart_job_of d a 0 j)" for n j
    by (simp add: restart_jobId_inj)
  have step: "add_job (restart_job_of d a k i) jobs = jobs @ [restart_job_of d a k i]"
    using Cons.prems same [of k i] by (simp add: add_job_def)
  have "\<forall>j \<in> set ids. rj_jobId (restart_job_of d a 0 j) \<notin> rj_jobId ` set (jobs @ [restart_job_of d a k i])"
    using Cons.prems by (auto simp: restart_jobId_inj)
  then show ?case using Cons.IH Cons.prems by (simp add: step deployment_jobs_def)
qed (simp add: deployment_jobs_def)

lemma add_jobs_known:
  assumes "\<forall>i \<in> set ids. rj_jobId (restart_job_of d a 0 i) \<in> rj_jobId ` set jobs"
  shows "fold (\<lambda>(n, i). add_job (restart_job_of d a n i)) (List.enumerate k ids) jobs = jobs"
  using assms
proof (induction ids arbitrary: k)
  case (Cons i ids)
  have "rj_jobId (restart_job_of d a k i) = rj_jobId (restart_job_of d a 0 i)" by (simp add: restart_jobId_inj)
  then have "add_job (restart_job_of d a k i) jobs = jobs" using Cons.prems by (simp add: add_job_def)
  then show ?case using Cons by simp
qed simp

text \<open>
  The restarts of a deployment are queued once per bot, the \<open>k\<close>-th of them with a delay of \<open>k\<close> times
  fifteen seconds, behind the jobs that were there; queueing them again adds nothing.
\<close>

theorem restarts_are_staggered:
  assumes "pn_restarts s = Some jobs" and "distinct ids"
    and "\<forall>i \<in> set ids. rj_jobId (restart_job_of d a 0 i) \<notin> rj_jobId ` set jobs"
  shows "\<exists>new t. enqueueStaggeredRestarts ids d a s = (Inr (int (length ids)), t) \<and> t = s\<lparr>pn_restarts := Some (jobs @ new)\<rparr>
    \<and> map rj_botId new = ids \<and> map rj_delay new = map (\<lambda>k. 15000 * int k) [0..<length ids]
    \<and> distinct (map rj_jobId new) \<and> enqueueStaggeredRestarts ids d a t = (Inr (int (length ids)), t)"
proof -
  let ?new = "deployment_jobs d a 0 ids"
  let ?t = "s\<lparr>pn_restarts := Some (jobs @ ?new)\<rparr>"
  have eq: "s = s\<lparr>pn_restarts := Some jobs\<rparr>" using assms(1) by simp
  have run: "enqueueStaggeredRestarts ids d a s = (Inr (int (length ids)), ?t)"
    using assms eq by (auto simp: enqueueStaggeredRestarts_def add_jobs_fresh deployment_jobs_def)
  note bots = deployment_jobs_fields(1) [of d a 0 ids] and ids = deployment_jobs_fields(3) [of d a 0 ids]
  have delays: "map rj_delay ?new = map (\<lambda>k. 15000 * int k) [0..<length ids]"
    using deployment_jobs_fields(2) [of d a 0 ids] by simp
  have distinct: "distinct (map rj_jobId ?new)"
    unfolding ids using assms(2) by (simp add: distinct_map inj_on_def restart_jobId_inj)
  have "\<forall>i \<in> set ids. rj_jobId (restart_job_of d a 0 i) \<in> rj_jobId ` set (jobs @ ?new)"
    using arg_cong [OF ids, of set] by auto
  then have again: "enqueueStaggeredRestarts ids d a ?t = (Inr (int (length ids)), ?t)"
    by (simp add: enqueueStaggeredRestarts_def add_jobs_known)
  show ?thesis using run bots delays distinct again by blast
qed

theorem restarts_are_staggered_witness:
  "\<exists>t. enqueueStaggeredRestarts [''b0'', ''b1''] ''d1'' ''u1'' sample_panel = (Inr 2, t)
     \<and> map_option (map rj_delay) (pn_restarts t) = Some [0, 15000]"
  using restarts_are_staggered [of sample_panel "[]" "[''b0'', ''b1'']" "''d1''" "''u1''"]
  by (auto simp: sample_panel_def)

end
