(* ===== verification/Sessions.thy ===== *)
theory Sessions
  imports Bot_Actions
begin

text \<open>
  Who calls the API and what it may answer with: the session callback (\<open>auth.ts\<close>), the guards
  (\<open>lib/require-admin.ts\<close>, \<open>lib/require-customer.ts\<close>) and the serializers of a bot
  (\<open>lib/serialize.ts\<close>). Auth.js resolves the session cookie to a user; the callback then runs on that
  user's row and decides the role the request is served with. A route handler is a function of the
  session \<open>auth()\<close> returned and of the request's body; an exception it throws becomes the framework's 500.
\<close>

subsection \<open>Sessions\<close>

record session =
  ss_userId :: string
  ss_role :: role
  ss_discordUserId :: "string option"

definition adminDiscordIds :: "panel_platform \<Rightarrow> string list" where
  "adminDiscordIds pp = filter (\<lambda>i. i \<noteq> '''')
     (map trim (split_on CHR '','' (case pp_env pp ''BOTFLEET_ADMIN_DISCORD_IDS'' of None \<Rightarrow> '''' | Some s \<Rightarrow> s)))"

definition discord_account :: "string \<Rightarrow> panel \<Rightarrow> string option" where
  "discord_account userId s = map_option ax_providerAccountId
     (find (\<lambda>a. ax_userId a = userId \<and> ax_provider a = ''discord'') (pn_accounts s))"

text \<open>The update of a user's row; the column \<open>discord_user_id\<close> is unique.\<close>

definition linked :: "string \<Rightarrow> bool \<Rightarrow> user_row \<Rightarrow> user_row" where
  "linked d promote r = r\<lparr>us_discordUserId := Some d, us_role := if promote then RoleOwner else us_role r\<rparr>"

definition link_discord :: "string \<Rightarrow> string \<Rightarrow> bool \<Rightarrow> user_row pact" where
  "link_discord userId discordUserId promote = (\<lambda>s.
     if findBy us_id userId (pn_users s) = None then (Inl RowNotFound, s)
     else if list_ex (\<lambda>r. us_id r \<noteq> userId \<and> us_discordUserId r = Some discordUserId) (pn_users s) then (Inl UniqueViolation, s)
     else let users = updateWhere (\<lambda>r. us_id r = userId) (linked discordUserId promote) (pn_users s) in
       (Inr (the (findBy us_id userId users)), s\<lparr>pn_users := users\<rparr>))"

definition session_of :: "user_row \<Rightarrow> session" where
  "session_of u = \<lparr>ss_userId = us_id u, ss_role = us_role u, ss_discordUserId = truthy (us_discordUserId u)\<rparr>"

definition session_callback :: "panel_platform \<Rightarrow> user_row \<Rightarrow> session pact" where
  "session_callback pp u = (\<lambda>s.
     if truthy (us_discordUserId u) = None \<or> us_role u = RoleMember \<and> adminDiscordIds pp \<noteq> []
     then case truthy (discord_account (us_id u) s) of
       None \<Rightarrow> (Inr (session_of u), s)
     | Some discordId \<Rightarrow>
         let shouldPromote = us_role u = RoleMember \<and> discordId \<in> set (adminDiscordIds pp) in
         if truthy (us_discordUserId u) = None \<or> shouldPromote
         then andThen (link_discord (us_id u) (case us_discordUserId u of None \<Rightarrow> discordId | Some d \<Rightarrow> d) shouldPromote)
                (\<lambda>updated. ret (session_of updated)) s
         else (Inr (session_of u), s)
     else (Inr (session_of u), s))"

text \<open>\<open>auth()\<close>: \<open>who\<close> is the user the session cookie belongs to, if any.\<close>

definition auth :: "panel_platform \<Rightarrow> string option \<Rightarrow> session option pact" where
  "auth pp who = (\<lambda>s. case Option.bind who (\<lambda>i. findBy us_id i (pn_users s)) of
     None \<Rightarrow> (Inr None, s)
   | Some u \<Rightarrow> andThen (session_callback pp u) (\<lambda>ss. ret (Some ss)) s)"

subsection \<open>Responses and guards\<close>

record response =
  rs_status :: int
  rs_body :: json

definition reply_json :: "int \<Rightarrow> (string \<times> json) list \<Rightarrow> response" where
  "reply_json status kvs = \<lparr>rs_status = status, rs_body = JObj kvs\<rparr>"

definition error_json :: "int \<Rightarrow> string \<Rightarrow> response" where
  "error_json status message = reply_json status [(''error'', JStr message)]"

fun requireAdmin :: "session option \<Rightarrow> response + session" where
  "requireAdmin None = Inl (error_json 401 ''Unauthorized'')"
| "requireAdmin (Some ss) = (if ss_role ss \<noteq> RoleAdmin \<and> ss_role ss \<noteq> RoleOwner then Inl (error_json 403 ''Forbidden'') else Inr ss)"

fun requireOwner :: "session option \<Rightarrow> response + session" where
  "requireOwner None = Inl (error_json 401 ''Unauthorized'')"
| "requireOwner (Some ss) = (if ss_role ss \<noteq> RoleOwner then Inl (error_json 403 ''Forbidden'') else Inr ss)"

fun requireSession :: "session option \<Rightarrow> response + session" where
  "requireSession None = Inl (error_json 401 ''Unauthorized'')"
| "requireSession (Some ss) = Inr ss"

fun requireCustomerSession :: "session option \<Rightarrow> response + session" where
  "requireCustomerSession None = Inl (error_json 401 ''Unauthorized'')"
| "requireCustomerSession (Some ss) = Inr ss"

text \<open>The guards ask for a rank: whoever passes one keeps passing it with a higher role.\<close>

lemma guards_by_rank:
  "requireAdmin (Some ss) = Inr ss \<longleftrightarrow> RoleAdmin \<le> ss_role ss"
  "requireOwner (Some ss) = Inr ss \<longleftrightarrow> RoleOwner \<le> ss_role ss"
  by (cases "ss_role ss"; simp add: less_eq_role_def)+

text \<open>\<open>if (!guard.ok) return guard.response\<close>, \<open>await request.json()\<close> and the 400 answer of a body that does not parse.\<close>

definition guarded :: "response + session \<Rightarrow> (session \<Rightarrow> ('s, 'e, response) run) \<Rightarrow> ('s, 'e, response) run" where
  "guarded guard k = (case guard of Inl r \<Rightarrow> ret r | Inr ss \<Rightarrow> k ss)"

definition request_json :: "json option \<Rightarrow> json pact" where
  "request_json body = (case body of None \<Rightarrow> raise BodyNotJson | Some j \<Rightarrow> ret j)"

definition invalid_request :: "json \<Rightarrow> response" where
  "invalid_request details = reply_json 400 [(''error'', JStr ''Invalid request''), (''details'', details)]"

definition parsed_body ::
  "(schema \<Rightarrow> json option \<Rightarrow> issue list + json option) \<Rightarrow> (issue list \<Rightarrow> json) \<Rightarrow> schema \<Rightarrow> json
    \<Rightarrow> (json option \<Rightarrow> ('s, 'e, response) run) \<Rightarrow> ('s, 'e, response) run" where
  "parsed_body validate flatten schema body k = (case validate schema (Some body) of
     Inl issues \<Rightarrow> ret (invalid_request (flatten issues))
   | Inr data \<Rightarrow> k data)"

definition loadOwnedBot :: "string \<Rightarrow> string \<Rightarrow> panel \<Rightarrow> bot_row option" where
  "loadOwnedBot botId userId s = (case findBy bo_id botId (pn_bots s) of
     None \<Rightarrow> None
   | Some b \<Rightarrow> (case findBy cu_id (bo_customerId b) (pn_customers s) of
       None \<Rightarrow> None
     | Some c \<Rightarrow> if cu_ownerUserId c \<noteq> userId then None else Some b))"

subsection \<open>What leaves the server\<close>

definition nullable :: "('a \<Rightarrow> json) \<Rightarrow> 'a option \<Rightarrow> json" where
  "nullable f v = (case v of None \<Rightarrow> JNull | Some x \<Rightarrow> f x)"

definition date_json :: "panel_platform \<Rightarrow> int \<Rightarrow> json" where
  "date_json pp ms = JStr (pp_isoString pp ms)"

definition serializeBot :: "panel_platform \<Rightarrow> bot_row \<Rightarrow> json" where
  "serializeBot pp b = JObj
     [(''id'', JStr (bo_id b)), (''customerId'', JStr (bo_customerId b)), (''name'', JStr (bo_name b)),
      (''clientId'', JStr (bo_clientId b)), (''hasPublicKey'', JBool (truthy (bo_publicKey b) \<noteq> None)),
      (''plan'', JStr (plan_name (bo_plan b))), (''status'', JStr (bot_status_name (bo_status b))),
      (''guildLimit'', JNum (of_int (bo_guildLimit b))), (''shardCount'', JNum (of_int (bo_shardCount b))),
      (''workerGroupId'', nullable JStr (bo_workerGroupId b)),
      (''lastReadyAt'', nullable (date_json pp) (bo_lastReadyAt b)),
      (''lastHeartbeatAt'', nullable (date_json pp) (bo_lastHeartbeatAt b)),
      (''createdAt'', date_json pp (bo_createdAt b))]"

definition limits_json :: "plan_limits \<Rightarrow> json" where
  "limits_json l = JObj
     [(''maxBots'', JNum (of_int (pl_maxBots l))), (''maxGuildsPerBot'', JNum (of_int (pl_maxGuildsPerBot l))),
      (''maxShardsPerBot'', JNum (of_int (pl_maxShardsPerBot l))), (''logRetentionDays'', JNum (of_int (pl_logRetentionDays l))),
      (''restartControlsAllowed'', JBool (pl_restartControlsAllowed l)), (''customBrandingAllowed'', JBool (pl_customBrandingAllowed l)),
      (''priorityWorkerAllowed'', JBool (pl_priorityWorkerAllowed l)), (''aiWorkerAllowed'', JBool (pl_aiWorkerAllowed l))]"

definition inviteUrl :: "string \<Rightarrow> string" where
  "inviteUrl clientId = ''https://discord.com/oauth2/authorize?client_id='' @ clientId
     @ ''&permissions=0&scope=bot%20applications.commands''"

definition serializeBotForCustomer :: "panel_platform \<Rightarrow> bot_row \<Rightarrow> health_row option \<Rightarrow> json" where
  "serializeBotForCustomer pp b health = JObj
     [(''id'', JStr (bo_id b)), (''name'', JStr (bo_name b)), (''clientId'', JStr (bo_clientId b)),
      (''inviteUrl'', JStr (inviteUrl (bo_clientId b))),
      (''status'', JStr (bot_status_name (bo_status b))), (''plan'', JStr (plan_name (bo_plan b))),
      (''guildCount'', JNum (of_int (case health of None \<Rightarrow> 0 | Some h \<Rightarrow> bh_guildCount h))),
      (''guildLimit'', JNum (of_int (bo_guildLimit b))), (''planLimits'', limits_json (getPlanLimits (bo_plan b))),
      (''lastReadyAt'', nullable (date_json pp) (bo_lastReadyAt b)), (''createdAt'', date_json pp (bo_createdAt b))]"

subsection \<open>The session callback\<close>

lemma find_users_map:
  assumes "\<And>r. us_id (g r) = us_id r"
  shows "findBy us_id j (updateWhere (\<lambda>r. us_id r = i) g rows) = map_option (\<lambda>r. if us_id r = i then g r else r) (findBy us_id j rows)"
  using assms by (rule findBy_updateWhere)

lemma link_discord_run:
  assumes "findBy us_id i (pn_users s) = Some u" and "link_discord i d promote s = (Inr u', t)"
  shows "u' = linked d promote u \<and> t = s\<lparr>pn_users := updateWhere (\<lambda>r. us_id r = i) (linked d promote) (pn_users s)\<rparr>
    \<and> (\<forall>r \<in> set (pn_users s). us_id r = i \<or> us_discordUserId r \<noteq> Some d)"
proof -
  have f: "findBy us_id i (updateWhere (\<lambda>r. us_id r = i) (linked d promote) (pn_users s)) = Some (linked d promote u)"
    using assms(1) by (simp add: find_users_map linked_def) (auto dest: findBy_key)
  show ?thesis
    using assms(2) f by (auto simp: link_discord_def assms(1) Let_def list_ex_iff split: if_splits)
qed

text \<open>Either nothing is written, or the Discord account is linked and an allowlisted member promoted.\<close>

lemma session_callback_cases:
  assumes "findBy us_id i (pn_users s) = Some u" and "session_callback pp u s = (Inr ss, t)"
  obtains (unchanged) "t = s" "ss = session_of u"
    "truthy (us_discordUserId u) = None \<longrightarrow> truthy (discord_account i s) = None"
    "us_role u = RoleMember \<longrightarrow> (\<forall>d. truthy (discord_account i s) = Some d \<longrightarrow> d \<notin> set (adminDiscordIds pp))"
  | (linked) d e promote where "truthy (discord_account i s) = Some d"
    "promote \<longleftrightarrow> us_role u = RoleMember \<and> d \<in> set (adminDiscordIds pp)"
    "e = (case us_discordUserId u of None \<Rightarrow> d | Some x \<Rightarrow> x)"
    "ss = session_of (linked e promote u)"
    "t = s\<lparr>pn_users := updateWhere (\<lambda>r. us_id r = i) (linked e promote) (pn_users s)\<rparr>"
    "\<forall>r \<in> set (pn_users s). us_id r = i \<or> us_discordUserId r \<noteq> Some e"
proof (cases "truthy (discord_account i s)")
  case None
  have key: "us_id u = i" using assms(1) by (rule findBy_key)
  then show ?thesis using unchanged assms(2) None by (auto simp: session_callback_def split: if_splits)
next
  case (Some d)
  have key: "us_id u = i" using assms(1) by (rule findBy_key)
  define promote where "promote = (us_role u = RoleMember \<and> d \<in> set (adminDiscordIds pp))"
  define e where "e = (case us_discordUserId u of None \<Rightarrow> d | Some x \<Rightarrow> x)"
  show ?thesis
  proof (cases "truthy (us_discordUserId u) = None \<or> promote")
    case True
    then have "andThen (link_discord i e promote) (\<lambda>updated. ret (session_of updated)) s = (Inr ss, t)"
      using assms(2) Some by (auto simp: session_callback_def key promote_def e_def Let_def split: if_splits)
    then obtain u' where "link_discord i e promote s = (Inr u', t)" "ss = session_of u'"
      by (elim andThen_InrE) (auto simp: ret_def)
    then show ?thesis
      using linked [OF Some promote_def e_def] link_discord_run [OF assms(1)] by blast
  next
    case False
    then have "t = s \<and> ss = session_of u"
      using assms(2) Some by (auto simp: session_callback_def key promote_def Let_def split: if_splits)
    then show ?thesis using unchanged False Some by (auto simp: promote_def)
  qed
qed

lemma truthy_of_truthy: "truthy x = Some d \<Longrightarrow> x = Some d \<and> d \<noteq> ''''"
  by (cases x rule: truthy.cases) auto

lemma session_again:
  assumes "findBy us_id i (pn_users s) = Some u" and "session_callback pp u s = (Inr ss, t)"
  shows "\<exists>u'. findBy us_id i (pn_users t) = Some u' \<and> ss = session_of u' \<and> session_callback pp u' t = (Inr ss, t)"
  using assms
proof (cases rule: session_callback_cases)
  case unchanged
  then show ?thesis using assms by auto
next
  case (linked d e promote)
  let ?u = "linked e promote u" and ?users = "updateWhere (\<lambda>r. us_id r = i) (linked e promote) (pn_users s)"
  have key: "us_id u = i" using assms(1) by (rule findBy_key)
  have find: "findBy us_id i (pn_users t) = Some ?u"
    using assms(1) linked(5) key by (simp add: find_users_map linked_def)
  have account: "discord_account i t = discord_account i s" using linked(5) by (simp add: discord_account_def)
  have role: "us_role ?u = RoleMember \<Longrightarrow> d \<notin> set (adminDiscordIds pp)"
    using linked(2) by (auto simp: linked_def split: if_splits)
  have again: "link_discord i e False t = (Inr ?u, t)"
  proof -
    have same: "linked e False (linked e promote r) = linked e promote r" for r by (simp add: linked_def)
    have upd: "updateWhere (\<lambda>r. us_id r = i) (linked e False) ?users = ?users"
      by (induction "pn_users s") (auto simp: same updateWhere_def linked_def)
    have unique: "\<not> list_ex (\<lambda>r. us_id r \<noteq> i \<and> us_discordUserId r = Some e) ?users"
      using linked(6) by (auto simp: list_ex_iff set_updateWhere linked_def split: if_splits)
    show ?thesis using find unique upd linked(5) by (simp add: link_discord_def Let_def)
  qed
  have e: "us_discordUserId ?u = Some e" "us_id ?u = i" using key by (simp_all add: linked_def)
  have "session_callback pp ?u t = (Inr ss, t)"
  proof -
    show ?thesis
      using linked(1,4) role again account e
      by (cases "us_role ?u = RoleMember") (simp_all add: session_callback_def Let_def andThen_def ret_def)
  qed
  then show ?thesis using find linked(4) by blast
qed

lemma session_callback_core:
  assumes "findBy us_id i (pn_users s) = Some u" and "session_callback pp u s = (Inr ss, t)"
  shows "\<exists>u'. findBy us_id i (pn_users t) = Some u' \<and> ss_userId ss = i \<and> ss_role ss = us_role u'
      \<and> (us_role u' = us_role u
         \<or> us_role u = RoleMember \<and> us_role u' = RoleOwner
           \<and> (\<exists>a \<in> set (pn_accounts s). ax_userId a = i \<and> ax_provider a = ''discord''
                \<and> ax_providerAccountId a \<in> set (adminDiscordIds pp)))
      \<and> session_callback pp u' t = (Inr ss, t)
      \<and> (\<forall>j. j = i \<or> findBy us_id j (pn_users t) = findBy us_id j (pn_users s))
      \<and> t\<lparr>pn_users := pn_users s\<rparr> = s"
proof -
  obtain u' where u': "findBy us_id i (pn_users t) = Some u'" "ss = session_of u'" "session_callback pp u' t = (Inr ss, t)"
    using session_again [OF assms] by blast
  have key: "us_id u = i" "us_id u' = i" using assms(1) u'(1) by (auto dest: findBy_key)
  have rest: "(us_role u' = us_role u
         \<or> us_role u = RoleMember \<and> us_role u' = RoleOwner
           \<and> (\<exists>a \<in> set (pn_accounts s). ax_userId a = i \<and> ax_provider a = ''discord''
                \<and> ax_providerAccountId a \<in> set (adminDiscordIds pp)))
      \<and> (\<forall>j. j = i \<or> findBy us_id j (pn_users t) = findBy us_id j (pn_users s)) \<and> t\<lparr>pn_users := pn_users s\<rparr> = s"
    using assms
  proof (cases rule: session_callback_cases)
    case unchanged
    then show ?thesis using assms(1) u'(1) by simp
  next
    case (linked d e promote)
    have find: "u' = linked e promote u" using u'(1) assms(1) linked(5) key by (simp add: find_users_map linked_def)
    have other: "findBy us_id j (pn_users t) = findBy us_id j (pn_users s)" if "j \<noteq> i" for j
      using that linked(5) by (cases "findBy us_id j (pn_users s)") (auto simp: find_users_map linked_def dest: findBy_key)
    obtain a where a: "find (\<lambda>a. ax_userId a = i \<and> ax_provider a = ''discord'') (pn_accounts s) = Some a" "ax_providerAccountId a = d"
      using truthy_of_truthy [OF linked(1)] by (auto simp: discord_account_def)
    have "a \<in> set (pn_accounts s) \<and> ax_userId a = i \<and> ax_provider a = ''discord''" using findD [OF a(1)] by simp
    then have "us_role u' = us_role u \<or> us_role u = RoleMember \<and> us_role u' = RoleOwner
        \<and> (\<exists>a \<in> set (pn_accounts s). ax_userId a = i \<and> ax_provider a = ''discord'' \<and> ax_providerAccountId a \<in> set (adminDiscordIds pp))"
      using linked(2) find a(2) by (auto simp: linked_def)
    moreover have "t\<lparr>pn_users := pn_users s\<rparr> = s" using linked(5) by simp
    ultimately show ?thesis using other by blast
  qed
  show ?thesis using u' key rest by (auto simp: session_of_def)
qed

text \<open>
  The session callback serves a request with the user's own id and the role stored for that user.
  It touches no other user; the role changes only from member to owner, and only for a user whose linked
  Discord account is on the allowlist; and running it again changes nothing and gives the same session.
\<close>

theorem session_callback_effect:
  assumes "findBy us_id i (pn_users s) = Some u" and "session_callback pp u s = (Inr ss, t)"
  shows "\<exists>u'. findBy us_id i (pn_users t) = Some u' \<and> ss_userId ss = i \<and> ss_role ss = us_role u'
      \<and> (us_role u' = us_role u
         \<or> us_role u = RoleMember \<and> us_role u' = RoleOwner
           \<and> (\<exists>a \<in> set (pn_accounts s). ax_userId a = i \<and> ax_provider a = ''discord''
                \<and> ax_providerAccountId a \<in> set (adminDiscordIds pp)))
      \<and> session_callback pp u' t = (Inr ss, t)
      \<and> (\<forall>j. j = i \<or> findBy us_id j (pn_users t) = findBy us_id j (pn_users s))
      \<and> t\<lparr>pn_users := pn_users s\<rparr> = s"
  using assms by (rule session_callback_core)

definition auth_panel :: panel where
  "auth_panel = sample_panel\<lparr>
     pn_users := [\<lparr>us_id = ''u1'', us_name = None, us_email = None, us_discordUserId = None, us_role = RoleMember, us_createdAt = 0\<rparr>],
     pn_accounts := [\<lparr>ax_userId = ''u1'', ax_provider = ''discord'', ax_providerAccountId = ''42''\<rparr>]\<rparr>"

definition auth_platform :: panel_platform where
  "auth_platform = refusing_platform\<lparr>pp_env := [''BOTFLEET_ADMIN_DISCORD_IDS'' \<mapsto> '' 7, 42 '']\<rparr>"

theorem session_callback_effect_witness:
  "ss_role (the (case fst (auth auth_platform (Some ''u1'') auth_panel) of Inr x \<Rightarrow> x)) = RoleOwner
   \<and> (\<exists>u'. session_callback auth_platform u' (snd (auth auth_platform (Some ''u1'') auth_panel))
          = (Inr \<lparr>ss_userId = ''u1'', ss_role = RoleOwner, ss_discordUserId = Some ''42''\<rparr>, snd (auth auth_platform (Some ''u1'') auth_panel)))"
proof -
  let ?u = "\<lparr>us_id = ''u1'', us_name = None, us_email = None, us_discordUserId = None, us_role = RoleMember, us_createdAt = 0\<rparr>"
  let ?ss = "\<lparr>ss_userId = ''u1'', ss_role = RoleOwner, ss_discordUserId = Some ''42''\<rparr>"
  have find: "findBy us_id ''u1'' (pn_users auth_panel) = Some ?u" by (simp add: auth_panel_def)
  have ids: "adminDiscordIds auth_platform = [''7'', ''42'']" by code_simp
  obtain t where run: "session_callback auth_platform ?u auth_panel = (Inr ?ss, t)"
    by (simp add: session_callback_def ids discord_account_def auth_panel_def link_discord_def Let_def linked_def andThen_def ret_def session_of_def)
  have "auth auth_platform (Some ''u1'') auth_panel = (Inr (Some ?ss), t)"
    by (simp add: auth_def find run andThen_def ret_def)
  then show ?thesis using session_callback_effect [OF find run] by auto
qed

end
