(* ===== verification/Plugins.thy ===== *)
theory Plugins
  imports Sessions Doubles
begin

text \<open>
  The plugin registry (\<open>lib/plugins\<close>) with the built-in plugins that carry logic, the evaluation of alert
  rules (\<open>lib/alerts/evaluate-rules.ts\<close>) and the security report (\<open>lib/security-checks.ts\<close>).
  A rule reads the panel and answers; a deployment hook is a computation on it. The rendering
  of dashboard cards asks Redis and the bot templates are texts: a plugin carries only their names here.
\<close>

subsection \<open>Plugins\<close>

datatype check_status = CheckPass | CheckWarn | CheckFail

record check_result =
  ck_id :: string
  ck_label :: string
  ck_status :: check_status
  ck_detail :: string

record alert_result =
  ar_trigger :: bool
  ar_title :: "string option"
  ar_message :: "string option"
  ar_severity :: "alert_severity option"

record alert_rule =
  rl_id :: string
  rl_description :: string
  rl_evaluate :: "panel \<Rightarrow> alert_result"

record health_check =
  hc_id :: string
  hc_run :: "panel_platform \<Rightarrow> check_result"

record deployment_hooks =
  dh_beforeDeploy :: "unit pact option"
  dh_afterDeploy :: "unit pact option"

record plugin =
  pg_id :: string
  pg_name :: string
  pg_description :: string
  pg_dashboardCards :: "string list option"
  pg_healthChecks :: "health_check list option"
  pg_alertRules :: "alert_rule list option"
  pg_botTemplates :: "(string \<times> string) list option"
  pg_deploymentHooks :: "deployment_hooks option"

subsection \<open>The registry\<close>

text \<open>The module-level array of \<open>registry.ts\<close> and the flag of \<open>index.ts\<close>.\<close>

record plugin_registry =
  rg_plugins :: "plugin list"
  rg_registered :: bool

type_synonym 'a ract = "(plugin_registry, string, 'a) run"

definition registerPlugin :: "plugin \<Rightarrow> unit ract" where
  "registerPlugin p = (\<lambda>g. if list_ex (\<lambda>q. pg_id q = pg_id p) (rg_plugins g)
     then (Inl (''Plugin \"'' @ pg_id p @ ''\" is already registered''), g)
     else (Inr (), g\<lparr>rg_plugins := rg_plugins g @ [p]\<rparr>))"

definition getPlugins :: "plugin_registry \<Rightarrow> plugin list" where
  "getPlugins g = rg_plugins g"

definition or_none :: "'a list option \<Rightarrow> 'a list" where
  "or_none xs = (case xs of None \<Rightarrow> [] | Some ys \<Rightarrow> ys)"

definition getAllDashboardCards :: "plugin list \<Rightarrow> string list" where
  "getAllDashboardCards plugins = concat (map (\<lambda>p. or_none (pg_dashboardCards p)) plugins)"

definition getAllHealthChecks :: "plugin list \<Rightarrow> health_check list" where
  "getAllHealthChecks plugins = concat (map (\<lambda>p. or_none (pg_healthChecks p)) plugins)"

definition getAllAlertRules :: "plugin list \<Rightarrow> alert_rule list" where
  "getAllAlertRules plugins = concat (map (\<lambda>p. or_none (pg_alertRules p)) plugins)"

definition getAllBotTemplates :: "plugin list \<Rightarrow> (string \<times> string) list" where
  "getAllBotTemplates plugins = concat (map (\<lambda>p. or_none (pg_botTemplates p)) plugins)"

definition ensureRegistered :: "plugin list \<Rightarrow> unit ract" where
  "ensureRegistered builtins = (\<lambda>g. if rg_registered g then (Inr (), g)
     else forEach builtins () (\<lambda>p _. registerPlugin p) (g\<lparr>rg_registered := True\<rparr>))"

subsection \<open>Built-in alert rules\<close>

definition HIGH_RESTART_THRESHOLD :: int where
  "HIGH_RESTART_THRESHOLD = 3"

definition GUILD_LIMIT_WARN_RATIO :: rat where
  "GUILD_LIMIT_WARN_RATIO = dbl (9 / 10)"

definition no_alert :: alert_result where
  "no_alert = \<lparr>ar_trigger = False, ar_title = None, ar_message = None, ar_severity = None\<rparr>"

text \<open>\<open>findFirst\<close> with \<open>orderBy: restartCount desc\<close>; the row's bot exists by its foreign key.\<close>

definition high_restart_count :: "panel \<Rightarrow> alert_result" where
  "high_restart_count s =
     (case sort_key (\<lambda>h. - bh_restartCount h) (filter (\<lambda>h. HIGH_RESTART_THRESHOLD \<le> bh_restartCount h) (pn_health s)) of
        [] \<Rightarrow> no_alert
      | bad # _ \<Rightarrow> (case findBy bo_id (bh_botId bad) (pn_bots s) of
          None \<Rightarrow> no_alert
        | Some b \<Rightarrow> \<lparr>ar_trigger = True,
            ar_title = Some (bo_name b @ '' has restarted '' @ show_int (bh_restartCount bad) @ '' times''),
            ar_message = Some ''This usually means the bot is crash-looping. Check its last safe error and consider rotating its token.'',
            ar_severity = Some SevWarning\<rparr>))"

definition near_guild_limit :: "health_row \<Rightarrow> bot_row \<Rightarrow> bool" where
  "near_guild_limit h b \<longleftrightarrow> GUILD_LIMIT_WARN_RATIO \<le> dbl (of_int (bh_guildCount h) / of_int (bo_guildLimit b))"

definition guild_limit_approaching :: "panel \<Rightarrow> alert_result" where
  "guild_limit_approaching s =
     (let health = (\<lambda>b. findBy bh_botId (bo_id b) (pn_health s)) in
      case find (\<lambda>b. case health b of None \<Rightarrow> False | Some h \<Rightarrow> near_guild_limit h b) (pn_bots s) of
        None \<Rightarrow> no_alert
      | Some near \<Rightarrow> (case health near of
          None \<Rightarrow> no_alert
        | Some h \<Rightarrow> \<lparr>ar_trigger = True, ar_title = Some (bo_name near @ '' is approaching its guild limit''),
            ar_message = Some (show_int (bh_guildCount h) @ '' / '' @ show_int (bo_guildLimit near) @ '' guilds on the ''
              @ plan_name (bo_plan near) @ '' plan.''),
            ar_severity = Some SevWarning\<rparr>))"

definition alertRulesPlugin :: plugin where
  "alertRulesPlugin = \<lparr>pg_id = ''built-in-alert-rules'', pg_name = ''Built-in Alert Rules'',
     pg_description = ''Evaluates fleet state against a few common alert conditions.'',
     pg_dashboardCards = None, pg_healthChecks = None,
     pg_alertRules = Some
       [\<lparr>rl_id = ''high-restart-count'', rl_description = ''Fires when any bot's restart count is >= 3.'', rl_evaluate = high_restart_count\<rparr>,
        \<lparr>rl_id = ''guild-limit-approaching'', rl_description = ''Fires when any bot is above 90% of its guild limit.'',
          rl_evaluate = guild_limit_approaching\<rparr>],
     pg_botTemplates = None, pg_deploymentHooks = None\<rparr>"

subsection \<open>The other built-in plugins\<close>

definition runner_hook :: "string \<Rightarrow> unit pact" where
  "runner_hook action = panel_audit None action ''deployment'' ''pending'' None"

definition pm2RunnerPlugin :: plugin where
  "pm2RunnerPlugin = \<lparr>pg_id = ''pm2-runner'', pg_name = ''PM2 Runner'',
     pg_description = ''Runs bot processes under PM2 on a single host.'',
     pg_dashboardCards = None, pg_healthChecks = None, pg_alertRules = None, pg_botTemplates = None,
     pg_deploymentHooks = Some \<lparr>dh_beforeDeploy = Some (runner_hook ''plugin.pm2_runner.before_deploy''),
       dh_afterDeploy = Some (runner_hook ''plugin.pm2_runner.after_deploy'')\<rparr>\<rparr>"

definition dockerRunnerPlugin :: plugin where
  "dockerRunnerPlugin = \<lparr>pg_id = ''docker-runner'', pg_name = ''Docker Runner'',
     pg_description = ''Runs bot processes in Docker containers.'',
     pg_dashboardCards = None, pg_healthChecks = None, pg_alertRules = None, pg_botTemplates = None,
     pg_deploymentHooks = Some \<lparr>dh_beforeDeploy = Some (runner_hook ''plugin.docker_runner.before_deploy''),
       dh_afterDeploy = Some (runner_hook ''plugin.docker_runner.after_deploy'')\<rparr>\<rparr>"

definition redisStatusPlugin :: plugin where
  "redisStatusPlugin = \<lparr>pg_id = ''redis-status'', pg_name = ''Redis Status'',
     pg_description = ''Reports whether the Redis instance (reserved for the AI worker queue) is reachable.'',
     pg_dashboardCards = Some [''redis-connectivity''], pg_healthChecks = None, pg_alertRules = None, pg_botTemplates = None,
     pg_deploymentHooks = None\<rparr>"

definition botTemplatesPlugin :: plugin where
  "botTemplatesPlugin = \<lparr>pg_id = ''bot-templates'', pg_name = ''Bot Templates'',
     pg_description = ''Starter snippets for wiring a new bot client into BotFleet.'',
     pg_dashboardCards = None, pg_healthChecks = None, pg_alertRules = None,
     pg_botTemplates = Some [(''discord.js'', ''discord.js''), (''eris'', ''Eris'')], pg_deploymentHooks = None\<rparr>"

text \<open>\<open>Number(text)\<close> of a text of decimal digits; \<open>None\<close> stands for \<open>NaN\<close>.\<close>

fun digits_value :: "nat \<Rightarrow> string \<Rightarrow> nat option" where
  "digits_value acc [] = Some acc"
| "digits_value acc (c # cs) = (let d = of_char c :: nat in
     if 48 \<le> d \<and> d \<le> 57 then digits_value (acc * 10 + (d - 48)) cs else None)"

definition MIN_MAJOR :: nat where
  "MIN_MAJOR = 20"

definition node_version_check :: "panel_platform \<Rightarrow> check_result" where
  "node_version_check pp = (let version = pp_nodeVersion pp;
       ok = (case digits_value 0 (hd (split_on CHR ''.'' version)) of None \<Rightarrow> False | Some major \<Rightarrow> MIN_MAJOR \<le> major) in
     \<lparr>ck_id = ''node-version'', ck_label = ''Node.js version'', ck_status = (if ok then CheckPass else CheckWarn),
      ck_detail = (if ok then ''Running Node.js '' @ version @ '' (>= 20 required).''
        else ''Running Node.js '' @ version @ ''; BotFleet requires >= 20.'')\<rparr>)"

definition nodeVersionCheckPlugin :: plugin where
  "nodeVersionCheckPlugin = \<lparr>pg_id = ''node-version-check'', pg_name = ''Node.js Version Check'',
     pg_description = ''Extends the Security Center with a check outside BotFleet's own built-in list.'',
     pg_dashboardCards = None, pg_healthChecks = Some [\<lparr>hc_id = ''node-version'', hc_run = node_version_check\<rparr>],
     pg_alertRules = None, pg_botTemplates = None, pg_deploymentHooks = None\<rparr>"

definition builtinPlugins :: "plugin list" where
  "builtinPlugins = [redisStatusPlugin, pm2RunnerPlugin, dockerRunnerPlugin, alertRulesPlugin, botTemplatesPlugin, nodeVersionCheckPlugin]"

definition ensureBuiltinPluginsRegistered :: "unit ract" where
  "ensureBuiltinPluginsRegistered = ensureRegistered builtinPlugins"

subsection \<open>Evaluating the alert rules\<close>

record evaluate_result =
  ev_rulesEvaluated :: nat
  ev_alertsCreated :: "string list"

definition open_alert :: "string \<Rightarrow> panel \<Rightarrow> bool" where
  "open_alert title s \<longleftrightarrow> list_ex (\<lambda>a. al_title a = title \<and> al_status a = AlOpen) (pn_alerts s)"

definition new_alert :: "alert_rule \<Rightarrow> alert_result \<Rightarrow> string \<Rightarrow> int \<Rightarrow> alert_row" where
  "new_alert rule result title now = \<lparr>al_eventType = rl_id rule,
     al_severity = (case ar_severity result of None \<Rightarrow> SevWarning | Some v \<Rightarrow> v), al_title = title,
     al_message = (case ar_message result of None \<Rightarrow> '''' | Some m \<Rightarrow> m), al_status = AlOpen, al_createdAt = now\<rparr>"

definition evaluate_rule :: "alert_rule \<Rightarrow> string list \<Rightarrow> string list pact" where
  "evaluate_rule rule created = (\<lambda>s. let result = rl_evaluate rule s in
     case (if ar_trigger result then truthy (ar_title result) else None) of
       None \<Rightarrow> (Inr created, s)
     | Some title \<Rightarrow>
         if open_alert title s then (Inr created, s)
         else (Inr (created @ [title]), s\<lparr>pn_alerts := pn_alerts s @ [new_alert rule result title (pn_now s)]\<rparr>))"

definition evaluateAlertRules :: "plugin list \<Rightarrow> string option \<Rightarrow> evaluate_result pact" where
  "evaluateAlertRules plugins actorUserId = (let rules = getAllAlertRules plugins in
     andThen (forEach rules [] evaluate_rule) (\<lambda>created.
       andThen (panel_audit actorUserId ''alerts.evaluate'' ''alert'' ''batch''
           (Some (JObj [(''rulesEvaluated'', JNum (of_nat (length rules))), (''alertsCreated'', JNum (of_nat (length created)))])))
         (\<lambda>_. ret \<lparr>ev_rulesEvaluated = length rules, ev_alertsCreated = created\<rparr>)))"

subsection \<open>Registration\<close>

lemma distinct_map_append:
  assumes "distinct (map f xs)" and "distinct (map f ys)" and "\<forall>y \<in> set ys. f y \<notin> f ` set xs"
  shows "distinct (map f (xs @ ys))"
proof -
  have "f ` set xs \<inter> f ` set ys = {}"
  proof (rule Int_emptyI)
    fix z assume z: "z \<in> f ` set xs" "z \<in> f ` set ys"
    from z(2) obtain y where y: "z = f y" "y \<in> set ys" by (rule imageE)
    from bspec [OF assms(3) y(2)] z(1) show False unfolding y(1) by (rule notE)
  qed
  then show ?thesis using assms(1,2) by simp
qed

lemma register_all:
  assumes "distinct (map pg_id ps)" and "forEach ps () (\<lambda>p _. registerPlugin p) g = (r, h)"
  shows "(let fresh = takeWhile (\<lambda>p. pg_id p \<notin> pg_id ` set (rg_plugins g)) ps in
    h = g\<lparr>rg_plugins := rg_plugins g @ fresh\<rparr> \<and> (r = Inr () \<longleftrightarrow> fresh = ps) \<and> (\<forall>e. r = Inl e \<longrightarrow> fresh \<noteq> ps))"
  using assms
proof (induction ps arbitrary: g)
  case Nil
  then show ?case by (auto simp: ret_def)
next
  case (Cons p ps)
  show ?case
  proof (cases "pg_id p \<in> pg_id ` set (rg_plugins g)")
    case True
    then have "list_ex (\<lambda>q. pg_id q = pg_id p) (rg_plugins g)" by (auto simp: list_ex_iff)
    then show ?thesis using Cons.prems True by (auto simp: andThen_def registerPlugin_def Let_def)
  next
    case False
    let ?g = "g\<lparr>rg_plugins := rg_plugins g @ [p]\<rparr>"
    have "\<not> list_ex (\<lambda>q. pg_id q = pg_id p) (rg_plugins g)"
      using False by (metis (mono_tags, lifting) imageI list_ex_iff)
    then have "registerPlugin p g = (Inr (), ?g)" by (simp add: registerPlugin_def)
    then have run: "forEach ps () (\<lambda>p _. registerPlugin p) ?g = (r, h)"
      using Cons.prems(2) by (simp add: andThen_def)
    have fresh: "\<forall>x \<in> set ps. pg_id x \<noteq> pg_id p"
      using Cons.prems(1) by (metis distinct.simps(2) image_eqI list.set_map list.simps(9))
    have same: "takeWhile (\<lambda>q. pg_id q \<notin> pg_id ` set (rg_plugins ?g)) ps = takeWhile (\<lambda>q. pg_id q \<notin> pg_id ` set (rg_plugins g)) ps"
      using fresh by (intro takeWhile_cong) auto
    have "distinct (map pg_id ps)" using Cons.prems(1) by simp
    note ih = Cons.IH [OF this run, unfolded Let_def same]
    show ?thesis using ih False by (simp add: Let_def)
  qed
qed

lemma builtin_ids: "map pg_id builtinPlugins =
    [''redis-status'', ''pm2-runner'', ''docker-runner'', ''built-in-alert-rules'', ''bot-templates'', ''node-version-check'']"
  by (simp add: builtinPlugins_def redisStatusPlugin_def pm2RunnerPlugin_def dockerRunnerPlugin_def alertRulesPlugin_def
      botTemplatesPlugin_def nodeVersionCheckPlugin_def)

text \<open>
  Registering the built-in plugins for the first time appends those before the first whose id is
  taken. With no id taken all six are there and calling it again changes nothing. With one taken it
  throws once, and because the flag is set before the loop, every later call succeeds silently with
  that plugin and the ones after it missing.
\<close>

theorem registration_outcome:
  assumes "\<not> rg_registered g" and "distinct (map pg_id (rg_plugins g))" and "ensureBuiltinPluginsRegistered g = (r, h)"
  shows "(let fresh = takeWhile (\<lambda>p. pg_id p \<notin> pg_id ` set (rg_plugins g)) builtinPlugins in
      getPlugins h = getPlugins g @ fresh \<and> (r = Inr () \<longleftrightarrow> fresh = builtinPlugins))
    \<and> distinct (map pg_id (getPlugins h)) \<and> ensureBuiltinPluginsRegistered h = (Inr (), h)"
proof -
  let ?g = "g\<lparr>rg_registered := True\<rparr>"
  let ?fresh = "takeWhile (\<lambda>p. pg_id p \<notin> pg_id ` set (rg_plugins g)) builtinPlugins"
  have d: "distinct (map pg_id builtinPlugins)" unfolding builtin_ids by simp
  have run: "forEach builtinPlugins () (\<lambda>p _. registerPlugin p) ?g = (r, h)"
    using assms(1,3) by (simp add: ensureBuiltinPluginsRegistered_def ensureRegistered_def)
  have h: "h = ?g\<lparr>rg_plugins := rg_plugins g @ ?fresh\<rparr>" and r: "r = Inr () \<longleftrightarrow> ?fresh = builtinPlugins"
    using register_all [OF d run] by (simp_all add: Let_def)
  have "distinct (map pg_id ?fresh)"
    using d by (metis distinct_append map_append takeWhile_dropWhile_id)
  moreover have "\<forall>x \<in> set ?fresh. pg_id x \<notin> pg_id ` set (rg_plugins g)"
    by (intro ballI, drule set_takeWhileD, erule conjunct2)
  ultimately have "distinct (map pg_id (rg_plugins g @ ?fresh))"
    by (intro distinct_map_append assms(2))
  then have "distinct (map pg_id (rg_plugins h))" using h by simp
  then show ?thesis using h r by (simp add: getPlugins_def Let_def ensureBuiltinPluginsRegistered_def ensureRegistered_def)
qed

theorem registration_outcome_witness:
  "\<exists>r h. ensureBuiltinPluginsRegistered \<lparr>rg_plugins = [pm2RunnerPlugin], rg_registered = False\<rparr> = (r, h)
     \<and> r \<noteq> Inr () \<and> map pg_id (getPlugins h) = [''pm2-runner'', ''redis-status'']
     \<and> ensureBuiltinPluginsRegistered h = (Inr (), h)"
proof -
  let ?g = "\<lparr>rg_plugins = [pm2RunnerPlugin], rg_registered = False\<rparr>"
  obtain r h where run: "ensureBuiltinPluginsRegistered ?g = (r, h)" by fastforce
  have fresh: "takeWhile (\<lambda>p. pg_id p \<notin> pg_id ` set (rg_plugins ?g)) builtinPlugins = [redisStatusPlugin]"
    by (simp add: builtinPlugins_def redisStatusPlugin_def pm2RunnerPlugin_def)
  have more: "[redisStatusPlugin] \<noteq> builtinPlugins" by (simp add: builtinPlugins_def)
  have "\<not> rg_registered ?g" "distinct (map pg_id (rg_plugins ?g))" by simp_all
  from registration_outcome [OF this run, unfolded Let_def fresh] more
  have "r \<noteq> Inr ()" "getPlugins h = [pm2RunnerPlugin, redisStatusPlugin]" "ensureBuiltinPluginsRegistered h = (Inr (), h)"
    by (simp_all add: getPlugins_def)
  then show ?thesis using run by (auto simp: redisStatusPlugin_def pm2RunnerPlugin_def)
qed

subsection \<open>Alerts are not repeated\<close>

lemma builtin_rules: "getAllAlertRules builtinPlugins = or_none (pg_alertRules alertRulesPlugin)"
  by (simp add: getAllAlertRules_def builtinPlugins_def or_none_def redisStatusPlugin_def pm2RunnerPlugin_def dockerRunnerPlugin_def
      botTemplatesPlugin_def nodeVersionCheckPlugin_def)

text \<open>A rule that looks neither at the alerts nor at the audit log.\<close>

definition fleet_rule :: "alert_rule \<Rightarrow> bool" where
  "fleet_rule rule \<longleftrightarrow> (\<forall>s alerts entries. rl_evaluate rule (s\<lparr>pn_alerts := alerts, pn_audit := entries\<rparr>) = rl_evaluate rule s)"

lemma rules_read_fleet:
  "high_restart_count (s\<lparr>pn_alerts := alerts, pn_audit := entries\<rparr>) = high_restart_count s"
  "guild_limit_approaching (s\<lparr>pn_alerts := alerts, pn_audit := entries\<rparr>) = guild_limit_approaching s"
  by (simp_all add: high_restart_count_def guild_limit_approaching_def Let_def cong: option.case_cong list.case_cong)

lemma builtin_fleet_rules: "rule \<in> set (getAllAlertRules builtinPlugins) \<Longrightarrow> fleet_rule rule"
  by (auto simp: builtin_rules or_none_def alertRulesPlugin_def fleet_rule_def rules_read_fleet)

lemma open_alert_append: "open_alert title (s\<lparr>pn_alerts := pn_alerts s @ rows\<rparr>)
    \<longleftrightarrow> open_alert title s \<or> (\<exists>a \<in> set rows. al_title a = title \<and> al_status a = AlOpen)"
  by (auto simp: open_alert_def list_ex_iff)

definition raised :: "alert_rule \<Rightarrow> panel \<Rightarrow> string option" where
  "raised rule s = (if ar_trigger (rl_evaluate rule s) then truthy (ar_title (rl_evaluate rule s)) else None)"

lemma evaluate_rules_run:
  assumes "\<forall>rule \<in> set rules. fleet_rule rule"
  shows "\<exists>rows. forEach rules created evaluate_rule s = (Inr (created @ map al_title rows), s\<lparr>pn_alerts := pn_alerts s @ rows\<rparr>)
    \<and> (\<forall>a \<in> set rows. al_status a = AlOpen \<and> \<not> open_alert (al_title a) s) \<and> distinct (map al_title rows)
    \<and> (\<forall>rule \<in> set rules. \<forall>title. raised rule s = Some title \<longrightarrow> open_alert title (s\<lparr>pn_alerts := pn_alerts s @ rows\<rparr>))"
  using assms
proof (induction rules arbitrary: created s)
  case Nil
  then show ?case by (intro exI [of _ "[]"]) (simp add: ret_def)
next
  case (Cons rule rules)
  have rest: "\<forall>rule \<in> set rules. fleet_rule rule" using Cons.prems by simp
  have unmoved: "raised q (s\<lparr>pn_alerts := alerts\<rparr>) = raised q s" if "fleet_rule q" for q alerts
  proof -
    have "rl_evaluate q (s\<lparr>pn_alerts := alerts\<rparr>) = rl_evaluate q s"
      using that unfolding fleet_rule_def by (metis panel.surjective panel.update_convs(18))
    then show ?thesis by (simp add: raised_def)
  qed
  show ?case
  proof (cases "\<exists>title. raised rule s = Some title \<and> \<not> open_alert title s")
    case False
    then have "evaluate_rule rule created s = (Inr created, s)"
      by (auto simp: evaluate_rule_def raised_def Let_def split: option.splits)
    then show ?thesis
      using Cons.IH [OF rest, of created s] False by (auto simp: andThen_def open_alert_append)
  next
    case True
    then obtain title where title: "raised rule s = Some title" "\<not> open_alert title s" by blast
    let ?a = "new_alert rule (rl_evaluate rule s) title (pn_now s)" and ?s = "\<lambda>a. s\<lparr>pn_alerts := pn_alerts s @ [a]\<rparr>"
    have a: "al_title ?a = title" "al_status ?a = AlOpen" by (simp_all add: new_alert_def)
    have step: "evaluate_rule rule created s = (Inr (created @ [title]), ?s ?a)"
      using title by (simp add: evaluate_rule_def raised_def Let_def)
    obtain rows where rows: "forEach rules (created @ [title]) evaluate_rule (?s ?a) = (Inr ((created @ [title]) @ map al_title rows), (?s ?a)\<lparr>pn_alerts := pn_alerts (?s ?a) @ rows\<rparr>)"
      "\<forall>b \<in> set rows. al_status b = AlOpen \<and> \<not> open_alert (al_title b) (?s ?a)" "distinct (map al_title rows)"
      "\<forall>rule \<in> set rules. \<forall>t. raised rule (?s ?a) = Some t \<longrightarrow> open_alert t ((?s ?a)\<lparr>pn_alerts := pn_alerts (?s ?a) @ rows\<rparr>)"
      using Cons.IH [OF rest, of "created @ [title]" "?s ?a"] by blast
    have state: "(?s ?a)\<lparr>pn_alerts := pn_alerts (?s ?a) @ rows\<rparr> = s\<lparr>pn_alerts := pn_alerts s @ (?a # rows)\<rparr>" by simp
    have other: "\<forall>b \<in> set rows. al_title b \<noteq> title \<and> \<not> open_alert (al_title b) s"
      using rows(2) a by (auto simp: open_alert_append)
    have "\<forall>q \<in> set rules. \<forall>t. raised q s = Some t \<longrightarrow> open_alert t (s\<lparr>pn_alerts := pn_alerts s @ (?a # rows)\<rparr>)"
      using rows(4) rest unmoved unfolding state by metis
    moreover have "open_alert title (s\<lparr>pn_alerts := pn_alerts s @ (?a # rows)\<rparr>)"
      using a by (simp add: open_alert_append)
    moreover have "distinct (map al_title (?a # rows))" using rows(3) other a by auto
    ultimately show ?thesis
      using step rows(1,2) other a title unfolding state
      by (intro exI [of _ "?a # rows"]) (auto simp: andThen_def)
  qed
qed

text \<open>
  Evaluating the built-in rules raises, for every rule that fires, an open alert with its title, unless
  there is one already; no title is raised twice; the fleet is not touched. Evaluating them again,
  by whomever, raises nothing.
\<close>

theorem alerts_are_not_repeated:
  "\<exists>rows t. evaluateAlertRules builtinPlugins actor s = (Inr \<lparr>ev_rulesEvaluated = 2, ev_alertsCreated = map al_title rows\<rparr>, t)
     \<and> pn_alerts t = pn_alerts s @ rows \<and> t\<lparr>pn_alerts := pn_alerts s, pn_audit := pn_audit s\<rparr> = s
     \<and> (\<forall>a \<in> set rows. al_status a = AlOpen \<and> \<not> open_alert (al_title a) s) \<and> distinct (map al_title rows)
     \<and> list_all (\<lambda>rule. case raised rule s of None \<Rightarrow> True | Some title \<Rightarrow> open_alert title t) (getAllAlertRules builtinPlugins)
     \<and> (\<exists>u. evaluateAlertRules builtinPlugins actor' t = (Inr \<lparr>ev_rulesEvaluated = 2, ev_alertsCreated = []\<rparr>, u)
          \<and> pn_alerts u = pn_alerts t)"
proof -
  let ?rules = "getAllAlertRules builtinPlugins"
  let ?entry = "\<lambda>actor n s. audit_entry actor ''alerts.evaluate'' ''alert'' ''batch''
     (Some (JObj [(''rulesEvaluated'', JNum 2), (''alertsCreated'', JNum (of_nat n))])) s"
  have two: "length ?rules = 2" by (simp add: builtin_rules or_none_def alertRulesPlugin_def)
  have ok: "\<forall>rule \<in> set ?rules. fleet_rule rule" using builtin_fleet_rules by blast
  have run: "evaluateAlertRules builtinPlugins a s = (Inr \<lparr>ev_rulesEvaluated = 2, ev_alertsCreated = created\<rparr>,
      v\<lparr>pn_audit := pn_audit v @ [?entry a (length created) v]\<rparr>)"
    if "forEach ?rules [] evaluate_rule s = (Inr created, v)" for a s created v
    using that by (simp add: evaluateAlertRules_def Let_def andThen_def panel_audit_run ret_def two)
  obtain rows where rows: "forEach ?rules [] evaluate_rule s = (Inr (map al_title rows), s\<lparr>pn_alerts := pn_alerts s @ rows\<rparr>)"
    "\<forall>a \<in> set rows. al_status a = AlOpen \<and> \<not> open_alert (al_title a) s" "distinct (map al_title rows)"
    "\<forall>rule \<in> set ?rules. \<forall>title. raised rule s = Some title \<longrightarrow> open_alert title (s\<lparr>pn_alerts := pn_alerts s @ rows\<rparr>)"
    using evaluate_rules_run [OF ok, of "[]" s] by auto
  define v where "v = s\<lparr>pn_alerts := pn_alerts s @ rows\<rparr>"
  define t where "t = v\<lparr>pn_audit := pn_audit v @ [?entry actor (length rows) v]\<rparr>"
  have first: "evaluateAlertRules builtinPlugins actor s = (Inr \<lparr>ev_rulesEvaluated = 2, ev_alertsCreated = map al_title rows\<rparr>, t)"
    using run [OF rows(1), of actor] by (simp add: t_def v_def)
  have opens: "open_alert title t = open_alert title v" for title by (simp add: open_alert_def t_def)
  have same: "raised rule t = raised rule s" if "rule \<in> set ?rules" for rule
  proof -
    have "t = s\<lparr>pn_alerts := pn_alerts t, pn_audit := pn_audit t\<rparr>" by (simp add: t_def v_def)
    then have "rl_evaluate rule t = rl_evaluate rule s" using ok that unfolding fleet_rule_def by metis
    then show ?thesis by (simp add: raised_def)
  qed
  have fired: "\<forall>rule \<in> set ?rules. \<forall>title. raised rule s = Some title \<longrightarrow> open_alert title t"
    using rows(4) opens by (simp add: v_def)
  obtain rows' where rows': "forEach ?rules [] evaluate_rule t = (Inr (map al_title rows'), t\<lparr>pn_alerts := pn_alerts t @ rows'\<rparr>)"
    using evaluate_rules_run [OF ok, of "[]" t] by auto
  have quiet: "forEach rules created evaluate_rule t = (Inr created, t)" if "set rules \<subseteq> set ?rules" for rules created
    using that
  proof (induction rules)
    case (Cons rule rules)
    have "evaluate_rule rule created t = (Inr created, t)"
      using fired same [of rule] Cons.prems by (auto simp: evaluate_rule_def raised_def Let_def split: option.splits)
    then show ?case using Cons by (simp add: andThen_def)
  qed (simp add: ret_def)
  have "evaluateAlertRules builtinPlugins actor' t = (Inr \<lparr>ev_rulesEvaluated = 2, ev_alertsCreated = []\<rparr>,
      t\<lparr>pn_audit := pn_audit t @ [?entry actor' 0 t]\<rparr>)"
    using run [OF quiet [of ?rules "[]"], of actor'] by simp
  moreover have "list_all (\<lambda>rule. case raised rule s of None \<Rightarrow> True | Some title \<Rightarrow> open_alert title t) ?rules"
    using fired by (auto simp: list_all_iff split: option.splits)
  ultimately show ?thesis
    using first rows(2,3) by (intro exI [of _ rows] exI [of _ t]) (simp add: t_def v_def)
qed

subsection \<open>The guild limit rule is exact\<close>

text \<open>
  C39: The guild limit rule compares floating-point numbers, and for limits and counts that fit the
  database's integers it decides exactly whether the bot uses at least nine tenths of its limit.
\<close>

theorem guild_rule_is_exact:
  assumes "0 < bo_guildLimit b" and "bo_guildLimit b < 2 ^ 31" and "0 \<le> bh_guildCount h"
  shows "near_guild_limit h b \<longleftrightarrow> 9 * bo_guildLimit b \<le> 10 * bh_guildCount h"
proof
  let ?g = "of_int (bh_guildCount h) :: rat" and ?l = "of_int (bo_guildLimit b) :: rat"
  have l: "0 < ?l" using assms(1) by simp
  assume "9 * bo_guildLimit b \<le> 10 * bh_guildCount h"
  then have "(of_int (9 * bo_guildLimit b) :: rat) \<le> of_int (10 * bh_guildCount h)" by (simp only: of_int_le_iff)
  then have "9 * ?l \<le> 10 * ?g" by simp
  then have "9 / 10 \<le> ?g / ?l" using l by (simp add: field_simps)
  then show "near_guild_limit h b" unfolding near_guild_limit_def GUILD_LIMIT_WARN_RATIO_def by (rule dbl_mono)
next
  let ?g = "of_int (bh_guildCount h) :: rat" and ?l = "of_int (bo_guildLimit b) :: rat"
  have l: "0 < ?l" "?l < 2147483648" using assms(1,2) by simp_all
  assume near: "near_guild_limit h b"
  show "9 * bo_guildLimit b \<le> 10 * bh_guildCount h"
  proof (rule ccontr)
    assume "\<not> 9 * bo_guildLimit b \<le> 10 * bh_guildCount h"
    then have "10 * bh_guildCount h + 1 \<le> 9 * bo_guildLimit b" by simp
    then have "(of_int (10 * bh_guildCount h + 1) :: rat) \<le> of_int (9 * bo_guildLimit b)" by (simp only: of_int_le_iff)
    then have "10 * ?g + 1 \<le> 9 * ?l" by simp
    then have "?g / ?l \<le> 9 / 10 - 1 / (10 * ?l)" using l by (simp add: field_simps)
    moreover have "1 / (10 * 2147483648) \<le> 1 / (10 * ?l)" using l by (intro divide_left_mono) simp_all
    ultimately have "?g / ?l \<le> 989560464998 / 2 ^ 40" by simp
    then have "dbl (?g / ?l) \<le> dbl (of_int 989560464998 * 2 powi - 40)"
      by (intro dbl_mono) (simp add: powi_neg [of 40, simplified])
    also have "\<dots> = of_int 989560464998 * 2 powi - 40" by (rule dbl_exact) simp
    also have "\<dots> < of_int 1013309916158361 * 2 powi - 50"
      by (simp add: powi_neg [of 40, simplified] powi_neg [of 50, simplified])
    also have "\<dots> = dbl (of_int 1013309916158361 * 2 powi - 50)" by (rule dbl_exact [symmetric]) simp
    also have "\<dots> \<le> dbl (9 / 10)" by (intro dbl_mono) (simp add: powi_neg [of 50, simplified])
    finally show False using near by (simp add: near_guild_limit_def GUILD_LIMIT_WARN_RATIO_def)
  qed
qed

theorem guild_rule_is_exact_witness:
  "near_guild_limit \<lparr>bh_botId = ''b1'', bh_status = BsOnline, bh_guildCount = 45, bh_restartCount = 0, bh_lastErrorSafe = None\<rparr> (sample_bot ''b1'' None)
   \<and> \<not> near_guild_limit \<lparr>bh_botId = ''b1'', bh_status = BsOnline, bh_guildCount = 44, bh_restartCount = 0, bh_lastErrorSafe = None\<rparr> (sample_bot ''b1'' None)"
  using guild_rule_is_exact [of "sample_bot ''b1'' None"
      "\<lparr>bh_botId = ''b1'', bh_status = BsOnline, bh_guildCount = 45, bh_restartCount = 0, bh_lastErrorSafe = None\<rparr>"]
    guild_rule_is_exact [of "sample_bot ''b1'' None"
      "\<lparr>bh_botId = ''b1'', bh_status = BsOnline, bh_guildCount = 44, bh_restartCount = 0, bh_lastErrorSafe = None\<rparr>"]
  by (simp add: sample_bot_def)

end
