(* ===== verification/Bot_Api.thy ===== *)
theory Bot_Api
  imports Sessions
begin

text \<open>
  The routes about bots: \<open>app/api/admin/bots\<close> for administrators, \<open>app/api/customer/bots\<close> for the owner
  of a customer. A handler gets the session \<open>auth()\<close> returned, the path parameter and the body
  (\<open>None\<close> when it is not JSON); it answers or throws, and the state it leaves is the second component.
\<close>

subsection \<open>Reading the request\<close>

definition PLAN_TIERS :: "plan_tier list" where
  "PLAN_TIERS = [PlanFree, PlanStarter, PlanPro, PlanEnterprise, PlanCustom]"

definition BOT_STATUSES :: "bot_status list" where
  "BOT_STATUSES = [BsOnline, BsOffline, BsStarting, BsStopping, BsFailed, BsDisabled, BsExpired, BsRateLimited]"

text \<open>The member of an enum with the given name, the first one when there is none.\<close>

definition enum_of :: "('a \<Rightarrow> string) \<Rightarrow> 'a list \<Rightarrow> string option \<Rightarrow> 'a" where
  "enum_of name members s = (case find (\<lambda>m. Some (name m) = s) members of None \<Rightarrow> hd members | Some m \<Rightarrow> m)"

definition planSchema :: schema where
  "planSchema = SEnum (map plan_name PLAN_TIERS)"

definition positiveInt :: schema where
  "positiveInt = SNum [IsInt, Positive]"

definition createBotSchema :: schema where
  "createBotSchema = SObj
     [Field ''customerId'' (SStr [AtLeast 1] AnyText),
      Field ''name'' (SStr [AtLeast 1, AtMost 100] AnyText),
      Field ''clientId'' (SStr [AtLeast 1] AnyText),
      Field ''token'' (SStr [AtLeast 1] AnyText),
      Field ''publicKey'' (SOpt (SStr [] AnyText)),
      Field ''plan'' (SDefault planSchema (JStr ''free'')),
      Field ''guildLimit'' (SDefault positiveInt (JNum 100)),
      Field ''shardCount'' (SDefault positiveInt (JNum 1)),
      Field ''workerGroupId'' (SOpt (SStr [] AnyText))] None"

definition str_of :: "string \<Rightarrow> json option \<Rightarrow> string" where
  "str_of k data = (case as_string (propOf k data) of None \<Rightarrow> '''' | Some s \<Rightarrow> s)"

definition int_of :: "string \<Rightarrow> json option \<Rightarrow> int" where
  "int_of k data = (case as_int (propOf k data) of None \<Rightarrow> 0 | Some n \<Rightarrow> n)"

record bot_input =
  bi_customerId :: string
  bi_name :: string
  bi_clientId :: string
  bi_token :: string
  bi_publicKey :: "string option"
  bi_plan :: plan_tier
  bi_guildLimit :: int
  bi_shardCount :: int
  bi_workerGroupId :: "string option"

definition bot_input_of :: "json option \<Rightarrow> bot_input" where
  "bot_input_of data = \<lparr>bi_customerId = str_of ''customerId'' data, bi_name = str_of ''name'' data,
     bi_clientId = str_of ''clientId'' data, bi_token = str_of ''token'' data,
     bi_publicKey = as_string (propOf ''publicKey'' data),
     bi_plan = enum_of plan_name PLAN_TIERS (as_string (propOf ''plan'' data)),
     bi_guildLimit = int_of ''guildLimit'' data, bi_shardCount = int_of ''shardCount'' data,
     bi_workerGroupId = as_string (propOf ''workerGroupId'' data)\<rparr>"

subsection \<open>Creating a bot\<close>

text \<open>\<open>encryptSecret\<close> draws its nonce from the supply of random values.\<close>

definition encrypt_run :: "panel_platform \<Rightarrow> string \<Rightarrow> string pact" where
  "encrypt_run pp plaintext = (\<lambda>s. case encryptSecret (pp_crypto pp) (pp_encryptionKey pp) (pn_seq s) plaintext of
     Inl e \<Rightarrow> (Inl (SecretError e), s)
   | Inr c \<Rightarrow> (Inr c, s\<lparr>pn_seq := Suc (pn_seq s)\<rparr>))"

definition new_bot :: "string \<Rightarrow> string \<Rightarrow> bot_input \<Rightarrow> int \<Rightarrow> bot_row" where
  "new_bot i tokenEncrypted input now = \<lparr>bo_id = i, bo_customerId = bi_customerId input, bo_name = bi_name input,
     bo_clientId = bi_clientId input, bo_tokenEncrypted = tokenEncrypted, bo_publicKey = bi_publicKey input,
     bo_plan = bi_plan input, bo_status = BsOffline, bo_guildLimit = bi_guildLimit input,
     bo_shardCount = bi_shardCount input, bo_workerGroupId = None, bo_lastReadyAt = None, bo_lastHeartbeatAt = None,
     bo_createdAt = now\<rparr>"

definition insert_bot :: "bot_row \<Rightarrow> unit pact" where
  "insert_bot b = (\<lambda>s. if bo_id b \<in> bo_id ` set (pn_bots s) then (Inl UniqueViolation, s)
     else (Inr (), s\<lparr>pn_bots := pn_bots s @ [b]\<rparr>))"

definition create_health :: "string \<Rightarrow> unit pact" where
  "create_health botId = (\<lambda>s. if findBy bh_botId botId (pn_health s) \<noteq> None then (Inl UniqueViolation, s)
     else (Inr (), s\<lparr>pn_health := pn_health s @ [\<lparr>bh_botId = botId, bh_status = BsOffline, bh_guildCount = 0,
            bh_restartCount = 0, bh_lastErrorSafe = None\<rparr>]\<rparr>))"

definition create_bot :: "panel_platform \<Rightarrow> bot_input \<Rightarrow> bot_row pact" where
  "create_bot pp input =
     andThen (encrypt_run pp (bi_token input)) (\<lambda>tokenEncrypted.
       andThen (panel_cuid pp) (\<lambda>i s.
         let b = new_bot i tokenEncrypted input (pn_now s) in
         andThen (insert_bot b) (\<lambda>_. andThen (create_health i) (\<lambda>_. ret b)) s))"

text \<open>The three assertions in their order; the first that fails decides the 422 answer.\<close>

definition first_some :: "'a option list \<Rightarrow> 'a option" where
  "first_some xs = (case find (\<lambda>x. x \<noteq> None) xs of None \<Rightarrow> None | Some x \<Rightarrow> x)"

definition plan_refusal :: "bot_input \<Rightarrow> panel \<Rightarrow> string option" where
  "plan_refusal input s = first_some
     [assertBotCountWithinPlan (bi_plan input)
        (int (length (filter (\<lambda>b. bo_customerId b = bi_customerId input) (pn_bots s)))),
      assertGuildLimitWithinPlan (bi_plan input) (bi_guildLimit input),
      assertShardCountWithinPlan (bi_plan input) (bi_shardCount input)]"

definition find_bot_or_throw :: "string \<Rightarrow> bot_row pact" where
  "find_bot_or_throw i = (\<lambda>s. case findBy bo_id i (pn_bots s) of None \<Rightarrow> (Inl RowNotFound, s) | Some b \<Rightarrow> (Inr b, s))"

definition add_bot :: "panel_platform \<Rightarrow> session \<Rightarrow> bot_input \<Rightarrow> response pact" where
  "add_bot pp ss input =
     andThen (create_bot pp input) (\<lambda>b.
       andThen (case truthy (bi_workerGroupId input) of None \<Rightarrow> ret () | Some w \<Rightarrow> setBotWorker (bo_id b) (Some w)) (\<lambda>_.
         andThen (panel_audit (Some (ss_userId ss)) ''bot.create'' ''bot'' (bo_id b)
             (Some (JObj [(''name'', JStr (bo_name b)), (''customerId'', JStr (bo_customerId b))]))) (\<lambda>_.
           andThen (if truthy (bi_workerGroupId input) = None then ret b else find_bot_or_throw (bo_id b)) (\<lambda>finalBot.
             ret (reply_json 201 [(''bot'', serializeBot pp finalBot)])))))"

definition postBots :: "panel_platform \<Rightarrow> session option \<Rightarrow> json option \<Rightarrow> response pact" where
  "postBots pp sess body = guarded (requireAdmin sess) (\<lambda>ss.
     andThen (request_json body) (\<lambda>j.
       parsed_body (pp_safeParse pp) (pp_flatten pp) createBotSchema j (\<lambda>data s.
         let input = bot_input_of data in
         if findBy cu_id (bi_customerId input) (pn_customers s) = None then (Inr (error_json 404 ''Customer not found''), s)
         else case plan_refusal input s of
           Some message \<Rightarrow> (Inr (error_json 422 message), s)
         | None \<Rightarrow> add_bot pp ss input s)))"

definition newest_first :: "('a \<Rightarrow> int) \<Rightarrow> 'a list \<Rightarrow> 'a list" where
  "newest_first createdAt = sort_key (\<lambda>r. - createdAt r)"

definition getBots :: "panel_platform \<Rightarrow> session option \<Rightarrow> response pact" where
  "getBots pp sess = guarded (requireAdmin sess) (\<lambda>_.
     gets (\<lambda>s. reply_json 200 [(''bots'', JArr (map (serializeBot pp) (newest_first bo_createdAt (pn_bots s))))]))"

subsection \<open>Changing a bot\<close>

definition patchBotSchema :: schema where
  "patchBotSchema = SObj
     [Field ''name'' (SOpt (SStr [AtLeast 1, AtMost 100] AnyText)), Field ''plan'' (SOpt planSchema),
      Field ''guildLimit'' (SOpt positiveInt), Field ''shardCount'' (SOpt positiveInt),
      Field ''workerGroupId'' (SOpt (SNullable (SStr [] AnyText))),
      Field ''status'' (SOpt (SEnum (map bot_status_name BOT_STATUSES)))] None"

record bot_patch =
  bp_name :: "string option"
  bp_plan :: "plan_tier option"
  bp_guildLimit :: "int option"
  bp_shardCount :: "int option"
  bp_workerGroupId :: "string option option"
  bp_status :: "bot_status option"

text \<open>\<open>undefined\<close> is \<open>None\<close>; a worker of \<open>null\<close> is \<open>Some None\<close>.\<close>

definition bot_patch_of :: "json option \<Rightarrow> bot_patch" where
  "bot_patch_of data = \<lparr>bp_name = as_string (propOf ''name'' data),
     bp_plan = map_option (\<lambda>p. enum_of plan_name PLAN_TIERS (Some p)) (as_string (propOf ''plan'' data)),
     bp_guildLimit = as_int (propOf ''guildLimit'' data), bp_shardCount = as_int (propOf ''shardCount'' data),
     bp_workerGroupId = (case propOf ''workerGroupId'' data of None \<Rightarrow> None | Some j \<Rightarrow> Some (as_string (Some j))),
     bp_status = map_option (\<lambda>p. enum_of bot_status_name BOT_STATUSES (Some p)) (as_string (propOf ''status'' data))\<rparr>"

definition patch_refusal :: "bot_row \<Rightarrow> bot_patch \<Rightarrow> string option" where
  "patch_refusal existing input = (let plan = (case bp_plan input of None \<Rightarrow> bo_plan existing | Some p \<Rightarrow> p) in
     first_some
       [Option.bind (bp_guildLimit input) (assertGuildLimitWithinPlan plan),
        Option.bind (bp_shardCount input) (assertShardCountWithinPlan plan)])"

definition patch_row :: "bot_patch \<Rightarrow> bot_row \<Rightarrow> bot_row" where
  "patch_row input b = b\<lparr>
     bo_name := (case bp_name input of None \<Rightarrow> bo_name b | Some x \<Rightarrow> x),
     bo_plan := (case bp_plan input of None \<Rightarrow> bo_plan b | Some x \<Rightarrow> x),
     bo_guildLimit := (case bp_guildLimit input of None \<Rightarrow> bo_guildLimit b | Some x \<Rightarrow> x),
     bo_shardCount := (case bp_shardCount input of None \<Rightarrow> bo_shardCount b | Some x \<Rightarrow> x),
     bo_status := (case bp_status input of None \<Rightarrow> bo_status b | Some x \<Rightarrow> x)\<rparr>"

definition patchBot :: "panel_platform \<Rightarrow> session option \<Rightarrow> string \<Rightarrow> json option \<Rightarrow> response pact" where
  "patchBot pp sess i body = guarded (requireAdmin sess) (\<lambda>ss s. case findBy bo_id i (pn_bots s) of
     None \<Rightarrow> (Inr (error_json 404 ''Bot not found''), s)
   | Some existing \<Rightarrow> andThen (request_json body) (\<lambda>j.
       parsed_body (pp_safeParse pp) (pp_flatten pp) patchBotSchema j (\<lambda>data.
         let input = bot_patch_of data in
         case patch_refusal existing input of
           Some message \<Rightarrow> ret (error_json 422 message)
         | None \<Rightarrow>
             andThen (update_bot i (patch_row input)) (\<lambda>_.
               andThen (find_bot_or_throw i) (\<lambda>updated.
                 andThen (case bp_workerGroupId input of None \<Rightarrow> ret () | Some w \<Rightarrow> setBotWorker i w) (\<lambda>_.
                   andThen (if bp_workerGroupId input = None then ret updated else find_bot_or_throw i) (\<lambda>finalBot.
                     andThen (panel_audit (Some (ss_userId ss)) ''bot.update'' ''bot'' i data) (\<lambda>_.
                       ret (reply_json 200 [(''bot'', serializeBot pp finalBot)])))))))) s)"

definition rotateTokenSchema :: schema where
  "rotateTokenSchema = SObj [Field ''token'' (SStr [AtLeast 1] AnyText)] None"

definition postRotateToken :: "panel_platform \<Rightarrow> session option \<Rightarrow> string \<Rightarrow> json option \<Rightarrow> response pact" where
  "postRotateToken pp sess i body = guarded (requireAdmin sess) (\<lambda>ss s.
     if findBy bo_id i (pn_bots s) = None then (Inr (error_json 404 ''Bot not found''), s)
     else andThen (request_json body) (\<lambda>j.
       parsed_body (pp_safeParse pp) (pp_flatten pp) rotateTokenSchema j (\<lambda>data.
         andThen (encrypt_run pp (str_of ''token'' data)) (\<lambda>tokenEncrypted.
           andThen (update_bot i (\<lambda>b. b\<lparr>bo_tokenEncrypted := tokenEncrypted\<rparr>)) (\<lambda>_.
             andThen (panel_audit (Some (ss_userId ss)) ''bot.rotate_token'' ''bot'' i None) (\<lambda>_.
               ret (reply_json 200 [(''ok'', JBool True)])))))) s)"

subsection \<open>Acting on a bot\<close>

definition postBotAction :: "bot_action \<Rightarrow> panel_platform \<Rightarrow> session option \<Rightarrow> string \<Rightarrow> response pact" where
  "postBotAction act pp sess i = guarded (requireAdmin sess) (\<lambda>ss s.
     case performBotAction pp i act (ss_userId ss) s of
       (Inl BotNotFoundError, t) \<Rightarrow> (Inr (error_json 404 ''Bot not found''), t)
     | (Inl e, t) \<Rightarrow> (Inl e, t)
     | (Inr _, t) \<Rightarrow> (Inr (reply_json 200 [(''ok'', JBool True)]), t))"

definition postBotStart :: "panel_platform \<Rightarrow> session option \<Rightarrow> string \<Rightarrow> response pact" where
  "postBotStart = postBotAction ActStart"

definition postBotStop :: "panel_platform \<Rightarrow> session option \<Rightarrow> string \<Rightarrow> response pact" where
  "postBotStop = postBotAction ActStop"

definition postBotRestart :: "panel_platform \<Rightarrow> session option \<Rightarrow> string \<Rightarrow> response pact" where
  "postBotRestart = postBotAction ActRestart"

definition postExplainCrash :: "session option \<Rightarrow> string \<Rightarrow> response pact" where
  "postExplainCrash sess i = guarded (requireAdmin sess) (\<lambda>_ s.
     case truthy (Option.bind (findBy bh_botId i (pn_health s)) bh_lastErrorSafe) of
       None \<Rightarrow> (Inr (error_json 422 ''This bot has no recorded error to explain.''), s)
     | Some message \<Rightarrow> (case enqueueCrashExplanation i message (pn_explain s) of
         (Inl _, q) \<Rightarrow> (Inr (error_json 503 ''The AI worker queue isn't configured (REDIS_URL is not set).''), s)
       | (Inr jobId, q) \<Rightarrow> (Inr (reply_json 200 [(''jobId'', JStr jobId)]), s\<lparr>pn_explain := q\<rparr>)))"

subsection \<open>The customer's side\<close>

definition owned_by :: "string \<Rightarrow> panel \<Rightarrow> bot_row \<Rightarrow> bool" where
  "owned_by userId s b \<longleftrightarrow>
     (case findBy cu_id (bo_customerId b) (pn_customers s) of None \<Rightarrow> False | Some c \<Rightarrow> cu_ownerUserId c = userId)"

definition getCustomerBots :: "panel_platform \<Rightarrow> session option \<Rightarrow> response pact" where
  "getCustomerBots pp sess = guarded (requireCustomerSession sess) (\<lambda>ss. gets (\<lambda>s.
     reply_json 200 [(''bots'', JArr (map (\<lambda>b. serializeBotForCustomer pp b (findBy bh_botId (bo_id b) (pn_health s)))
       (newest_first bo_createdAt (filter (owned_by (ss_userId ss) s) (pn_bots s)))))]))"

definition getCustomerBot :: "panel_platform \<Rightarrow> session option \<Rightarrow> string \<Rightarrow> response pact" where
  "getCustomerBot pp sess i = guarded (requireCustomerSession sess) (\<lambda>ss. gets (\<lambda>s.
     case loadOwnedBot i (ss_userId ss) s of
       None \<Rightarrow> error_json 404 ''Bot not found''
     | Some b \<Rightarrow> reply_json 200 [(''bot'', serializeBotForCustomer pp b (findBy bh_botId (bo_id b) (pn_health s)))]))"

definition postCustomerRestart :: "panel_platform \<Rightarrow> session option \<Rightarrow> string \<Rightarrow> response pact" where
  "postCustomerRestart pp sess i = guarded (requireCustomerSession sess) (\<lambda>ss s.
     if isMaintenanceModeEnabled s
     then (Inr (error_json 503 ''BotFleet is in maintenance mode - bot restarts are temporarily disabled.''), s)
     else case loadOwnedBot i (ss_userId ss) s of
       None \<Rightarrow> (Inr (error_json 404 ''Bot not found''), s)
     | Some b \<Rightarrow>
         if \<not> pl_restartControlsAllowed (getPlanLimits (bo_plan b))
         then (Inr (error_json 403 ''Restart controls are not included in this bot's plan.''), s)
         else andThen (performBotAction pp (bo_id b) ActRestart (ss_userId ss))
                (\<lambda>_. ret (reply_json 200 [(''ok'', JBool True)])) s)"

text \<open>
  What \<open>Number\<close> makes of the \<open>limit\<close> in the query string, if there is one, and \<open>Math.min\<close> of it and the cap. Prisma's
  \<open>take\<close> must be an integer, otherwise the query throws; a negative one takes from the end of the ordered rows,
  as documented.
\<close>

datatype query_number = NotANumber | MinusInfinity | PlusInfinity | Number rat

definition prisma_take :: "int \<Rightarrow> 'a list \<Rightarrow> 'a list" where
  "prisma_take n rows = (if 0 \<le> n then take (nat n) rows else drop (length rows - nat (- n)) rows)"

definition capped_limit :: "int \<Rightarrow> query_number option \<Rightarrow> int option" where
  "capped_limit cap limit = (case limit of
     None \<Rightarrow> Some (min 50 cap)
   | Some PlusInfinity \<Rightarrow> Some cap
   | Some (Number x) \<Rightarrow> (let m = min x (of_int cap) in if m = of_int \<lfloor>m\<rfloor> then Some \<lfloor>m\<rfloor> else None)
   | _ \<Rightarrow> None)"

definition take_rows :: "int option \<Rightarrow> (panel \<Rightarrow> 'a list) \<Rightarrow> 'a list pact" where
  "take_rows limit rows = (case limit of None \<Rightarrow> raise InvalidArgument | Some n \<Rightarrow> gets (\<lambda>s. prisma_take n (rows s)))"

definition getCustomerLogs :: "panel_platform \<Rightarrow> session option \<Rightarrow> string \<Rightarrow> query_number option \<Rightarrow> response pact" where
  "getCustomerLogs pp sess i limit = guarded (requireCustomerSession sess) (\<lambda>ss.
     andThen (gets (loadOwnedBot i (ss_userId ss))) (\<lambda>bot. case bot of
       None \<Rightarrow> ret (error_json 404 ''Bot not found'')
     | Some b \<Rightarrow>
         andThen (take_rows (capped_limit 100 limit) (\<lambda>s.
           newest_first au_createdAt (filter (\<lambda>l. au_targetType l = ''bot'' \<and> au_targetId l = bo_id b) (pn_audit s)))) (\<lambda>logs.
         ret (reply_json 200 [(''logs'', JArr (map (\<lambda>l. JObj [(''action'', JStr (au_action l)),
           (''createdAt'', date_json pp (au_createdAt l))]) logs))]))))"

subsection \<open>A bot is created within its plan\<close>

lemma first_some_None: "first_some xs = None \<longleftrightarrow> (\<forall>x \<in> set xs. x = None)"
  by (induction xs) (auto simp: first_some_def)

lemma plan_refusal_None: "plan_refusal input s = None \<longleftrightarrow>
    int (length (filter (\<lambda>b. bo_customerId b = bi_customerId input) (pn_bots s))) < pl_maxBots (getPlanLimits (bi_plan input))
    \<and> bi_guildLimit input \<le> pl_maxGuildsPerBot (getPlanLimits (bi_plan input))
    \<and> bi_shardCount input \<le> pl_maxShardsPerBot (getPlanLimits (bi_plan input))"
  by (auto simp: plan_refusal_def first_some_None assertBotCountWithinPlan_def assertGuildLimitWithinPlan_def
      assertShardCountWithinPlan_def Let_def)

lemma create_bot_run:
  assumes "create_bot pp input s = (Inr b, t)"
  shows "\<exists>c. encryptSecret (pp_crypto pp) (pp_encryptionKey pp) (pn_seq s) (bi_token input) = Inr c
    \<and> b = new_bot (pp_cuid pp (Suc (pn_seq s))) c input (pn_now s)
    \<and> bo_id b \<notin> bo_id ` set (pn_bots s)
    \<and> t = s\<lparr>pn_seq := Suc (Suc (pn_seq s)), pn_bots := pn_bots s @ [b], pn_health := pn_health s @
        [\<lparr>bh_botId = bo_id b, bh_status = BsOffline, bh_guildCount = 0, bh_restartCount = 0, bh_lastErrorSafe = None\<rparr>]\<rparr>"
  using assms
  by (auto simp: create_bot_def encrypt_run_def panel_cuid_def insert_bot_def create_health_def andThen_def ret_def Let_def new_bot_def
      split: sum.splits if_splits)

text \<open>What a move between workers does not write.\<close>

definition ungrouped :: "bot_row \<Rightarrow> bot_row" where
  "ungrouped b = b\<lparr>bo_workerGroupId := None\<rparr>"

lemma setBotWorker_frame:
  "map bo_id (pn_bots (snd (setBotWorker i g s))) = map bo_id (pn_bots s)
   \<and> map ungrouped (pn_bots (snd (setBotWorker i g s))) = map ungrouped (pn_bots s)
   \<and> pn_audit (snd (setBotWorker i g s)) = pn_audit s"
proof -
  have upd: "map ungrouped (updateWhere (\<lambda>r. bo_id r = i) (\<lambda>b. b\<lparr>bo_workerGroupId := g\<rparr>) bots) =
      map ungrouped bots" for bots :: "bot_row list"
    by (induction bots) (auto simp: ungrouped_def)
  have ids: "map bo_id (updateWhere (\<lambda>r. bo_id r = i) (\<lambda>b. b\<lparr>bo_workerGroupId := g\<rparr>) bots) = map bo_id bots" for bots :: "bot_row list"
    by (induction bots) auto
  show ?thesis
    by (auto simp: setBotWorker_def transaction_def andThen_def leave_worker_def join_worker_def set_group_def update_worker_def
        update_bot_def modify_def ret_def upd ids split: option.splits prod.splits sum.splits if_splits)
qed

definition within_plan :: "bot_row \<Rightarrow> bool" where
  "within_plan b \<longleftrightarrow> bo_guildLimit b \<le> pl_maxGuildsPerBot (getPlanLimits (bo_plan b))
     \<and> bo_shardCount b \<le> pl_maxShardsPerBot (getPlanLimits (bo_plan b))"

definition bots_of_customer :: "string \<Rightarrow> panel \<Rightarrow> int" where
  "bots_of_customer c s = int (length (filter (\<lambda>b. bo_customerId b = c) (pn_bots s)))"

lemma create_bot_frame:
  assumes "create_bot pp input s = (x, t)"
  shows "pn_audit t = pn_audit s \<and> pn_customers t = pn_customers s
    \<and> (pn_bots t = pn_bots s \<and> (\<exists>e. x = Inl e)
       \<or> (\<exists>c. let b = new_bot (pp_cuid pp (Suc (pn_seq s))) c input (pn_now s) in
            bo_id b \<notin> bo_id ` set (pn_bots s) \<and> pn_bots t = pn_bots s @ [b] \<and> (x = Inr b \<or> (\<exists>e. x = Inl e))))"
  using assms
  by (auto simp: create_bot_def encrypt_run_def panel_cuid_def insert_bot_def create_health_def andThen_def ret_def Let_def new_bot_def
      split: sum.splits if_splits)

text \<open>What follows the assignment to a worker.\<close>

definition finish_bot :: "panel_platform \<Rightarrow> session \<Rightarrow> bot_input \<Rightarrow> bot_row \<Rightarrow> response pact" where
  "finish_bot pp ss input b =
     andThen (panel_audit (Some (ss_userId ss)) ''bot.create'' ''bot'' (bo_id b)
         (Some (JObj [(''name'', JStr (bo_name b)), (''customerId'', JStr (bo_customerId b))]))) (\<lambda>_.
       andThen (if truthy (bi_workerGroupId input) = None then ret b else find_bot_or_throw (bo_id b)) (\<lambda>finalBot.
         ret (reply_json 201 [(''bot'', serializeBot pp finalBot)])))"

lemma add_bot_finish: "add_bot pp ss input = andThen (create_bot pp input) (\<lambda>b.
    andThen (case truthy (bi_workerGroupId input) of None \<Rightarrow> ret () | Some w \<Rightarrow> setBotWorker (bo_id b) (Some w))
      (\<lambda>_. finish_bot pp ss input b))"
  by (simp add: add_bot_def finish_bot_def)

lemma finish_bot_run:
  assumes "findBy bo_id (bo_id b) (pn_bots s) \<noteq> None"
  shows "\<exists>resp entry. finish_bot pp ss input b s = (Inr resp, s\<lparr>pn_audit := pn_audit s @ [entry]\<rparr>) \<and> rs_status resp = 201"
proof -
  obtain b' where b': "findBy bo_id (bo_id b) (pn_bots s) = Some b'" using assms by auto
  let ?entry = "audit_entry (Some (ss_userId ss)) ''bot.create'' ''bot'' (bo_id b)
    (Some (JObj [(''name'', JStr (bo_name b)), (''customerId'', JStr (bo_customerId b))])) s"
  let ?final = "if truthy (bi_workerGroupId input) = None then b else b'"
  have "finish_bot pp ss input b s = (Inr (reply_json 201 [(''bot'', serializeBot pp ?final)]), s\<lparr>pn_audit := pn_audit s @ [?entry]\<rparr>)"
    by (simp add: finish_bot_def panel_audit_run andThen_def ret_def find_bot_or_throw_def b')
  then show ?thesis by (metis reply_json_def response.select_convs(1))
qed

lemma add_bot_frame:
  assumes "add_bot pp ss input s = (r, t)"
  shows "pn_bots t = pn_bots s \<and> pn_audit t = pn_audit s \<and> (\<exists>e. r = Inl e)
    \<or> (\<exists>c. let b = new_bot (pp_cuid pp (Suc (pn_seq s))) c input (pn_now s) in
         bo_id b \<notin> bo_id ` set (pn_bots s) \<and> map ungrouped (pn_bots t) = map ungrouped (pn_bots s @ [b])
         \<and> ((\<exists>e. r = Inl e) \<and> pn_audit t = pn_audit s
            \<or> (\<exists>resp. r = Inr resp \<and> rs_status resp = 201) \<and> length (pn_audit t) = Suc (length (pn_audit s))))"
proof -
  obtain x u where create: "create_bot pp input s = (x, u)" by fastforce
  note frame = create_bot_frame [OF create]
  show ?thesis
  proof (cases x)
    case (Inl e)
    then have "r = Inl e \<and> t = u" using assms create by (simp add: add_bot_def andThen_def)
    then show ?thesis using frame Inl by (auto simp: Let_def)
  next
    case (Inr b)
    then obtain c where b: "b = new_bot (pp_cuid pp (Suc (pn_seq s))) c input (pn_now s)" "bo_id b \<notin> bo_id ` set (pn_bots s)"
      "pn_bots u = pn_bots s @ [b]" "pn_audit u = pn_audit s"
      using frame by (auto simp: Let_def)
    define place where "place = (case truthy (bi_workerGroupId input) of None \<Rightarrow> ret () | Some w \<Rightarrow> setBotWorker (bo_id b) (Some w))"
    obtain y v where move: "place u = (y, v)" by fastforce
    have v: "map ungrouped (pn_bots v) = map ungrouped (pn_bots u) \<and> map bo_id (pn_bots v) = map bo_id (pn_bots u) \<and> pn_audit v = pn_audit u"
    proof (cases "truthy (bi_workerGroupId input)")
      case None
      then show ?thesis using move by (simp add: place_def ret_def)
    next
      case (Some w)
      then have "setBotWorker (bo_id b) (Some w) u = (y, v)" using move by (simp add: place_def)
      then show ?thesis using setBotWorker_frame [of "bo_id b" "Some w" u] by simp
    qed
    have known: "findBy bo_id (bo_id b) (pn_bots v) \<noteq> None"
      using v b(3) by (metis (no_types, lifting) findBy_None in_set_conv_decomp list.set_map image_eqI)
    have run: "andThen place (\<lambda>_. finish_bot pp ss input b) u = (r, t)"
      using assms create Inr by (simp add: add_bot_finish andThen_def place_def)
    show ?thesis
    proof (cases y)
      case (Inl e)
      then have "r = Inl e \<and> t = v" using run move by (simp add: andThen_def)
      then show ?thesis using v b by (auto simp: Let_def)
    next
      case (Inr z)
      then have "finish_bot pp ss input b v = (r, t)" using run move by (simp add: andThen_def)
      then show ?thesis using finish_bot_run [OF known, of pp ss input] v b by (auto simp: Let_def)
    qed
  qed
qed

text \<open>
  However creating a bot ends, either no bot was added, or exactly one was: for an administrator, under
  a customer that exists and has fewer bots than the plan of the new bot allows, with a guild limit and a
  shard count within that plan, offline. When the request throws after the row is written, the row
  stays, without an audit entry; an entry is written exactly when the answer is 201.
\<close>

theorem created_bot_is_within_plan:
  assumes "postBots pp sess body s = (r, t)"
  shows "pn_bots t = pn_bots s \<and> pn_audit t = pn_audit s
    \<or> (\<exists>ss b. requireAdmin sess = Inr ss \<and> map ungrouped (pn_bots t) = map ungrouped (pn_bots s @ [b])
         \<and> bo_id b \<notin> bo_id ` set (pn_bots s) \<and> findBy cu_id (bo_customerId b) (pn_customers s) \<noteq> None
         \<and> within_plan b \<and> bots_of_customer (bo_customerId b) s < pl_maxBots (getPlanLimits (bo_plan b)) \<and> bo_status b = BsOffline
         \<and> ((\<exists>e. r = Inl e) \<and> pn_audit t = pn_audit s
            \<or> (\<exists>resp. r = Inr resp \<and> rs_status resp = 201) \<and> length (pn_audit t) = Suc (length (pn_audit s))))"
proof (cases "(pn_bots t = pn_bots s \<and> pn_audit t = pn_audit s)")
  case False
  then obtain ss j data where ss: "requireAdmin sess = Inr ss" and "body = Some j" "pp_safeParse pp createBotSchema (Some j) = Inr data"
    and customer: "findBy cu_id (bi_customerId (bot_input_of data)) (pn_customers s) \<noteq> None"
    and plan: "plan_refusal (bot_input_of data) s = None" and run: "add_bot pp ss (bot_input_of data) s = (r, t)"
    using assms
    by (auto simp: postBots_def guarded_def request_json_def parsed_body_def raise_def ret_def andThen_def Let_def
      split: sum.splits option.splits if_splits)
  obtain c where c: "bo_id (new_bot (pp_cuid pp (Suc (pn_seq s))) c (bot_input_of data) (pn_now s)) \<notin> bo_id ` set (pn_bots s)"
    "map ungrouped (pn_bots t) = map ungrouped (pn_bots s @ [new_bot (pp_cuid pp (Suc (pn_seq s))) c (bot_input_of data) (pn_now s)])"
    "(\<exists>e. r = Inl e) \<and> pn_audit t = pn_audit s
      \<or> (\<exists>resp. r = Inr resp \<and> rs_status resp = 201) \<and> length (pn_audit t) = Suc (length (pn_audit s))"
    using add_bot_frame [OF run] False by (auto simp: Let_def)
  show ?thesis
    using ss c customer plan
    by (intro disjI2 exI [of _ ss] exI [of _ "new_bot (pp_cuid pp (Suc (pn_seq s))) c (bot_input_of data) (pn_now s)"])
      (simp add: plan_refusal_None within_plan_def bots_of_customer_def new_bot_def)
qed simp

definition admin_session :: session where
  "admin_session = \<lparr>ss_userId = ''u1'', ss_role = RoleAdmin, ss_discordUserId = None\<rparr>"

definition api_panel :: panel where
  "api_panel = sample_panel\<lparr>pn_customers := [\<lparr>cu_id = ''c1'', cu_ownerUserId = ''u2'', cu_name = ''C'', cu_plan = PlanFree, cu_createdAt = 0\<rparr>]\<rparr>"

definition api_platform :: panel_platform where
  "api_platform = refusing_platform\<lparr>pp_runner := (\<lambda>_ _. ReplyOk), pp_env := [''BOTFLEET_ENCRYPTION_KEY'' \<mapsto> replicate 64 CHR ''A'']\<rparr>"

definition bot_body :: json where
  "bot_body = JObj [(''customerId'', JStr ''c1''), (''name'', JStr ''B''), (''clientId'', JStr ''9''), (''token'', JStr ''tok''),
     (''plan'', JStr ''starter'')]"

definition bot_data :: "json option" where
  "bot_data = Some (JObj
    [(''customerId'', JStr ''c1''), (''name'', JStr ''B''), (''clientId'', JStr ''9''), (''token'', JStr ''tok''),
     (''plan'', JStr ''starter''), (''guildLimit'', JNum 100), (''shardCount'', JNum 1)])"

lemma api_key: "isEncryptionKeyConfigured plain_crypto (Some (replicate 64 CHR ''A''))"
proof -
  have "length (unhex (concat (replicate n ''AA''))) = n" for n by (induction n) simp_all
  from this [of 32] have "length (unhex (replicate 64 CHR ''A'')) = 32" by (simp add: numeral_eq_Suc)
  then show ?thesis by (simp add: isEncryptionKeyConfigured_def plain_crypto_def)
qed

lemma bot_body_parses: "plain_validator F createBotSchema (Some bot_body) = Inr bot_data"
  by (simp add: bot_data_def plain_validator_def createBotSchema_def bot_body_def planSchema_def PLAN_TIERS_def positiveInt_def)

lemma bot_body_input: "bot_input_of bot_data
  = \<lparr>bi_customerId = ''c1'', bi_name = ''B'', bi_clientId = ''9'', bi_token = ''tok'', bi_publicKey = None, bi_plan = PlanStarter,
     bi_guildLimit = 100, bi_shardCount = 1, bi_workerGroupId = None\<rparr>"
  by (simp add: bot_data_def bot_input_of_def str_of_def int_of_def enum_of_def PLAN_TIERS_def)

lemma api_create: "\<exists>resp t. postBots api_platform (Some admin_session) (Some bot_body) api_panel = (Inr resp, t)
    \<and> rs_status resp = 201 \<and> map bo_id (pn_bots t) = [''b0'', ''b1'', ''id1'']"
proof -
  obtain stored where stored: "encryptSecret plain_crypto (Some (replicate 64 CHR ''A'')) 0 ''tok'' = Inr stored"
    using secret_roundtrip_core [OF plain_crypto_laws api_key] by blast
  have platform: "pp_safeParse api_platform = plain_validator (\<lambda>_ _. True)" "pp_crypto api_platform = plain_crypto"
    "pp_encryptionKey api_platform = Some (replicate 64 CHR ''A'')" "pp_cuid api_platform n = ''id'' @ show_nat n" for n
    by (simp_all add: api_platform_def refusing_platform_def pp_encryptionKey_def)
  have one: "show_nat (Suc 0) = ''1''" by code_simp
  show ?thesis
    by (simp add: one postBots_def guarded_def admin_session_def request_json_def parsed_body_def platform bot_body_parses bot_body_input
        Let_def add_bot_def create_bot_def encrypt_run_def stored panel_cuid_def insert_bot_def create_health_def andThen_def ret_def
        panel_audit_run reply_json_def new_bot_def plan_refusal_def first_some_def assertBotCountWithinPlan_def
        assertGuildLimitWithinPlan_def assertShardCountWithinPlan_def api_panel_def sample_panel_def sample_bot_def digit_char_def)
qed

theorem created_bot_is_within_plan_witness:
  "\<exists>b t. snd (postBots api_platform (Some admin_session) (Some bot_body) api_panel) = t
     \<and> map ungrouped (pn_bots t) = map ungrouped (pn_bots api_panel @ [b]) \<and> within_plan b"
proof -
  obtain resp t where run: "postBots api_platform (Some admin_session) (Some bot_body) api_panel = (Inr resp, t)"
    "map bo_id (pn_bots t) = [''b0'', ''b1'', ''id1'']"
    using api_create by (elim exE conjE) (rule that)
  have "pn_bots t \<noteq> pn_bots api_panel"
  proof
    assume "pn_bots t = pn_bots api_panel"
    then have "length (pn_bots t) = 2" by (simp add: api_panel_def sample_panel_def)
    with arg_cong [OF run(2), of length] show False by simp
  qed
  with created_bot_is_within_plan [OF run(1)] run(1) show ?thesis by auto
qed

subsection \<open>The token, from the request to the process\<close>

lemma start_calls:
  assumes "findBy bo_id i (pn_bots s) = Some b" and "worker_of b s = None"
    and "decryptSecret (pp_crypto pp) (pp_encryptionKey pp) (bo_tokenEncrypted b) = Inr token"
  shows "pn_calls (snd (performBotAction pp i ActStart actor s)) =
    pn_calls s @ [PmStart (processName i) [(''BOTFLEET_BOT_ID'', i), (''BOTFLEET_BOT_TOKEN'', token)]]"
proof -
  let ?env = "[(''BOTFLEET_BOT_ID'', i), (''BOTFLEET_BOT_TOKEN'', token)]"
  let ?s = "marked i BsStarting [] s"
  have known: "findBy bo_id i (pn_bots s) \<noteq> None" using assms(1) by simp
  have env: "bot_environment pp i ?s = (Inr ?env, ?s)"
    using assms(1,3) by (auto simp: bot_environment_def find_restatus)
  have set: "pn_calls (snd (setStatus j st u)) = pn_calls u" for j st u
    by (simp add: setStatus_def update_bot_def andThen_def modify_def)
  have calls: "pn_calls ?s = pn_calls s" by (simp add: marked_def)
  have talk: "pn_calls (snd (run_action ActStart (getRunnerAdapter pp ModePm2) i s)) = pn_calls s @ [PmStart (processName i) ?env]"
    by (auto simp: run_action_shape runner_talk_def andThen_def setStatus_run [OF known] env pm2StartBotProcess_def
      invoke_or_throw_def invoke_def raise_def ret_def set calls simp del: run_action.simps split: if_splits)
  show ?thesis
    using talk by (auto simp: performBotAction_def assms(1,2) Let_def andThen_def ret_def panel_audit_run simp del: run_action.simps split: prod.splits sum.splits)
qed

text \<open>
  The token an administrator registers for a bot is stored encrypted, and when the bot is started
  later the runner is handed exactly that token, in the environment of the process and nowhere else.
\<close>

theorem token_reaches_the_process:
  assumes "crypto_laws (pp_crypto pp)" and "isEncryptionKeyConfigured (pp_crypto pp) (pp_encryptionKey pp)"
    and "pp_safeParse pp createBotSchema (Some j) = Inr data" and "str_of ''token'' data \<noteq> []"
    and "propOf ''workerGroupId'' data = None"
    and "postBots pp sess (Some j) s = (Inr resp, t)" and "rs_status resp = 201"
  shows "\<exists>b. pn_bots t = pn_bots s @ [b]
    \<and> decryptSecret (pp_crypto pp) (pp_encryptionKey pp) (bo_tokenEncrypted b) = Inr (str_of ''token'' data)
    \<and> pn_calls (snd (performBotAction pp (bo_id b) ActStart actor t)) = pn_calls s @
        [PmStart (''botfleet-bot-'' @ bo_id b) [(''BOTFLEET_BOT_ID'', bo_id b), (''BOTFLEET_BOT_TOKEN'', str_of ''token'' data)]]"
proof -
  let ?input = "bot_input_of data"
  have worker: "bi_workerGroupId ?input = None" using assms(5) by (simp add: bot_input_of_def)
  obtain ss where "add_bot pp ss ?input s = (Inr resp, t)"
    using assms(3,6,7)
    by (auto simp: postBots_def guarded_def request_json_def parsed_body_def ret_def andThen_def Let_def error_json_def reply_json_def
      split: sum.splits option.splits if_splits) (auto elim: requireAdmin.elims simp: error_json_def reply_json_def split: if_splits)
  then obtain b u where create: "create_bot pp ?input s = (Inr b, u)" and finish: "finish_bot pp ss ?input b u = (Inr resp, t)"
    by (auto simp: add_bot_finish worker andThen_ret elim!: andThen_InrE)
  obtain c where c: "encryptSecret (pp_crypto pp) (pp_encryptionKey pp) (pn_seq s) (str_of ''token'' data) = Inr c"
    "bo_tokenEncrypted b = c" "bo_workerGroupId b = None" "bo_id b \<notin> bo_id ` set (pn_bots s)"
    "pn_bots u = pn_bots s @ [b]" "pn_calls u = pn_calls s"
    using create_bot_run [OF create] by (auto simp: new_bot_def bot_input_of_def)
  have find: "findBy bo_id (bo_id b) (pn_bots u) = Some b"
  proof -
    have "findBy bo_id (bo_id b) (pn_bots s) = None" using c(4) by (simp only: findBy_None not_False_eq_True)
    then show ?thesis using c(5) by (simp add: findBy_append)
  qed
  have t: "pn_bots t = pn_bots u \<and> pn_calls t = pn_calls u"
    using finish_bot_run [of b u pp ss ?input] find finish by auto
  have token: "decryptSecret (pp_crypto pp) (pp_encryptionKey pp) (bo_tokenEncrypted b) = Inr (str_of ''token'' data)"
    using secret_roundtrip_core [OF assms(1,2), of "pn_seq s" "str_of ''token'' data"] assms(4) c(1,2) by simp
  have "worker_of b t = None" using c(3) by (simp add: worker_of_def)
  from start_calls [OF _ this token, of "bo_id b" actor] find t
  have "pn_calls (snd (performBotAction pp (bo_id b) ActStart actor t)) = pn_calls t @
      [PmStart (processName (bo_id b)) [(''BOTFLEET_BOT_ID'', bo_id b), (''BOTFLEET_BOT_TOKEN'', str_of ''token'' data)]]"
    by simp
  with t c(5,6) token show ?thesis by (auto simp: processName_def)
qed

theorem token_reaches_the_process_witness:
  "\<exists>b :: bot_row. pn_calls (snd (performBotAction api_platform (bo_id b) ActStart ''u1''
        (snd (postBots api_platform (Some admin_session) (Some bot_body) api_panel)))) =
     [PmStart (''botfleet-bot-'' @ bo_id b) [(''BOTFLEET_BOT_ID'', bo_id b), (''BOTFLEET_BOT_TOKEN'', ''tok'')]]"
proof -
  obtain resp t where run: "postBots api_platform (Some admin_session) (Some bot_body) api_panel = (Inr resp, t)" "rs_status resp = 201"
    using api_create by (elim exE conjE) (rule that)
  have platform: "pp_safeParse api_platform = plain_validator (\<lambda>_ _. True)" "pp_crypto api_platform = plain_crypto"
    "pp_encryptionKey api_platform = Some (replicate 64 CHR ''A'')"
    by (simp_all add: api_platform_def refusing_platform_def pp_encryptionKey_def)
  have calls: "pn_calls api_panel = []" by (simp add: api_panel_def sample_panel_def)
  have data: "str_of ''token'' bot_data = ''tok''" "propOf ''workerGroupId'' bot_data = None" by (simp_all add: bot_data_def str_of_def)
  have "str_of ''token'' bot_data \<noteq> []" using data(1) by simp
  note reach = token_reaches_the_process [of api_platform bot_body bot_data "Some admin_session" api_panel resp t "''u1''", unfolded platform,
      OF plain_crypto_laws api_key bot_body_parses this data(2) run]
  have "\<exists>b :: bot_row. pn_calls (snd (performBotAction api_platform (bo_id b) ActStart ''u1'' t)) = pn_calls api_panel @
     [PmStart (''botfleet-bot-'' @ bo_id b) [(''BOTFLEET_BOT_ID'', bo_id b), (''BOTFLEET_BOT_TOKEN'', str_of ''token'' bot_data)]]"
    using reach by meson
  then show ?thesis unfolding run(1) snd_conv by (simp only: calls data(1) append_Nil)
qed

subsection \<open>The token leaves no trace outside its column\<close>

definition erase_token :: "bot_row \<Rightarrow> bot_row" where
  "erase_token b = b\<lparr>bo_tokenEncrypted := ''''\<rparr>"

definition erase_tokens :: "panel \<Rightarrow> panel" where
  "erase_tokens s = s\<lparr>pn_bots := map erase_token (pn_bots s)\<rparr>"

text \<open>Two computations that, from states that differ in stored tokens only, end alike.\<close>

definition alike :: "('a \<Rightarrow> 'b \<Rightarrow> bool) \<Rightarrow> 'a pact \<Rightarrow> 'b pact \<Rightarrow> bool" where
  "alike R m m' \<longleftrightarrow> (\<forall>s s'. erase_tokens s = erase_tokens s' \<longrightarrow>
     rel_sum (=) R (fst (m s)) (fst (m' s')) \<and> erase_tokens (snd (m s)) = erase_tokens (snd (m' s')))"

lemma alike_ret: "R x y \<Longrightarrow> alike R (ret x) (ret y)"
  by (simp add: alike_def ret_def)

lemma alike_andThen:
  assumes "alike R m m'" and "\<And>x y. R x y \<Longrightarrow> alike Q (k x) (k' y)"
  shows "alike Q (andThen m k) (andThen m' k')"
  unfolding alike_def
proof (intro allI impI)
  fix s s' assume "erase_tokens s = erase_tokens s'"
  then have m: "rel_sum (=) R (fst (m s)) (fst (m' s'))" "erase_tokens (snd (m s)) = erase_tokens (snd (m' s'))"
    using assms(1) by (simp_all add: alike_def)
  obtain r t where 1: "m s = (r, t)" by fastforce
  obtain r' t' where 2: "m' s' = (r', t')" by fastforce
  have "rel_sum (=) R r r'" "erase_tokens t = erase_tokens t'" using m 1 2 by simp_all
  then show "rel_sum (=) Q (fst (andThen m k s)) (fst (andThen m' k' s')) \<and>
      erase_tokens (snd (andThen m k s)) = erase_tokens (snd (andThen m' k' s'))"
    using assms(2) 1 2 by (cases r; cases r') (auto simp: andThen_def alike_def)
qed

text \<open>A computation that does not look at the tokens commutes with erasing them.\<close>

definition commutes :: "'a pact \<Rightarrow> bool" where
  "commutes m \<longleftrightarrow> (\<forall>s. m (erase_tokens s) = (fst (m s), erase_tokens (snd (m s))))"

lemma commutes_alike:
  assumes "commutes m" shows "alike (=) m m"
  unfolding alike_def
proof (intro allI impI)
  fix s s' assume e: "erase_tokens s = erase_tokens s'"
  have "(fst (m s), erase_tokens (snd (m s))) = (fst (m s'), erase_tokens (snd (m s')))"
    using assms e unfolding commutes_def by metis
  then show "rel_sum (=) (=) (fst (m s)) (fst (m s')) \<and> erase_tokens (snd (m s)) = erase_tokens (snd (m s'))"
    by (simp add: sum.rel_eq)
qed

lemma commutes_andThen: "commutes m \<Longrightarrow> (\<And>x. commutes (k x)) \<Longrightarrow> commutes (andThen m k)"
  by (auto simp: commutes_def andThen_def split: prod.splits sum.splits)

lemma commutes_ret: "commutes (ret x)"
  by (simp add: commutes_def ret_def)

lemma commutes_modify: "(\<And>s. g (erase_tokens s) = erase_tokens (g s)) \<Longrightarrow> commutes (modify g)"
  by (simp add: commutes_def modify_def)

lemma erase_simps [simp]:
  "pn_workers (erase_tokens s) = pn_workers s" "pn_assignments (erase_tokens s) = pn_assignments s" "pn_now (erase_tokens s) = pn_now s"
  "pn_audit (erase_tokens s) = pn_audit s" "pn_seq (erase_tokens s) = pn_seq s" "pn_health (erase_tokens s) = pn_health s"
  "pn_customers (erase_tokens s) = pn_customers s" "pn_bots (erase_tokens s) = map erase_token (pn_bots s)"
  by (simp_all add: erase_tokens_def)

lemma erase_keeps [simp]: "bo_id (erase_token b) = bo_id b" "bo_workerGroupId (erase_token b) = bo_workerGroupId b"
  "bo_customerId (erase_token b) = bo_customerId b"
  by (simp_all add: erase_token_def)

lemma find_erased: "findBy bo_id i (map erase_token bots) = map_option erase_token (findBy bo_id i bots)"
  by (induction bots) auto

lemma update_erased: "updateWhere (\<lambda>b. bo_id b = i) (\<lambda>b. b\<lparr>bo_workerGroupId := g\<rparr>) (map erase_token bots) =
    map erase_token (updateWhere (\<lambda>b. bo_id b = i) (\<lambda>b. b\<lparr>bo_workerGroupId := g\<rparr>) bots)"
  by (induction bots) (auto simp: erase_token_def)

lemma commutes_audit: "commutes (panel_audit a b c d e)"
  unfolding panel_audit_def by (rule commutes_modify) (simp add: erase_tokens_def)

lemma commutes_update_worker: "commutes (update_worker i g)"
  by (auto simp: commutes_def update_worker_def erase_tokens_def)

lemma commutes_setBotWorker: "commutes (setBotWorker i g)"
proof -
  have leave: "commutes (leave_worker i old)" for old
    unfolding leave_worker_def
    by (cases "truthy old") (auto intro!: commutes_ret commutes_andThen commutes_update_worker commutes_modify simp: erase_tokens_def)
  have join: "commutes (join_worker i g)"
    unfolding join_worker_def
    by (cases "truthy g") (auto intro!: commutes_ret commutes_andThen commutes_update_worker commutes_modify simp: erase_tokens_def)
  have set: "commutes (set_group i g)"
    by (auto simp: commutes_def set_group_def update_bot_def find_erased update_erased split: option.splits) (simp_all add: erase_tokens_def update_erased)
  define body where "body old = (if old = g then ret () else andThen (leave_worker i old) (\<lambda>_. andThen (join_worker i g) (\<lambda>_. set_group i g)))" for old
  have body: "commutes (body old)" for old
    unfolding body_def by (auto intro!: commutes_ret commutes_andThen leave join set)
  have eq: "setBotWorker i g = transaction (\<lambda>s. case findBy bo_id i (pn_bots s) of None \<Rightarrow> (Inl RowNotFound, s) | Some b \<Rightarrow> body (bo_workerGroupId b) s)"
    by (auto simp: setBotWorker_def body_def ret_def fun_eq_iff transaction_def split: option.splits)
  show ?thesis
    using body unfolding eq
    by (auto simp: commutes_def transaction_def find_erased split: option.splits prod.splits sum.splits)
qed

abbreviation same_bot :: "bot_row \<Rightarrow> bot_row \<Rightarrow> bool" where
  "same_bot b b' \<equiv> erase_token b = erase_token b'"

lemma same_botD: "same_bot b b' \<Longrightarrow> bo_id b = bo_id b' \<and> bo_name b = bo_name b' \<and> bo_customerId b = bo_customerId b'
    \<and> serializeBot pp b = serializeBot pp b'"
  by (cases b; cases b') (simp add: erase_token_def serializeBot_def)

lemma alike_encrypt:
  assumes "\<And>c c'. alike Q (k c) (k' c')"
  shows "alike Q (andThen (encrypt_run pp a) k) (andThen (encrypt_run pp b) k')"
proof (rule alike_andThen [where R = "\<lambda>_ _. True"])
  show "alike (\<lambda>_ _. True) (encrypt_run pp a) (encrypt_run pp b)"
    unfolding alike_def
  proof (intro allI impI)
    fix s s' assume e: "erase_tokens s = erase_tokens s'"
    then have seq: "pn_seq s = pn_seq s'" by (metis erase_simps(5))
    have bump: "erase_tokens (s\<lparr>pn_seq := n\<rparr>) = erase_tokens (s'\<lparr>pn_seq := n\<rparr>)" for n
    proof -
      have "erase_tokens (u\<lparr>pn_seq := n\<rparr>) = (erase_tokens u)\<lparr>pn_seq := n\<rparr>" for u by (simp add: erase_tokens_def)
      with e show ?thesis by simp
    qed
    show "rel_sum (=) (\<lambda>_ _. True) (fst (encrypt_run pp a s)) (fst (encrypt_run pp b s')) \<and>
        erase_tokens (snd (encrypt_run pp a s)) = erase_tokens (snd (encrypt_run pp b s'))"
      using e bump by (auto simp: encrypt_run_def encryptSecret_def seq Let_def split: sum.splits prod.splits)
  qed
qed (rule assms)

lemma alike_insert: "same_bot b b' \<Longrightarrow> alike (=) (insert_bot b) (insert_bot b')"
  unfolding alike_def
proof (intro allI impI)
  fix s s' assume b: "same_bot b b'" and e: "erase_tokens s = erase_tokens s'"
  have bots: "map erase_token (pn_bots s) = map erase_token (pn_bots s')" using e by (metis erase_simps(8))
  have ids: "bo_id ` set (pn_bots s) = bo_id ` set (pn_bots s')"
    using arg_cong [OF bots, of "\<lambda>bs. bo_id ` set bs"] by (simp add: image_image)
  have "erase_tokens (u\<lparr>pn_bots := bs\<rparr>) = (erase_tokens u)\<lparr>pn_bots := map erase_token bs\<rparr>" for u bs
    by (simp add: erase_tokens_def)
  then show "rel_sum (=) (=) (fst (insert_bot b s)) (fst (insert_bot b' s')) \<and>
      erase_tokens (snd (insert_bot b s)) = erase_tokens (snd (insert_bot b' s'))"
    using b e bots ids same_botD [OF b] by (simp add: insert_bot_def)
qed

lemma commutes_health: "commutes (create_health i)"
  by (auto simp: commutes_def create_health_def erase_tokens_def)

lemma commutes_cuid: "commutes (panel_cuid pp)"
  by (simp add: commutes_def panel_cuid_def erase_tokens_def)

lemma alike_find: "alike same_bot (find_bot_or_throw i) (find_bot_or_throw i)"
  unfolding alike_def
proof (intro allI impI)
  fix s s' assume e: "erase_tokens s = erase_tokens s'"
  have "map erase_token (pn_bots s) = map erase_token (pn_bots s')" using e by (metis erase_simps(8))
  then have "map_option erase_token (findBy bo_id i (pn_bots s)) = map_option erase_token (findBy bo_id i (pn_bots s'))"
    by (metis find_erased)
  then show "rel_sum (=) same_bot (fst (find_bot_or_throw i s)) (fst (find_bot_or_throw i s')) \<and>
      erase_tokens (snd (find_bot_or_throw i s)) = erase_tokens (snd (find_bot_or_throw i s'))"
    using e by (cases "findBy bo_id i (pn_bots s)"; cases "findBy bo_id i (pn_bots s')") (simp_all add: find_bot_or_throw_def)
qed

text \<open>Reading the clock does not look at the tokens either.\<close>

lemma alike_now:
  assumes "\<And>n. alike R (k n) (k' n)" shows "alike R (\<lambda>s. k (pn_now s) s) (\<lambda>s. k' (pn_now s) s)"
  unfolding alike_def
proof (intro allI impI)
  fix s s' assume e: "erase_tokens s = erase_tokens s'"
  then have "pn_now s = pn_now s'" by (metis erase_simps(3))
  with assms e show "rel_sum (=) R (fst (k (pn_now s) s)) (fst (k' (pn_now s') s')) \<and>
      erase_tokens (snd (k (pn_now s) s)) = erase_tokens (snd (k' (pn_now s') s'))"
    unfolding alike_def by metis
qed

definition with_token :: "string \<Rightarrow> bot_input \<Rightarrow> bot_input" where
  "with_token token input = input\<lparr>bi_token := token\<rparr>"

lemma alike_create: "alike same_bot (create_bot pp (with_token a input)) (create_bot pp (with_token b input))"
proof -
  have same: "same_bot (new_bot i c (with_token a input) n) (new_bot i c' (with_token b input) n)"
    "bo_id (new_bot i c (with_token a input) n) = i" for i c c' n
    by (simp_all add: new_bot_def erase_token_def with_token_def)
  have rest: "alike same_bot
      (andThen (insert_bot (new_bot i c (with_token a input) n)) (\<lambda>_. andThen (create_health i) (\<lambda>_. ret (new_bot i c (with_token a input) n))))
      (andThen (insert_bot (new_bot i c' (with_token b input) n)) (\<lambda>_. andThen (create_health i) (\<lambda>_. ret (new_bot i c' (with_token b input) n))))"
    for i c c' n
    by (rule alike_andThen [OF alike_insert [OF same(1)]], rule alike_andThen [OF commutes_alike [OF commutes_health]], rule alike_ret, rule same(1))
  have now: "alike same_bot
      (\<lambda>s. let x = new_bot i c (with_token a input) (pn_now s) in andThen (insert_bot x) (\<lambda>_. andThen (create_health i) (\<lambda>_. ret x)) s)
      (\<lambda>s. let x = new_bot i c' (with_token b input) (pn_now s) in andThen (insert_bot x) (\<lambda>_. andThen (create_health i) (\<lambda>_. ret x)) s)"
    for i c c'
    unfolding Let_def using rest [of i c _ c'] by (rule alike_now)
  have token: "bi_token (with_token x input) = x" for x by (simp add: with_token_def)
  show ?thesis
    unfolding create_bot_def token
    by (rule alike_encrypt, rule alike_andThen [OF commutes_alike [OF commutes_cuid]]) (use now in simp)
qed

lemma alike_add: "alike (=) (add_bot pp ss (with_token a input)) (add_bot pp ss (with_token b input))"
proof -
  have worker: "bi_workerGroupId (with_token x input) = bi_workerGroupId input" for x by (simp add: with_token_def)
  have finish: "alike (=) (finish_bot pp ss (with_token a input) x) (finish_bot pp ss (with_token b input) y)" if "same_bot x y" for x y
  proof -
    have "alike same_bot (if truthy (bi_workerGroupId input) = None then ret x else find_bot_or_throw (bo_id x))
        (if truthy (bi_workerGroupId input) = None then ret y else find_bot_or_throw (bo_id x))"
      using that alike_find by (auto intro: alike_ret)
    moreover have "alike (=) (ret (reply_json 201 [(''bot'', serializeBot pp v)])) (ret (reply_json 201 [(''bot'', serializeBot pp w)]))"
      if "same_bot v w" for v w
      using same_botD [OF that, of pp] by (intro alike_ret) simp
    ultimately show ?thesis
      using same_botD [OF that] unfolding finish_bot_def worker
      by (auto intro!: alike_andThen [OF commutes_alike [OF commutes_audit]] elim!: alike_andThen)
  qed
  show ?thesis
    unfolding add_bot_finish worker
  proof (rule alike_andThen [OF alike_create])
    fix x y assume same: "same_bot x y"
    then have id: "bo_id x = bo_id y" using same_botD by blast
    have place: "commutes (case truthy (bi_workerGroupId input) of None \<Rightarrow> ret () | Some w \<Rightarrow> setBotWorker (bo_id y) (Some w))"
      by (auto intro: commutes_ret commutes_setBotWorker split: option.splits)
    show "alike (=)
        (andThen (case truthy (bi_workerGroupId input) of None \<Rightarrow> ret () | Some w \<Rightarrow> setBotWorker (bo_id x) (Some w)) (\<lambda>_. finish_bot pp ss (with_token a input) x))
        (andThen (case truthy (bi_workerGroupId input) of None \<Rightarrow> ret () | Some w \<Rightarrow> setBotWorker (bo_id y) (Some w)) (\<lambda>_. finish_bot pp ss (with_token b input) y))"
      unfolding id by (rule alike_andThen [OF commutes_alike [OF place] finish [OF same]])
  qed
qed

text \<open>
  C15: Two requests that create the same bot with different tokens, in states that differ in stored tokens
  only, get the same answer, or fail alike, and leave states that differ in stored tokens only: neither the
  response nor the audit log, nor any other table, depends on a token.
\<close>

theorem token_leaves_no_trace:
  assumes "pp_safeParse pp createBotSchema (Some j) = Inr data" and "pp_safeParse pp createBotSchema (Some j') = Inr data'"
    and "bot_input_of data = with_token a input" and "bot_input_of data' = with_token b input"
    and "erase_tokens s = erase_tokens s'"
  shows "fst (postBots pp sess (Some j) s) = fst (postBots pp sess (Some j') s')
    \<and> erase_tokens (snd (postBots pp sess (Some j) s)) = erase_tokens (snd (postBots pp sess (Some j') s'))"
proof (cases "requireAdmin sess")
  case (Inl r)
  then show ?thesis using assms(5) by (simp add: postBots_def guarded_def ret_def)
next
  case (Inr ss)
  have customers: "pn_customers s = pn_customers s'" using assms(5) by (metis erase_simps(7))
  have bots: "map erase_token (pn_bots s) = map erase_token (pn_bots s')" using assms(5) by (metis erase_simps(8))
  have count: "length (filter (\<lambda>b. bo_customerId b = c) (pn_bots s)) = length (filter (\<lambda>b. bo_customerId b = c) (pn_bots s'))" for c
    using arg_cong [OF bots, of "\<lambda>bs. length (filter (\<lambda>b. bo_customerId b = c) bs)"] by (simp add: filter_map comp_def)
  have refusal: "plan_refusal (with_token a input) s = plan_refusal (with_token b input) s'"
    by (simp add: plan_refusal_def with_token_def count)
  have add: "fst (add_bot pp ss (with_token a input) s) = fst (add_bot pp ss (with_token b input) s')
      \<and> erase_tokens (snd (add_bot pp ss (with_token a input) s)) = erase_tokens (snd (add_bot pp ss (with_token b input) s'))"
    using alike_add [of pp ss a input b] assms(5) by (simp add: alike_def sum.rel_eq)
  have same: "bi_customerId (with_token x input) = bi_customerId input" for x by (simp add: with_token_def)
  show ?thesis
    using assms(5) refusal add
    by (simp add: postBots_def guarded_def Inr request_json_def andThen_def ret_def parsed_body_def assms(1-4) Let_def same customers
        split: option.split)
qed

theorem token_leaves_no_trace_witness:
  "fst (postBots api_platform (Some admin_session) (Some bot_body) api_panel)
   = fst (postBots api_platform (Some admin_session) (Some bot_body) (erase_tokens api_panel))"
proof -
  have platform: "pp_safeParse api_platform = plain_validator (\<lambda>_ _. True)"
    by (simp add: api_platform_def refusing_platform_def)
  have input: "bot_input_of bot_data = with_token ''tok'' (bot_input_of bot_data)" by (simp add: bot_body_input with_token_def)
  have "erase_tokens (erase_tokens s) = erase_tokens s" for s by (simp add: erase_tokens_def erase_token_def comp_def)
  from token_leaves_no_trace [of api_platform bot_body bot_data bot_body bot_data, unfolded platform, OF bot_body_parses bot_body_parses input input
      this [symmetric], of "Some admin_session" api_panel]
  show ?thesis by blast
qed

subsection \<open>A customer sees and restarts own bots only\<close>

lemma loadOwnedBot_iff: "loadOwnedBot i u s = Some b \<longleftrightarrow> findBy bo_id i (pn_bots s) = Some b \<and> owned_by u s b"
  by (auto simp: loadOwnedBot_def owned_by_def split: option.splits if_splits)

text \<open>
  C37: The customer routes neither show nor touch a bot of somebody else: for a bot that the signed-in user
  does not own they answer exactly as for a bot that does not exist and change nothing.
\<close>

theorem customers_are_isolated:
  assumes "\<not> (\<exists>b. findBy bo_id i (pn_bots s) = Some b \<and> owned_by (ss_userId ss) s b)" and "findBy bo_id ghost (pn_bots s) = None"
  shows "getCustomerBot pp (Some ss) i s = getCustomerBot pp (Some ss) ghost s
    \<and> getCustomerLogs pp (Some ss) i limit s = getCustomerLogs pp (Some ss) ghost limit s
    \<and> postCustomerRestart pp (Some ss) i s = postCustomerRestart pp (Some ss) ghost s
    \<and> snd (postCustomerRestart pp (Some ss) i s) = s"
proof -
  have none: "loadOwnedBot i (ss_userId ss) s = None" "loadOwnedBot ghost (ss_userId ss) s = None"
    using assms loadOwnedBot_iff by (metis not_None_eq)+
  show ?thesis
    by (simp add: getCustomerBot_def getCustomerLogs_def postCustomerRestart_def guarded_def gets_def andThen_def none)
qed

theorem customers_are_isolated_witness:
  "\<exists>b. b \<in> set (pn_bots api_panel) \<and> bo_id b = ''b1''
     \<and> getCustomerBot api_platform (Some admin_session) ''b1'' api_panel = getCustomerBot api_platform (Some admin_session) ''zz'' api_panel"
proof -
  have ghost: "findBy bo_id ''zz'' (pn_bots api_panel) = None"
    by (simp add: api_panel_def sample_panel_def sample_bot_def)
  have foreign: "\<not> (\<exists>b. findBy bo_id ''b1'' (pn_bots api_panel) = Some b \<and> owned_by (ss_userId admin_session) api_panel b)"
    by (simp add: api_panel_def sample_panel_def sample_bot_def owned_by_def admin_session_def)
  have "sample_bot ''b1'' (Some ''w1'') \<in> set (pn_bots api_panel)" "bo_id (sample_bot ''b1'' (Some ''w1'')) = ''b1''"
    by (simp_all add: api_panel_def sample_panel_def sample_bot_def)
  then show ?thesis using customers_are_isolated [OF foreign ghost] by blast
qed

text \<open>The entries a logs answer lists.\<close>

fun listed :: "response \<Rightarrow> json list" where
  "listed r = as_list (propOf ''logs'' (Some (rs_body r)))"

lemma length_prisma_take: "length (prisma_take n rows) = min (nat \<bar>n\<bar>) (length rows)"
  by (auto simp: prisma_take_def min_def)

text \<open>
  The owner of a bot gets at most a hundred of its log entries for a limit that is not negative; a
  negative limit passes the cap and takes that many entries from the other end, however many they are.
  A limit that is no integer below the cap fails in the database client.
\<close>

theorem log_limit_is_one_sided:
  assumes "loadOwnedBot i (ss_userId ss) s = Some b"
  shows "(\<exists>r. getCustomerLogs pp (Some ss) i (map_option (\<lambda>n. Number (of_int n)) limit) s = (Inr r, s) \<and> rs_status r = 200
    \<and> (let n = (case limit of None \<Rightarrow> 50 | Some n \<Rightarrow> n);
           total = length (filter (\<lambda>l. au_targetType l = ''bot'' \<and> au_targetId l = bo_id b) (pn_audit s)) in
       length (listed r) = (if n < 0 then min (nat (- n)) total else min (min (nat n) 100) total)))
    \<and> getCustomerLogs pp (Some ss) i (Some NotANumber) s = (Inl InvalidArgument, s)
    \<and> (\<forall>x :: rat. x \<notin> \<int> \<longrightarrow> x < 100 \<longrightarrow> getCustomerLogs pp (Some ss) i (Some (Number x)) s = (Inl InvalidArgument, s))"
proof -
  let ?n = "case limit of None \<Rightarrow> 50 | Some n \<Rightarrow> n"
  have "min (of_int n) (100 :: rat) = of_int (min n 100)" for n :: int by (simp add: min_def)
  then have capped: "capped_limit 100 (map_option (\<lambda>n. Number (of_int n)) limit) = Some (min ?n 100)"
    by (cases limit) (simp_all add: capped_limit_def Let_def del: of_int_min)
  have "capped_limit 100 (Some (Number x)) = None" if "x \<notin> \<int>" "x < 100" for x :: rat
    using that by (simp add: capped_limit_def Let_def min_def) (metis Ints_of_int)
  moreover have "nat \<bar>min ?n 100\<bar> = (if ?n < 0 then nat (- ?n) else min (nat ?n) 100)" by (auto simp: min_def)
  ultimately show ?thesis
    using assms capped by (auto simp: getCustomerLogs_def guarded_def gets_def andThen_def ret_def raise_def take_rows_def reply_json_def
        length_prisma_take newest_first_def Let_def capped_limit_def [of _ "Some NotANumber"])
qed

theorem log_limit_is_one_sided_witness:
  "\<exists>r. getCustomerLogs api_platform (Some \<lparr>ss_userId = ''u2'', ss_role = RoleMember, ss_discordUserId = None\<rparr>) ''b1'' (Some (Number (- 300)))
        (api_panel\<lparr>pn_audit := replicate 250 (audit_entry None ''bot.start'' ''bot'' ''b1'' None api_panel)\<rparr>) = (Inr r,
        api_panel\<lparr>pn_audit := replicate 250 (audit_entry None ''bot.start'' ''bot'' ''b1'' None api_panel)\<rparr>) \<and> length (listed r) = 250"
proof -
  let ?ss = "\<lparr>ss_userId = ''u2'', ss_role = RoleMember, ss_discordUserId = None\<rparr>"
  let ?s = "api_panel\<lparr>pn_audit := replicate 250 (audit_entry None ''bot.start'' ''bot'' ''b1'' None api_panel)\<rparr>"
  have own: "loadOwnedBot ''b1'' (ss_userId ?ss) ?s = Some (sample_bot ''b1'' (Some ''w1''))"
    by (simp add: loadOwnedBot_def api_panel_def sample_panel_def sample_bot_def)
  have "filter (\<lambda>l. au_targetType l = ''bot'' \<and> au_targetId l = bo_id (sample_bot ''b1'' (Some ''w1''))) (pn_audit ?s) = pn_audit ?s"
    by (simp add: audit_entry_def sample_bot_def)
  then show ?thesis using log_limit_is_one_sided [OF own, of api_platform "Some (- 300)"] by (auto simp: Let_def)
qed

text \<open>
  Changing only the plan of a bot succeeds whatever the limits the bot already has: the guild limit and
  the shard count are not compared with the new plan, so a bot can end outside its plan.
\<close>

theorem plan_change_keeps_limits:
  assumes "findBy bo_id i (pn_bots s) = Some b" and "requireAdmin sess = Inr ss"
    and "pp_safeParse pp patchBotSchema (Some j) = Inr data"
    and "bot_patch_of data = \<lparr>bp_name = None, bp_plan = Some p, bp_guildLimit = None, bp_shardCount = None, bp_workerGroupId = None, bp_status = None\<rparr>"
  shows "\<exists>r t. patchBot pp sess i (Some j) s = (Inr r, t) \<and> rs_status r = 200
    \<and> findBy bo_id i (pn_bots t) = Some (b\<lparr>bo_plan := p\<rparr>)"
proof -
  let ?s = "s\<lparr>pn_bots := updateWhere (\<lambda>r. bo_id r = i) (patch_row (bot_patch_of data)) (pn_bots s)\<rparr>"
  have row: "patch_row (bot_patch_of data) r = r\<lparr>bo_plan := p\<rparr>" for r by (simp add: patch_row_def assms(4))
  have find: "findBy bo_id i (pn_bots ?s) = Some (b\<lparr>bo_plan := p\<rparr>)"
    using assms(1) by (simp add: findBy_updateWhere row) (auto dest: findBy_key)
  have "patch_refusal b (bot_patch_of data) = None"
    by (simp add: patch_refusal_def assms(4) first_some_def)
  then have "patchBot pp sess i (Some j) s = (Inr (reply_json 200 [(''bot'', serializeBot pp (b\<lparr>bo_plan := p\<rparr>))]),
      ?s\<lparr>pn_audit := pn_audit ?s @ [audit_entry (Some (ss_userId ss)) ''bot.update'' ''bot'' i data ?s]\<rparr>)"
    using assms find
    by (simp add: patchBot_def guarded_def request_json_def parsed_body_def andThen_def ret_def update_bot_def find_bot_or_throw_def
        panel_audit_run Let_def)
  with find show ?thesis by (simp add: reply_json_def)
qed

theorem plan_change_keeps_limits_witness:
  "\<exists>b t. snd (patchBot api_platform (Some admin_session) ''b1'' (Some (JObj [(''plan'', JStr ''free'')]))
        (api_panel\<lparr>pn_bots := [(sample_bot ''b1'' None)\<lparr>bo_plan := PlanPro, bo_guildLimit := 2500\<rparr>]\<rparr>)) = t
     \<and> findBy bo_id ''b1'' (pn_bots t) = Some b \<and> \<not> within_plan b"
proof -
  let ?b = "(sample_bot ''b1'' None)\<lparr>bo_plan := PlanPro, bo_guildLimit := 2500\<rparr>"
  let ?s = "api_panel\<lparr>pn_bots := [?b]\<rparr>" and ?j = "JObj [(''plan'', JStr ''free'')]"
  have find: "findBy bo_id ''b1'' (pn_bots ?s) = Some ?b" by (simp add: sample_bot_def)
  have admin: "requireAdmin (Some admin_session) = Inr admin_session" by (simp add: admin_session_def)
  have parse: "pp_safeParse api_platform patchBotSchema (Some ?j) = Inr (Some ?j)"
    by (simp add: api_platform_def refusing_platform_def plain_validator_def patchBotSchema_def planSchema_def PLAN_TIERS_def)
  have "bot_patch_of (Some ?j) = \<lparr>bp_name = None, bp_plan = Some PlanFree, bp_guildLimit = None, bp_shardCount = None, bp_workerGroupId = None, bp_status = None\<rparr>"
    by (simp add: bot_patch_of_def enum_of_def PLAN_TIERS_def)
  from plan_change_keeps_limits [OF find admin parse this]
  have "findBy bo_id ''b1'' (pn_bots (snd (patchBot api_platform (Some admin_session) ''b1'' (Some ?j) ?s))) = Some (?b\<lparr>bo_plan := PlanFree\<rparr>)"
    by auto
  moreover have "\<not> within_plan (?b\<lparr>bo_plan := PlanFree\<rparr>)" by (simp add: within_plan_def)
  ultimately show ?thesis by blast
qed

end
