(* ===== verification/Security.thy ===== *)
theory Security
  imports Plugins Bot_Api
begin

text \<open>
  The security report (\<open>lib/security-checks.ts\<close>): the built-in checks in their order, the checks of the
  plugins, and the score. The environment variables come from the platform. \<open>admins\<close> is what counting
  the administrators answers, \<open>None\<close> when the database cannot be reached.
\<close>

subsection \<open>The checks\<close>

definition check :: "string \<Rightarrow> string \<Rightarrow> check_status \<Rightarrow> string \<Rightarrow> check_result" where
  "check i label status detail = \<lparr>ck_id = i, ck_label = label, ck_status = status, ck_detail = detail\<rparr>"

text \<open>\<open>Boolean(process.env.X)\<close>.\<close>

definition env_set :: "panel_platform \<Rightarrow> string \<Rightarrow> bool" where
  "env_set pp name \<longleftrightarrow> truthy (pp_env pp name) \<noteq> None"

definition encryption_check :: "panel_platform \<Rightarrow> check_result" where
  "encryption_check pp =
     (if isEncryptionKeyConfigured (pp_crypto pp) (pp_encryptionKey pp)
      then check ''encryption-key'' ''Encryption key configured'' CheckPass
        ''BOTFLEET_ENCRYPTION_KEY is set and decodes to a 32-byte key.''
      else check ''encryption-key'' ''Encryption key configured'' CheckFail
        ''BOTFLEET_ENCRYPTION_KEY is missing or invalid. Bot tokens cannot be encrypted.'')"

definition count_admins :: "panel \<Rightarrow> nat" where
  "count_admins s = length (filter (\<lambda>u. us_role u = RoleOwner \<or> us_role u = RoleAdmin) (pn_users s))"

definition admin_check :: "nat option \<Rightarrow> check_result" where
  "admin_check admins = (let adminCount = (case admins of None \<Rightarrow> 0 | Some n \<Rightarrow> n) in
     if 0 < adminCount
     then check ''admin-configured'' ''Admin user configured'' CheckPass (show_nat adminCount @ '' admin/owner user(s) found.'')
     else check ''admin-configured'' ''Admin user configured'' CheckFail
       ''No user has the admin or owner role yet. Sign in with the Discord account listed in BOTFLEET_ADMIN_DISCORD_IDS.'')"

definition oauth_check :: "panel_platform \<Rightarrow> check_result" where
  "oauth_check pp =
     (if env_set pp ''AUTH_DISCORD_ID'' \<and> env_set pp ''AUTH_DISCORD_SECRET''
      then check ''oauth-configured'' ''Discord OAuth app configured'' CheckPass ''AUTH_DISCORD_ID / AUTH_DISCORD_SECRET are set.''
      else check ''oauth-configured'' ''Discord OAuth app configured'' CheckFail
        ''AUTH_DISCORD_ID / AUTH_DISCORD_SECRET are not set - admin login will fail.'')"

definition auth_secret_check :: "panel_platform \<Rightarrow> check_result" where
  "auth_secret_check pp =
     (if env_set pp ''AUTH_SECRET''
      then check ''auth-secret'' ''Session secret configured'' CheckPass ''AUTH_SECRET is set.''
      else check ''auth-secret'' ''Session secret configured'' CheckFail
        ''AUTH_SECRET is not set - generate one with: openssl rand -base64 32'')"

definition no_eval_check :: "panel_platform \<Rightarrow> check_result" where
  "no_eval_check pp = (let production = (pp_env pp ''NODE_ENV'' = Some ''production'') in
     check ''no-unsafe-eval'' ''No unsafe-eval in production'' (if production then CheckPass else CheckWarn)
       (if production then ''Running in production mode; Next.js production builds do not use eval.''
        else ''Running in development mode - re-check this in production, where Next.js disables eval-based source maps.''))"

definition backups_check :: "panel_platform \<Rightarrow> check_result" where
  "backups_check pp =
     (if env_set pp ''BOTFLEET_BACKUP_STORAGE_URL''
      then check ''backups-configured'' ''Database backups configured'' CheckPass ''BOTFLEET_BACKUP_STORAGE_URL is set.''
      else check ''backups-configured'' ''Database backups configured'' CheckWarn
        ''BOTFLEET_BACKUP_STORAGE_URL is not set. Configure automated backups for your Postgres instance before going to production.'')"

definition backup_encryption_check :: "panel_platform \<Rightarrow> check_result" where
  "backup_encryption_check pp =
     (if env_set pp ''BOTFLEET_BACKUP_ENCRYPTION_KEY''
      then check ''backup-encryption'' ''Backup encryption configured'' CheckPass ''BOTFLEET_BACKUP_ENCRYPTION_KEY is set.''
      else check ''backup-encryption'' ''Backup encryption configured'' CheckWarn
        ''BOTFLEET_BACKUP_ENCRYPTION_KEY is not set. If your backup provider doesn't encrypt at rest, set this.'')"

text \<open>The four checks that hold by how the code is written.\<close>

definition tokens_check :: check_result where
  "tokens_check = check ''tokens-encrypted'' ''Tokens encrypted at rest'' CheckPass
     ''Bot tokens are only ever written via encryptSecret() (AES-256-GCM); the schema has no plaintext token column.''"

definition csp_check :: check_result where
  "csp_check = check ''csp-enabled'' ''Content-Security-Policy enabled'' CheckPass
     ''A restrictive CSP header (no unsafe-eval) is set in next.config.ts for every response.''"

definition json_errors_check :: check_result where
  "json_errors_check = check ''api-json-errors'' ''API routes return JSON 401/403 (never redirect)'' CheckPass
     ''requireAdmin()/requireCustomer() helpers always return NextResponse.json(..., { status }) and never redirect fetch requests to a login page.''"

definition redacted_check :: check_result where
  "redacted_check = check ''secrets-redacted'' ''Logs and API responses redact secrets'' CheckPass
     ''Bot tokens and webhook URLs are never included in API responses or log output; only maskSecret() output is ever surfaced.''"

definition builtin_checks :: "panel_platform \<Rightarrow> nat option \<Rightarrow> check_result list" where
  "builtin_checks pp admins =
     [encryption_check pp, tokens_check, admin_check admins, oauth_check pp, auth_secret_check pp, csp_check, no_eval_check pp,
      json_errors_check, redacted_check, backups_check pp, backup_encryption_check pp]"

subsection \<open>The report\<close>

record security_report =
  sr_score :: int
  sr_checks :: "check_result list"
  sr_actionRequired :: "check_result list"
  sr_warnings :: "check_result list"

definition with_status :: "check_status \<Rightarrow> check_result list \<Rightarrow> check_result list" where
  "with_status status checks = filter (\<lambda>c. ck_status c = status) checks"

text \<open>\<open>Math.round((passCount / checks.length) * 100)\<close> in double precision.\<close>

definition score_of :: "nat \<Rightarrow> nat \<Rightarrow> int" where
  "score_of passCount n = math_round (dbl (dbl (of_nat passCount / of_nat n) * 100))"

definition report_of :: "check_result list \<Rightarrow> security_report" where
  "report_of checks = \<lparr>sr_score = score_of (length (with_status CheckPass checks)) (length checks), sr_checks = checks,
     sr_actionRequired = with_status CheckFail checks, sr_warnings = with_status CheckWarn checks\<rparr>"

definition runSecurityChecks :: "panel_platform \<Rightarrow> plugin list \<Rightarrow> nat option \<Rightarrow> security_report" where
  "runSecurityChecks pp plugins admins =
     report_of (builtin_checks pp admins @ map (\<lambda>c. hc_run c pp) (getAllHealthChecks plugins))"

subsection \<open>What the score and the report mean\<close>

lemma status_cases: "with_status CheckFail xs = [] \<and> with_status CheckWarn xs = [] \<longleftrightarrow> length (with_status CheckPass xs) = length xs"
proof (induction xs)
  case (Cons x xs)
  have "length (filter (\<lambda>c. ck_status c = CheckPass) xs) \<noteq> Suc (length xs)"
    using length_filter_le [of "\<lambda>c. ck_status c = CheckPass" xs] by linarith
  then show ?case using Cons by (cases "ck_status x") (auto simp: with_status_def)
qed (simp add: with_status_def)

lemma status_partition:
  "mset xs = mset (with_status CheckPass xs) + mset (with_status CheckFail xs) + mset (with_status CheckWarn xs)"
proof (induction xs)
  case (Cons x xs)
  then show ?case by (cases "ck_status x") (simp_all add: with_status_def)
qed (simp add: with_status_def)

lemma score_range_of:
  assumes "p \<le> n" "0 < n"
  shows "0 \<le> score_of p n \<and> score_of p n \<le> 100"
proof -
  have "0 \<le> (of_nat p / of_nat n :: rat)" "(of_nat p / of_nat n :: rat) \<le> 1" using assms by simp_all
  then have "dbl 0 \<le> dbl (of_nat p / of_nat n)" "dbl (of_nat p / of_nat n) \<le> dbl 1" by (blast intro: dbl_mono)+
  then have "dbl (0 * 100) \<le> dbl (dbl (of_nat p / of_nat n) * 100)" "dbl (dbl (of_nat p / of_nat n) * 100) \<le> dbl (1 * 100)"
    by (intro dbl_mono mult_right_mono; simp)+
  then have "math_round 0 \<le> score_of p n" "score_of p n \<le> math_round 100"
    unfolding score_of_def by (intro math_round_mono; simp)+
  then show ?thesis using math_round_int [of 0] math_round_int [of 100] by simp
qed

text \<open>With fewer than two hundred checks the rounding never hides one that does not pass.\<close>

lemma score_full_iff:
  assumes "p \<le> n" "0 < n" "n < 200"
  shows "score_of p n = 100 \<longleftrightarrow> p = n"
proof
  assume "p = n"
  then show "score_of p n = 100" using assms(2) math_round_int [of 100] by (simp add: score_of_def)
next
  assume full: "score_of p n = 100"
  show "p = n"
  proof (rule ccontr)
    assume "p \<noteq> n"
    then have p: "p + 1 \<le> n" using assms(1) by simp
    have "199 * p + 199 \<le> 199 * n" using p by simp
    then have "199 * p \<le> 198 * n" using p assms(3) by linarith
    then have "(of_nat (199 * p) :: rat) \<le> of_nat (198 * n)" by (simp only: of_nat_le_iff)
    then have "(of_nat p / of_nat n :: rat) \<le> 198 / 199" using assms(2) by (simp add: field_simps)
    also have "\<dots> \<le> of_int 8151 * 2 powi - 13" by (simp add: powi_neg [of 13, simplified])
    finally have "dbl (of_nat p / of_nat n) \<le> dbl (of_int 8151 * 2 powi - 13)" by (rule dbl_mono)
    also have "\<dots> = of_int 8151 * 2 powi - 13" by (rule dbl_exact) simp
    finally have "dbl (of_nat p / of_nat n) * 100 \<le> of_int 815100 * 2 powi - 13"
      by (simp add: powi_neg [of 13, simplified])
    then have "dbl (dbl (of_nat p / of_nat n) * 100) \<le> dbl (of_int 815100 * 2 powi - 13)" by (rule dbl_mono)
    also have "\<dots> = of_int 815100 * 2 powi - 13" by (rule dbl_exact) simp
    also have "\<dots> < 199 / 2" by (simp add: powi_neg [of 13, simplified])
    finally have "score_of p n < 100" unfolding score_of_def math_round_def by linarith
    then show False using full by simp
  qed
qed

text \<open>
  The score lies between 0 and 100 and, for fewer than two hundred checks, is 100 exactly when no action is
  required and there is no warning; every check appears once among the passed ones, the required actions
  and the warnings. With the built-in plugins there are twelve checks, four of which hold by
  construction, so that the score never falls below 33.
\<close>

theorem security_score_is_honest:
  assumes "length (getAllHealthChecks plugins) < 189"
  shows "(let r = runSecurityChecks pp plugins admins in
      0 \<le> sr_score r \<and> sr_score r \<le> 100
    \<and> (sr_score r = 100 \<longleftrightarrow> sr_actionRequired r = [] \<and> sr_warnings r = [])
    \<and> mset (sr_checks r) = mset (with_status CheckPass (sr_checks r)) + mset (sr_actionRequired r) + mset (sr_warnings r))
    \<and> 33 \<le> sr_score (runSecurityChecks pp builtinPlugins admins)"
proof -
  let ?checks = "\<lambda>ps. builtin_checks pp admins @ map (\<lambda>c. hc_run c pp) (getAllHealthChecks ps)"
  let ?pass = "\<lambda>xs. length (with_status CheckPass xs)"
  have n: "length (?checks plugins) < 200" "0 < length (?checks plugins)" using assms by (simp_all add: builtin_checks_def)
  have le: "?pass xs \<le> length xs" for xs by (simp add: with_status_def)
  have report: "runSecurityChecks pp ps admins = report_of (?checks ps)" for ps by (simp add: runSecurityChecks_def)
  have twelve: "length (?checks builtinPlugins) = 12"
    by (simp add: builtin_checks_def getAllHealthChecks_def builtinPlugins_def or_none_def redisStatusPlugin_def pm2RunnerPlugin_def
        dockerRunnerPlugin_def botTemplatesPlugin_def alertRulesPlugin_def nodeVersionCheckPlugin_def)
  have "?pass [tokens_check, csp_check, json_errors_check, redacted_check] = 4"
    by (simp add: with_status_def tokens_check_def csp_check_def json_errors_check_def redacted_check_def check_def)
  then have four: "4 \<le> ?pass (?checks builtinPlugins)" by (auto simp: builtin_checks_def with_status_def split: if_splits)
  have "score_of 4 12 \<le> score_of (?pass (?checks builtinPlugins)) 12"
    unfolding score_of_def using four by (intro math_round_mono dbl_mono mult_right_mono divide_right_mono) simp_all
  moreover have "score_of 4 12 = 33" by code_simp
  ultimately have "33 \<le> sr_score (report_of (?checks builtinPlugins))" by (simp only: report_of_def twelve security_report.simps)
  moreover have "let r = report_of (?checks plugins) in 0 \<le> sr_score r \<and> sr_score r \<le> 100
    \<and> (sr_score r = 100 \<longleftrightarrow> sr_actionRequired r = [] \<and> sr_warnings r = [])
    \<and> mset (sr_checks r) = mset (with_status CheckPass (sr_checks r)) + mset (sr_actionRequired r) + mset (sr_warnings r)"
    using score_range_of [OF le n(2)] score_full_iff [OF le n(2,1)] status_cases [of "?checks plugins"] status_partition [of "?checks plugins"]
    by (simp only: report_of_def security_report.simps Let_def)
  ultimately show ?thesis unfolding report by simp
qed

theorem security_score_is_honest_witness:
  "sr_score (runSecurityChecks refusing_platform builtinPlugins (Some 1)) \<le> 100
   \<and> 33 \<le> sr_score (runSecurityChecks refusing_platform builtinPlugins (Some 1))"
proof -
  have "length (getAllHealthChecks builtinPlugins) < 189" by code_simp
  from security_score_is_honest [OF this, of refusing_platform "Some 1"] show ?thesis by (simp add: Let_def)
qed

text \<open>
  A report that requires no action means what it says: every token can be encrypted, some user can pass
  the administrators' guard, and the sign-in and session secrets are set.
\<close>

theorem clean_report_is_sound:
  assumes "sr_actionRequired (runSecurityChecks pp plugins (Some (count_admins s))) = []"
  shows "(\<forall>n plaintext. \<exists>c. encryptSecret (pp_crypto pp) (pp_encryptionKey pp) n plaintext = Inr c)
    \<and> (\<exists>u \<in> set (pn_users s). requireAdmin (Some (session_of u)) = Inr (session_of u))
    \<and> env_set pp ''AUTH_DISCORD_ID'' \<and> env_set pp ''AUTH_DISCORD_SECRET'' \<and> env_set pp ''AUTH_SECRET''"
proof -
  have "\<forall>c \<in> set (builtin_checks pp (Some (count_admins s))). ck_status c \<noteq> CheckFail"
    using assms by (auto simp: runSecurityChecks_def report_of_def with_status_def filter_empty_conv)
  then have passes: "ck_status (encryption_check pp) \<noteq> CheckFail" "ck_status (admin_check (Some (count_admins s))) \<noteq> CheckFail"
    "ck_status (oauth_check pp) \<noteq> CheckFail" "ck_status (auth_secret_check pp) \<noteq> CheckFail"
    by (simp_all add: builtin_checks_def)
  have key: "isEncryptionKeyConfigured (pp_crypto pp) (pp_encryptionKey pp)"
    using passes(1) by (auto simp: encryption_check_def check_def split: if_splits)
  have "0 < count_admins s" using passes(2) by (auto simp: admin_check_def check_def Let_def split: if_splits)
  then obtain u where u: "u \<in> set (pn_users s)" "us_role u = RoleOwner \<or> us_role u = RoleAdmin"
    by (auto simp: count_admins_def filter_empty_conv)
  have "requireAdmin (Some (session_of u)) = Inr (session_of u)" using u(2) by (auto simp: session_of_def)
  moreover have "env_set pp ''AUTH_DISCORD_ID'' \<and> env_set pp ''AUTH_DISCORD_SECRET''" "env_set pp ''AUTH_SECRET''"
    using passes(3,4) by (auto simp: oauth_check_def auth_secret_check_def check_def split: if_splits)
  moreover have "\<exists>c. encryptSecret (pp_crypto pp) (pp_encryptionKey pp) n plaintext = Inr c" for n plaintext
    using key by (auto simp: isEncryptionKeyConfigured_def encryptSecret_def getMasterKey_def Let_def split: option.splits prod.splits)
  ultimately show ?thesis using u(1) by blast
qed

definition secure_platform :: panel_platform where
  "secure_platform = api_platform\<lparr>pp_env := [''BOTFLEET_ENCRYPTION_KEY'' \<mapsto> replicate 64 CHR ''A'',
     ''AUTH_DISCORD_ID'' \<mapsto> ''1'', ''AUTH_DISCORD_SECRET'' \<mapsto> ''s'', ''AUTH_SECRET'' \<mapsto> ''t'']\<rparr>"

definition owned_panel :: panel where
  "owned_panel = auth_panel\<lparr>pn_users := updateWhere (\<lambda>_. True) (linked ''42'' True) (pn_users auth_panel)\<rparr>"

theorem clean_report_is_sound_witness:
  "\<exists>c. encryptSecret (pp_crypto secure_platform) (pp_encryptionKey secure_platform) 0 ''token'' = Inr c"
proof -
  have "sr_actionRequired (runSecurityChecks secure_platform [] (Some (count_admins owned_panel))) = []" by code_simp
  from clean_report_is_sound [OF this] show ?thesis by blast
qed

end
