(* ===== verification/Admin_Api.thy ===== *)
theory Admin_Api
  imports Security
begin

text \<open>
  The administrator's other routes under \<open>app/api/admin\<close>: users, customers, workers, the maintenance
  switch, the fleet overview, alerts, logs, plugins and the security report. A row of a table is answered
  without the columns the model leaves out.
\<close>

subsection \<open>Users\<close>

definition ROLES :: "role list" where
  "ROLES = [RoleOwner, RoleAdmin, RoleMember]"

fun role_name :: "role \<Rightarrow> string" where
  "role_name RoleOwner = ''owner''"
| "role_name RoleAdmin = ''admin''"
| "role_name RoleMember = ''member''"

definition oldest_first :: "('a \<Rightarrow> int) \<Rightarrow> 'a list \<Rightarrow> 'a list" where
  "oldest_first = sort_key"

definition user_json :: "panel_platform \<Rightarrow> user_row \<Rightarrow> json" where
  "user_json pp u = JObj [(''id'', JStr (us_id u)), (''name'', nullable JStr (us_name u)), (''email'', nullable JStr (us_email u)),
     (''discordUserId'', nullable JStr (us_discordUserId u)), (''role'', JStr (role_name (us_role u))),
     (''createdAt'', date_json pp (us_createdAt u))]"

definition getUsers :: "panel_platform \<Rightarrow> session option \<Rightarrow> response pact" where
  "getUsers pp sess = guarded (requireAdmin sess) (\<lambda>_.
     gets (\<lambda>s. reply_json 200 [(''users'', JArr (map (user_json pp) (oldest_first us_createdAt (pn_users s))))]))"

definition patchUserSchema :: schema where
  "patchUserSchema = SObj [Field ''role'' (SEnum (map role_name ROLES))] None"

definition count_owners :: "panel \<Rightarrow> nat" where
  "count_owners s = length (filter (\<lambda>u. us_role u = RoleOwner) (pn_users s))"

definition update_user :: "string \<Rightarrow> (user_row \<Rightarrow> user_row) \<Rightarrow> unit pact" where
  "update_user i g = (\<lambda>s. if findBy us_id i (pn_users s) = None then (Inl RowNotFound, s)
     else (Inr (), s\<lparr>pn_users := updateWhere (\<lambda>r. us_id r = i) g (pn_users s)\<rparr>))"

definition patchUser :: "panel_platform \<Rightarrow> session option \<Rightarrow> string \<Rightarrow> json option \<Rightarrow> response pact" where
  "patchUser pp sess i body = guarded (requireOwner sess) (\<lambda>ss s. case findBy us_id i (pn_users s) of
     None \<Rightarrow> (Inr (error_json 404 ''User not found''), s)
   | Some target \<Rightarrow> andThen (request_json body) (\<lambda>j.
       parsed_body (pp_safeParse pp) (pp_flatten pp) patchUserSchema j (\<lambda>data s.
         let newRole = enum_of role_name ROLES (as_string (propOf ''role'' data)) in
         if us_role target = RoleOwner \<and> newRole \<noteq> RoleOwner \<and> count_owners s \<le> 1
         then (Inr (error_json 422 ''Cannot demote the last remaining owner''), s)
         else andThen (update_user i (\<lambda>u. u\<lparr>us_role := newRole\<rparr>)) (\<lambda>_.
           andThen (panel_audit (Some (ss_userId ss)) ''user.role_change'' ''user'' i
               (Some (JObj [(''newRole'', JStr (role_name newRole))]))) (\<lambda>_.
             ret (reply_json 200 [(''user'', JObj [(''id'', JStr i), (''role'', JStr (role_name newRole))])]))) s)) s)"

subsection \<open>A bot in detail\<close>

fun shard_status_name :: "shard_status \<Rightarrow> string" where
  "shard_status_name ShConnected = ''connected''"
| "shard_status_name ShConnecting = ''connecting''"
| "shard_status_name ShDisconnected = ''disconnected''"
| "shard_status_name ShReconnecting = ''reconnecting''"

definition health_json :: "health_row \<Rightarrow> json" where
  "health_json h = JObj [(''botId'', JStr (bh_botId h)), (''status'', JStr (bot_status_name (bh_status h))),
     (''guildCount'', JNum (of_int (bh_guildCount h))), (''restartCount'', JNum (of_int (bh_restartCount h))),
     (''lastErrorSafe'', nullable JStr (bh_lastErrorSafe h))]"

definition shard_json :: "shard_row \<Rightarrow> json" where
  "shard_json r = JObj [(''botId'', JStr (sh_botId r)), (''shardId'', JNum (of_int (sh_shardId r))),
     (''status'', JStr (shard_status_name (sh_status r)))]"

definition getBot :: "panel_platform \<Rightarrow> session option \<Rightarrow> string \<Rightarrow> response pact" where
  "getBot pp sess i = guarded (requireAdmin sess) (\<lambda>_. gets (\<lambda>s. case findBy bo_id i (pn_bots s) of
     None \<Rightarrow> error_json 404 ''Bot not found''
   | Some b \<Rightarrow> reply_json 200
       [(''bot'', serializeBot pp b), (''health'', nullable health_json (findBy bh_botId i (pn_health s))),
        (''shards'', JArr (map shard_json (filter (\<lambda>r. sh_botId r = i) (pn_shards s)))),
        (''worker'', nullable (\<lambda>w. JObj [(''id'', JStr (wk_id w)), (''name'', JStr (wk_name w))]) (worker_of b s))]))"

subsection \<open>Customers\<close>

definition customer_json :: "panel_platform \<Rightarrow> customer_row \<Rightarrow> (string \<times> json) list" where
  "customer_json pp c = [(''id'', JStr (cu_id c)), (''ownerUserId'', JStr (cu_ownerUserId c)), (''name'', JStr (cu_name c)),
     (''plan'', JStr (plan_name (cu_plan c))), (''createdAt'', date_json pp (cu_createdAt c))]"

definition bot_count_json :: "int \<Rightarrow> string \<times> json" where
  "bot_count_json n = (''_count'', JObj [(''bots'', JNum (of_int n))])"

definition customer_bots :: "string \<Rightarrow> panel \<Rightarrow> int" where
  "customer_bots i s = int (length (filter (\<lambda>b. bo_customerId b = i) (pn_bots s)))"

definition getCustomers :: "panel_platform \<Rightarrow> session option \<Rightarrow> response pact" where
  "getCustomers pp sess = guarded (requireAdmin sess) (\<lambda>_. gets (\<lambda>s.
     reply_json 200 [(''customers'', JArr (map (\<lambda>c. JObj (customer_json pp c @ [bot_count_json (customer_bots (cu_id c) s)]))
       (newest_first cu_createdAt (pn_customers s))))]))"

definition createCustomerSchema :: schema where
  "createCustomerSchema = SObj
     [Field ''name'' (SStr [AtLeast 1, AtMost 100] AnyText), Field ''plan'' (SDefault planSchema (JStr ''free''))] None"

text \<open>The owner is the signed-in user, who must still exist: the column is a foreign key.\<close>

definition insert_customer :: "customer_row \<Rightarrow> unit pact" where
  "insert_customer c = (\<lambda>s. if findBy us_id (cu_ownerUserId c) (pn_users s) = None then (Inl ForeignKey, s)
     else if cu_id c \<in> cu_id ` set (pn_customers s) then (Inl UniqueViolation, s)
     else (Inr (), s\<lparr>pn_customers := pn_customers s @ [c]\<rparr>))"

definition postCustomers :: "panel_platform \<Rightarrow> session option \<Rightarrow> json option \<Rightarrow> response pact" where
  "postCustomers pp sess body = guarded (requireAdmin sess) (\<lambda>ss.
     andThen (request_json body) (\<lambda>j.
       parsed_body (pp_safeParse pp) (pp_flatten pp) createCustomerSchema j (\<lambda>data.
         andThen (panel_cuid pp) (\<lambda>i s.
           let c = \<lparr>cu_id = i, cu_ownerUserId = ss_userId ss, cu_name = str_of ''name'' data,
                 cu_plan = enum_of plan_name PLAN_TIERS (as_string (propOf ''plan'' data)), cu_createdAt = pn_now s\<rparr> in
           andThen (insert_customer c) (\<lambda>_.
             andThen (panel_audit (Some (ss_userId ss)) ''customer.create'' ''customer'' i
                 (Some (JObj [(''name'', JStr (cu_name c)), (''plan'', JStr (plan_name (cu_plan c)))]))) (\<lambda>_.
               ret (reply_json 201 [(''customer'', JObj (customer_json pp c))]))) s))))"

subsection \<open>Workers\<close>

fun worker_mode_name :: "worker_mode \<Rightarrow> string" where
  "worker_mode_name ModePm2 = ''pm2''"
| "worker_mode_name ModeDocker = ''docker''"

definition worker_json :: "panel_platform \<Rightarrow> worker_row \<Rightarrow> (string \<times> json) list" where
  "worker_json pp w = [(''id'', JStr (wk_id w)), (''name'', JStr (wk_name w)), (''mode'', JStr (worker_mode_name (wk_mode w))),
     (''status'', JStr (worker_status_name (wk_status w))), (''host'', nullable JStr (wk_host w)),
     (''maxBots'', JNum (of_int (wk_maxBots w))), (''currentBots'', JNum (of_int (wk_currentBots w))),
     (''memoryMb'', nullable (\<lambda>n. JNum (of_int n)) (wk_memoryMb w)), (''createdAt'', date_json pp (wk_createdAt w))]"

definition getWorkers :: "panel_platform \<Rightarrow> session option \<Rightarrow> response pact" where
  "getWorkers pp sess = guarded (requireAdmin sess) (\<lambda>_. gets (\<lambda>s.
     reply_json 200 [(''workers'', JArr (map (\<lambda>w. JObj (worker_json pp w @ [bot_count_json (group_size (wk_id w) (pn_bots s))]))
       (newest_first wk_createdAt (pn_workers s))))]))"

definition createWorkerSchema :: schema where
  "createWorkerSchema = SObj
     [Field ''name'' (SStr [AtLeast 1, AtMost 100] AnyText),
      Field ''mode'' (SDefault (SEnum (map worker_mode_name [ModePm2, ModeDocker])) (JStr ''pm2'')),
      Field ''host'' (SOpt (SStr [] AnyText)),
      Field ''maxBots'' (SDefault (SNum [IsInt, Positive, MaxNum 50]) (JNum 5))] None"

definition new_worker :: "string \<Rightarrow> json option \<Rightarrow> int \<Rightarrow> worker_row" where
  "new_worker i data now = \<lparr>wk_id = i, wk_name = str_of ''name'' data,
     wk_mode = enum_of worker_mode_name [ModePm2, ModeDocker] (as_string (propOf ''mode'' data)), wk_status = WkOffline,
     wk_host = as_string (propOf ''host'' data), wk_maxBots = int_of ''maxBots'' data, wk_currentBots = 0, wk_memoryMb = None,
     wk_createdAt = now\<rparr>"

definition insert_worker :: "worker_row \<Rightarrow> unit pact" where
  "insert_worker w = (\<lambda>s. if wk_id w \<in> wk_id ` set (pn_workers s) then (Inl UniqueViolation, s)
     else (Inr (), s\<lparr>pn_workers := pn_workers s @ [w]\<rparr>))"

definition postWorkers :: "panel_platform \<Rightarrow> session option \<Rightarrow> json option \<Rightarrow> response pact" where
  "postWorkers pp sess body = guarded (requireAdmin sess) (\<lambda>ss.
     andThen (request_json body) (\<lambda>j.
       parsed_body (pp_safeParse pp) (pp_flatten pp) createWorkerSchema j (\<lambda>data.
         andThen (panel_cuid pp) (\<lambda>i s.
           let w = new_worker i data (pn_now s) in
           andThen (insert_worker w) (\<lambda>_.
             andThen (panel_audit (Some (ss_userId ss)) ''worker.create'' ''worker'' i
                 (Some (JObj [(''name'', JStr (wk_name w)), (''mode'', JStr (worker_mode_name (wk_mode w)))]))) (\<lambda>_.
               ret (reply_json 201 [(''worker'', JObj (worker_json pp w))]))) s))))"

definition postWorkerRestart :: "panel_platform \<Rightarrow> session option \<Rightarrow> string \<Rightarrow> response pact" where
  "postWorkerRestart pp sess i = guarded (requireAdmin sess) (\<lambda>ss s.
     if findBy wk_id i (pn_workers s) = None then (Inr (error_json 404 ''Worker not found''), s)
     else andThen (update_worker i (\<lambda>w. w\<lparr>wk_status := WkOnline\<rparr>)) (\<lambda>_.
       andThen (panel_audit (Some (ss_userId ss)) ''worker.restart'' ''worker'' i None) (\<lambda>_.
         ret (reply_json 200 [(''ok'', JBool True)]))) s)"

definition postWorkerDrain :: "session option \<Rightarrow> string \<Rightarrow> response pact" where
  "postWorkerDrain sess i = guarded (requireAdmin sess) (\<lambda>ss s. case drainWorker i (ss_userId ss) s of
     (Inl WorkerNotFoundError, t) \<Rightarrow> (Inr (error_json 404 ''Worker not found''), t)
   | (Inl e, t) \<Rightarrow> (Inl e, t)
   | (Inr result, t) \<Rightarrow> (Inr (reply_json 200 [(''movedBotIds'', JArr (map JStr (dw_movedBotIds result))),
        (''strandedBotIds'', JArr (map JStr (dw_strandedBotIds result)))]), t))"

fun recommendation_type_name :: "recommendation_type \<Rightarrow> string" where
  "recommendation_type_name Move = ''move''"
| "recommendation_type_name Assign = ''assign''"

definition recommendation_json :: "recommendation \<Rightarrow> json" where
  "recommendation_json r = JObj [(''type'', JStr (recommendation_type_name (rm_type r))), (''botId'', JStr (rm_botId r)),
     (''botName'', JStr (rm_botName r)), (''fromWorkerId'', nullable JStr (rm_fromWorkerId r)),
     (''fromWorkerName'', nullable JStr (rm_fromWorkerName r)), (''toWorkerId'', JStr (rm_toWorkerId r)),
     (''toWorkerName'', JStr (rm_toWorkerName r)), (''reason'', JStr (rm_reason r))]"

definition getRebalance :: "session option \<Rightarrow> response pact" where
  "getRebalance sess = guarded (requireAdmin sess) (\<lambda>_.
     gets (\<lambda>s. reply_json 200 [(''recommendations'', JArr (map recommendation_json (rebalance_recommendations s)))]))"

subsection \<open>The maintenance switch\<close>

definition getSystemState :: "session option \<Rightarrow> response pact" where
  "getSystemState sess = guarded (requireAdmin sess) (\<lambda>_.
     gets (\<lambda>s. reply_json 200 [(''maintenanceMode'', JBool (isMaintenanceModeEnabled s))]))"

definition patchSystemSchema :: schema where
  "patchSystemSchema = SObj [Field ''maintenanceMode'' SBool] None"

definition patchSystemState :: "panel_platform \<Rightarrow> session option \<Rightarrow> json option \<Rightarrow> response pact" where
  "patchSystemState pp sess body = guarded (requireAdmin sess) (\<lambda>ss.
     andThen (request_json body) (\<lambda>j.
       parsed_body (pp_safeParse pp) (pp_flatten pp) patchSystemSchema j (\<lambda>data.
         let on = (propOf ''maintenanceMode'' data = Some (JBool True)) in
         andThen (setMaintenanceMode on (ss_userId ss)) (\<lambda>_. ret (reply_json 200 [(''maintenanceMode'', JBool on)])))))"

subsection \<open>The fleet at a glance\<close>

definition hoursAgo :: "int \<Rightarrow> panel \<Rightarrow> int" where
  "hoursAgo hours s = pn_now s - hours * 60 * 60 * 1000"

definition bots_with :: "bot_status \<Rightarrow> panel \<Rightarrow> int" where
  "bots_with status s = int (length (filter (\<lambda>b. bo_status b = status) (pn_bots s)))"

text \<open>\<open>aggregate({_sum})\<close> skips missing values, and the sum of no value is \<open>null\<close>, answered as 0.\<close>

definition getFleetOverview :: "session option \<Rightarrow> response pact" where
  "getFleetOverview sess = guarded (requireAdmin sess) (\<lambda>_. gets (\<lambda>s.
     let number = (\<lambda>n. JNum (of_int n)); since24h = hoursAgo 24 s in
     reply_json 200
       [(''totalBots'', number (int (length (pn_bots s)))), (''onlineBots'', number (bots_with BsOnline s)),
        (''failedBots'', number (bots_with BsFailed s)), (''disabledBots'', number (bots_with BsDisabled s)),
        (''totalGuilds'', number (sum_list (map bh_guildCount (pn_health s)))),
        (''totalShards'', number (int (length (pn_shards s)))),
        (''activeWorkers'', number (int (length (filter (\<lambda>w. wk_status w = WkOnline) (pn_workers s))))),
        (''memoryUsageMb'', number (sum_list (map (\<lambda>w. case wk_memoryMb w of None \<Rightarrow> 0 | Some m \<Rightarrow> m) (pn_workers s)))),
        (''restartCount'', number (sum_list (map bh_restartCount (pn_health s)))),
        (''errorsLast24h'', number (int (length (filter (\<lambda>a. since24h \<le> al_createdAt a
            \<and> (al_severity a = SevError \<or> al_severity a = SevCritical)) (pn_alerts s)))))]))"

subsection \<open>Alerts, logs, plugins and the security report\<close>

fun severity_name :: "alert_severity \<Rightarrow> string" where
  "severity_name SevInfo = ''info''"
| "severity_name SevWarning = ''warning''"
| "severity_name SevError = ''error''"
| "severity_name SevCritical = ''critical''"

fun alert_status_name :: "alert_status \<Rightarrow> string" where
  "alert_status_name AlOpen = ''open''"
| "alert_status_name AlAcknowledged = ''acknowledged''"
| "alert_status_name AlResolved = ''resolved''"

definition alert_json :: "panel_platform \<Rightarrow> alert_row \<Rightarrow> json" where
  "alert_json pp a = JObj [(''eventType'', JStr (al_eventType a)), (''severity'', JStr (severity_name (al_severity a))),
     (''title'', JStr (al_title a)), (''message'', JStr (al_message a)), (''status'', JStr (alert_status_name (al_status a))),
     (''createdAt'', date_json pp (al_createdAt a))]"

text \<open>A \<open>status\<close> that is not the name of one does not filter.\<close>

definition alert_filter :: "string option \<Rightarrow> alert_row \<Rightarrow> bool" where
  "alert_filter statusParam a \<longleftrightarrow> (case find (\<lambda>v. Some (alert_status_name v) = statusParam) [AlOpen, AlAcknowledged, AlResolved] of
     None \<Rightarrow> True | Some status \<Rightarrow> al_status a = status)"

definition getAlerts :: "panel_platform \<Rightarrow> session option \<Rightarrow> query_number option \<Rightarrow> string option \<Rightarrow> response pact" where
  "getAlerts pp sess limit statusParam = guarded (requireAdmin sess) (\<lambda>_.
     andThen (take_rows (capped_limit 200 limit) (\<lambda>s. newest_first al_createdAt (filter (alert_filter statusParam) (pn_alerts s)))) (\<lambda>alerts.
     ret (reply_json 200 [(''alerts'', JArr (map (alert_json pp) alerts))])))"

definition postAlertsEvaluate :: "plugin list \<Rightarrow> session option \<Rightarrow> response pact" where
  "postAlertsEvaluate plugins sess = guarded (requireAdmin sess) (\<lambda>ss.
     andThen (evaluateAlertRules plugins (Some (ss_userId ss))) (\<lambda>result.
       ret (reply_json 200 [(''rulesEvaluated'', JNum (of_nat (ev_rulesEvaluated result))),
         (''alertsCreated'', JArr (map JStr (ev_alertsCreated result)))])))"

definition log_json :: "panel_platform \<Rightarrow> panel \<Rightarrow> audit_row \<Rightarrow> json" where
  "log_json pp s l = JObj [(''actorUserId'', nullable JStr (au_actorUserId l)), (''action'', JStr (au_action l)),
     (''targetType'', JStr (au_targetType l)), (''targetId'', JStr (au_targetId l)),
     (''metadataJson'', nullable id (au_metadataJson l)), (''createdAt'', date_json pp (au_createdAt l)),
     (''actor'', nullable (\<lambda>u. JObj [(''name'', nullable JStr (us_name u)), (''discordUserId'', nullable JStr (us_discordUserId u))])
       (Option.bind (au_actorUserId l) (\<lambda>i. findBy us_id i (pn_users s))))]"

definition getLogs :: "panel_platform \<Rightarrow> session option \<Rightarrow> string option \<Rightarrow> string option \<Rightarrow> query_number option \<Rightarrow> response pact" where
  "getLogs pp sess targetType targetId limit = guarded (requireAdmin sess) (\<lambda>_.
     let matches = (\<lambda>param column. case truthy param of None \<Rightarrow> True | Some x \<Rightarrow> column = x) in
     andThen (take_rows (capped_limit 200 limit) (\<lambda>s. map (log_json pp s) (newest_first au_createdAt
       (filter (\<lambda>l. matches targetType (au_targetType l) \<and> matches targetId (au_targetId l)) (pn_audit s))))) (\<lambda>logs.
     ret (reply_json 200 [(''logs'', JArr logs)])))"

definition plugin_json :: "plugin \<Rightarrow> json" where
  "plugin_json p = JObj [(''id'', JStr (pg_id p)), (''name'', JStr (pg_name p)), (''description'', JStr (pg_description p)),
     (''dashboardCards'', JArr (map JStr (or_none (pg_dashboardCards p)))),
     (''healthChecks'', JArr (map (\<lambda>c. JStr (hc_id c)) (or_none (pg_healthChecks p)))),
     (''alertRules'', JArr (map (\<lambda>r. JObj [(''id'', JStr (rl_id r)), (''description'', JStr (rl_description r))]) (or_none (pg_alertRules p)))),
     (''botTemplates'', JArr (map (\<lambda>t. JObj [(''id'', JStr (fst t)), (''name'', JStr (snd t))]) (or_none (pg_botTemplates p)))),
     (''hasDeploymentHooks'', JBool (pg_deploymentHooks p \<noteq> None))]"

definition getPluginsRoute :: "plugin list \<Rightarrow> session option \<Rightarrow> response pact" where
  "getPluginsRoute plugins sess = guarded (requireAdmin sess) (\<lambda>_.
     ret (reply_json 200 [(''plugins'', JArr (map plugin_json plugins))]))"

fun check_status_name :: "check_status \<Rightarrow> string" where
  "check_status_name CheckPass = ''pass''"
| "check_status_name CheckWarn = ''warn''"
| "check_status_name CheckFail = ''fail''"

definition check_json :: "check_result \<Rightarrow> json" where
  "check_json c = JObj [(''id'', JStr (ck_id c)), (''label'', JStr (ck_label c)), (''status'', JStr (check_status_name (ck_status c))),
     (''detail'', JStr (ck_detail c))]"

definition getSecurity :: "panel_platform \<Rightarrow> plugin list \<Rightarrow> session option \<Rightarrow> response pact" where
  "getSecurity pp plugins sess = guarded (requireAdmin sess) (\<lambda>_. gets (\<lambda>s.
     let report = runSecurityChecks pp plugins (Some (count_admins s)) in
     reply_json 200 [(''score'', JNum (of_int (sr_score report))), (''checks'', JArr (map check_json (sr_checks report))),
       (''actionRequired'', JArr (map check_json (sr_actionRequired report))),
       (''warnings'', JArr (map check_json (sr_warnings report)))]))"

end
