(* ===== verification/Deployments.thy ===== *)
theory Deployments
  imports Plugins Bot_Api
begin

text \<open>
  Deployments (\<open>app/api/admin/deployments/route.ts\<close>): a row is created, the hooks of the plugins run,
  and the restarts of the online bots are queued unless maintenance mode is on. Whatever throws after
  the row was created is caught, and the deployment is marked as failed. \<open>message\<close> is the
  text of an exception.
\<close>

subsection \<open>The route\<close>

text \<open>\<open>try { m } catch (err) { h }\<close>: the writes made before the exception stay.\<close>

definition or_catch :: "('s, 'e, 'a) run \<Rightarrow> ('e \<Rightarrow> ('s, 'e, 'a) run) \<Rightarrow> ('s, 'e, 'a) run" where
  "or_catch m h = (\<lambda>s. case m s of (Inl e, t) \<Rightarrow> h e t | (Inr x, t) \<Rightarrow> (Inr x, t))"

definition triggerDeploymentSchema :: schema where
  "triggerDeploymentSchema = SObj
     [Field ''version'' (SStr [AtLeast 1, AtMost 50] AnyText), Field ''commitSha'' (SStr [AtLeast 1, AtMost 64] AnyText),
      Field ''notes'' (SOpt (SStr [AtMost 500] AnyText))] None"

fun deployment_status_name :: "deployment_status \<Rightarrow> string" where
  "deployment_status_name DepPending = ''pending''"
| "deployment_status_name DepInProgress = ''in_progress''"
| "deployment_status_name DepSuccess = ''success''"
| "deployment_status_name DepFailed = ''failed''"
| "deployment_status_name DepRolledBack = ''rolled_back''"

definition deployment_json :: "panel_platform \<Rightarrow> deployment_row \<Rightarrow> (string \<times> json) list" where
  "deployment_json pp d = [(''id'', JStr (dp_id d)), (''version'', JStr (dp_version d)), (''commitSha'', JStr (dp_commitSha d)),
     (''status'', JStr (deployment_status_name (dp_status d))), (''deployedById'', nullable JStr (dp_deployedById d)),
     (''startedAt'', nullable (date_json pp) (dp_startedAt d)), (''finishedAt'', nullable (date_json pp) (dp_finishedAt d)),
     (''notes'', nullable JStr (dp_notes d))]"

text \<open>\<open>orderBy: { startedAt: "desc" }\<close>: Postgres puts missing values first.\<close>

definition newest_started :: "deployment_row list \<Rightarrow> deployment_row list" where
  "newest_started rows = filter (\<lambda>d. dp_startedAt d = None) rows
     @ newest_first (\<lambda>d. the (dp_startedAt d)) (filter (\<lambda>d. dp_startedAt d \<noteq> None) rows)"

definition getDeployments :: "panel_platform \<Rightarrow> session option \<Rightarrow> response pact" where
  "getDeployments pp sess = guarded (requireAdmin sess) (\<lambda>_. gets (\<lambda>s.
     reply_json 200 [(''deployments'', JArr (map (\<lambda>d. JObj (deployment_json pp d
         @ [(''deployedBy'', nullable (\<lambda>u. JObj [(''name'', nullable JStr (us_name u))])
              (Option.bind (dp_deployedById d) (\<lambda>i. findBy us_id i (pn_users s))))]))
       (prisma_take 50 (newest_started (pn_deployments s)))))]))"

definition new_deployment :: "string \<Rightarrow> json option \<Rightarrow> string \<Rightarrow> int \<Rightarrow> deployment_row" where
  "new_deployment i data actor now = \<lparr>dp_id = i, dp_version = str_of ''version'' data, dp_commitSha = str_of ''commitSha'' data,
     dp_status = DepInProgress, dp_deployedById = Some actor, dp_startedAt = Some now, dp_finishedAt = None,
     dp_notes = as_string (propOf ''notes'' data)\<rparr>"

definition insert_deployment :: "deployment_row \<Rightarrow> unit pact" where
  "insert_deployment d = (\<lambda>s.
     if list_ex (\<lambda>i. findBy us_id i (pn_users s) = None) (case dp_deployedById d of None \<Rightarrow> [] | Some i \<Rightarrow> [i]) then (Inl ForeignKey, s)
     else if dp_id d \<in> dp_id ` set (pn_deployments s) then (Inl UniqueViolation, s)
     else (Inr (), s\<lparr>pn_deployments := pn_deployments s @ [d]\<rparr>))"

text \<open>The update that ends a deployment; it answers the row as it is then.\<close>

definition finished :: "deployment_status \<Rightarrow> int \<Rightarrow> deployment_row \<Rightarrow> deployment_row" where
  "finished status now d = d\<lparr>dp_status := status, dp_finishedAt := Some now\<rparr>"

definition finish_deployment :: "string \<Rightarrow> deployment_status \<Rightarrow> deployment_row pact" where
  "finish_deployment i status = (\<lambda>s. case findBy dp_id i (pn_deployments s) of
     None \<Rightarrow> (Inl RowNotFound, s)
   | Some d \<Rightarrow> (Inr (finished status (pn_now s) d),
       s\<lparr>pn_deployments := updateWhere (\<lambda>r. dp_id r = i) (finished status (pn_now s)) (pn_deployments s)\<rparr>))"

definition hook_plugins :: "plugin list \<Rightarrow> plugin list" where
  "hook_plugins plugins = filter (\<lambda>p. pg_deploymentHooks p \<noteq> None) plugins"

definition run_hook :: "(deployment_hooks \<Rightarrow> unit pact option) \<Rightarrow> plugin \<Rightarrow> unit pact" where
  "run_hook hook p = (case Option.bind (pg_deploymentHooks p) hook of None \<Rightarrow> ret () | Some m \<Rightarrow> m)"

definition run_hooks :: "plugin list \<Rightarrow> unit pact" where
  "run_hooks plugins =
     andThen (forEach plugins () (\<lambda>p _. run_hook dh_beforeDeploy p)) (\<lambda>_.
       forEach plugins () (\<lambda>p _. run_hook dh_afterDeploy p))"

definition online_bots :: "panel \<Rightarrow> string list" where
  "online_bots s = map bo_id (filter (\<lambda>b. bo_status b = BsOnline) (pn_bots s))"

definition queue_restarts :: "string \<Rightarrow> string \<Rightarrow> int pact" where
  "queue_restarts deploymentId actor = (\<lambda>s.
     if isMaintenanceModeEnabled s then (Inr 0, s) else enqueueStaggeredRestarts (online_bots s) deploymentId actor s)"

definition announce :: "panel_platform \<Rightarrow> plugin list \<Rightarrow> string \<Rightarrow> deployment_row \<Rightarrow> deployment_row \<Rightarrow> int \<Rightarrow> response pact" where
  "announce pp hooks actor d done_row restartsQueued = (\<lambda>s.
     andThen (panel_audit (Some actor) ''deployment.trigger'' ''deployment'' (dp_id d)
         (Some (JObj [(''version'', JStr (dp_version d)), (''hooksRun'', JArr (map (\<lambda>p. JStr (pg_id p)) hooks)),
           (''restartsQueued'', JNum (of_int restartsQueued)),
           (''restartsSkippedForMaintenance'', JBool (isMaintenanceModeEnabled s))]))) (\<lambda>_.
       ret (reply_json 201 [(''deployment'', JObj (deployment_json pp done_row)), (''restartsQueued'', JNum (of_int restartsQueued))])) s)"

definition deploy :: "panel_platform \<Rightarrow> plugin list \<Rightarrow> string \<Rightarrow> deployment_row \<Rightarrow> response pact" where
  "deploy pp hooks actor d =
     andThen (run_hooks hooks) (\<lambda>_.
       andThen (finish_deployment (dp_id d) DepSuccess) (\<lambda>done_row.
         andThen (queue_restarts (dp_id d) actor) (announce pp hooks actor d done_row)))"

definition deployment_failed :: "panel_platform \<Rightarrow> (panel_exn \<Rightarrow> string) \<Rightarrow> string \<Rightarrow> deployment_row \<Rightarrow> panel_exn \<Rightarrow> response pact" where
  "deployment_failed pp message actor d err =
     andThen (finish_deployment (dp_id d) DepFailed) (\<lambda>failed.
       andThen (panel_audit (Some actor) ''deployment.trigger_failed'' ''deployment'' (dp_id d) (Some (JObj [(''error'', JStr (message err))]))) (\<lambda>_.
         ret (reply_json 500 [(''deployment'', JObj (deployment_json pp failed))])))"

definition postDeployments ::
  "panel_platform \<Rightarrow> plugin list \<Rightarrow> (panel_exn \<Rightarrow> string) \<Rightarrow> session option \<Rightarrow> json option \<Rightarrow> response pact" where
  "postDeployments pp plugins message sess body = guarded (requireAdmin sess) (\<lambda>ss.
     andThen (request_json body) (\<lambda>j.
       parsed_body (pp_safeParse pp) (pp_flatten pp) triggerDeploymentSchema j (\<lambda>data.
         andThen (panel_cuid pp) (\<lambda>i s.
           let d = new_deployment i data (ss_userId ss) (pn_now s) in
           andThen (insert_deployment d) (\<lambda>_.
             or_catch (deploy pp (hook_plugins plugins) (ss_userId ss) d) (deployment_failed pp message (ss_userId ss) d)) s))))"

subsection \<open>How a deployment ends\<close>

lemma builtin_hooks: "hook_plugins builtinPlugins = [pm2RunnerPlugin, dockerRunnerPlugin]"
  by (simp add: hook_plugins_def builtinPlugins_def redisStatusPlugin_def pm2RunnerPlugin_def dockerRunnerPlugin_def
      alertRulesPlugin_def botTemplatesPlugin_def nodeVersionCheckPlugin_def)

text \<open>The hooks of the two runner plugins write four entries into the audit log.\<close>

definition hook_entries :: "panel \<Rightarrow> audit_row list" where
  "hook_entries s = map (\<lambda>action. audit_entry None action ''deployment'' ''pending'' None s)
     [''plugin.pm2_runner.before_deploy'', ''plugin.docker_runner.before_deploy'', ''plugin.pm2_runner.after_deploy'',
      ''plugin.docker_runner.after_deploy'']"

lemma run_builtin_hooks: "run_hooks [pm2RunnerPlugin, dockerRunnerPlugin] s = (Inr (), s\<lparr>pn_audit := pn_audit s @ hook_entries s\<rparr>)"
  by (simp add: run_hooks_def run_hook_def pm2RunnerPlugin_def dockerRunnerPlugin_def runner_hook_def andThen_def panel_audit_run
      ret_def hook_entries_def audit_entry_def)

lemma finish_last:
  assumes "pn_deployments s = ds @ [d]" and "dp_id d \<notin> dp_id ` set ds"
  shows "finish_deployment (dp_id d) status s = (Inr (finished status (pn_now s) d), s\<lparr>pn_deployments := ds @ [finished status (pn_now s) d]\<rparr>)"
proof -
  have "findBy dp_id (dp_id d) ds = None" using assms(2) by (simp only: findBy_None not_False_eq_True)
  then have find: "findBy dp_id (dp_id d) (pn_deployments s) = Some d" by (simp add: assms(1) findBy_append)
  have "updateWhere (\<lambda>r. dp_id r = dp_id d) g ds = ds" for g
    using assms(2) by (intro updateWhere_other) (metis imageI)
  then show ?thesis unfolding finish_deployment_def find option.case by (simp add: assms(1))
qed

lemma queue_restarts_cases:
  "queue_restarts i actor s =
    (if isMaintenanceModeEnabled s \<or> online_bots s = [] then (Inr 0, s)
     else case pn_restarts s of
       None \<Rightarrow> (Inl QueueNotConfigured, s)
     | Some jobs \<Rightarrow> (Inr (int (length (online_bots s))), s\<lparr>pn_restarts := Some
         (fold (\<lambda>(n, b). add_job (restart_job_of i actor n b)) (List.enumerate 0 (online_bots s)) jobs)\<rparr>))"
  by (simp add: queue_restarts_def enqueueStaggeredRestarts_def)

text \<open>The restarts can be queued, or there is nothing to queue.\<close>

definition can_restart :: "panel \<Rightarrow> bool" where
  "can_restart s \<longleftrightarrow> isMaintenanceModeEnabled s \<or> online_bots s = [] \<or> pn_restarts s \<noteq> None"

lemma online_bots_frame: "online_bots (s\<lparr>pn_deployments := ds, pn_audit := es\<rparr>) = online_bots s"
  "isMaintenanceModeEnabled (s\<lparr>pn_deployments := ds, pn_audit := es\<rparr>) = isMaintenanceModeEnabled s"
  by (simp_all add: online_bots_def isMaintenanceModeEnabled_def)

lemma announce_run: "\<exists>r e. announce pp hooks actor d done_row n s = (Inr r, s\<lparr>pn_audit := pn_audit s @ [e]\<rparr>)
    \<and> rs_status r = 201 \<and> au_action e = ''deployment.trigger''"
  unfolding announce_def andThen_def panel_audit_run by (simp add: ret_def reply_json_def) (rule exI, rule conjI, rule refl, simp add: audit_entry_def)

lemma deploy_run:
  assumes "pn_deployments s = ds @ [d]" and "dp_id d \<notin> dp_id ` set ds"
  shows "\<exists>r es. or_catch (deploy pp [pm2RunnerPlugin, dockerRunnerPlugin] actor d) (deployment_failed pp message actor d) s
      = (Inr r, s\<lparr>pn_deployments := ds @ [finished (if can_restart s then DepSuccess else DepFailed) (pn_now s) d],
          pn_restarts := pn_restarts (snd (queue_restarts (dp_id d) actor s)), pn_audit := pn_audit s @ es\<rparr>)
    \<and> rs_status r = (if can_restart s then 201 else 500)
    \<and> map au_action es = map au_action (hook_entries s) @ [if can_restart s then ''deployment.trigger'' else ''deployment.trigger_failed'']"
proof -
  let ?s1 = "s\<lparr>pn_audit := pn_audit s @ hook_entries s\<rparr>" and ?d = "finished DepSuccess (pn_now s) d"
  let ?s2 = "s\<lparr>pn_deployments := ds @ [?d], pn_audit := pn_audit s @ hook_entries s\<rparr>"
  let ?last = "announce pp [pm2RunnerPlugin, dockerRunnerPlugin] actor d ?d"
  have s1: "pn_deployments ?s1 = ds @ [d]" using assms(1) by simp
  have fin: "finish_deployment (dp_id d) DepSuccess ?s1 = (Inr ?d, ?s2)" using finish_last [OF s1 assms(2)] by simp
  have run: "deploy pp [pm2RunnerPlugin, dockerRunnerPlugin] actor d s = andThen (queue_restarts (dp_id d) actor) ?last ?s2"
    by (simp add: deploy_def andThen_def run_builtin_hooks fin)
  have frame: "queue_restarts (dp_id d) actor ?s2 = (fst (queue_restarts (dp_id d) actor s),
      ?s2\<lparr>pn_restarts := pn_restarts (snd (queue_restarts (dp_id d) actor s))\<rparr>)"
    by (simp add: queue_restarts_cases online_bots_frame split: option.splits)
  show ?thesis
  proof (cases "can_restart s")
    case True
    then have "\<exists>n. fst (queue_restarts (dp_id d) actor s) = Inr n"
      by (auto simp: queue_restarts_cases can_restart_def)
    then obtain n where "fst (queue_restarts (dp_id d) actor s) = Inr n" by blast
    then have queue: "queue_restarts (dp_id d) actor ?s2 = (Inr n, ?s2\<lparr>pn_restarts := pn_restarts (snd (queue_restarts (dp_id d) actor s))\<rparr>)"
      (is "_ = (_, ?s3)") using frame by simp
    obtain r e where last: "?last n ?s3 = (Inr r, ?s3\<lparr>pn_audit := pn_audit ?s3 @ [e]\<rparr>)" "rs_status r = 201"
      "au_action e = ''deployment.trigger''" using announce_run by blast
    have "or_catch (deploy pp [pm2RunnerPlugin, dockerRunnerPlugin] actor d) (deployment_failed pp message actor d) s
        = (Inr r, ?s3\<lparr>pn_audit := pn_audit ?s3 @ [e]\<rparr>)"
      by (simp only: or_catch_def run andThen_def queue last(1) prod.case sum.case)
    then show ?thesis using last(2,3) True by (intro exI [of _ r] exI [of _ "hook_entries s @ [e]"]) simp
  next
    case False
    then have "pn_restarts s = None" "\<not> isMaintenanceModeEnabled s" "online_bots s \<noteq> []" by (auto simp: can_restart_def)
    then have refused: "queue_restarts (dp_id d) actor s = (Inl QueueNotConfigured, s)" by (simp add: queue_restarts_cases)
    then have "queue_restarts (dp_id d) actor ?s2 = (Inl QueueNotConfigured, ?s2)" using frame by simp
    then have thrown: "deploy pp [pm2RunnerPlugin, dockerRunnerPlugin] actor d s = (Inl QueueNotConfigured, ?s2)"
      unfolding run by (rule andThen_Inl)
    have s2: "pn_deployments ?s2 = ds @ [?d]" "dp_id ?d = dp_id d" by (simp_all add: finished_def)
    have again: "finish_deployment (dp_id d) DepFailed ?s2
        = (Inr (finished DepFailed (pn_now s) d), ?s2\<lparr>pn_deployments := ds @ [finished DepFailed (pn_now s) d]\<rparr>)" (is "_ = (_, ?s4)")
      using finish_last [OF s2(1), of DepFailed] assms(2) by (simp add: finished_def)
    let ?e = "audit_entry (Some actor) ''deployment.trigger_failed'' ''deployment'' (dp_id d) (Some (JObj [(''error'', JStr (message QueueNotConfigured))])) ?s4"
    have "deployment_failed pp message actor d QueueNotConfigured ?s2
        = (Inr (reply_json 500 [(''deployment'', JObj (deployment_json pp (finished DepFailed (pn_now s) d)))]), ?s4\<lparr>pn_audit := pn_audit ?s4 @ [?e]\<rparr>)"
      unfolding deployment_failed_def andThen_def again by (simp add: panel_audit_run ret_def)
    then show ?thesis using False refused
      by (intro exI [of _ "reply_json 500 [(''deployment'', JObj (deployment_json pp (finished DepFailed (pn_now s) d)))]"]
          exI [of _ "hook_entries s @ [?e]"]) (simp add: or_catch_def thrown reply_json_def audit_entry_def)
  qed
qed

text \<open>
  C38: A deployment requested by an administrator ends, and says so. It succeeds, with the hooks run and the
  restarts of the online bots queued, unless maintenance mode is on, when none is queued. If there are bots
  to restart and the queue is not configured, the row that was already marked as successful is
  marked as failed although every hook ran. Nothing but the deployment, the restart queue and the
  audit log is written.
\<close>

theorem deployment_outcome:
  assumes "requireAdmin sess = Inr ss" and "pp_safeParse pp triggerDeploymentSchema (Some j) = Inr data"
    and "findBy us_id (ss_userId ss) (pn_users s) \<noteq> None" and "pp_cuid pp (pn_seq s) \<notin> dp_id ` set (pn_deployments s)"
  shows "let i = pp_cuid pp (pn_seq s); ok = can_restart s in
    \<exists>r es. postDeployments pp builtinPlugins message sess (Some j) s
      = (Inr r, s\<lparr>pn_seq := Suc (pn_seq s),
          pn_deployments := pn_deployments s @ [finished (if ok then DepSuccess else DepFailed) (pn_now s) (new_deployment i data (ss_userId ss) (pn_now s))],
          pn_restarts := pn_restarts (snd (queue_restarts i (ss_userId ss) s)), pn_audit := pn_audit s @ es\<rparr>)
    \<and> rs_status r = (if ok then 201 else 500)
    \<and> map au_action es = map au_action (hook_entries s) @ [if ok then ''deployment.trigger'' else ''deployment.trigger_failed'']"
proof -
  let ?i = "pp_cuid pp (pn_seq s)"
  let ?d = "new_deployment ?i data (ss_userId ss) (pn_now s)"
  let ?s0 = "s\<lparr>pn_seq := Suc (pn_seq s)\<rparr>"
  let ?s1 = "?s0\<lparr>pn_deployments := pn_deployments s @ [?d]\<rparr>"
  have "insert_deployment ?d ?s0 = (Inr (), ?s1)"
    using assms(3,4) by (simp add: insert_deployment_def new_deployment_def)
  then have run: "postDeployments pp builtinPlugins message sess (Some j) s =
      or_catch (deploy pp [pm2RunnerPlugin, dockerRunnerPlugin] (ss_userId ss) ?d) (deployment_failed pp message (ss_userId ss) ?d) ?s1"
    by (simp add: postDeployments_def guarded_def assms(1,2) request_json_def parsed_body_def andThen_def ret_def panel_cuid_def
        Let_def builtin_hooks)
  have d: "pn_deployments ?s1 = pn_deployments s @ [?d]" "dp_id ?d \<notin> dp_id ` set (pn_deployments s)"
    using assms(4) by (simp_all add: new_deployment_def)
  have same: "can_restart ?s1 = can_restart s" "hook_entries ?s1 = hook_entries s" "dp_id ?d = ?i"
    "pn_restarts (snd (queue_restarts ?i (ss_userId ss) ?s1)) = pn_restarts (snd (queue_restarts ?i (ss_userId ss) s))"
    by (simp_all add: can_restart_def isMaintenanceModeEnabled_def online_bots_def hook_entries_def audit_entry_def new_deployment_def
        queue_restarts_cases split: option.splits)
  from deploy_run [OF d, of pp "ss_userId ss" message] show ?thesis
    unfolding run Let_def same by simp
qed

text \<open>A bot is online and the restart queue is not configured.\<close>

definition deploy_panel :: panel where
  "deploy_panel = sample_panel\<lparr>pn_restarts := None,
     pn_users := [\<lparr>us_id = ''u1'', us_name = None, us_email = None, us_discordUserId = None, us_role = RoleAdmin, us_createdAt = 0\<rparr>]\<rparr>"

definition deploy_body :: json where
  "deploy_body = JObj [(''version'', JStr ''1.2''), (''commitSha'', JStr ''abc'')]"

theorem deployment_outcome_witness:
  "\<exists>r t. postDeployments api_platform builtinPlugins (\<lambda>_. ''error'') (Some \<lparr>ss_userId = ''u1'', ss_role = RoleAdmin, ss_discordUserId = None\<rparr>)
      (Some deploy_body) deploy_panel = (Inr r, t)
    \<and> rs_status r = 500 \<and> map dp_status (pn_deployments t) = [DepFailed] \<and> length (pn_audit t) = 5"
proof -
  let ?ss = "\<lparr>ss_userId = ''u1'', ss_role = RoleAdmin, ss_discordUserId = None\<rparr>"
  have a: "requireAdmin (Some ?ss) = Inr ?ss" by simp
  obtain data where b: "pp_safeParse api_platform triggerDeploymentSchema (Some deploy_body) = Inr data"
    by (simp add: api_platform_def refusing_platform_def plain_validator_def triggerDeploymentSchema_def deploy_body_def)
  have c: "findBy us_id (ss_userId ?ss) (pn_users deploy_panel) \<noteq> None" by (simp add: deploy_panel_def)
  have d: "pp_cuid api_platform (pn_seq deploy_panel) \<notin> dp_id ` set (pn_deployments deploy_panel)"
    by (simp add: deploy_panel_def sample_panel_def)
  have no: "\<not> can_restart deploy_panel"
    by (simp add: can_restart_def deploy_panel_def sample_panel_def isMaintenanceModeEnabled_def online_bots_def sample_bot_def)
  have empty: "pn_deployments deploy_panel = []" "pn_audit deploy_panel = []" by (simp_all add: deploy_panel_def sample_panel_def)
  obtain r es where out: "postDeployments api_platform builtinPlugins (\<lambda>_. ''error'') (Some ?ss) (Some deploy_body) deploy_panel
      = (Inr r, deploy_panel\<lparr>pn_seq := Suc (pn_seq deploy_panel),
          pn_deployments := [finished DepFailed (pn_now deploy_panel) (new_deployment (pp_cuid api_platform (pn_seq deploy_panel)) data ''u1'' (pn_now deploy_panel))],
          pn_restarts := pn_restarts (snd (queue_restarts (pp_cuid api_platform (pn_seq deploy_panel)) ''u1'' deploy_panel)), pn_audit := es\<rparr>)"
    "rs_status r = 500" "map au_action es = map au_action (hook_entries deploy_panel) @ [''deployment.trigger_failed'']"
    using deployment_outcome [OF a b c d, of "\<lambda>_. ''error''"] no empty by (auto simp: Let_def)
  have "length es = 5" using arg_cong [OF out(3), of length] by (simp add: hook_entries_def)
  then show ?thesis using out(1,2) by (intro exI [of _ r] exI) (auto simp: finished_def)
qed

end
