(* ===== verification/Webhooks.thy ===== *)
theory Webhooks
  imports Bot_Api
begin

text \<open>
  Discord webhooks: their routes (\<open>app/api/admin/webhooks\<close>, \<open>app/api/admin/alerts/test\<close>) and the
  delivery of an alert (\<open>lib/alerts/discord-webhook.ts\<close>). Discord is the parameter \<open>discord\<close>: the HTTP
  status it answers a request body at an address with, \<open>None\<close> when \<open>fetch\<close> rejects.
\<close>

type_synonym discord = "string \<Rightarrow> json \<Rightarrow> int option"

subsection \<open>Delivery\<close>

record discord_alert_payload =
  da_title :: string
  da_message :: string
  da_severity :: alert_severity

fun SEVERITY_COLOR :: "alert_severity \<Rightarrow> int" where
  "SEVERITY_COLOR SevInfo = 0x5865f2"
| "SEVERITY_COLOR SevWarning = 0xf5a623"
| "SEVERITY_COLOR SevError = 0xed4245"
| "SEVERITY_COLOR SevCritical = 0x992d22"

definition alert_body :: "panel_platform \<Rightarrow> discord_alert_payload \<Rightarrow> int \<Rightarrow> json" where
  "alert_body pp payload now = JObj
     [(''embeds'', JArr [JObj [(''title'', JStr (da_title payload)), (''description'', JStr (da_message payload)),
        (''color'', JNum (of_int (SEVERITY_COLOR (da_severity payload)))), (''timestamp'', date_json pp now)]]),
      (''allowed_mentions'', JObj [(''parse'', JArr [])])]"

text \<open>\<open>res.ok\<close> and \<open>res.status\<close>.\<close>

definition sendDiscordAlert :: "panel_platform \<Rightarrow> discord \<Rightarrow> string \<Rightarrow> discord_alert_payload \<Rightarrow> (bool \<times> int) pact" where
  "sendDiscordAlert pp discord webhookUrlEncrypted payload = (\<lambda>s.
     case decryptSecret (pp_crypto pp) (pp_encryptionKey pp) webhookUrlEncrypted of
       Inl e \<Rightarrow> (Inl (SecretError e), s)
     | Inr url \<Rightarrow> (case discord url (alert_body pp payload (pn_now s)) of
         None \<Rightarrow> (Inl FetchFailed, s)
       | Some status \<Rightarrow> (Inr (200 \<le> status \<and> status \<le> 299, status), s)))"

subsection \<open>Routes\<close>

definition ALERT_EVENT_TYPES :: "string list" where
  "ALERT_EVENT_TYPES =
     [''bot.offline'', ''bot.start_failed'', ''worker.crashed'', ''shard.disconnected'', ''token.invalid'', ''rate_limit.warning'',
      ''guild_limit.reached'', ''customer.expired'', ''memory.high'', ''restart_count.high'', ''database.error'', ''queue.error'']"

definition createWebhookSchema :: schema where
  "createWebhookSchema = SObj
     [Field ''name'' (SStr [AtLeast 1, AtMost 100] AnyText), Field ''url'' (SStr [] Url),
      Field ''events'' (SDefault (SArr (SEnum ALERT_EVENT_TYPES) []) (JArr (map JStr ALERT_EVENT_TYPES)))] None"

definition webhook_json :: "panel_platform \<Rightarrow> webhook_row \<Rightarrow> json" where
  "webhook_json pp w = JObj [(''id'', JStr (wh_id w)), (''name'', JStr (wh_name w)), (''enabled'', JBool (wh_enabled w)),
     (''events'', JArr (map JStr (wh_eventsJson w))), (''lastSuccessAt'', nullable (date_json pp) (wh_lastSuccessAt w)),
     (''lastFailureAt'', nullable (date_json pp) (wh_lastFailureAt w)), (''createdAt'', date_json pp (wh_createdAt w))]"

definition getWebhooks :: "panel_platform \<Rightarrow> session option \<Rightarrow> response pact" where
  "getWebhooks pp sess = guarded (requireAdmin sess) (\<lambda>_.
     gets (\<lambda>s. reply_json 200 [(''webhooks'', JArr (map (webhook_json pp) (newest_first wh_createdAt (pn_webhooks s))))]))"

fun string_or_empty :: "json \<Rightarrow> string" where
  "string_or_empty (JStr t) = t"
| "string_or_empty _ = ''''"

definition new_webhook :: "string \<Rightarrow> string \<Rightarrow> json option \<Rightarrow> int \<Rightarrow> webhook_row" where
  "new_webhook i urlEncrypted data now = \<lparr>wh_id = i, wh_name = str_of ''name'' data, wh_urlEncrypted = urlEncrypted,
     wh_enabled = True, wh_eventsJson = map string_or_empty (as_list (propOf ''events'' data)), wh_lastSuccessAt = None,
     wh_lastFailureAt = None, wh_createdAt = now\<rparr>"

definition insert_webhook :: "webhook_row \<Rightarrow> unit pact" where
  "insert_webhook w = (\<lambda>s. if wh_id w \<in> wh_id ` set (pn_webhooks s) then (Inl UniqueViolation, s)
     else (Inr (), s\<lparr>pn_webhooks := pn_webhooks s @ [w]\<rparr>))"

definition postWebhooks :: "panel_platform \<Rightarrow> session option \<Rightarrow> json option \<Rightarrow> response pact" where
  "postWebhooks pp sess body = guarded (requireAdmin sess) (\<lambda>ss.
     andThen (request_json body) (\<lambda>j.
       parsed_body (pp_safeParse pp) (pp_flatten pp) createWebhookSchema j (\<lambda>data.
         andThen (encrypt_run pp (str_of ''url'' data)) (\<lambda>urlEncrypted.
           andThen (panel_cuid pp) (\<lambda>i s.
             andThen (insert_webhook (new_webhook i urlEncrypted data (pn_now s))) (\<lambda>_.
               andThen (panel_audit (Some (ss_userId ss)) ''webhook.create'' ''webhook_destination'' i
                   (Some (JObj [(''name'', JStr (str_of ''name'' data))]))) (\<lambda>_.
                 ret (reply_json 201 [(''id'', JStr i), (''name'', JStr (str_of ''name'' data))]))) s)))))"

text \<open>\<open>delete(...).catch(() => null)\<close>: a row that is not there is no error.\<close>

definition deleteWebhook :: "session option \<Rightarrow> string \<Rightarrow> response pact" where
  "deleteWebhook sess i = guarded (requireAdmin sess) (\<lambda>ss.
     andThen (modify (\<lambda>s. s\<lparr>pn_webhooks := filter (\<lambda>w. wh_id w \<noteq> i) (pn_webhooks s)\<rparr>)) (\<lambda>_.
       andThen (panel_audit (Some (ss_userId ss)) ''webhook.delete'' ''webhook_destination'' i None) (\<lambda>_.
         ret (reply_json 200 [(''ok'', JBool True)]))))"

definition testAlertSchema :: schema where
  "testAlertSchema = SObj [Field ''webhookId'' (SStr [AtLeast 1] AnyText)] None"

definition test_alert :: discord_alert_payload where
  "test_alert = \<lparr>da_title = ''BotFleet test alert'',
     da_message = ''This is a test alert from BotFleet's Security & Alerts settings. Mass mentions are always disabled.'',
     da_severity = SevInfo\<rparr>"

definition mark_delivery :: "string \<Rightarrow> bool \<Rightarrow> unit pact" where
  "mark_delivery i ok = (\<lambda>s. if findBy wh_id i (pn_webhooks s) = None then (Inl RowNotFound, s)
     else (Inr (), s\<lparr>pn_webhooks := updateWhere (\<lambda>w. wh_id w = i)
       (\<lambda>w. if ok then w\<lparr>wh_lastSuccessAt := Some (pn_now s)\<rparr> else w\<lparr>wh_lastFailureAt := Some (pn_now s)\<rparr>) (pn_webhooks s)\<rparr>))"

definition postAlertTest :: "panel_platform \<Rightarrow> discord \<Rightarrow> session option \<Rightarrow> json option \<Rightarrow> response pact" where
  "postAlertTest pp discord sess body = guarded (requireAdmin sess) (\<lambda>ss.
     andThen (request_json body) (\<lambda>j.
       parsed_body (pp_safeParse pp) (pp_flatten pp) testAlertSchema j (\<lambda>data s.
         case findBy wh_id (str_of ''webhookId'' data) (pn_webhooks s) of
           None \<Rightarrow> (Inr (error_json 404 ''Webhook not found''), s)
         | Some webhook \<Rightarrow>
             andThen (sendDiscordAlert pp discord (wh_urlEncrypted webhook) test_alert) (\<lambda>(ok, status).
               andThen (mark_delivery (wh_id webhook) ok) (\<lambda>_.
                 andThen (panel_audit (Some (ss_userId ss)) ''alert.test'' ''webhook_destination'' (wh_id webhook)
                     (Some (JObj [(''ok'', JBool ok), (''status'', JNum (of_int status))]))) (\<lambda>_.
                   ret (reply_json 200 [(''ok'', JBool ok), (''status'', JNum (of_int status))])))) s)))"

subsection \<open>What an administrator registers is where the alert goes\<close>

lemma post_webhook_run:
  assumes "isEncryptionKeyConfigured (pp_crypto pp) (pp_encryptionKey pp)" and "crypto_laws (pp_crypto pp)"
    and "pp_safeParse pp createWebhookSchema (Some j) = Inr data"
    and "postWebhooks pp sess (Some j) s = (Inr resp, t)" and "rs_status resp = 201"
  shows "\<exists>ss c e. requireAdmin sess = Inr ss
    \<and> encryptSecret (pp_crypto pp) (pp_encryptionKey pp) (pn_seq s) (str_of ''url'' data) = Inr c
    \<and> pp_cuid pp (Suc (pn_seq s)) \<notin> wh_id ` set (pn_webhooks s)
    \<and> t = s\<lparr>pn_seq := Suc (Suc (pn_seq s)), pn_webhooks := pn_webhooks s @ [new_webhook (pp_cuid pp (Suc (pn_seq s))) c data (pn_now s)],
        pn_audit := pn_audit s @ [e]\<rparr>"
proof -
  obtain ss where ss: "requireAdmin sess = Inr ss"
    using assms(4,5) by (cases "requireAdmin sess")
      (auto simp: postWebhooks_def guarded_def ret_def elim: requireAdmin.elims simp: error_json_def reply_json_def split: if_splits)
  obtain c where c: "encryptSecret (pp_crypto pp) (pp_encryptionKey pp) (pn_seq s) (str_of ''url'' data) = Inr c"
    using secret_roundtrip_core [OF assms(2,1)] by blast
  show ?thesis
    using assms(4) unfolding postWebhooks_def
    by (auto simp: guarded_def ss request_json_def parsed_body_def assms(3) andThen_def ret_def encrypt_run_def c panel_cuid_def
        insert_webhook_def panel_audit_run new_webhook_def split: if_splits)
qed

text \<open>
  An administrator registers a webhook and tests it: the test alert is posted to exactly the address that was
  registered, which is stored encrypted, with mass mentions disabled. What Discord answers
  decides what is answered and which of the two times of the row is set; when the request cannot be
  made, the test throws and writes nothing.
\<close>

theorem webhook_reaches_its_url:
  assumes "isEncryptionKeyConfigured (pp_crypto pp) (pp_encryptionKey pp)" and "crypto_laws (pp_crypto pp)"
    and "pp_safeParse pp createWebhookSchema (Some j) = Inr data" and "str_of ''url'' data \<noteq> []"
    and "postWebhooks pp sess (Some j) s = (Inr resp, t)" and "rs_status resp = 201"
    and "pp_safeParse pp testAlertSchema (Some k) = Inr request"
    and "str_of ''webhookId'' request = pp_cuid pp (Suc (pn_seq s))"
  shows "\<exists>w. pn_webhooks t = pn_webhooks s @ [w]
    \<and> (case discord (str_of ''url'' data) (alert_body pp test_alert (pn_now s)) of
         None \<Rightarrow> postAlertTest pp discord sess (Some k) t = (Inl FetchFailed, t)
       | Some status \<Rightarrow>
           let ok = (200 \<le> status \<and> status \<le> 299) in
           \<exists>u. postAlertTest pp discord sess (Some k) t
               = (Inr (reply_json 200 [(''ok'', JBool ok), (''status'', JNum (of_int status))]), u)
           \<and> pn_webhooks u = pn_webhooks s
               @ [if ok then w\<lparr>wh_lastSuccessAt := Some (pn_now s)\<rparr> else w\<lparr>wh_lastFailureAt := Some (pn_now s)\<rparr>])"
proof -
  let ?i = "pp_cuid pp (Suc (pn_seq s))"
  obtain ss c e where c: "requireAdmin sess = Inr ss"
    "encryptSecret (pp_crypto pp) (pp_encryptionKey pp) (pn_seq s) (str_of ''url'' data) = Inr c"
    "?i \<notin> wh_id ` set (pn_webhooks s)"
    "t = s\<lparr>pn_seq := Suc (Suc (pn_seq s)), pn_webhooks := pn_webhooks s @ [new_webhook ?i c data (pn_now s)], pn_audit := pn_audit s @ [e]\<rparr>"
    using post_webhook_run [OF assms(1,2,3,5,6)] by blast
  let ?w = "new_webhook ?i c data (pn_now s)"
  have w: "wh_id ?w = ?i" "wh_urlEncrypted ?w = c" by (simp_all add: new_webhook_def)
  have t: "pn_webhooks t = pn_webhooks s @ [?w]" "pn_now t = pn_now s" using c(4) by simp_all
  have "findBy wh_id ?i (pn_webhooks s) = None" using c(3) by (simp only: findBy_None not_False_eq_True)
  then have find: "findBy wh_id ?i (pn_webhooks t) = Some ?w" unfolding t by (simp add: findBy_append w)
  have same: "updateWhere (\<lambda>r. wh_id r = ?i) g (pn_webhooks s) = pn_webhooks s" for g
    using c(3) by (intro updateWhere_other) (metis imageI)
  have url: "decryptSecret (pp_crypto pp) (pp_encryptionKey pp) c = Inr (str_of ''url'' data)"
    using secret_roundtrip_core [OF assms(2,1), of "pn_seq s" "str_of ''url'' data"] assms(4) c(2) by simp
  let ?body = "alert_body pp test_alert (pn_now s)"
  have send: "sendDiscordAlert pp discord c test_alert t = (case discord (str_of ''url'' data) ?body of
      None \<Rightarrow> (Inl FetchFailed, t) | Some status \<Rightarrow> (Inr (200 \<le> status \<and> status \<le> 299, status), t))"
    by (simp add: sendDiscordAlert_def url t(2))
  have run: "postAlertTest pp discord sess (Some k) t =
      andThen (sendDiscordAlert pp discord c test_alert) (\<lambda>(ok, status).
        andThen (mark_delivery ?i ok) (\<lambda>_.
          andThen (panel_audit (Some (ss_userId ss)) ''alert.test'' ''webhook_destination'' ?i
              (Some (JObj [(''ok'', JBool ok), (''status'', JNum (of_int status))]))) (\<lambda>_.
            ret (reply_json 200 [(''ok'', JBool ok), (''status'', JNum (of_int status))])))) t"
    by (simp add: postAlertTest_def guarded_def c(1) request_json_def parsed_body_def assms(7,8) andThen_def ret_def find w)
  have mark: "mark_delivery ?i ok t = (Inr (), t\<lparr>pn_webhooks := pn_webhooks s
      @ [if ok then ?w\<lparr>wh_lastSuccessAt := Some (pn_now s)\<rparr> else ?w\<lparr>wh_lastFailureAt := Some (pn_now s)\<rparr>]\<rparr>)" for ok
    unfolding mark_delivery_def find by (simp add: t same w)
  show ?thesis
  proof (cases "discord (str_of ''url'' data) ?body")
    case None
    then show ?thesis by (intro exI [of _ ?w]) (simp add: t run send andThen_def)
  next
    case (Some status)
    let ?ok = "200 \<le> status \<and> status \<le> 299"
    show ?thesis
      unfolding run send
      by (intro exI [of _ ?w]) (simp add: Some t andThen_def send mark [of ?ok, simplified] panel_audit_run ret_def Let_def)
  qed
qed

definition webhook_body :: json where
  "webhook_body = JObj [(''name'', JStr ''ops''), (''url'', JStr ''https://discord.test/x'')]"

theorem webhook_reaches_its_url_witness:
  "\<exists>u. postAlertTest api_platform (\<lambda>url _. if url = ''https://discord.test/x'' then Some 204 else None) (Some admin_session)
      (Some (JObj [(''webhookId'', JStr ''id1'')])) (snd (postWebhooks api_platform (Some admin_session) (Some webhook_body) api_panel))
    = (Inr (reply_json 200 [(''ok'', JBool True), (''status'', JNum 204)]), u)"
proof -
  have platform: "pp_safeParse api_platform = plain_validator (\<lambda>_ _. True)" "pp_crypto api_platform = plain_crypto"
    "pp_encryptionKey api_platform = Some (replicate 64 CHR ''A'')" "pp_cuid api_platform n = ''id'' @ show_nat n" for n
    by (simp_all add: api_platform_def refusing_platform_def pp_encryptionKey_def)
  have key: "isEncryptionKeyConfigured (pp_crypto api_platform) (pp_encryptionKey api_platform)" and laws: "crypto_laws (pp_crypto api_platform)"
    by (simp_all only: platform api_key plain_crypto_laws)
  obtain data where data: "pp_safeParse api_platform createWebhookSchema (Some webhook_body) = Inr data"
    "str_of ''url'' data = ''https://discord.test/x''"
    by (simp add: platform plain_validator_def createWebhookSchema_def webhook_body_def str_of_def ALERT_EVENT_TYPES_def)
  have request: "pp_safeParse api_platform testAlertSchema (Some (JObj [(''webhookId'', JStr ''id1'')])) = Inr (Some (JObj [(''webhookId'', JStr ''id1'')]))"
    by (simp add: platform plain_validator_def testAlertSchema_def)
  have one: "show_nat (Suc 0) = ''1''" by code_simp
  have i: "str_of ''webhookId'' (Some (JObj [(''webhookId'', JStr ''id1'')])) = pp_cuid api_platform (Suc (pn_seq api_panel))"
    unfolding platform by (simp add: one str_of_def api_panel_def sample_panel_def)
  obtain c where c: "encryptSecret plain_crypto (Some (replicate 64 CHR ''A'')) 0 ''https://discord.test/x'' = Inr c"
    using secret_roundtrip_core [OF plain_crypto_laws api_key] by blast
  obtain resp t where run: "postWebhooks api_platform (Some admin_session) (Some webhook_body) api_panel = (Inr resp, t)" "rs_status resp = 201"
    by (simp add: postWebhooks_def guarded_def admin_session_def request_json_def parsed_body_def data andThen_def ret_def encrypt_run_def
        platform(2,3) c panel_cuid_def insert_webhook_def panel_audit_run new_webhook_def reply_json_def api_panel_def sample_panel_def)
  have "str_of ''url'' data \<noteq> []" using data(2) by simp
  from webhook_reaches_its_url [OF key laws data(1) this run request i, of "\<lambda>url _. if url = ''https://discord.test/x'' then Some 204 else None"]
  show ?thesis unfolding run(1) data(2) by (auto simp: Let_def)
qed

end
