(* ===== verification/Panel_Api.thy ===== *)
theory Panel_Api
  imports Admin_Api Deployments Webhooks
begin

text \<open>
  The panel's HTTP interface as a whole: every modelled route is a constructor of \<open>request\<close>, \<open>handle\<close>
  gives it to its handler as the file-based routing of the framework does, and \<open>serve\<close> resolves the
  session first. The route handlers, the background jobs and the sign-up of users are the steps of a relation
  over the panel's state, and its invariants are proved once for every invariant that the
  writes of the components keep.
\<close>

subsection \<open>Requests\<close>

datatype request =
  GetBots | GetBot string | PostBots "json option" | PatchBot string "json option" | RotateToken string "json option"
| StartBot string | StopBot string | RestartBot string | ExplainCrash string
| GetUsers | PatchUser string "json option" | GetCustomers | PostCustomers "json option"
| GetWorkers | PostWorkers "json option" | RestartWorker string | DrainWorker string | GetRebalance
| GetSystemState | PatchSystemState "json option" | GetFleetOverview
| GetAlerts "query_number option" "string option" | EvaluateAlerts | TestAlert "json option"
| GetLogs "string option" "string option" "query_number option" | GetPlugins | GetSecurity
| GetDeployments | PostDeployments "json option"
| GetWebhooks | PostWebhooks "json option" | DeleteWebhook string
| CustomerBots | CustomerBot string | CustomerRestart string | CustomerLogs string "query_number option"

record api_env =
  ae_platform :: panel_platform
  ae_discord :: discord
  ae_message :: "panel_exn \<Rightarrow> string"

fun handle :: "api_env \<Rightarrow> session option \<Rightarrow> request \<Rightarrow> response pact" where
  "handle env sess GetBots = getBots (ae_platform env) sess"
| "handle env sess (GetBot i) = getBot (ae_platform env) sess i"
| "handle env sess (PostBots body) = postBots (ae_platform env) sess body"
| "handle env sess (PatchBot i body) = patchBot (ae_platform env) sess i body"
| "handle env sess (RotateToken i body) = postRotateToken (ae_platform env) sess i body"
| "handle env sess (StartBot i) = postBotStart (ae_platform env) sess i"
| "handle env sess (StopBot i) = postBotStop (ae_platform env) sess i"
| "handle env sess (RestartBot i) = postBotRestart (ae_platform env) sess i"
| "handle env sess (ExplainCrash i) = postExplainCrash sess i"
| "handle env sess GetUsers = getUsers (ae_platform env) sess"
| "handle env sess (PatchUser i body) = patchUser (ae_platform env) sess i body"
| "handle env sess GetCustomers = getCustomers (ae_platform env) sess"
| "handle env sess (PostCustomers body) = postCustomers (ae_platform env) sess body"
| "handle env sess GetWorkers = getWorkers (ae_platform env) sess"
| "handle env sess (PostWorkers body) = postWorkers (ae_platform env) sess body"
| "handle env sess (RestartWorker i) = postWorkerRestart (ae_platform env) sess i"
| "handle env sess (DrainWorker i) = postWorkerDrain sess i"
| "handle env sess GetRebalance = getRebalance sess"
| "handle env sess GetSystemState = getSystemState sess"
| "handle env sess (PatchSystemState body) = patchSystemState (ae_platform env) sess body"
| "handle env sess GetFleetOverview = getFleetOverview sess"
| "handle env sess (GetAlerts limit status) = getAlerts (ae_platform env) sess limit status"
| "handle env sess EvaluateAlerts = postAlertsEvaluate builtinPlugins sess"
| "handle env sess (TestAlert body) = postAlertTest (ae_platform env) (ae_discord env) sess body"
| "handle env sess (GetLogs targetType targetId limit) = getLogs (ae_platform env) sess targetType targetId limit"
| "handle env sess GetPlugins = getPluginsRoute builtinPlugins sess"
| "handle env sess GetSecurity = getSecurity (ae_platform env) builtinPlugins sess"
| "handle env sess GetDeployments = getDeployments (ae_platform env) sess"
| "handle env sess (PostDeployments body) = postDeployments (ae_platform env) builtinPlugins (ae_message env) sess body"
| "handle env sess GetWebhooks = getWebhooks (ae_platform env) sess"
| "handle env sess (PostWebhooks body) = postWebhooks (ae_platform env) sess body"
| "handle env sess (DeleteWebhook i) = deleteWebhook sess i"
| "handle env sess CustomerBots = getCustomerBots (ae_platform env) sess"
| "handle env sess (CustomerBot i) = getCustomerBot (ae_platform env) sess i"
| "handle env sess (CustomerRestart i) = postCustomerRestart (ae_platform env) sess i"
| "handle env sess (CustomerLogs i limit) = getCustomerLogs (ae_platform env) sess i limit"

text \<open>An exception that leaves a handler is the framework's 500; what was written before it stays.\<close>

definition serve :: "api_env \<Rightarrow> string option \<Rightarrow> request \<Rightarrow> panel \<Rightarrow> response \<times> panel" where
  "serve env who req s = (case andThen (auth (ae_platform env) who) (\<lambda>sess. handle env sess req) s of
     (Inl _, t) \<Rightarrow> (reply_json 500 [], t)
   | (Inr r, t) \<Rightarrow> (r, t))"

subsection \<open>A refused request changes nothing\<close>

datatype access = SignedIn | Administrator | Owner

fun required :: "request \<Rightarrow> access" where
  "required CustomerBots = SignedIn"
| "required (CustomerBot _) = SignedIn"
| "required (CustomerRestart _) = SignedIn"
| "required (CustomerLogs _ _) = SignedIn"
| "required (PatchUser _ _) = Owner"
| "required _ = Administrator"

definition allowed :: "access \<Rightarrow> session option \<Rightarrow> bool" where
  "allowed a sess \<longleftrightarrow> (case sess of None \<Rightarrow> False | Some ss \<Rightarrow>
     (case a of SignedIn \<Rightarrow> True | Administrator \<Rightarrow> ss_role ss \<in> {RoleAdmin, RoleOwner} | Owner \<Rightarrow> ss_role ss = RoleOwner))"

lemma allowed_by_rank: "allowed a (Some ss) \<longleftrightarrow> (case a of SignedIn \<Rightarrow> RoleMember | Administrator \<Rightarrow> RoleAdmin | Owner \<Rightarrow> RoleOwner) \<le> ss_role ss"
  by (cases a; cases "ss_role ss") (simp_all add: allowed_def less_eq_role_def)

text \<open>A promotion never takes away what a session may request.\<close>

lemma promotion_keeps_access:
  assumes "allowed (required req) (Some ss)" and "ss_role ss \<le> ss_role ss'"
  shows "allowed (required req) (Some ss')"
  using assms unfolding allowed_by_rank by (rule order_trans)

lemma guard_refuses:
  "\<not> allowed Administrator sess \<Longrightarrow> requireAdmin sess = Inl (error_json (if sess = None then 401 else 403) (if sess = None then ''Unauthorized'' else ''Forbidden''))"
  "\<not> allowed Owner sess \<Longrightarrow> requireOwner sess = Inl (error_json (if sess = None then 401 else 403) (if sess = None then ''Unauthorized'' else ''Forbidden''))"
  "\<not> allowed SignedIn sess \<Longrightarrow> requireCustomerSession sess = Inl (error_json (if sess = None then 401 else 403) (if sess = None then ''Unauthorized'' else ''Forbidden''))"
  by (cases sess; auto simp: allowed_def)+

lemmas routes = getBots_def getBot_def postBots_def patchBot_def postRotateToken_def postBotStart_def postBotStop_def postBotRestart_def
  postBotAction_def postExplainCrash_def getUsers_def patchUser_def getCustomers_def postCustomers_def getWorkers_def postWorkers_def
  postWorkerRestart_def postWorkerDrain_def getRebalance_def getSystemState_def patchSystemState_def getFleetOverview_def getAlerts_def
  postAlertsEvaluate_def postAlertTest_def getLogs_def getPluginsRoute_def getSecurity_def getDeployments_def postDeployments_def
  getWebhooks_def postWebhooks_def deleteWebhook_def getCustomerBots_def getCustomerBot_def postCustomerRestart_def getCustomerLogs_def

lemma refused_core:
  assumes "\<not> allowed (required req) sess"
  shows "handle env sess req s =
    (Inr (error_json (if sess = None then 401 else 403) (if sess = None then ''Unauthorized'' else ''Forbidden'')), s)"
  using assms by (cases req) (simp_all add: routes guarded_def guard_refuses ret_def)

text \<open>
  C7: Every route is guarded: a request without session is answered with 401, one whose user lacks the role with
  403, and neither reads or writes anything else. Serving it can at most link the Discord account of
  the signed-in user.
\<close>

theorem refused_requests_change_nothing:
  assumes "\<not> allowed (required req) sess"
  shows "handle env sess req s =
    (Inr (error_json (if sess = None then 401 else 403) (if sess = None then ''Unauthorized'' else ''Forbidden'')), s)"
  using assms by (rule refused_core)

theorem refused_requests_change_nothing_witness:
  "handle \<lparr>ae_platform = api_platform, ae_discord = (\<lambda>_ _. None), ae_message = (\<lambda>_. '''')\<rparr>
      (Some \<lparr>ss_userId = ''u1'', ss_role = RoleAdmin, ss_discordUserId = None\<rparr>) (PatchUser ''u2'' None) api_panel
    = (Inr (error_json 403 ''Forbidden''), api_panel)"
  by (subst refused_requests_change_nothing) (simp_all add: allowed_def)

subsection \<open>What the panel's invariants look at\<close>

text \<open>
  The bots with their workers, the workers with their counters, the join table, and the users with
  their roles. An invariant of these is kept by the whole interface once it is kept by the few
  writes that change them.
\<close>

definition panel_view :: "panel \<Rightarrow> (string \<times> string option) list \<times> (string \<times> int) list \<times> assignment_row list \<times> (string \<times> role) list" where
  "panel_view s = (map (\<lambda>b. (bo_id b, bo_workerGroupId b)) (pn_bots s), map (\<lambda>w. (wk_id w, wk_currentBots w)) (pn_workers s),
     pn_assignments s, map (\<lambda>u. (us_id u, us_role u)) (pn_users s))"

definition set_role :: "string \<Rightarrow> role \<Rightarrow> panel \<Rightarrow> panel" where
  "set_role i r s = s\<lparr>pn_users := updateWhere (\<lambda>u. us_id u = i) (\<lambda>u. u\<lparr>us_role := r\<rparr>) (pn_users s)\<rparr>"

locale panel_frame =
  fixes I :: "panel \<Rightarrow> bool"
  assumes frame: "I s \<Longrightarrow> panel_view t = panel_view s \<Longrightarrow> I t"
    and move: "I s \<Longrightarrow> I (snd (setBotWorker i g s))"
    and new_bot: "I s \<Longrightarrow> bo_id b \<notin> bo_id ` set (pn_bots s) \<Longrightarrow> bo_workerGroupId b = None \<Longrightarrow> I (s\<lparr>pn_bots := pn_bots s @ [b]\<rparr>)"
    and new_worker: "I s \<Longrightarrow> wk_id w \<notin> wk_id ` set (pn_workers s) \<Longrightarrow> wk_id w \<noteq> [] \<Longrightarrow> wk_currentBots w = 0
      \<Longrightarrow> I (s\<lparr>pn_workers := pn_workers s @ [w]\<rparr>)"
begin

lemma quietI: "(\<And>s. panel_view (snd (m s)) = panel_view s) \<Longrightarrow> keeps I m"
  by (rule keepsI, rule frame)

text \<open>The same rules at one state, for handlers that look at the state before they go on.\<close>

lemma at_andThen: "I (snd (m s)) \<Longrightarrow> (\<And>x t. I t \<Longrightarrow> I (snd (k x t))) \<Longrightarrow> I (snd (andThen m k s))"
  by (auto simp: andThen_def split: prod.splits sum.splits)

lemma at_pair: "I s \<Longrightarrow> I (snd (r, s))"
  by simp

lemma at_if: "(c \<Longrightarrow> I (snd x)) \<Longrightarrow> (\<not> c \<Longrightarrow> I (snd y)) \<Longrightarrow> I (snd (if c then x else y))"
  by simp

lemma at_option: "I (snd x) \<Longrightarrow> (\<And>y. v = Some y \<Longrightarrow> I (snd (f y))) \<Longrightarrow> I (snd (case v of None \<Rightarrow> x | Some y \<Rightarrow> f y))"
  by (cases v) auto

lemma at_let: "I (snd (f v)) \<Longrightarrow> I (snd (let x = v in f x))"
  by (simp add: Let_def)

lemma at_apply: "keeps I m \<Longrightarrow> I s \<Longrightarrow> I (snd (m s))"
  by (rule keepsD)

lemmas at = at_andThen at_pair at_if at_option at_let

lemma keeps_setBotWorker: "keeps I (setBotWorker i g)"
  by (rule keepsI, rule move)

lemma keeps_guarded: "(\<And>ss. keeps I (k ss)) \<Longrightarrow> keeps I (guarded guard k)"
  by (auto simp: guarded_def intro: keeps_intros split: sum.splits)

lemma keeps_parsed: "(\<And>data. keeps I (k data)) \<Longrightarrow> keeps I (parsed_body v f schema j k)"
  by (auto simp: parsed_body_def intro: keeps_intros split: sum.splits)

lemma keeps_request_json: "keeps I (request_json body)"
  by (auto simp: request_json_def intro: keeps_intros split: option.splits)

lemma keeps_quiet:
  "keeps I (panel_audit actor action ty i md)" "keeps I (panel_cuid pp)" "keeps I (encrypt_run pp plaintext)"
  "keeps I (create_health i)" "keeps I (insert_customer c)" "keeps I (insert_deployment d)" "keeps I (finish_deployment i st)"
  "keeps I (insert_webhook w)" "keeps I (mark_delivery i ok)" "keeps I (sendDiscordAlert pp discord url payload)"
  "keeps I (setMaintenanceMode on who)" "keeps I (find_bot_or_throw i)" "keeps I (queue_restarts i who)" "keeps I (runner_hook action)"
  by (rule quietI, auto simp: panel_view_def panel_audit_run panel_cuid_def encrypt_run_def create_health_def insert_customer_def
      insert_deployment_def finish_deployment_def insert_webhook_def mark_delivery_def sendDiscordAlert_def setMaintenanceMode_def
      find_bot_or_throw_def queue_restarts_cases runner_hook_def andThen_def modify_def split: sum.splits option.splits if_splits)+

lemma keeps_update_bot:
  assumes "\<And>b. bo_id (g b) = bo_id b \<and> bo_workerGroupId (g b) = bo_workerGroupId b"
  shows "keeps I (update_bot i g)"
proof (rule quietI)
  have "map (\<lambda>b. (bo_id b, bo_workerGroupId b)) (updateWhere p g rows) = map (\<lambda>b. (bo_id b, bo_workerGroupId b)) rows" for p rows
    by (rule updateWhere_keys) (simp add: assms)
  then show "panel_view (snd (update_bot i g s)) = panel_view s" for s by (simp add: update_bot_def panel_view_def)
qed

lemma keeps_update_worker:
  assumes "\<And>w. wk_id (g w) = wk_id w \<and> wk_currentBots (g w) = wk_currentBots w"
  shows "keeps I (update_worker i g)"
proof (rule quietI)
  have "map (\<lambda>w. (wk_id w, wk_currentBots w)) (updateWhere p g rows) = map (\<lambda>w. (wk_id w, wk_currentBots w)) rows" for p rows
    by (rule updateWhere_keys) (simp add: assms)
  then show "panel_view (snd (update_worker i g s)) = panel_view s" for s by (simp add: update_worker_def panel_view_def)
qed

lemmas keeps_rows = keeps_intros keeps_quiet keeps_setBotWorker keeps_guarded keeps_parsed keeps_request_json

lemma keeps_insert_bot: "bo_workerGroupId b = None \<Longrightarrow> keeps I (insert_bot b)"
  by (rule keepsI) (simp add: insert_bot_def new_bot)

lemma keeps_insert_worker: "wk_id w \<noteq> [] \<Longrightarrow> wk_currentBots w = 0 \<Longrightarrow> keeps I (insert_worker w)"
  by (rule keepsI) (simp add: insert_worker_def new_worker)

lemma view_marked: "panel_view (marked i st calls s) = panel_view s"
proof -
  have "map (\<lambda>b. (bo_id b, bo_workerGroupId b)) (restatus i st rows) = map (\<lambda>b. (bo_id b, bo_workerGroupId b)) rows" for rows
    unfolding restatus_def by (rule updateWhere_keys) simp
  then show ?thesis by (simp add: panel_view_def marked_def)
qed

lemma keeps_bot_action: "keeps I (performBotAction pp i act actor)"
proof (rule quietI)
  fix s
  show "panel_view (snd (performBotAction pp i act actor s)) = panel_view s"
  proof (cases "findBy bo_id i (pn_bots s)")
    case None
    then show ?thesis by (simp add: performBotAction_def)
  next
    case (Some b)
    have one: "panel_view (count_one i t) = panel_view t" "panel_view (t\<lparr>pn_audit := es\<rparr>) = panel_view t" for t es
      by (simp_all add: panel_view_def count_one_def)
    from Some have "findBy bo_id i (pn_bots s) \<noteq> None" by simp
    then show ?thesis
      by (rule performBotAction_run [of i s pp act actor]) (simp_all add: Let_def view_marked one)
  qed
qed

lemma keeps_evaluate: "keeps I (evaluateAlertRules plugins actor)"
proof -
  have "keeps I (evaluate_rule rule created)" for rule created
    by (rule quietI) (auto simp: evaluate_rule_def panel_view_def Let_def split: option.splits if_splits)
  then show ?thesis unfolding evaluateAlertRules_def by (auto intro!: keeps_rows simp: Let_def)
qed

lemma keeps_drain: "keeps I (drainWorker i actor)"
proof -
  have finish: "keeps I (finish_worker_drain i actor moved)" for moved
    unfolding finish_worker_drain_def
    by (rule keepsI, intro at at_apply keeps_rows keeps_update_worker) simp_all
  show ?thesis
    unfolding drainWorker_def apply_moves_def
    by (rule keepsI, intro at at_apply keeps_rows keeps_update_worker finish) simp_all
qed

lemma keeps_create_bot: "keeps I (create_bot pp input)"
  unfolding create_bot_def
  by (intro keeps_rows, rule keepsI, intro at at_apply keeps_rows keeps_insert_bot) (simp_all add: new_bot_def)

lemma keeps_deploy: "keeps I (deploy pp (hook_plugins builtinPlugins) actor d)"
proof -
  have hooks: "keeps I (run_hook dh_beforeDeploy p) \<and> keeps I (run_hook dh_afterDeploy p)" if "p \<in> set (hook_plugins builtinPlugins)" for p
    using that by (auto simp: builtin_hooks run_hook_def pm2RunnerPlugin_def dockerRunnerPlugin_def intro: keeps_rows)
  have loop: "keeps I (forEach ps () (\<lambda>p _. f p))" if "\<forall>p \<in> set ps. keeps I (f p)" for ps and f :: "plugin \<Rightarrow> unit pact"
    using that by (induction ps) (auto intro!: keeps_rows)
  have "keeps I (run_hooks (hook_plugins builtinPlugins))"
    unfolding run_hooks_def using hooks by (intro keeps_rows loop) auto
  moreover have "keeps I (announce pp hooks actor d e n)" for hooks e n
    unfolding announce_def by (rule keepsI, intro at at_apply keeps_rows)
  ultimately show ?thesis unfolding deploy_def by (intro keeps_rows)
qed

lemma keeps_or_catch: "keeps I m \<Longrightarrow> (\<And>e. keeps I (h e)) \<Longrightarrow> keeps I (or_catch m h)"
  by (fastforce simp: keeps_def or_catch_def split: prod.splits sum.splits)

lemma keeps_deployment_failed: "keeps I (deployment_failed pp message actor d e)"
  unfolding deployment_failed_def by (intro keeps_rows)

text \<open>The handlers that only read.\<close>

lemma keeps_reads:
  "keeps I (getBots pp sess)" "keeps I (getBot pp sess j)" "keeps I (getUsers pp sess)" "keeps I (getCustomers pp sess)" "keeps I (getWorkers pp sess)"
  "keeps I (getRebalance sess)" "keeps I (getSystemState sess)" "keeps I (getFleetOverview sess)" "keeps I (getAlerts pp sess limit st)"
  "keeps I (getLogs pp sess ty i limit)" "keeps I (getPluginsRoute plugins sess)" "keeps I (getSecurity pp plugins sess)"
  "keeps I (getDeployments pp sess)" "keeps I (getWebhooks pp sess)" "keeps I (getCustomerBots pp sess)" "keeps I (getCustomerBot pp sess j)"
  "keeps I (getCustomerLogs pp sess j limit)"
  unfolding routes take_rows_def by (intro keeps_rows)+

lemma keeps_bot_routes:
  "keeps I (postBots pp sess body)" "keeps I (patchBot pp sess i body)" "keeps I (postRotateToken pp sess i body)"
  "keeps I (postBotAction act pp sess i)" "keeps I (postExplainCrash sess i)" "keeps I (postCustomerRestart pp sess i)"
proof -
  have add: "keeps I (add_bot pp ss input)" for ss input
    unfolding add_bot_def by (intro keeps_rows keeps_create_bot)
  show "keeps I (postBots pp sess body)"
    unfolding postBots_def by (intro keeps_rows, rule keepsI, intro at at_apply keeps_rows add)
  show "keeps I (patchBot pp sess i body)"
    unfolding patchBot_def
    by (intro keeps_rows, rule keepsI, intro at at_apply keeps_rows keeps_update_bot) (simp_all add: patch_row_def)
  show "keeps I (postRotateToken pp sess i body)"
    unfolding postRotateToken_def by (intro keeps_rows, rule keepsI, intro at at_apply keeps_rows keeps_update_bot) simp_all
  show "keeps I (postBotAction act pp sess i)"
    unfolding postBotAction_def
    by (intro keeps_rows, rule keepsI) (auto dest: keeps_result [OF keeps_bot_action] split: prod.splits sum.splits panel_exn.splits)
  show "keeps I (postExplainCrash sess i)"
    unfolding postExplainCrash_def
    by (intro keeps_rows, rule quietI) (auto simp: panel_view_def split: option.splits prod.splits sum.splits)
  show "keeps I (postCustomerRestart pp sess i)"
    unfolding postCustomerRestart_def by (intro keeps_rows, rule keepsI, intro at at_apply keeps_rows keeps_bot_action) simp_all
qed

lemma keeps_admin_routes:
  "keeps I (postCustomers pp sess body)" "keeps I (postWorkerRestart pp sess i)" "keeps I (postWorkerDrain sess i)"
  "keeps I (patchSystemState pp sess body)" "keeps I (postAlertsEvaluate plugins sess)" "keeps I (postAlertTest pp discord sess body)"
  "keeps I (postDeployments pp builtinPlugins message sess body)" "keeps I (postWebhooks pp sess body)" "keeps I (deleteWebhook sess i)"
proof -
  show "keeps I (postCustomers pp sess body)"
    unfolding postCustomers_def by (intro keeps_rows, rule keepsI, intro at at_apply keeps_rows)
  show "keeps I (postWorkerRestart pp sess i)"
    unfolding postWorkerRestart_def by (intro keeps_rows, rule keepsI, intro at at_apply keeps_rows keeps_update_worker) simp_all
  show "keeps I (postWorkerDrain sess i)"
    unfolding postWorkerDrain_def
    by (intro keeps_rows, rule keepsI) (auto dest: keeps_result [OF keeps_drain] split: prod.splits sum.splits panel_exn.splits)
  show "keeps I (patchSystemState pp sess body)"
    unfolding patchSystemState_def by (intro keeps_rows)
  show "keeps I (postAlertsEvaluate plugins sess)"
    unfolding postAlertsEvaluate_def by (intro keeps_rows keeps_evaluate)
  show "keeps I (postAlertTest pp discord sess body)"
    unfolding postAlertTest_def by (intro keeps_rows, rule keepsI, intro at at_apply keeps_rows)
  show "keeps I (postDeployments pp builtinPlugins message sess body)"
    unfolding postDeployments_def
    by (intro keeps_rows, rule keepsI, intro at at_apply keeps_rows keeps_or_catch keeps_deploy keeps_deployment_failed)
  show "keeps I (postWebhooks pp sess body)"
    unfolding postWebhooks_def by (intro keeps_rows, rule keepsI, intro at at_apply keeps_rows)
  show "keeps I (deleteWebhook sess i)"
    unfolding deleteWebhook_def by (intro keeps_rows keeps_modify) (rule frame, simp_all add: panel_view_def)
qed

lemma keeps_cuid_then:
  assumes "\<And>n. pp_cuid pp n \<noteq> []" and "\<And>i. i \<noteq> [] \<Longrightarrow> keeps I (k i)"
  shows "keeps I (andThen (panel_cuid pp) k)"
proof (rule keepsI)
  fix s assume "I s"
  then have "I (s\<lparr>pn_seq := Suc (pn_seq s)\<rparr>)" using keepsD [OF keeps_quiet(2)] by (simp add: panel_cuid_def)
  from keepsD [OF assms(2) [OF assms(1)] this]
  show "I (snd (andThen (panel_cuid pp) k s))" by (simp add: andThen_def panel_cuid_def)
qed

lemma keeps_postWorkers: "(\<And>n. pp_cuid pp n \<noteq> []) \<Longrightarrow> keeps I (postWorkers pp sess body)"
  unfolding postWorkers_def
  by (intro keeps_guarded keeps_andThen keeps_request_json keeps_parsed keeps_cuid_then, assumption,
      rule keepsI, intro at at_apply keeps_rows keeps_insert_worker) (simp_all add: new_worker_def)

lemma keeps_other:
  assumes "\<And>n. pp_cuid (ae_platform env) n \<noteq> []" and "\<nexists>i body. req = PatchUser i body"
  shows "keeps I (handle env sess req)"
  using assms(2)
  by (cases req) (simp_all add: keeps_reads keeps_bot_routes keeps_admin_routes keeps_postWorkers assms(1)
      postBotStart_def postBotStop_def postBotRestart_def)

lemma keeps_jobs:
  "keeps I (processStaggeredRestart pp job)" "keeps I (processExplainCrash crash)"
proof -
  show "keeps I (processStaggeredRestart pp job)"
    unfolding processStaggeredRestart_def by (rule keepsI, intro at at_apply keeps_rows keeps_bot_action)
  show "keeps I (processExplainCrash crash)"
    unfolding processExplainCrash_def by (auto simp: Let_def intro!: keeps_rows)
qed

end

text \<open>An invariant that also looks at the users survives a sign-up and every change of role the code makes.\<close>

locale panel_invariant = panel_frame +
  assumes new_user: "I s \<Longrightarrow> us_id u \<notin> us_id ` set (pn_users s) \<Longrightarrow> I (s\<lparr>pn_users := pn_users s @ [u]\<rparr>)"
    and role: "I s \<Longrightarrow> findBy us_id i (pn_users s) = Some u \<Longrightarrow> us_role u \<noteq> RoleOwner \<or> r = RoleOwner \<or> 1 < count_owners s
      \<Longrightarrow> I (set_role i r s)"
begin

lemma at_body: "I s \<Longrightarrow> (\<And>data. I (snd (k data s))) \<Longrightarrow> I (snd (andThen (request_json body) (\<lambda>j. parsed_body v f schema j k) s))"
  by (auto simp: request_json_def parsed_body_def andThen_def raise_def ret_def split: option.splits sum.splits)

lemma at_role:
  assumes "I s" and "findBy us_id i (pn_users s) = Some u" and "us_role u \<noteq> RoleOwner \<or> r = RoleOwner \<or> 1 < count_owners s"
  shows "I (snd (update_user i (\<lambda>u. u\<lparr>us_role := r\<rparr>) s))"
  using role [OF assms] by (simp add: update_user_def assms(2) set_role_def)

lemma keeps_patchUser: "keeps I (patchUser pp sess i body)"
  unfolding patchUser_def
  by (intro keeps_guarded, rule keepsI, intro at_pair at_option at_body at_let at_if at_andThen at_role at_apply keeps_rows) auto

lemma keeps_link:
  assumes "I s" and "findBy us_id i (pn_users s) = Some u"
  shows "I (snd (link_discord i d promote s))"
proof -
  have other: "map (\<lambda>u. (us_id u, us_role u)) (updateWhere (\<lambda>r. us_id r = i) (linked d False) rows) = map (\<lambda>u. (us_id u, us_role u)) rows" for rows
    by (rule updateWhere_keys) (simp add: linked_def)
  have same: "map (\<lambda>u. (us_id u, us_role u)) (updateWhere (\<lambda>r. us_id r = i) (linked d True) rows)
      = map (\<lambda>u. (us_id u, us_role u)) (updateWhere (\<lambda>r. us_id r = i) (\<lambda>u. u\<lparr>us_role := RoleOwner\<rparr>) rows)" for rows
    by (induction rows) (auto simp: linked_def)
  have "I (s\<lparr>pn_users := updateWhere (\<lambda>r. us_id r = i) (linked d promote) (pn_users s)\<rparr>)"
  proof (cases promote)
    case True
    have "I (set_role i RoleOwner s)" by (rule role [OF assms]) simp
    then show ?thesis by (rule frame) (simp add: True panel_view_def set_role_def same)
  next
    case False
    show ?thesis by (rule frame [OF assms(1)]) (simp add: False panel_view_def other)
  qed
  then show ?thesis using assms(1) by (simp add: link_discord_def Let_def)
qed

lemma keeps_auth: "keeps I (auth pp who)"
proof (rule keepsI)
  fix s assume s: "I s"
  have callback: "I (snd (session_callback pp u s))" if u: "findBy us_id i (pn_users s) = Some u" for i u
  proof -
    have "us_id u = i" using u by (rule findBy_key)
    then have find: "findBy us_id (us_id u) (pn_users s) = Some u" using u by simp
    have link: "I (snd (andThen (link_discord (us_id u) d promote) (\<lambda>updated. ret (session_of updated)) s))" for d promote
      by (rule at_andThen, rule keeps_link [OF s find], simp add: ret_def)
    show ?thesis unfolding session_callback_def by (intro at_if at_pair at_option at_let link s)
  qed
  show "I (snd (auth pp who s))"
  proof (cases "Option.bind who (\<lambda>i. findBy us_id i (pn_users s))")
    case None
    then show ?thesis using s by (simp add: auth_def)
  next
    case (Some u)
    then obtain i where "findBy us_id i (pn_users s) = Some u" by (auto simp: Option.bind_eq_Some_conv)
    from callback [OF this] have "I (snd (andThen (session_callback pp u) (\<lambda>ss. ret (Some ss)) s))"
      by (rule at_andThen) (simp add: ret_def)
    then show ?thesis using Some by (simp add: auth_def)
  qed
qed

text \<open>Every request.\<close>

lemma keeps_handle:
  assumes "\<And>n. pp_cuid (ae_platform env) n \<noteq> []"
  shows "keeps I (handle env sess req)"
proof (cases "\<exists>i body. req = PatchUser i body")
  case True
  then show ?thesis by (auto simp: keeps_patchUser)
next
  case False
  then show ?thesis by (intro keeps_other assms)
qed

lemma keeps_serve:
  assumes "\<And>n. pp_cuid (ae_platform env) n \<noteq> []" and "I s"
  shows "I (snd (serve env who req s))"
proof -
  have "keeps I (andThen (auth (ae_platform env) who) (\<lambda>sess. handle env sess req))"
    by (intro keeps_andThen keeps_auth keeps_handle assms(1))
  then show ?thesis using assms(2) by (auto simp: serve_def keeps_def split: prod.splits sum.splits)
qed

end

subsection \<open>Steps and reachable states\<close>

text \<open>
  A user signs up through Auth.js, which inserts the row; time passes and other components write
  the tables no invariant looks at.
\<close>

inductive panel_step :: "api_env \<Rightarrow> panel \<Rightarrow> panel \<Rightarrow> bool" for env where
  request: "panel_step env s (snd (serve env who req s))"
| restart: "panel_step env s (snd (processStaggeredRestart (ae_platform env) job s))"
| explain: "panel_step env s (snd (processExplainCrash crash s))"
| alerts: "panel_step env s (snd (evaluateAlertRules builtinPlugins None s))"
| sign_up: "us_id u \<notin> us_id ` set (pn_users s) \<Longrightarrow> panel_step env s (s\<lparr>pn_users := pn_users s @ [u]\<rparr>)"
| others: "panel_view t = panel_view s \<Longrightarrow> panel_step env s t"

inductive_cases panel_stepE: "panel_step env s t"

inductive panel_reachable :: "api_env \<Rightarrow> panel \<Rightarrow> panel \<Rightarrow> bool" for env s0 where
  start: "panel_reachable env s0 s0"
| step: "panel_reachable env s0 s \<Longrightarrow> panel_step env s t \<Longrightarrow> panel_reachable env s0 t"

context panel_invariant begin

lemma step_keeps:
  assumes "panel_step env s t" and "\<And>n. pp_cuid (ae_platform env) n \<noteq> []" and "I s"
  shows "I t"
  using assms(1)
proof cases
  case sign_up
  then show ?thesis using assms(3) by (simp add: new_user)
next
  case others
  then show ?thesis using assms(3) frame by blast
qed (simp_all add: keeps_serve assms keepsD [OF keeps_jobs(1)] keepsD [OF keeps_jobs(2)] keepsD [OF keeps_evaluate])

lemma reachable_keeps:
  assumes "panel_reachable env s0 s" and "\<And>n. pp_cuid (ae_platform env) n \<noteq> []" and "I s0"
  shows "I s"
  using assms(1)
proof induction
  case (step s t)
  show ?case by (rule step_keeps [OF step.hyps(2) assms(2) step.IH])
qed (rule assms(3))

end

subsection \<open>The fleet stays consistent\<close>

definition fleet_view_ok :: "(string \<times> string option) list \<times> (string \<times> int) list \<times> assignment_row list \<times> (string \<times> role) list \<Rightarrow> bool" where
  "fleet_view_ok v = (case v of (bots, workers, assignments, _) \<Rightarrow>
     distinct (map fst bots) \<and> distinct (map fst workers) \<and> [] \<notin> fst ` set workers
     \<and> (\<forall>(i, g) \<in> set bots. set (case g of None \<Rightarrow> [] | Some w \<Rightarrow> [w]) \<subseteq> fst ` set workers)
     \<and> (\<forall>(w, n) \<in> set workers. n = int (length (filter (\<lambda>(i, g). g = Some w) bots)))
     \<and> (\<forall>(i, g) \<in> set bots. active_workers i assignments = (case g of None \<Rightarrow> [] | Some w \<Rightarrow> [w]))
     \<and> (\<forall>a \<in> set assignments. as_botId a \<in> fst ` set bots))"

lemma fleet_ok_view: "fleet_ok s \<longleftrightarrow> fleet_view_ok (panel_view s)"
  by (simp add: fleet_ok_def fleet_view_ok_def panel_view_def comp_def image_image group_list_def group_size_def filter_map)

lemma fleet_okD:
  assumes "fleet_ok s"
  shows "distinct (map bo_id (pn_bots s))" "distinct (map wk_id (pn_workers s))" "[] \<notin> wk_id ` set (pn_workers s)"
    "\<forall>b \<in> set (pn_bots s). set (group_list b) \<subseteq> wk_id ` set (pn_workers s)"
    "\<forall>w \<in> set (pn_workers s). wk_currentBots w = group_size (wk_id w) (pn_bots s)"
    "\<forall>b \<in> set (pn_bots s). active_workers (bo_id b) (pn_assignments s) = group_list b"
    "\<forall>a \<in> set (pn_assignments s). as_botId a \<in> bo_id ` set (pn_bots s)"
  using assms unfolding fleet_ok_def by blast+

lemma fleet_ok_new_bot:
  assumes ok: "fleet_ok s" and fresh: "bo_id b \<notin> bo_id ` set (pn_bots s)" and none: "bo_workerGroupId b = None"
  shows "fleet_ok (s\<lparr>pn_bots := pn_bots s @ [b]\<rparr>)"
proof -
  note ok = fleet_okD [OF ok]
  have "as_botId a \<noteq> bo_id b" if "a \<in> set (pn_assignments s)" for a
    using bspec [OF ok(7) that] fresh by metis
  then have active: "active_workers (bo_id b) (pn_assignments s) = []" by (simp add: active_workers_def filter_empty_conv)
  have group: "group_list b = []" "group_size w (pn_bots s @ [b]) = group_size w (pn_bots s)" for w
    by (simp_all add: none group_list_def group_size_def)
  have later: "\<forall>a \<in> set (pn_assignments s). as_botId a \<in> insert (bo_id b) (bo_id ` set (pn_bots s))" using ok(7) by blast
  show ?thesis
    unfolding fleet_ok_def using ok(1-6) fresh later by (simp add: group active ball_Un)
qed

lemma fleet_ok_new_worker:
  assumes ok: "fleet_ok s" and fresh: "wk_id w \<notin> wk_id ` set (pn_workers s)" and id: "wk_id w \<noteq> []" and zero: "wk_currentBots w = 0"
  shows "fleet_ok (s\<lparr>pn_workers := pn_workers s @ [w]\<rparr>)"
proof -
  note ok = fleet_okD [OF ok]
  have "bo_workerGroupId b \<noteq> Some (wk_id w)" if "b \<in> set (pn_bots s)" for b
  proof
    assume "bo_workerGroupId b = Some (wk_id w)"
    with bspec [OF ok(4) that] fresh show False by (simp add: group_list_def)
  qed
  then have none: "group_size (wk_id w) (pn_bots s) = 0" by (simp add: group_size_def filter_empty_conv)
  have later: "\<forall>b \<in> set (pn_bots s). set (group_list b) \<subseteq> insert (wk_id w) (wk_id ` set (pn_workers s))" using ok(4) by blast
  show ?thesis
    unfolding fleet_ok_def using ok(1-3,5-7) fresh later id zero by (simp add: none ball_Un)
qed

interpretation fleet: panel_invariant fleet_ok
proof unfold_locales
  show "fleet_ok t" if "fleet_ok s" "panel_view t = panel_view s" for s t using that by (simp add: fleet_ok_view)
  show "fleet_ok (snd (setBotWorker i g s))" if "fleet_ok s" for i g s using that by (rule setBotWorker_ok)
  show "fleet_ok (set_role i r s)" if "fleet_ok s" for i r s using that by (simp add: fleet_ok_def set_role_def)
  show "fleet_ok (s\<lparr>pn_users := pn_users s @ [u]\<rparr>)" if "fleet_ok s" for s u using that by (simp add: fleet_ok_def)
qed (rule fleet_ok_new_bot fleet_ok_new_worker; assumption)+

subsection \<open>An owner remains\<close>

definition owners_ok :: "panel \<Rightarrow> bool" where
  "owners_ok s \<longleftrightarrow> distinct (map us_id (pn_users s)) \<and> 1 \<le> count_owners s"

lemma setBotWorker_users: "pn_users (snd (setBotWorker i g s)) = pn_users s"
  by (auto simp: setBotWorker_def transaction_def andThen_def leave_worker_def join_worker_def set_group_def update_worker_def
      update_bot_def modify_def ret_def split: option.splits prod.splits sum.splits if_splits)

lemma owners_after_role:
  assumes "distinct (map us_id us)" and "findBy us_id i us = Some u"
  shows "length (filter (\<lambda>u. us_role u = RoleOwner) (updateWhere (\<lambda>u. us_id u = i) (\<lambda>u. u\<lparr>us_role := r\<rparr>) us))
      + (if us_role u = RoleOwner then 1 else 0)
    = length (filter (\<lambda>u. us_role u = RoleOwner) us) + (if r = RoleOwner then 1 else 0)"
  using assms
proof (induction us)
  case (Cons v us)
  show ?case
  proof (cases "us_id v = i")
    case True
    have "us_id x \<noteq> i" if "x \<in> set us" for x
      using Cons.prems(1) True that by (metis distinct.simps(2) imageI list.set_map list.simps(9))
    then have "updateWhere (\<lambda>u. us_id u = i) (\<lambda>u. u\<lparr>us_role := r\<rparr>) us = us" by (simp add: updateWhere_other)
    then show ?thesis using Cons.prems(2) True by simp
  next
    case False
    then show ?thesis using Cons.IH Cons.prems by (cases "r = RoleOwner"; cases "us_role u = RoleOwner") simp_all
  qed
qed simp

interpretation owners: panel_invariant owners_ok
proof unfold_locales
  show "owners_ok t" if "owners_ok s" "panel_view t = panel_view s" for s t
  proof -
    have users: "map (\<lambda>u. (us_id u, us_role u)) (pn_users t) = map (\<lambda>u. (us_id u, us_role u)) (pn_users s)"
      using that(2) by (simp add: panel_view_def)
    have eq: "owners_ok p \<longleftrightarrow> distinct (map fst (map (\<lambda>u. (us_id u, us_role u)) (pn_users p)))
        \<and> 1 \<le> length (filter (\<lambda>(i, r). r = RoleOwner) (map (\<lambda>u. (us_id u, us_role u)) (pn_users p)))" for p
      by (simp add: owners_ok_def count_owners_def comp_def filter_map)
    show ?thesis using that(1) by (simp only: eq users)
  qed
  show "owners_ok (snd (setBotWorker i g s))" if "owners_ok s" for i g s
    using that by (simp add: owners_ok_def count_owners_def setBotWorker_users)
  show "owners_ok (set_role i r s)"
    if "owners_ok s" "findBy us_id i (pn_users s) = Some u" "us_role u \<noteq> RoleOwner \<or> r = RoleOwner \<or> 1 < count_owners s" for s i u r
  proof -
    have "distinct (map us_id (pn_users s))" using that(1) by (simp add: owners_ok_def)
    from owners_after_role [OF this that(2), of r] that(1,3) show ?thesis
      by (auto simp: owners_ok_def count_owners_def set_role_def updateWhere_keys split: if_splits)
  qed
qed (simp_all add: owners_ok_def count_owners_def)

text \<open>
  C11: Whatever requests are served, jobs run and users sign up, the bookkeeping of the fleet stays exact: a
  worker's counter is the number of bots on it, and the active rows of the join table say of every
  bot exactly which worker it is on, which exists.
\<close>

theorem fleet_stays_consistent:
  assumes "panel_reachable env s0 s" and "fleet_ok s0" and "\<And>n. pp_cuid (ae_platform env) n \<noteq> []"
  shows "(\<forall>w \<in> set (pn_workers s). wk_currentBots w = int (length (filter (\<lambda>b. bo_workerGroupId b = Some (wk_id w)) (pn_bots s))))
    \<and> (\<forall>b \<in> set (pn_bots s). active_workers (bo_id b) (pn_assignments s) = (case bo_workerGroupId b of None \<Rightarrow> [] | Some w \<Rightarrow> [w]))
    \<and> (\<forall>b \<in> set (pn_bots s). case bo_workerGroupId b of None \<Rightarrow> True | Some i \<Rightarrow> i \<in> wk_id ` set (pn_workers s))"
proof -
  have ok: "fleet_ok s" by (rule fleet.reachable_keeps [OF assms(1,3,2)])
  note parts = fleet_okD [OF ok]
  have "case bo_workerGroupId b of None \<Rightarrow> True | Some i \<Rightarrow> i \<in> wk_id ` set (pn_workers s)" if "b \<in> set (pn_bots s)" for b
    using bspec [OF parts(4) that] by (cases "bo_workerGroupId b") (simp_all add: group_list_def)
  then show ?thesis using parts(5,6) unfolding group_size_def group_list_def by blast
qed

text \<open>
  C12: Once there is an owner there always is one: the last owner cannot be demoted, not even by itself, and
  that owner passes the guard of the route that changes roles.
\<close>

theorem an_owner_remains:
  assumes "panel_reachable env s0 s" and "distinct (map us_id (pn_users s0))" and "\<exists>u \<in> set (pn_users s0). us_role u = RoleOwner"
    and "\<And>n. pp_cuid (ae_platform env) n \<noteq> []"
  shows "\<exists>u \<in> set (pn_users s). us_role u = RoleOwner \<and> requireOwner (Some (session_of u)) = Inr (session_of u)"
proof -
  have "owners_ok s0" using assms(2,3) by (auto simp: owners_ok_def count_owners_def Suc_le_eq filter_empty_conv)
  from owners.reachable_keeps [OF assms(1,4) this] have "0 < count_owners s" by (simp add: owners_ok_def)
  then show ?thesis by (auto simp: count_owners_def filter_empty_conv session_of_def)
qed

subsection \<open>Who can change a role\<close>

definition role_of :: "string \<Rightarrow> panel \<Rightarrow> role option" where
  "role_of j s = map_option us_role (findBy us_id j (pn_users s))"

definition allowlisted :: "panel_platform \<Rightarrow> string \<Rightarrow> panel \<Rightarrow> bool" where
  "allowlisted pp j s \<longleftrightarrow> (\<exists>a \<in> set (pn_accounts s). ax_userId a = j \<and> ax_provider a = ''discord''
     \<and> ax_providerAccountId a \<in> set (adminDiscordIds pp))"

lemma role_of_view: "role_of j s = map_of (map (\<lambda>u. (us_id u, us_role u)) (pn_users s)) j"
proof -
  have "map_option us_role (findBy us_id j us) = map_of (map (\<lambda>u. (us_id u, us_role u)) us) j" for us
    by (induction us) auto
  then show ?thesis by (simp add: role_of_def)
qed

interpretation roles: panel_frame "\<lambda>s. map (\<lambda>u. (us_id u, us_role u)) (pn_users s) = v" for v
  by unfold_locales (simp_all add: panel_view_def setBotWorker_users)

lemma auth_error: "auth pp who s = (Inl e, t) \<Longrightarrow> t = s"
  by (auto simp: auth_def session_callback_def link_discord_def andThen_def ret_def Let_def split: option.splits if_splits)

lemma auth_roles:
  assumes "auth pp who s = (q, t)"
  shows "role_of j t = role_of j s
      \<or> who = Some j \<and> role_of j s = Some RoleMember \<and> role_of j t = Some RoleOwner \<and> allowlisted pp j s"
    and "q = Inr (Some ss) \<Longrightarrow> who = Some (ss_userId ss) \<and> role_of (ss_userId ss) t = Some (ss_role ss)"
proof -
  have "(role_of j t = role_of j s
      \<or> who = Some j \<and> role_of j s = Some RoleMember \<and> role_of j t = Some RoleOwner \<and> allowlisted pp j s)
    \<and> (q = Inr (Some ss) \<longrightarrow> who = Some (ss_userId ss) \<and> role_of (ss_userId ss) t = Some (ss_role ss))"
  proof (cases "Option.bind who (\<lambda>i. findBy us_id i (pn_users s))")
    case None
    then show ?thesis using assms by (auto simp: auth_def)
  next
    case (Some u)
    then obtain i where i: "who = Some i" "findBy us_id i (pn_users s) = Some u" by (auto simp: Option.bind_eq_Some_conv)
    show ?thesis
    proof (cases q)
      case (Inl e)
      then have "t = s" using auth_error [of pp who s e t] assms by simp
      then show ?thesis using Inl by simp
    next
      case (Inr x)
      have "auth pp who s = andThen (session_callback pp u) (\<lambda>ss. ret (Some ss)) s" using Some by (simp add: auth_def)
      then have "andThen (session_callback pp u) (\<lambda>ss. ret (Some ss)) s = (Inr x, t)" using assms Inr by simp
      then obtain y where y: "session_callback pp u s = (Inr y, t)" "x = Some y"
        by (elim andThen_InrE) (auto simp: ret_def)
      obtain u' where u': "findBy us_id i (pn_users t) = Some u'" "ss_userId y = i" "ss_role y = us_role u'"
        "us_role u' = us_role u \<or> us_role u = RoleMember \<and> us_role u' = RoleOwner \<and> allowlisted pp i s"
        "\<forall>j. j = i \<or> findBy us_id j (pn_users t) = findBy us_id j (pn_users s)"
        using session_callback_core [OF i(2) y(1)] unfolding allowlisted_def by blast
      show ?thesis
        using i u' y(2) Inr by (cases "j = i") (auto simp: role_of_def)
    qed
  qed
  then show "role_of j t = role_of j s
      \<or> who = Some j \<and> role_of j s = Some RoleMember \<and> role_of j t = Some RoleOwner \<and> allowlisted pp j s"
    and "q = Inr (Some ss) \<Longrightarrow> who = Some (ss_userId ss) \<and> role_of (ss_userId ss) t = Some (ss_role ss)"
    by blast+
qed

lemma patchUser_roles:
  assumes "patchUser pp sess k body s = (r, t)"
  shows "j \<noteq> k \<Longrightarrow> role_of j t = role_of j s"
    and "\<not> allowed Owner sess \<Longrightarrow> t = s"
proof -
  have other: "findBy us_id j (updateWhere (\<lambda>r. us_id r = k) (\<lambda>u. u\<lparr>us_role := x\<rparr>) us) = findBy us_id j us" if "j \<noteq> k" for x and us :: "user_row list"
    using that by (induction us) auto
  show "j \<noteq> k \<Longrightarrow> role_of j t = role_of j s"
    using assms other
    by (auto simp: patchUser_def guarded_def ret_def request_json_def parsed_body_def raise_def andThen_def update_user_def panel_audit_run
        role_of_def Let_def split: sum.splits option.splits if_splits)
  show "\<not> allowed Owner sess \<Longrightarrow> t = s"
    using assms by (simp add: patchUser_def guarded_def guard_refuses ret_def)
qed

text \<open>
  C13: No request raises a privilege by itself: when serving one changes the role of a user, either it is that
  user's own first request after its Discord account was put on the allowlist, or it is the
  role-change route for that user, asked for by an owner.
\<close>

theorem roles_change_only_by_owners:
  assumes "serve env who req s = (r, t)" and "role_of j s = Some old" and "role_of j t = Some new" and "new \<noteq> old"
    and "\<And>n. pp_cuid (ae_platform env) n \<noteq> []"
  shows "who = Some j \<and> old = RoleMember \<and> new = RoleOwner \<and> allowlisted (ae_platform env) j s
    \<or> (\<exists>body i. req = PatchUser j body \<and> who = Some i
        \<and> (role_of i s = Some RoleOwner \<or> role_of i s = Some RoleMember \<and> allowlisted (ae_platform env) i s))"
proof -
  obtain q s1 where auth: "auth (ae_platform env) who s = (q, s1)" by fastforce
  note roles = auth_roles [OF auth]
  show ?thesis
  proof (cases "role_of j s1 = role_of j t")
    case True
    then show ?thesis using roles(1) [of j] assms(2-4) by auto
  next
    case False
    then obtain sess where q: "q = Inr sess"
      using assms(1) auth by (cases q) (auto simp: serve_def andThen_def)
    obtain x where run: "handle env sess req s1 = (x, t)"
      using assms(1) auth q by (auto simp: serve_def andThen_def split: prod.splits sum.splits)
    have "\<exists>k body. req = PatchUser k body"
    proof (rule ccontr)
      assume "\<nexists>k body. req = PatchUser k body"
      from keepsD [OF roles.keeps_other [OF assms(5) this, where sess = sess and v = "map (\<lambda>u. (us_id u, us_role u)) (pn_users s1)"], of s1] run
      have "map (\<lambda>u. (us_id u, us_role u)) (pn_users t) = map (\<lambda>u. (us_id u, us_role u)) (pn_users s1)" by simp
      then show False using False unfolding role_of_view by simp
    qed
    then obtain k body where req: "req = PatchUser k body" by blast
    then have patch: "patchUser (ae_platform env) sess k body s1 = (x, t)" using run by simp
    have k: "k = j" using patchUser_roles(1) [OF patch, of j] False by metis
    have "allowed Owner sess" using patchUser_roles(2) [OF patch] False by metis
    then obtain ss where ss: "sess = Some ss" "ss_role ss = RoleOwner" by (auto simp: allowed_def split: option.splits)
    have i: "who = Some (ss_userId ss)" "role_of (ss_userId ss) s1 = Some RoleOwner"
      using roles(2) [of ss] q ss by auto
    then have "role_of (ss_userId ss) s = Some RoleOwner \<or> role_of (ss_userId ss) s = Some RoleMember \<and> allowlisted (ae_platform env) (ss_userId ss) s"
      using roles(1) [of "ss_userId ss"] by auto
    then show ?thesis using req k i by blast
  qed
qed

subsection \<open>Concrete steps\<close>

definition sample_env :: api_env where
  "sample_env = \<lparr>ae_platform = api_platform, ae_discord = (\<lambda>_ _. None), ae_message = (\<lambda>_. ''failed'')\<rparr>"

lemma sample_env_cuid: "pp_cuid (ae_platform sample_env) n \<noteq> []"
  by (simp add: sample_env_def api_platform_def refusing_platform_def)

definition owner_row :: user_row where
  "owner_row = \<lparr>us_id = ''u1'', us_name = None, us_email = None, us_discordUserId = Some ''42'', us_role = RoleOwner, us_createdAt = 0\<rparr>"

definition member_row :: user_row where
  "member_row = \<lparr>us_id = ''u2'', us_name = None, us_email = None, us_discordUserId = Some ''43'', us_role = RoleMember, us_createdAt = 0\<rparr>"

definition staffed_panel :: panel where
  "staffed_panel = sample_panel\<lparr>pn_users := [owner_row, member_row]\<rparr>"

definition role_body :: "role \<Rightarrow> json" where
  "role_body r = JObj [(''role'', JStr (role_name r))]"

lemma owner_session: "auth api_platform (Some ''u1'') staffed_panel = (Inr (Some (session_of owner_row)), staffed_panel)"
proof -
  have "findBy us_id ''u1'' (pn_users staffed_panel) = Some owner_row" by (simp add: staffed_panel_def owner_row_def)
  moreover have "session_callback api_platform owner_row staffed_panel = (Inr (session_of owner_row), staffed_panel)"
    by (simp add: session_callback_def owner_row_def)
  ultimately show ?thesis by (simp add: auth_def andThen_def ret_def)
qed

theorem fleet_stays_consistent_witness:
  "let t = snd (serve sample_env (Some ''u1'') (DrainWorker ''w1'') staffed_panel) in
     map wk_currentBots (pn_workers t) =
       map (\<lambda>w. int (length (filter (\<lambda>b. bo_workerGroupId b = Some (wk_id w)) (pn_bots t)))) (pn_workers t)"
proof -
  have reach: "panel_reachable sample_env staffed_panel (snd (serve sample_env (Some ''u1'') (DrainWorker ''w1'') staffed_panel))"
    by (rule panel_reachable.step [OF panel_reachable.start panel_step.request])
  have "fleet_ok staffed_panel"
    using sample_panel_ok by (simp add: fleet_ok_def staffed_panel_def)
  from fleet_stays_consistent [OF reach this sample_env_cuid] show ?thesis
    unfolding Let_def map_eq_conv by blast
qed

theorem an_owner_remains_witness:
  "\<exists>u \<in> set (pn_users (snd (serve sample_env (Some ''u1'') (PatchUser ''u1'' (Some (role_body RoleMember))) staffed_panel))). us_role u = RoleOwner"
proof -
  have reach: "panel_reachable sample_env staffed_panel (snd (serve sample_env (Some ''u1'') (PatchUser ''u1'' (Some (role_body RoleMember))) staffed_panel))"
    by (rule panel_reachable.step [OF panel_reachable.start panel_step.request])
  have "distinct (map us_id (pn_users staffed_panel))" "\<exists>u \<in> set (pn_users staffed_panel). us_role u = RoleOwner"
    by (simp_all add: staffed_panel_def owner_row_def member_row_def)
  from an_owner_remains [OF reach this sample_env_cuid] show ?thesis by blast
qed

theorem roles_change_only_by_owners_witness:
  "\<exists>r t. serve sample_env (Some ''u1'') (PatchUser ''u2'' (Some (role_body RoleAdmin))) staffed_panel = (r, t)
     \<and> role_of ''u2'' t = Some RoleAdmin \<and> role_of ''u1'' staffed_panel = Some RoleOwner"
proof -
  let ?req = "PatchUser ''u2'' (Some (role_body RoleAdmin))"
  have parse: "pp_safeParse api_platform patchUserSchema (Some (role_body RoleAdmin)) = Inr (Some (role_body RoleAdmin))"
    by (simp add: api_platform_def refusing_platform_def plain_validator_def patchUserSchema_def role_body_def ROLES_def)
  have newRole: "enum_of role_name ROLES (as_string (propOf ''role'' (Some (role_body RoleAdmin)))) = RoleAdmin"
    by (simp add: role_body_def enum_of_def ROLES_def)
  have find: "findBy us_id ''u2'' (pn_users staffed_panel) = Some member_row"
    by (simp add: staffed_panel_def owner_row_def member_row_def)
  have owner: "ss_role (session_of owner_row) = RoleOwner" by (simp add: session_of_def owner_row_def)
  obtain r t where run: "serve sample_env (Some ''u1'') ?req staffed_panel = (r, t)" by fastforce
  have "serve sample_env (Some ''u1'') ?req staffed_panel = (case handle sample_env (Some (session_of owner_row)) ?req staffed_panel of
      (Inl _, t) \<Rightarrow> (reply_json 500 [], t) | (Inr r, t) \<Rightarrow> (r, t))"
    by (simp add: serve_def sample_env_def owner_session andThen_def)
  with run have "pn_users t = updateWhere (\<lambda>u. us_id u = ''u2'') (\<lambda>u. u\<lparr>us_role := RoleAdmin\<rparr>) (pn_users staffed_panel)"
    by (auto simp: sample_env_def patchUser_def guarded_def owner request_json_def parsed_body_def parse newRole find andThen_def ret_def
        member_row_def update_user_def panel_audit_run Let_def)
  then have new: "role_of ''u2'' t = Some RoleAdmin" by (simp add: role_of_def staffed_panel_def owner_row_def member_row_def)
  have old: "role_of ''u2'' staffed_panel = Some RoleMember" by (simp add: role_of_def find member_row_def)
  have "RoleAdmin \<noteq> RoleMember" by simp
  from roles_change_only_by_owners [OF run old new this sample_env_cuid]
  have "role_of ''u1'' staffed_panel = Some RoleOwner \<or> role_of ''u1'' staffed_panel = Some RoleMember" by auto
  moreover have "role_of ''u1'' staffed_panel = Some RoleOwner" by (simp add: role_of_def staffed_panel_def owner_row_def)
  ultimately show ?thesis using run new by blast
qed

end
