(* ===== verification/Scheduling.thy ===== *)
theory Scheduling
  imports Workloads
begin

text \<open>
  \<open>lib/scheduling.ts\<close>: the snapshot of the fleet in the scheduler's terms and the recorded
  recommendation. The three queries of the snapshot run against one state of the database.
\<close>

subsection \<open>The snapshot\<close>

definition RECENT_FAILURE_WINDOW_MS :: int where
  "RECENT_FAILURE_WINDOW_MS = 60 * 60 * 1000"

text \<open>The bot of a workload exists by the schema's foreign key.\<close>

definition customer_of :: "world \<Rightarrow> workload_row \<Rightarrow> string" where
  "customer_of w r = (case findBy br_id (wl_botId r) (w_bots w) of None \<Rightarrow> [] | Some b \<Rightarrow> br_customerId b)"

definition assigned_workloads :: "string option \<Rightarrow> world \<Rightarrow> workload_row list" where
  "assigned_workloads exclude w = filter (\<lambda>r. wl_assignedAgentId r \<noteq> None
     \<and> (case truthy exclude of None \<Rightarrow> True | Some i \<Rightarrow> wl_id r \<noteq> i)) (w_workloads w)"

definition recent_failures :: "world \<Rightarrow> string \<Rightarrow> int" where
  "recent_failures w i = int (length (filter (\<lambda>c. ac_agentId c = i \<and> ac_status c = CmdFailed
     \<and> w_now w - RECENT_FAILURE_WINDOW_MS < ac_createdAt c) (w_commands w)))"

definition scheduler_agent_of :: "world \<Rightarrow> workload_row list \<Rightarrow> agent_row \<Rightarrow> scheduler_agent" where
  "scheduler_agent_of w allWorkloads a =
     \<lparr>sa_id = ag_id a, sa_name = ag_name a, sa_status = ag_status a, sa_region = ag_region a,
      sa_environment = ag_environment a, sa_capabilities = ag_capabilitiesJson a, sa_labels = ag_labelsJson a,
      sa_totalMemoryMb = ag_totalMemoryMb a, sa_availableMemoryMb = ag_availableMemoryMb a,
      sa_currentWorkloadCount = int (length (filter (\<lambda>r. wl_assignedAgentId r = Some (ag_id a)) allWorkloads)),
      sa_maxWorkloads = None, sa_recentFailureCount = Some (recent_failures w (ag_id a))\<rparr>"

definition customer_placements :: "world \<Rightarrow> workload_row list \<Rightarrow> customer_placement list" where
  "customer_placements w allWorkloads = map (\<lambda>r. \<lparr>cp_customerId = customer_of w r,
     cp_agentId = (case wl_assignedAgentId r of None \<Rightarrow> [] | Some a \<Rightarrow> a)\<rparr>)
     (filter (\<lambda>r. truthy (wl_assignedAgentId r) \<noteq> None) allWorkloads)"

definition buildSchedulerContext :: "string option \<Rightarrow> world \<Rightarrow> scheduler_agent list \<times> customer_placement list" where
  "buildSchedulerContext excludeWorkloadId w =
     (let allWorkloads = assigned_workloads excludeWorkloadId w
      in (map (scheduler_agent_of w allWorkloads) (w_agents w), customer_placements w allWorkloads))"

definition spec_placement :: "string \<Rightarrow> json \<Rightarrow> entries" where
  "spec_placement k spec = as_entries (propOf k (propOf ''placement'' (propOf ''spec'' (Some spec))))"

definition toSchedulerWorkload :: "world \<Rightarrow> workload_row \<Rightarrow> scheduler_workload" where
  "toSchedulerWorkload w r =
     (let spec = propOf ''spec'' (Some (wl_specificationJson r)) in
      \<lparr>sw_id = wl_id r, sw_customerId = customer_of w r,
       sw_requiredCapability = as_string (propOf ''type'' (propOf ''runner'' spec)),
       sw_requiredMemoryMb = as_int (propOf ''memoryMb'' (propOf ''resources'' spec)),
       sw_requiredEnvironment = None,
       sw_requiredLabels = spec_placement ''requiredLabels'' (wl_specificationJson r),
       sw_preferredLabels = spec_placement ''preferredLabels'' (wl_specificationJson r),
       sw_preferredRegion = None, sw_currentAgentId = wl_assignedAgentId r\<rparr>)"

subsection \<open>The recommendation\<close>

definition placement_of :: "placement_decision \<Rightarrow> placement_row" where
  "placement_of d = \<lparr>pl_workloadId = pd_workloadId d, pl_selectedAgentId = pd_selectedAgentId d,
     pl_candidates = pd_candidates d, pl_reason = pd_reason d, pl_simulation = True\<rparr>"

definition computeSchedulingRecommendation :: "platform \<Rightarrow> string \<Rightarrow> (string + placement_decision) act" where
  "computeSchedulingRecommendation pf workloadId =
     andThen (gets id) (\<lambda>w. case find_workload workloadId w of
       None \<Rightarrow> ret (Inl ''workload not found'')
     | Some workload \<Rightarrow>
         (let (agents, placements) = buildSchedulerContext (Some workloadId) w;
              decision = scheduleWorkload (pf_localeCompare pf) (toSchedulerWorkload w workload) agents placements
          in andThen (modify (\<lambda>w. w\<lparr>w_placements := w_placements w @ [placement_of decision]\<rparr>)) (\<lambda>_.
             ret (Inr decision))))"

subsection \<open>The snapshot counts correctly\<close>

lemma scheduler_agent_fields [simp]:
  "sa_id (scheduler_agent_of w ws a) = ag_id a" "sa_status (scheduler_agent_of w ws a) = ag_status a"
  "sa_maxWorkloads (scheduler_agent_of w ws a) = None"
  "sa_availableMemoryMb (scheduler_agent_of w ws a) = ag_availableMemoryMb a"
  "sa_capabilities (scheduler_agent_of w ws a) = ag_capabilitiesJson a"
  "sa_labels (scheduler_agent_of w ws a) = ag_labelsJson a"
  by (simp_all add: scheduler_agent_of_def)

lemma selected_agent:
  assumes "pd_selectedAgentId (scheduleWorkload lc sw agents ps) = Some x"
  shows "\<exists>a \<in> set agents. sa_id a = x \<and> eligibilityFailureReason a sw = None"
proof -
  from assms obtain c where "find cs_eligible (js_sort (candidate_le lc)
      (map (candidate sw ps (averageWorkloadCount agents)) agents)) = Some c" "cs_agentId c = x"
    by (auto simp: selected_candidate)
  moreover from findD [OF this(1)] obtain a where
      "a \<in> set agents" "c = candidate sw ps (averageWorkloadCount agents) a" "cs_eligible c"
    by (auto simp: set_js_sort)
  ultimately show ?thesis by auto
qed

lemma selected_none:
  "pd_selectedAgentId (scheduleWorkload lc sw agents ps) = None \<longleftrightarrow>
   (\<forall>a \<in> set agents. eligibilityFailureReason a sw \<noteq> None)"
  by (simp add: selected_candidate find_None_iff set_js_sort)

lemma count_assigned:
  "length (filter (\<lambda>r. wl_assignedAgentId r = Some a) (assigned_workloads (Some i) w)) =
   length (filter (\<lambda>r. wl_assignedAgentId r = Some a \<and> (i \<noteq> '''' \<longrightarrow> wl_id r \<noteq> i)) (w_workloads w))"
  by (cases i) (auto simp: assigned_workloads_def intro!: arg_cong [where f = length] filter_cong)

subsection \<open>What a recommendation promises\<close>

text \<open>An agent row that can take a workload, in terms of the database.\<close>

definition can_host :: "workload_row \<Rightarrow> agent_row \<Rightarrow> bool" where
  "can_host r a \<longleftrightarrow> ag_status a = Online
     \<and> (case truthy (as_string (propOf ''type'' (propOf ''runner'' (propOf ''spec'' (Some (wl_specificationJson r)))))) of
          None \<Rightarrow> True | Some c \<Rightarrow> c \<in> set (ag_capabilitiesJson a))
     \<and> (\<forall>(k, v) \<in> set (spec_placement ''requiredLabels'' (wl_specificationJson r)). map_of (ag_labelsJson a) k = Some v)
     \<and> (case (as_int (propOf ''memoryMb'' (propOf ''resources'' (propOf ''spec'' (Some (wl_specificationJson r))))),
              ag_availableMemoryMb a) of
          (Some req, Some avail) \<Rightarrow> req \<le> avail | _ \<Rightarrow> True)"

lemma eligible_can_host:
  "eligibilityFailureReason (scheduler_agent_of w ws a) (toSchedulerWorkload w r) = None \<longleftrightarrow> can_host r a"
proof -
  have truthy: "v \<in> {None, Some ''''} \<union> Some ` S \<longleftrightarrow> (case truthy v of None \<Rightarrow> True | Some c \<Rightarrow> c \<in> S)"
    for v :: "string option" and S
    by (cases v rule: truthy.cases) auto
  show ?thesis
    unfolding eligible_iff can_host_def truthy
    by (simp add: toSchedulerWorkload_def Let_def graph_def subset_iff split_beta Ball_def split_paired_All
        cong: option.case_cong)
qed

text \<open>
  A recommendation is a dry run on the current fleet. An unknown workload is refused and nothing
  is written. Otherwise exactly one simulated placement is recorded and nothing else changes; the
  agent it selects, if any, is a row of the agent table that is online and has the runner, the labels
  and the free memory the workload asks for; and it selects nobody only if no agent has them.
\<close>
theorem recommendation_is_sound:
  "case find_workload i w of
     None \<Rightarrow> computeSchedulingRecommendation pf i w = (Inr (Inl ''workload not found''), w)
   | Some r \<Rightarrow> \<exists>d. computeSchedulingRecommendation pf i w =
         (Inr (Inr d), w\<lparr>w_placements := w_placements w @ [placement_of d]\<rparr>)
       \<and> pd_workloadId d = i
       \<and> (case pd_selectedAgentId d of
            Some x \<Rightarrow> [a \<leftarrow> w_agents w. ag_id a = x \<and> can_host r a] \<noteq> []
          | None \<Rightarrow> [a \<leftarrow> w_agents w. can_host r a] = [])"
proof (cases "find_workload i w")
  case (Some r)
  let ?ws = "assigned_workloads (Some i) w" and ?sw = "toSchedulerWorkload w r"
  let ?agents = "map (scheduler_agent_of w ?ws) (w_agents w)" and ?ps = "customer_placements w ?ws"
  let ?d = "scheduleWorkload (pf_localeCompare pf) ?sw ?agents ?ps"
  have "pd_workloadId ?d = i"
    using find_workload_id [OF Some] by (simp add: scheduleWorkload_def toSchedulerWorkload_def Let_def)
  moreover have "[a \<leftarrow> w_agents w. ag_id a = x \<and> can_host r a] \<noteq> []" if "pd_selectedAgentId ?d = Some x" for x
    using selected_agent [OF that] by (auto simp: eligible_can_host filter_empty_conv)
  moreover have "[a \<leftarrow> w_agents w. can_host r a] = []" if "pd_selectedAgentId ?d = None"
    using that by (auto simp: selected_none eligible_can_host filter_empty_conv simp del: not_None_eq)
  ultimately show ?thesis
    using Some by (auto simp: computeSchedulingRecommendation_def buildSchedulerContext_def Let_def run_simps
        split: option.split)
qed (simp add: computeSchedulingRecommendation_def run_simps)

end
