(* ===== verification/Agent_Drain.thy ===== *)
theory Agent_Drain
  imports Scheduling Reconciliation
begin

text \<open>
  \<open>lib/agents/drain.ts\<close>: evacuating an agent. While the function sleeps between two polls of its
  health check, every other process of the system runs: \<open>env wid k\<close> is what they do to the shared
  state during the \<open>k\<close>-th sleep for workload \<open>wid\<close>, the passing of the time included. How a workload is
  handed over and that its health check ends hold for every \<open>env\<close>; what a whole drain comes to is proved
  for an \<open>env\<close> that is considerate: it leaves the agents, assignments and generations alone.
\<close>

subsection \<open>The operations\<close>

record drain_result =
  dr_relocated :: "(string \<times> string) list"
  dr_stranded :: "(string \<times> string) list"
  dr_fullyDrained :: bool

definition HEALTH_CHECK_ATTEMPTS :: nat where
  "HEALTH_CHECK_ATTEMPTS = 5"

definition HEALTH_CHECK_INTERVAL_MS :: int where
  "HEALTH_CHECK_INTERVAL_MS = 1000"

type_synonym environment = "string \<Rightarrow> nat \<Rightarrow> world \<Rightarrow> world"

definition running_on :: "string \<Rightarrow> string \<Rightarrow> world \<Rightarrow> bool" where
  "running_on wid target w = (case find_workload wid w of
     None \<Rightarrow> False
   | Some current \<Rightarrow> wl_observedState current = ObsRunning \<and> wl_assignedAgentId current = Some target)"

text \<open>The health-check loop, from attempt \<open>k\<close> with \<open>n\<close> attempts left.\<close>

fun await_running :: "environment \<Rightarrow> string \<Rightarrow> string \<Rightarrow> nat \<Rightarrow> nat \<Rightarrow> bool act" where
  "await_running env wid target k 0 = ret False"
| "await_running env wid target k (Suc n) =
     andThen (modify (env wid k)) (\<lambda>_. andThen (gets (running_on wid target)) (\<lambda>confirmed.
     if confirmed then ret True else await_running env wid target (Suc k) n))"

definition start_and_wait :: "platform \<Rightarrow> environment \<Rightarrow> string \<Rightarrow> workload_row \<Rightarrow> string \<Rightarrow> unit act" where
  "start_and_wait pf env actorUserId workload target =
     (if wl_desiredState workload \<noteq> DesiredRunning then ret ()
      else andThen (sendWorkloadCommand pf (wl_id workload) CtStart (Some actorUserId)) (\<lambda>_.
           andThen (await_running env (wl_id workload) target 0 HEALTH_CHECK_ATTEMPTS) (\<lambda>_. ret ())))"

definition stop_old_agent :: "platform \<Rightarrow> string \<Rightarrow> string \<Rightarrow> workload_row \<Rightarrow> unit act" where
  "stop_old_agent pf agentId actorUserId workload =
     andThen (randomUUID pf) (\<lambda>idempotencyKey.
     let payload = command_payload (wl_id workload) (wl_botId workload) (wl_generation workload) idempotencyKey in
     andThen (control_message pf ''bot.stop'' payload) (\<lambda>stopMessage.
     recordAndEnqueueCommand pf
       \<lparr>pa_agentId = agentId, pa_workloadId = Some (wl_id workload), pa_commandType = ''bot.stop'',
        pa_payloadJson = JObj payload, pa_message = stopMessage, pa_actorUserId = Some actorUserId,
        pa_idempotencyKey = idempotencyKey, pa_generation = Some (wl_generation workload)\<rparr>))"

text \<open>\<open>workload\<close> is the row and \<open>customer\<close> its bot's customer as read before the loop.\<close>

definition drain_decision :: "platform \<Rightarrow> string \<Rightarrow> workload_row \<times> string \<Rightarrow> world \<Rightarrow> placement_decision" where
  "drain_decision pf agentId wc w =
     (let (agents, placements) = buildSchedulerContext (Some (wl_id (fst wc))) w
      in scheduleWorkload (pf_localeCompare pf)
           ((toSchedulerWorkload w (fst wc))\<lparr>sw_customerId := snd wc\<rparr>)
           (filter (\<lambda>a. sa_id a \<noteq> agentId) agents) placements)"

definition drain_one ::
    "platform \<Rightarrow> environment \<Rightarrow> string \<Rightarrow> string \<Rightarrow> workload_row \<times> string \<Rightarrow> drain_result \<Rightarrow> drain_result act" where
  "drain_one pf env agentId actorUserId wc acc =
     andThen (gets (drain_decision pf agentId wc)) (\<lambda>decision.
     case truthy (pd_selectedAgentId decision) of
       None \<Rightarrow> ret (acc\<lparr>dr_stranded := dr_stranded acc @ [(wl_id (fst wc), ''no eligible agent found'')]\<rparr>)
     | Some target \<Rightarrow>
         andThen (assignWorkloadToAgent pf (wl_id (fst wc)) target actorUserId) (\<lambda>assigned. case assigned of
           Refused reason \<Rightarrow> ret (acc\<lparr>dr_stranded := dr_stranded acc @ [(wl_id (fst wc), reason)]\<rparr>)
         | Done \<Rightarrow>
             andThen (start_and_wait pf env actorUserId (fst wc) target) (\<lambda>_.
             andThen (stop_old_agent pf agentId actorUserId (fst wc)) (\<lambda>_.
             ret (acc\<lparr>dr_relocated := dr_relocated acc @ [(wl_id (fst wc), target)]\<rparr>)))))"

definition workloads_to_move :: "string \<Rightarrow> world \<Rightarrow> (workload_row \<times> string) list" where
  "workloads_to_move agentId w = map (\<lambda>r. (r, customer_of w r))
     (filter (\<lambda>r. wl_assignedAgentId r = Some agentId) (w_workloads w))"

definition drain_metadata :: "drain_result \<Rightarrow> json" where
  "drain_metadata res = JObj
     [(''relocated'', JArr (map (\<lambda>(i, a). JObj [(''workloadId'', JStr i), (''toAgentId'', JStr a)]) (dr_relocated res))),
      (''stranded'', JArr (map (\<lambda>(i, r). JObj [(''workloadId'', JStr i), (''reason'', JStr r)]) (dr_stranded res))),
      (''fullyDrained'', JBool (dr_fullyDrained res))]"

definition still_assigned :: "string \<Rightarrow> world \<Rightarrow> nat" where
  "still_assigned agentId w = length (filter (\<lambda>r. wl_assignedAgentId r = Some agentId) (w_workloads w))"

definition finish_drain :: "string \<Rightarrow> string \<Rightarrow> drain_result \<Rightarrow> drain_result act" where
  "finish_drain agentId actorUserId moved =
     andThen (gets (still_assigned agentId)) (\<lambda>stillAssigned.
     let res = moved\<lparr>dr_fullyDrained := (stillAssigned = 0)\<rparr> in
     andThen (if dr_fullyDrained res
              then andThen (update_agent agentId (\<lambda>r. r\<lparr>ag_status := Disabled\<rparr>)) (\<lambda>_. ret ())
              else ret ()) (\<lambda>_.
     andThen (writeAuditLog (Some actorUserId) ''agent.drain_completed'' ''agent'' agentId (Some (drain_metadata res))) (\<lambda>_.
     ret res)))"

definition drainAgent :: "platform \<Rightarrow> environment \<Rightarrow> string \<Rightarrow> string \<Rightarrow> drain_result act" where
  "drainAgent pf env agentId actorUserId =
     andThen (gets (find_agent agentId)) (\<lambda>agent. case agent of
       None \<Rightarrow> raise (AgentNotFoundError (''Agent '' @ agentId @ '' not found''))
     | Some _ \<Rightarrow>
         andThen (update_agent agentId (\<lambda>r. r\<lparr>ag_status := Draining\<rparr>)) (\<lambda>_.
         andThen (writeAuditLog (Some actorUserId) ''agent.drain_started'' ''agent'' agentId (Some (JObj []))) (\<lambda>_.
         andThen (gets (workloads_to_move agentId)) (\<lambda>workloadsToMove.
         andThen (forEach workloadsToMove \<lparr>dr_relocated = [], dr_stranded = [], dr_fullyDrained = False\<rparr>
           (drain_one pf env agentId actorUserId))
         (finish_drain agentId actorUserId)))))"

subsection \<open>The health check ends\<close>

text \<open>The state after \<open>m\<close> sleeps, starting with sleep \<open>k\<close>.\<close>

fun after_sleeps :: "environment \<Rightarrow> string \<Rightarrow> nat \<Rightarrow> nat \<Rightarrow> world \<Rightarrow> world" where
  "after_sleeps env wid k 0 w = w"
| "after_sleeps env wid k (Suc m) w = after_sleeps env wid (Suc k) m (env wid k w)"

lemma await_running_ends:
  "\<exists>m \<le> n. await_running env wid target k n w =
     (Inr (0 < m \<and> running_on wid target (after_sleeps env wid k m w)), after_sleeps env wid k m w)
   \<and> (\<forall>j. 0 < j \<and> j < m \<longrightarrow> \<not> running_on wid target (after_sleeps env wid k j w))
   \<and> (m < n \<longrightarrow> 0 < m \<and> running_on wid target (after_sleeps env wid k m w))"
proof (induction n arbitrary: k w)
  case 0
  then show ?case by (simp add: run_simps)
next
  case (Suc n)
  show ?case
  proof (cases "running_on wid target (env wid k w)")
    case True
    then show ?thesis by (intro exI [of _ 1]) (simp add: run_simps)
  next
    case False
    from Suc.IH [of "Suc k" "env wid k w"] obtain m where m: "m \<le> n"
        "await_running env wid target (Suc k) n (env wid k w) =
           (Inr (0 < m \<and> running_on wid target (after_sleeps env wid k (Suc m) w)), after_sleeps env wid k (Suc m) w)"
        "\<forall>j. 0 < j \<and> j < m \<longrightarrow> \<not> running_on wid target (after_sleeps env wid k (Suc j) w)"
        "m < n \<longrightarrow> 0 < m \<and> running_on wid target (after_sleeps env wid k (Suc m) w)"
      by auto
    have "\<not> running_on wid target (after_sleeps env wid k j w)" if "0 < j" "j < Suc m" for j
      using that False m(3) by (cases j; cases "j = 1") auto
    moreover have "m = 0 \<Longrightarrow> \<not> running_on wid target (after_sleeps env wid k (Suc m) w)"
      using False by simp
    ultimately show ?thesis
      using False m by (intro exI [of _ "Suc m"]) (auto simp: run_simps)
  qed
qed

text \<open>
  C31: the health check of a drain always ends, after at most five sleeps. It reports success exactly
  when the workload is running on its new agent after the last of the \<open>m\<close> sleeps it made, and it stops
  at the first such sleep; it changes nothing itself.
\<close>
theorem health_check_ends:
  "\<exists>m \<le> HEALTH_CHECK_ATTEMPTS.
     await_running env wid target 0 HEALTH_CHECK_ATTEMPTS w =
       (Inr (running_on wid target (after_sleeps env wid 0 m w)), after_sleeps env wid 0 m w)
   \<and> (\<forall>j \<in> {0<..<m}. \<not> running_on wid target (after_sleeps env wid 0 j w))
   \<and> (m = HEALTH_CHECK_ATTEMPTS \<or> running_on wid target (after_sleeps env wid 0 m w))"
proof -
  obtain m where m: "m \<le> HEALTH_CHECK_ATTEMPTS"
      "await_running env wid target 0 HEALTH_CHECK_ATTEMPTS w =
         (Inr (0 < m \<and> running_on wid target (after_sleeps env wid 0 m w)), after_sleeps env wid 0 m w)"
      "\<forall>j. 0 < j \<and> j < m \<longrightarrow> \<not> running_on wid target (after_sleeps env wid 0 j w)"
      "m < HEALTH_CHECK_ATTEMPTS \<longrightarrow> 0 < m \<and> running_on wid target (after_sleeps env wid 0 m w)"
    using await_running_ends [of HEALTH_CHECK_ATTEMPTS env wid target 0 w] by blast
  moreover have "0 < m" using m(4) by (cases m) (auto simp: HEALTH_CHECK_ATTEMPTS_def)
  ultimately show ?thesis by (intro exI [of _ m]) auto
qed

text \<open>Nothing but the clock moves during a sleep: an environment for the witnesses.\<close>

definition quiet :: environment where
  "quiet wid k w = w\<lparr>w_now := w_now w + HEALTH_CHECK_INTERVAL_MS\<rparr>"

theorem health_check_ends_witness:
  "\<exists>m \<le> 5. await_running quiet ''w1'' ''a2'' 0 HEALTH_CHECK_ATTEMPTS sample_world =
     (Inr (running_on ''w1'' ''a2'' (after_sleeps quiet ''w1'' 0 m sample_world)),
      after_sleeps quiet ''w1'' 0 m sample_world)"
  using health_check_ends [of quiet "''w1''" "''a2''" sample_world] by (auto simp: HEALTH_CHECK_ATTEMPTS_def)

subsection \<open>Every workload is accounted for\<close>

lemma await_returns: "\<exists>b w'. await_running env wid target k n w = (Inr b, w')"
  using await_running_ends [of n env wid target k w] by blast

lemma decision_target:
  "pd_selectedAgentId (drain_decision pf agentId wc w) = Some t \<Longrightarrow> t \<noteq> agentId \<and> find_agent t w \<noteq> None"
  using findBy_None [of ag_id t "w_agents w"]
  by (auto simp: drain_decision_def buildSchedulerContext_def Let_def find_agent_def dest!: selected_agent)

text \<open>What one round adds to the result.\<close>

inductive adds_one :: "string \<Rightarrow> string \<Rightarrow> drain_result \<Rightarrow> drain_result \<Rightarrow> bool" for agentId wid where
  moved: "t \<noteq> agentId \<Longrightarrow> adds_one agentId wid acc (acc\<lparr>dr_relocated := dr_relocated acc @ [(wid, t)]\<rparr>)"
| stranded: "adds_one agentId wid acc (acc\<lparr>dr_stranded := dr_stranded acc @ [(wid, reason)]\<rparr>)"

inductive_cases adds_oneE: "adds_one agentId wid acc acc'"

lemma drain_one_adds:
  assumes "drain_one pf env agentId actor wc acc w = (Inr acc', w')"
  shows "adds_one agentId (wl_id (fst wc)) acc acc'"
proof (cases "truthy (pd_selectedAgentId (drain_decision pf agentId wc w))")
  case None
  with assms show ?thesis by (auto simp: drain_one_def run_simps intro: adds_one.intros)
next
  case (Some t)
  then have t: "t \<noteq> agentId" using decision_target [of pf agentId wc w t] by (simp add: truthy_Some)
  from assms Some obtain r w1 where "assignWorkloadToAgent pf (wl_id (fst wc)) t actor w = (Inr r, w1)"
    by (auto simp: drain_one_def run_simps elim!: andThen_InrE)
  with assms Some t show ?thesis
    by (cases r) (auto simp: drain_one_def run_simps andThen_Inr elim!: andThen_InrE intro: adds_one.intros)
qed

lemma drain_loop_adds:
  assumes "forEach wcs acc (drain_one pf env agentId actor) w = (Inr res, w')"
  shows "mset (map fst (dr_relocated res)) + mset (map fst (dr_stranded res)) =
      mset (map fst (dr_relocated acc)) + mset (map fst (dr_stranded acc)) + mset (map (wl_id \<circ> fst) wcs)
    \<and> (agentId \<in> snd ` set (dr_relocated res) \<longrightarrow> agentId \<in> snd ` set (dr_relocated acc))"
  using assms
proof (induction wcs arbitrary: acc w)
  case Nil
  then show ?case by (auto simp: run_simps)
next
  case (Cons wc wcs)
  from Cons.prems obtain acc1 w1 where one: "drain_one pf env agentId actor wc acc w = (Inr acc1, w1)"
      and rest: "forEach wcs acc1 (drain_one pf env agentId actor) w1 = (Inr res, w')"
    by (auto elim!: andThen_InrE)
  from Cons.IH [OF rest] drain_one_adds [OF one] show ?case
    by (auto elim!: adds_oneE)
qed


lemma drain_starts:
  assumes "find_agent a w = Some r"
  shows "\<exists>w1. w_workloads w1 = w_workloads w \<and> drainAgent pf env a actor w =
    andThen (forEach (workloads_to_move a w1) \<lparr>dr_relocated = [], dr_stranded = [], dr_fullyDrained = False\<rparr>
      (drain_one pf env a actor)) (finish_drain a actor) w1"
  using assms unfolding drainAgent_def
  by (intro exI [of _ "snd (writeAuditLog (Some actor) ''agent.drain_started'' ''agent'' a (Some (JObj []))
      (set_agents a (\<lambda>r. r\<lparr>ag_status := Draining\<rparr>) w))"]) (simp add: run_simps)

lemma finish_drain_result:
  assumes "finish_drain a actor moved w = (Inr res, w')"
  shows "res = moved\<lparr>dr_fullyDrained := (Some a \<notin> wl_assignedAgentId ` set (w_workloads w'))\<rparr>"
proof -
  have none: "still_assigned a w = 0 \<longleftrightarrow> Some a \<notin> wl_assignedAgentId ` set (w_workloads w)"
    by (simp add: still_assigned_def filter_empty_conv image_iff) metis
  show ?thesis
    using assms none by (auto simp: finish_drain_def run_simps Let_def split: option.splits if_splits)
qed

text \<open>An unknown agent is an error, and nothing is written.\<close>

lemma drain_unknown_agent:
  "find_agent a w = None \<Longrightarrow>
   drainAgent pf env a actor w = (Inl (AgentNotFoundError (''Agent '' @ a @ '' not found'')), w)"
  by (simp add: drainAgent_def run_simps)

text \<open>
  Whatever the other processes do meanwhile: when a drain returns, it has listed each workload that was
  assigned to the agent at the start exactly once, as relocated elsewhere or as stranded.
\<close>

lemma drain_lists_every_workload:
  assumes "drainAgent pf env a actor w = (Inr res, w')"
  shows "mset (map fst (dr_relocated res) @ map fst (dr_stranded res)) =
      mset (map wl_id (filter (\<lambda>r. wl_assignedAgentId r = Some a) (w_workloads w)))"
    and "a \<notin> snd ` set (dr_relocated res)"
    and "dr_fullyDrained res = (Some a \<notin> wl_assignedAgentId ` set (w_workloads w'))"
proof -
  let ?go = "\<lparr>dr_relocated = [], dr_stranded = [], dr_fullyDrained = False\<rparr>"
  obtain r where "find_agent a w = Some r"
    using assms drain_unknown_agent [of a w pf env actor] by (cases "find_agent a w") auto
  from drain_starts [OF this, of pf env actor] assms obtain w1 where w1: "w_workloads w1 = w_workloads w"
    and "andThen (forEach (workloads_to_move a w1) ?go (drain_one pf env a actor)) (finish_drain a actor) w1 = (Inr res, w')"
    by auto
  then obtain moved w2 where
      loop: "forEach (workloads_to_move a w1) ?go (drain_one pf env a actor) w1 = (Inr moved, w2)"
    and "finish_drain a actor moved w2 = (Inr res, w')"
    by (elim andThen_InrE)
  note rest = finish_drain_result [OF this(2)]
  have "map (wl_id \<circ> fst) (workloads_to_move a w1) =
      map wl_id (filter (\<lambda>r. wl_assignedAgentId r = Some a) (w_workloads w))"
    using w1 by (simp add: workloads_to_move_def comp_def)
  with drain_loop_adds [OF loop] rest
  show "mset (map fst (dr_relocated res) @ map fst (dr_stranded res)) =
      mset (map wl_id (filter (\<lambda>r. wl_assignedAgentId r = Some a) (w_workloads w)))"
    and "a \<notin> snd ` set (dr_relocated res)"
    and "dr_fullyDrained res = (Some a \<notin> wl_assignedAgentId ` set (w_workloads w'))"
    by auto
qed

subsection \<open>Handing a workload over\<close>

text \<open>
  One command was recorded, pending, and one job enqueued for the same agent; three identifiers were
  drawn, the first as the command's key, and no agent row changed.
\<close>

definition sends :: "platform \<Rightarrow> string \<Rightarrow> string \<Rightarrow> string \<Rightarrow> int \<Rightarrow> world \<Rightarrow> command_row \<Rightarrow> world \<Rightarrow> bool" where
  "sends pf a wid t g w c w' \<longleftrightarrow> w_agents w' = w_agents w \<and> w_redis w' = w_redis w \<and> w_now w' = w_now w
     \<and> w_seq w' = Suc (Suc (Suc (w_seq w))) \<and> w_commands w' = w_commands w @ [c]
     \<and> (\<exists>j. w_queue w' = w_queue w @ [j] \<and> jb_agentId j = a \<and> type_of (jb_message j) = Some (JStr t))
     \<and> ac_agentId c = a \<and> ac_workloadId c = Some wid \<and> ac_commandType c = t \<and> ac_generation c = Some g
     \<and> ac_status c = CmdPending \<and> ac_idempotencyKey c = pf_randomUUID pf (w_seq w)"

lemma sends_fresh: "sends pf a wid t g w c w' \<Longrightarrow> fresh_uuids pf (k + 3) w \<Longrightarrow> fresh_uuids pf k w'"
  by (rule fresh_after) (auto simp: sends_def)

lemma fresh_unused: "fresh_uuids pf (k + 3) w \<Longrightarrow> uuid_unused pf w"
  by (simp add: fresh_uuids_def)

lemma assign_sends:
  assumes "w_redis w" "uuid_unused pf w" "find_workload wid w = Some r" "find_agent t w \<noteq> None"
    and "int4 (wl_generation r + 1)"
  shows "\<exists>c w'. assignWorkloadToAgent pf wid t actor w = (Inr Done, w')
    \<and> sends pf t wid ''bot.update'' (wl_generation r + 1) w c w'
    \<and> w_workloads w' = updateWhere (\<lambda>x. wl_id x = wid) (assign_row t) (w_workloads w)"
proof -
  have found: "find_workload wid (set_workloads wid (assign_row t) w) = Some (assign_row t r)"
    using assms by (simp add: find_set_workloads assign_row_def)
  show ?thesis
    using assms found
    by (auto simp: assignWorkloadToAgent_def Let_def run_simps andThen_record_ok can_issue_def int4_opt_def
        assign_row_def [of t r] sends_def new_command_def) (simp_all add: set_workloads_def)
qed

lemma start_sends:
  assumes "w_redis w" "uuid_unused pf w" "find_workload wid w = Some r" "wl_assignedAgentId r = Some t"
    and "t \<noteq> ''''" "find_agent t w \<noteq> None" "int4 (wl_generation r)"
  shows "\<exists>c w'. sendWorkloadCommand pf wid CtStart (Some actor) w = (Inr Done, w')
    \<and> sends pf t wid ''bot.start'' (wl_generation r) w c w'
    \<and> w_workloads w' = updateWhere (\<lambda>x. wl_id x = wid) (\<lambda>r. r\<lparr>wl_desiredState := DesiredRunning\<rparr>) (w_workloads w)"
  using assms
  by (auto simp: sendWorkloadCommand_def truthy_if Let_def run_simps andThen_record_ok can_issue_def int4_opt_def
      sends_def new_command_def) (simp_all add: set_workloads_def)

lemma stop_sends:
  assumes "w_redis w" "uuid_unused pf w" "find_workload (wl_id r) w \<noteq> None" "find_agent a w \<noteq> None"
    and "int4 (wl_generation r)"
  shows "\<exists>c w'. stop_old_agent pf a actor r w = (Inr (), w')
    \<and> sends pf a (wl_id r) ''bot.stop'' (wl_generation r) w c w' \<and> w_workloads w' = w_workloads w"
  using assms
  by (auto simp: stop_old_agent_def Let_def run_simps record_ok can_issue_def int4_opt_def sends_def new_command_def)

text \<open>What the stop of the old agent needs of the state the sleeps leave.\<close>

definition can_stop :: "platform \<Rightarrow> string \<Rightarrow> string \<Rightarrow> world \<Rightarrow> bool" where
  "can_stop pf a wid w \<longleftrightarrow> w_redis w \<and> uuid_unused pf w \<and> find_workload wid w \<noteq> None \<and> find_agent a w \<noteq> None"

lemma stop_fails:
  assumes "\<not> can_stop pf a (wl_id r) w" "int4 (wl_generation r)"
  shows "\<exists>e w'. stop_old_agent pf a actor r w = (Inl e, w') \<and> w_workloads w' = w_workloads w \<and> w_queue w' = w_queue w"
proof -
  let ?payload = "command_payload (wl_id r) (wl_botId r) (wl_generation r) (pf_randomUUID pf (w_seq w))"
  let ?p = "\<lambda>m. \<lparr>pa_agentId = a, pa_workloadId = Some (wl_id r), pa_commandType = ''bot.stop'', pa_payloadJson = JObj ?payload,
    pa_message = m, pa_actorUserId = Some actor, pa_idempotencyKey = pf_randomUUID pf (w_seq w), pa_generation = Some (wl_generation r)\<rparr>"
  obtain m w1 where stop: "stop_old_agent pf a actor r w = recordAndEnqueueCommand pf (?p m) w1"
      and w1: "w1 = w\<lparr>w_seq := Suc (Suc (w_seq w))\<rparr>"
    by (simp add: stop_old_agent_def run_simps Let_def)
  have "\<not> (can_issue (?p m) w1 \<and> w_redis w1)"
    using assms by (auto simp: can_stop_def can_issue_def w1 int4_opt_def)
  then show ?thesis
  proof (cases "can_issue (?p m) w1")
    case True
    then have "\<not> w_redis w1" using \<open>\<not> (can_issue (?p m) w1 \<and> w_redis w1)\<close> by blast
    with record_no_queue [OF True] show ?thesis by (simp add: stop with_command_def w1)
  next
    case False
    obtain e where "recordAndEnqueueCommand pf (?p m) w1 = (Inl e, w1\<lparr>w_seq := Suc (w_seq w1)\<rparr>)"
      using record_refused [OF False] by blast
    then show ?thesis by (simp add: stop w1)
  qed
qed

definition addressed :: "string \<Rightarrow> string \<Rightarrow> string \<Rightarrow> int \<Rightarrow> command_row \<Rightarrow> bool" where
  "addressed a wid t g c \<longleftrightarrow> ac_agentId c = a \<and> ac_workloadId c = Some wid \<and> ac_commandType c = t
     \<and> ac_generation c = Some g \<and> ac_status c = CmdPending"

definition job_label :: "command_job \<Rightarrow> string \<times> json option" where
  "job_label j = (jb_agentId j, type_of (jb_message j))"

lemma sends_addressed:
  assumes "sends pf a wid t g w c w'"
  shows "addressed a wid t g c" "\<exists>j. w_queue w' = w_queue w @ [j] \<and> job_label j = (a, Some (JStr t))"
  using assms by (auto simp: sends_def addressed_def job_label_def)

text \<open>
  The assignment and the start of the new copy: what they record and enqueue, with nobody else acting yet.
\<close>

lemma new_copy_sends:
  assumes "w_redis w" "fresh_uuids pf 6 w" "find_workload (wl_id r) w = Some r'" "wl_generation r' = g"
    and "int4 (g + 1)" "find_agent t w \<noteq> None" "t \<noteq> ''''"
  obtains c1 cs jobs w0 w1 where "assignWorkloadToAgent pf (wl_id r) t actor w = (Inr Done, w0)"
    "(if wl_desiredState r \<noteq> DesiredRunning then ret Done else sendWorkloadCommand pf (wl_id r) CtStart (Some actor)) w0 = (Inr Done, w1)"
    "w_commands w1 = w_commands w @ c1 # cs" "w_queue w1 = w_queue w @ jobs"
    "addressed t (wl_id r) ''bot.update'' (g + 1) c1" "list_all (addressed t (wl_id r) ''bot.start'' (g + 1)) cs"
    "length cs = (if wl_desiredState r = DesiredRunning then 1 else 0)"
    "map job_label jobs = (t, Some (JStr ''bot.update'')) # replicate (length cs) (t, Some (JStr ''bot.start''))"
    "w_workloads w1 = updateWhere (\<lambda>x. wl_id x = wl_id r) (\<lambda>x. let x = assign_row t x in
        if wl_desiredState r = DesiredRunning then x\<lparr>wl_desiredState := DesiredRunning\<rparr> else x) (w_workloads w)"
    "w_agents w1 = w_agents w" "w_redis w1" "w_now w1 = w_now w"
    "\<And>k. fresh_uuids pf (k + 6) w \<Longrightarrow> fresh_uuids pf k w1"
proof -
  have fresh3: "fresh_uuids pf (3 + 3) w" using assms(2) by simp
  obtain c1 w0 where assign: "assignWorkloadToAgent pf (wl_id r) t actor w = (Inr Done, w0)"
    and s0: "sends pf t (wl_id r) ''bot.update'' (g + 1) w c1 w0"
    and rows0: "w_workloads w0 = updateWhere (\<lambda>x. wl_id x = wl_id r) (assign_row t) (w_workloads w)"
    using assign_sends [OF assms(1) fresh_unused [OF fresh3] assms(3,6), of actor] assms(4,5) by blast
  obtain j0 where j0: "w_queue w0 = w_queue w @ [j0]" "job_label j0 = (t, Some (JStr ''bot.update''))"
    using sends_addressed(2) [OF s0] by blast
  have "find_workload (wl_id r) w0 = find_workload (wl_id r) (set_workloads (wl_id r) (assign_row t) w)"
    using rows0 by (simp add: find_workload_def set_workloads_def)
  then have found0: "find_workload (wl_id r) w0 = Some (assign_row t r')"
    using assms(3) by (simp add: find_set_workloads assign_row_def)
  have unused0: "uuid_unused pf w0" using sends_fresh [OF s0 fresh3] by (simp add: fresh_uuids_def)
  have agents0: "find_agent t w0 \<noteq> None" "w_redis w0" using s0 assms(1,6) by (auto simp: sends_def find_agent_def)
  show ?thesis
  proof (cases "wl_desiredState r = DesiredRunning")
    case False
    show ?thesis
    proof (rule that [OF assign, of w0 c1 "[]" "[j0]"])
      show "fresh_uuids pf k w0" if "fresh_uuids pf (k + 6) w" for k
        using sends_fresh [OF s0, of "k + 3"] that fresh_mono [of pf "k + 3" w0 k] by (simp add: add.assoc)
    qed (use False s0 j0 rows0 agents0 sends_addressed(1) [OF s0] in \<open>simp_all add: ret_def sends_def\<close>)
  next
    case True
    obtain c w1 where send: "sendWorkloadCommand pf (wl_id r) CtStart (Some actor) w0 = (Inr Done, w1)"
      and s1: "sends pf t (wl_id r) ''bot.start'' (g + 1) w0 c w1"
      and rows1: "w_workloads w1 = updateWhere (\<lambda>x. wl_id x = wl_id r) (\<lambda>r. r\<lparr>wl_desiredState := DesiredRunning\<rparr>) (w_workloads w0)"
      using start_sends [OF agents0(2) unused0 found0 _ assms(7) agents0(1), of actor] assms(4,5)
      by (auto simp: assign_row_def)
    obtain j1 where j1: "w_queue w1 = w_queue w0 @ [j1]" "job_label j1 = (t, Some (JStr ''bot.start''))"
      using sends_addressed(2) [OF s1] by blast
    show ?thesis
    proof (rule that [OF assign, of w1 c1 "[c]" "[j0, j1]"])
      show "fresh_uuids pf k w1" if "fresh_uuids pf (k + 6) w" for k
        using sends_fresh [OF s1, of k] sends_fresh [OF s0, of "k + 3"] that by (simp add: add.assoc)
      show "w_workloads w1 = updateWhere (\<lambda>x. wl_id x = wl_id r) (\<lambda>x. let x = assign_row t x in
          if wl_desiredState r = DesiredRunning then x\<lparr>wl_desiredState := DesiredRunning\<rparr> else x) (w_workloads w)"
        using True by (simp add: rows1 rows0 updateWhere_def assign_row_def)
    qed (use True send s0 s1 j0 j1 agents0 sends_addressed(1) [OF s0] sends_addressed(1) [OF s1] in \<open>simp_all add: sends_def\<close>)
  qed
qed

text \<open>What the assignment and the start of the new copy have done to \<open>w\<close> when the sleeps begin in \<open>w1\<close>.\<close>

definition new_copy_requested :: "string \<Rightarrow> workload_row \<Rightarrow> world \<Rightarrow> world \<Rightarrow> bool" where
  "new_copy_requested t r w w1 \<longleftrightarrow> (\<exists>c1 cs jobs. w_commands w1 = w_commands w @ c1 # cs \<and> w_queue w1 = w_queue w @ jobs
     \<and> addressed t (wl_id r) ''bot.update'' (wl_generation r + 1) c1
     \<and> list_all (addressed t (wl_id r) ''bot.start'' (wl_generation r + 1)) cs
     \<and> length cs = (if wl_desiredState r = DesiredRunning then 1 else 0)
     \<and> map job_label jobs = (t, Some (JStr ''bot.update'')) # replicate (length cs) (t, Some (JStr ''bot.start'')))
   \<and> w_workloads w1 = updateWhere (\<lambda>x. wl_id x = wl_id r) (\<lambda>x. let x = assign_row t x in
       if wl_desiredState r = DesiredRunning then x\<lparr>wl_desiredState := DesiredRunning\<rparr> else x) (w_workloads w)
   \<and> w_agents w1 = w_agents w \<and> w_redis w1 = w_redis w \<and> w_now w1 = w_now w"

text \<open>The sleeps of the health check: \<open>m\<close> of them, none for a workload that should not run.\<close>

definition health_checked :: "environment \<Rightarrow> string \<Rightarrow> workload_row \<Rightarrow> world \<Rightarrow> nat \<Rightarrow> bool" where
  "health_checked env t r w1 m \<longleftrightarrow> m \<le> HEALTH_CHECK_ATTEMPTS \<and> (m = 0 \<longleftrightarrow> wl_desiredState r \<noteq> DesiredRunning)
     \<and> (\<forall>j\<in>{0<..<m}. \<not> running_on (wl_id r) t (after_sleeps env (wl_id r) 0 j w1))
     \<and> (m = 0 \<or> m = HEALTH_CHECK_ATTEMPTS \<or> running_on (wl_id r) t (after_sleeps env (wl_id r) 0 m w1))"

lemma start_and_wait_runs:
  assumes "(if wl_desiredState r \<noteq> DesiredRunning then ret Done else sendWorkloadCommand pf (wl_id r) CtStart (Some actor)) w0 = (Inr Done, w1)"
  obtains m where "start_and_wait pf env actor r t w0 = (Inr (), after_sleeps env (wl_id r) 0 m w1)" "health_checked env t r w1 m"
proof (cases "wl_desiredState r = DesiredRunning")
  case False
  with assms that [of 0] show ?thesis by (simp add: start_and_wait_def health_checked_def ret_def)
next
  case True
  then have send: "sendWorkloadCommand pf (wl_id r) CtStart (Some actor) w0 = (Inr Done, w1)" using assms by simp
  obtain m where m: "m \<le> HEALTH_CHECK_ATTEMPTS"
      "await_running env (wl_id r) t 0 HEALTH_CHECK_ATTEMPTS w1 =
         (Inr (0 < m \<and> running_on (wl_id r) t (after_sleeps env (wl_id r) 0 m w1)), after_sleeps env (wl_id r) 0 m w1)"
      "\<forall>j. 0 < j \<and> j < m \<longrightarrow> \<not> running_on (wl_id r) t (after_sleeps env (wl_id r) 0 j w1)"
      "m < HEALTH_CHECK_ATTEMPTS \<longrightarrow> 0 < m \<and> running_on (wl_id r) t (after_sleeps env (wl_id r) 0 m w1)"
    using await_running_ends [of HEALTH_CHECK_ATTEMPTS env "wl_id r" t 0 w1] by blast
  moreover have "0 < m" using m(4) by (cases m) (auto simp: HEALTH_CHECK_ATTEMPTS_def)
  ultimately show ?thesis
    using that [of m] True send by (auto simp: start_and_wait_def andThen_def ret_def health_checked_def)
qed

text \<open>One round with an eligible agent, up to the stop of the old copy.\<close>

lemma drain_one_moves:
  assumes "w_redis w" "fresh_uuids pf 6 w" "find_workload (wl_id r) w = Some r'" "wl_generation r' = wl_generation r"
    and "int4 (wl_generation r + 1)"
    and target: "truthy (pd_selectedAgentId (drain_decision pf a (r, customer) w)) = Some t"
  obtains w1 m where "new_copy_requested t r w w1" "health_checked env t r w1 m"
    and "\<And>k. fresh_uuids pf (k + 6) w \<Longrightarrow> fresh_uuids pf k w1"
    and "drain_one pf env a actor (r, customer) acc w =
      (case stop_old_agent pf a actor r (after_sleeps env (wl_id r) 0 m w1) of
         (Inl e, w') \<Rightarrow> (Inl e, w')
       | (Inr _, w') \<Rightarrow> (Inr (acc\<lparr>dr_relocated := dr_relocated acc @ [(wl_id r, t)]\<rparr>), w'))"
proof -
  have t: "t \<noteq> ''''" "find_agent t w \<noteq> None"
    using target decision_target [of pf a "(r, customer)" w t] by (simp_all add: truthy_Some)
  obtain w0 w1 where assign: "assignWorkloadToAgent pf (wl_id r) t actor w = (Inr Done, w0)"
    and start: "(if wl_desiredState r \<noteq> DesiredRunning then ret Done else sendWorkloadCommand pf (wl_id r) CtStart (Some actor)) w0 = (Inr Done, w1)"
    and w1: "new_copy_requested t r w w1" "\<And>k. fresh_uuids pf (k + 6) w \<Longrightarrow> fresh_uuids pf k w1"
    by (rule new_copy_sends [OF assms(1-5) t(2,1), of actor]) (use assms(1) in \<open>simp add: new_copy_requested_def; blast\<close>)
  obtain m where m: "start_and_wait pf env actor r t w0 = (Inr (), after_sleeps env (wl_id r) 0 m w1)" "health_checked env t r w1 m"
    by (rule start_and_wait_runs [OF start])
  have "drain_one pf env a actor (r, customer) acc w =
      (case stop_old_agent pf a actor r (after_sleeps env (wl_id r) 0 m w1) of
         (Inl e, w') \<Rightarrow> (Inl e, w')
       | (Inr _, w') \<Rightarrow> (Inr (acc\<lparr>dr_relocated := dr_relocated acc @ [(wl_id r, t)]\<rparr>), w'))"
    using target by (simp add: drain_one_def andThen_def gets_def assign m(1) ret_def split: prod.split sum.split)
  with that [OF w1(1) m(2) w1(2)] show ?thesis by blast
qed

text \<open>
  C10: a drain starts the new copy before it stops the old one and gives the two different
  generations, whatever the other processes of the system do while it sleeps. With a working queue and an
  agent \<open>t\<close> that can take the workload, one round first assigns the workload to \<open>t\<close> and records and enqueues
  for \<open>t\<close> the new specification and, if the workload should run, a start, both under the next generation.
  Then it sleeps at most five times, until the workload is seen running on \<open>t\<close> (which, since
  assigning leaves the observed state, a workload that was reported running before already is). Only then,
  confirmed or not, is a stop recorded and enqueued for the drained agent, under the generation that agent
  knows, and the workload is reported relocated. If the others have meanwhile taken away what the stop needs
  (the queue, the workload, the agent) the drain ends in an exception, the workload staying with \<open>t\<close>.
\<close>
theorem drain_hands_over:
  assumes "w_redis w" "fresh_uuids pf 7 w" "find_workload (wl_id r) w = Some r" "find_agent a w \<noteq> None"
    and "int4 (wl_generation r)" "int4 (wl_generation r + 1)"
    and target: "truthy (pd_selectedAgentId (drain_decision pf a (r, customer) w)) = Some t"
  shows "\<exists>w1 m. (\<exists>c1 cs jobs. w_commands w1 = w_commands w @ c1 # cs \<and> w_queue w1 = w_queue w @ jobs
        \<and> addressed t (wl_id r) ''bot.update'' (wl_generation r + 1) c1
        \<and> list_all (addressed t (wl_id r) ''bot.start'' (wl_generation r + 1)) cs
        \<and> length cs = (if wl_desiredState r = DesiredRunning then 1 else 0)
        \<and> map job_label jobs = (t, Some (JStr ''bot.update'')) # replicate (length cs) (t, Some (JStr ''bot.start'')))
    \<and> find_workload (wl_id r) w1 = Some (assign_row t r) \<and> w_now w1 = w_now w
    \<and> running_on (wl_id r) t w1 = (wl_observedState r = ObsRunning) \<and> can_stop pf a (wl_id r) w1
    \<and> health_checked env t r w1 m
    \<and> (let w2 = after_sleeps env (wl_id r) 0 m w1 in
       if can_stop pf a (wl_id r) w2
       then \<exists>w' c2 j. drain_one pf env a actor (r, customer) acc w =
             (Inr (acc\<lparr>dr_relocated := dr_relocated acc @ [(wl_id r, t)]\<rparr>), w')
           \<and> w_commands w' = w_commands w2 @ [c2] \<and> addressed a (wl_id r) ''bot.stop'' (wl_generation r) c2
           \<and> w_queue w' = w_queue w2 @ [j] \<and> job_label j = (a, Some (JStr ''bot.stop''))
           \<and> w_workloads w' = w_workloads w2
       else \<exists>e w'. drain_one pf env a actor (r, customer) acc w = (Inl e, w')
           \<and> w_workloads w' = w_workloads w2 \<and> w_queue w' = w_queue w2)"
proof -
  have fresh: "fresh_uuids pf 6 w" using fresh_mono [OF assms(2)] by simp
  obtain w1 m where w1: "new_copy_requested t r w w1" and m: "health_checked env t r w1 m"
    and ids: "\<And>k. fresh_uuids pf (k + 6) w \<Longrightarrow> fresh_uuids pf k w1"
    and run: "drain_one pf env a actor (r, customer) acc w =
      (case stop_old_agent pf a actor r (after_sleeps env (wl_id r) 0 m w1) of
         (Inl e, w') \<Rightarrow> (Inl e, w')
       | (Inr _, w') \<Rightarrow> (Inr (acc\<lparr>dr_relocated := dr_relocated acc @ [(wl_id r, t)]\<rparr>), w'))"
    using drain_one_moves [OF assms(1) fresh assms(3) refl assms(6) target, of env actor acc thesis] by blast
  let ?g = "\<lambda>x. let x = assign_row t x in if wl_desiredState r = DesiredRunning then x\<lparr>wl_desiredState := DesiredRunning\<rparr> else x"
  have "find_workload (wl_id r) w1 = find_workload (wl_id r) (set_workloads (wl_id r) ?g w)"
    using w1 by (simp add: new_copy_requested_def find_workload_def set_workloads_def)
  then have row: "find_workload (wl_id r) w1 = Some (assign_row t r)"
    using assms(3) by (simp add: find_set_workloads assign_row_def Let_def)
  have "uuid_unused pf w1" using ids [of 1] assms(2) by (simp add: fresh_uuids_def)
  with w1 row assms(1,4) have stoppable: "can_stop pf a (wl_id r) w1"
    by (simp add: can_stop_def new_copy_requested_def find_agent_def)
  let ?w2 = "after_sleeps env (wl_id r) 0 m w1"
  have "if can_stop pf a (wl_id r) ?w2
     then \<exists>w' c2 j. drain_one pf env a actor (r, customer) acc w =
           (Inr (acc\<lparr>dr_relocated := dr_relocated acc @ [(wl_id r, t)]\<rparr>), w')
         \<and> w_commands w' = w_commands ?w2 @ [c2] \<and> addressed a (wl_id r) ''bot.stop'' (wl_generation r) c2
         \<and> w_queue w' = w_queue ?w2 @ [j] \<and> job_label j = (a, Some (JStr ''bot.stop''))
         \<and> w_workloads w' = w_workloads ?w2
     else \<exists>e w'. drain_one pf env a actor (r, customer) acc w = (Inl e, w')
         \<and> w_workloads w' = w_workloads ?w2 \<and> w_queue w' = w_queue ?w2"
  proof (cases "can_stop pf a (wl_id r) ?w2")
    case True
    then obtain c2 w3 where "stop_old_agent pf a actor r ?w2 = (Inr (), w3)"
        and s3: "sends pf a (wl_id r) ''bot.stop'' (wl_generation r) ?w2 c2 w3" and "w_workloads w3 = w_workloads ?w2"
      using stop_sends [of ?w2 pf r a actor] assms(5) by (auto simp: can_stop_def)
    with True sends_addressed [OF s3] show ?thesis by (auto simp: run sends_def)
  next
    case False
    with stop_fails [OF False assms(5), of actor] show ?thesis by (auto simp: run)
  qed
  with w1 m row stoppable show ?thesis
    by (intro exI [of _ w1] exI [of _ m]) (simp add: new_copy_requested_def running_on_def assign_row_def Let_def)
qed

lemma sample_decision: "pd_selectedAgentId (drain_decision sample_platform ''a1'' (sample_workload_row ''w1'' (Some ''a1''), ''c1'') sample_world) = Some ''a2''"
proof -
  let ?ws = "assigned_workloads (Some ''w1'') sample_world"
  let ?sw = "toSchedulerWorkload sample_world (sample_workload_row ''w1'' (Some ''a1''))\<lparr>sw_customerId := ''c1''\<rparr>"
  let ?a2 = "scheduler_agent_of sample_world ?ws (sample_agent_row ''a2'')"
  have ok: "eligibilityFailureReason ?a2 ?sw = None"
    unfolding eligible_iff
    by (simp add: toSchedulerWorkload_def Let_def sample_workload_row_def new_workload_def spec_placement_def)
  have dec: "drain_decision sample_platform ''a1'' (sample_workload_row ''w1'' (Some ''a1''), ''c1'') sample_world =
      scheduleWorkload (pf_localeCompare sample_platform) ?sw [?a2] (customer_placements sample_world ?ws)"
    by (simp add: drain_decision_def buildSchedulerContext_def Let_def) (simp add: sample_world_def)
  from ok have "pd_selectedAgentId (scheduleWorkload lc ?sw [?a2] ps) \<noteq> None" for lc ps
    by (simp add: selected_none)
  then obtain x where "pd_selectedAgentId (drain_decision sample_platform ''a1'' (sample_workload_row ''w1'' (Some ''a1''), ''c1'') sample_world) = Some x"
    unfolding dec by blast
  with selected_agent [of _ ?sw "[?a2]" _ x] show ?thesis unfolding dec by auto
qed

theorem drain_hands_over_witness:
  "\<exists>w' acc'. drain_one sample_platform quiet ''a1'' ''u'' (sample_workload_row ''w1'' (Some ''a1''), ''c1'')
       \<lparr>dr_relocated = [], dr_stranded = [], dr_fullyDrained = False\<rparr> sample_world = (Inr acc', w')
     \<and> dr_relocated acc' = [(''w1'', ''a2'')]"
proof -
  let ?r = "sample_workload_row ''w1'' (Some ''a1'')"
  let ?acc = "\<lparr>dr_relocated = [], dr_stranded = [], dr_fullyDrained = False\<rparr>"
  have "inj_on (pf_randomUUID sample_platform) {0..<7}"
    by (auto simp: inj_on_def sample_platform_def)
  then have fresh: "fresh_uuids sample_platform 7 sample_world"
    by (simp add: fresh_uuids_def)
  have target: "truthy (pd_selectedAgentId (drain_decision sample_platform ''a1'' (?r, ''c1'') sample_world)) = Some ''a2''"
    by (simp add: sample_decision)
  obtain w1 m where w1: "can_stop sample_platform ''a1'' ''w1'' w1" and m: "health_checked quiet ''a2'' ?r w1 m"
    and run: "if can_stop sample_platform ''a1'' ''w1'' (after_sleeps quiet ''w1'' 0 m w1)
      then \<exists>w'. drain_one sample_platform quiet ''a1'' ''u'' (?r, ''c1'') ?acc sample_world = (Inr (?acc\<lparr>dr_relocated := [(''w1'', ''a2'')]\<rparr>), w')
      else True"
    using drain_hands_over [of sample_world sample_platform ?r "''a1''" "''c1''" "''a2''" quiet "''u''" ?acc, OF _ fresh _ _ _ _ target]
    by (fastforce simp: Let_def split: if_splits)
  from m have "m = 0" by (simp add: health_checked_def)
  with w1 run show ?thesis by auto
qed

subsection \<open>Every workload of the agent ends where the result says\<close>

text \<open>Where each workload is assigned, and under which generation.\<close>

definition summary :: "world \<Rightarrow> (string \<times> string option \<times> int) list" where
  "summary w = map (\<lambda>r. (wl_id r, wl_assignedAgentId r, wl_generation r)) (w_workloads w)"

definition moved_to :: "string \<Rightarrow> string \<Rightarrow> (string \<times> string option \<times> int) list \<Rightarrow> (string \<times> string option \<times> int) list" where
  "moved_to wid t = map (\<lambda>(i, x, g). if i = wid then (i, Some t, g + 1) else (i, x, g))"

definition relocate :: "(string \<times> string) list \<Rightarrow> (string \<times> string option \<times> int) list \<Rightarrow> (string \<times> string option \<times> int) list" where
  "relocate moves = map (\<lambda>(i, x, g). case map_of moves i of None \<Rightarrow> (i, x, g) | Some t \<Rightarrow> (i, Some t, g + 1))"

text \<open>
  The state during a drain of \<open>a\<close> that can still draw \<open>n\<close> unused identifiers, and an environment that
  does not get in its way: it may report states, take jobs from the queue, add commands, let time pass, but
  it keeps the queue configured, the identifiers unused and the agent known and not disabled, and
  assigns no workload.
\<close>

definition evacuating :: "platform \<Rightarrow> nat \<Rightarrow> string \<Rightarrow> world \<Rightarrow> bool" where
  "evacuating pf n a w \<longleftrightarrow> w_redis w \<and> fresh_uuids pf n w
     \<and> (\<exists>r. find_agent a w = Some r \<and> ag_status r \<noteq> Disabled)"

definition considerate :: "platform \<Rightarrow> string \<Rightarrow> environment \<Rightarrow> bool" where
  "considerate pf a env \<longleftrightarrow> (\<forall>wid k n w. evacuating pf n a w \<longrightarrow>
     evacuating pf n a (env wid k w) \<and> summary (env wid k w) = summary w)"

lemma considerate_sleeps:
  assumes "considerate pf a env" "evacuating pf n a w"
  shows "evacuating pf n a (after_sleeps env wid k m w) \<and> summary (after_sleeps env wid k m w) = summary w"
  using assms(2)
proof (induction m arbitrary: k w)
  case (Suc m)
  with assms(1) have "evacuating pf n a (env wid k w)" "summary (env wid k w) = summary w"
    by (simp_all add: considerate_def)
  with Suc.IH show ?case by simp
qed simp

lemma summary_ids: "map fst (summary w) = map wl_id (w_workloads w)"
  by (simp add: summary_def comp_def)

lemma summary_find: "(i, x, g) \<in> set (summary w) \<Longrightarrow> find_workload i w \<noteq> None"
  by (auto simp: summary_def find_workload_def findBy_None)

lemma summary_row:
  assumes "(i, x, g) \<in> set (summary w)" "distinct (map fst (summary w))"
  obtains r where "find_workload i w = Some r" "wl_assignedAgentId r = x" "wl_generation r = g"
proof -
  obtain r where r: "find_workload i w = Some r" using summary_find [OF assms(1)] by auto
  then have "(i, wl_assignedAgentId r, wl_generation r) \<in> set (summary w)"
    by (auto simp: summary_def find_workload_def dest: findBy_in findBy_key)
  with assms have "wl_assignedAgentId r = x \<and> wl_generation r = g"
    by (metis eq_key_imp_eq_value prod.inject)
  with r that show ?thesis by blast
qed

lemma summary_update:
  assumes "w_workloads w1 = updateWhere (\<lambda>x. wl_id x = i) (\<lambda>x. let x = assign_row t x in
      if b then x\<lparr>wl_desiredState := DesiredRunning\<rparr> else x) (w_workloads w)"
  shows "summary w1 = moved_to i t (summary w)"
  by (simp add: summary_def assms updateWhere_def moved_to_def assign_row_def Let_def)

lemma moved_ids [simp]: "map fst (moved_to i t S) = map fst S"
  by (simp add: moved_to_def comp_def split_def)

lemma summary_same: "w_workloads w' = w_workloads w \<Longrightarrow> summary w' = summary w"
  by (simp add: summary_def)

lemma drain_one_considerate:
  assumes env: "considerate pf a env" and w: "evacuating pf (n + 9) a w" "distinct (map fst (summary w))"
    and row: "(wl_id r, Some a, wl_generation r) \<in> set (summary w)"
    and "int4 (wl_generation r)" "int4 (wl_generation r + 1)"
  obtains (moved) t w' where "t \<noteq> a" "summary w' = moved_to (wl_id r) t (summary w)" "evacuating pf n a w'"
      "drain_one pf env a actor (r, c) acc w = (Inr (acc\<lparr>dr_relocated := dr_relocated acc @ [(wl_id r, t)]\<rparr>), w')"
  | (stranded) "evacuating pf n a w"
      "drain_one pf env a actor (r, c) acc w =
        (Inr (acc\<lparr>dr_stranded := dr_stranded acc @ [(wl_id r, ''no eligible agent found'')]\<rparr>), w)"
proof (cases "truthy (pd_selectedAgentId (drain_decision pf a (r, c) w))")
  case None
  have "evacuating pf n a w" using w(1) by (auto simp: evacuating_def intro: fresh_mono)
  with None stranded show ?thesis by (simp add: drain_one_def run_simps)
next
  case (Some t)
  have t: "t \<noteq> a" using Some decision_target [of pf a "(r, c)" w t] by (simp add: truthy_Some)
  obtain r' where r': "find_workload (wl_id r) w = Some r'" "wl_generation r' = wl_generation r"
    using summary_row [OF row w(2)] by blast
  have fresh: "w_redis w" "fresh_uuids pf 6 w" using w(1) by (auto simp: evacuating_def intro: fresh_mono)
  obtain w1 m where w1: "new_copy_requested t r w w1" and ids: "\<And>k. fresh_uuids pf (k + 6) w \<Longrightarrow> fresh_uuids pf k w1"
    and run: "drain_one pf env a actor (r, c) acc w =
      (case stop_old_agent pf a actor r (after_sleeps env (wl_id r) 0 m w1) of
         (Inl e, w') \<Rightarrow> (Inl e, w')
       | (Inr _, w') \<Rightarrow> (Inr (acc\<lparr>dr_relocated := dr_relocated acc @ [(wl_id r, t)]\<rparr>), w'))"
    using drain_one_moves [OF fresh r' assms(6) Some, of env actor acc thesis] by blast
  let ?w2 = "after_sleeps env (wl_id r) 0 m w1"
  have "evacuating pf (n + 3) a w1"
    using w1 w(1) ids [of "n + 3"] by (simp add: evacuating_def new_copy_requested_def find_agent_def add.assoc)
  with considerate_sleeps [OF env] have w2: "evacuating pf (n + 3) a ?w2" "summary ?w2 = summary w1" by blast+
  have sum: "summary ?w2 = moved_to (wl_id r) t (summary w)"
    using w1 summary_update [of w1 "wl_id r" t "wl_desiredState r = DesiredRunning" w] w2(2)
    by (simp add: new_copy_requested_def)
  have "wl_id r \<in> fst ` set (summary ?w2)"
    using row moved_ids [of "wl_id r" t "summary w"] unfolding sum by (metis fst_conv image_eqI set_map)
  then have "find_workload (wl_id r) ?w2 \<noteq> None" using summary_find by fastforce
  moreover have "fresh_uuids pf (n + 3) ?w2" "w_redis ?w2" "find_agent a ?w2 \<noteq> None"
    using w2(1) by (auto simp: evacuating_def)
  ultimately obtain c2 w3 where stop: "stop_old_agent pf a actor r ?w2 = (Inr (), w3)"
      and s3: "sends pf a (wl_id r) ''bot.stop'' (wl_generation r) ?w2 c2 w3" and rows: "w_workloads w3 = w_workloads ?w2"
    using stop_sends [of ?w2 pf r a actor] assms(5) fresh_unused [of pf n ?w2] by auto
  have "evacuating pf n a w3"
    using w2(1) s3 sends_fresh [OF s3] by (auto simp: evacuating_def sends_def find_agent_def)
  with moved [OF t _ this] run stop sum summary_same [OF rows] show ?thesis by simp
qed

lemma relocate_step:
  "i \<notin> fst ` set moves \<Longrightarrow> relocate moves (moved_to i t S) = relocate ((i, t) # moves) S"
  unfolding map_of_eq_None_iff [symmetric]
  by (induction S) (auto simp: relocate_def moved_to_def split: option.splits)

lemma drain_loop_considerate:
  assumes "considerate pf a env" "evacuating pf (9 * length wcs) a w" "distinct (map fst (summary w))"
    and "distinct (map (wl_id \<circ> fst) wcs)"
    and "\<forall>wc \<in> set wcs. (wl_id (fst wc), Some a, wl_generation (fst wc)) \<in> set (summary w)
      \<and> int4 (wl_generation (fst wc)) \<and> int4 (wl_generation (fst wc) + 1)"
  shows "\<exists>moves left w'. forEach wcs acc (drain_one pf env a actor) w =
      (Inr (acc\<lparr>dr_relocated := dr_relocated acc @ moves, dr_stranded := dr_stranded acc @ left\<rparr>), w')
    \<and> evacuating pf 0 a w' \<and> summary w' = relocate moves (summary w) \<and> snd ` set left \<subseteq> {''no eligible agent found''}
    \<and> fst ` set moves \<subseteq> (wl_id \<circ> fst) ` set wcs"
  using assms(2-5)
proof (induction wcs arbitrary: acc w)
  case Nil
  then show ?case by (intro exI [of _ "[]"]) (simp add: ret_def relocate_def split_def)
next
  case (Cons wc wcs)
  obtain r c where wc: "wc = (r, c)" by (cases wc)
  have row: "evacuating pf (9 * length wcs + 9) a w" "(wl_id r, Some a, wl_generation r) \<in> set (summary w)"
      "int4 (wl_generation r)" "int4 (wl_generation r + 1)"
    using Cons.prems by (simp_all add: wc add.commute)
  from assms(1) row(1) Cons.prems(2) row(2-4) show ?case
  proof (cases rule: drain_one_considerate [where actor = actor and c = c and acc = acc])
    case (moved t w1)
    have keep: "(i, x, g) \<in> set (summary w1)" if "(i, x, g) \<in> set (summary w)" "i \<noteq> wl_id r" for i x g
      using that by (force simp: moved(2) moved_to_def)
    obtain moves left w' where rest: "forEach wcs (acc\<lparr>dr_relocated := dr_relocated acc @ [(wl_id r, t)]\<rparr>) (drain_one pf env a actor) w1 =
        (Inr (acc\<lparr>dr_relocated := dr_relocated acc @ (wl_id r, t) # moves, dr_stranded := dr_stranded acc @ left\<rparr>), w')"
      "evacuating pf 0 a w'" "summary w' = relocate moves (summary w1)" "snd ` set left \<subseteq> {''no eligible agent found''}"
      "fst ` set moves \<subseteq> (wl_id \<circ> fst) ` set wcs"
      using Cons.IH [OF moved(3), of "acc\<lparr>dr_relocated := dr_relocated acc @ [(wl_id r, t)]\<rparr>"] Cons.prems(2-4) keep
      by (force simp: moved(2) wc image_iff)
    have "wl_id r \<notin> fst ` set moves" using rest(5) Cons.prems(3) by (auto simp: wc)
    with rest moved show ?thesis
      by (intro exI [of _ "(wl_id r, t) # moves"] exI [of _ left] exI [of _ w'])
        (auto simp: wc andThen_def relocate_step)
  next
    case stranded
    obtain moves left w' where "forEach wcs (acc\<lparr>dr_stranded := dr_stranded acc @ [(wl_id r, ''no eligible agent found'')]\<rparr>) (drain_one pf env a actor) w =
        (Inr (acc\<lparr>dr_relocated := dr_relocated acc @ moves, dr_stranded := dr_stranded acc @ (wl_id r, ''no eligible agent found'') # left\<rparr>), w')"
      "evacuating pf 0 a w'" "summary w' = relocate moves (summary w)" "snd ` set left \<subseteq> {''no eligible agent found''}"
      "fst ` set moves \<subseteq> (wl_id \<circ> fst) ` set wcs"
      using Cons.IH [OF stranded(1), of "acc\<lparr>dr_stranded := dr_stranded acc @ [(wl_id r, ''no eligible agent found'')]\<rparr>"] Cons.prems(2-4)
      by (force simp: wc)
    with stranded show ?thesis
      by (intro exI [of _ moves] exI [of _ "(wl_id r, ''no eligible agent found'') # left"] exI [of _ w'])
        (auto simp: wc andThen_def)
  qed
qed

lemma finish_drain_run:
  assumes "find_agent a w = Some r"
  obtains w' where "finish_drain a actor moved w = (Inr (moved\<lparr>dr_fullyDrained := (still_assigned a w = 0)\<rparr>), w')"
    "w_workloads w' = w_workloads w"
    "find_agent a w' = Some (if still_assigned a w = 0 then r\<lparr>ag_status := Disabled\<rparr> else r)"
proof -
  have "\<exists>w'. finish_drain a actor moved w = (Inr (moved\<lparr>dr_fullyDrained := (still_assigned a w = 0)\<rparr>), w')
    \<and> w_workloads w' = w_workloads w
    \<and> find_agent a w' = Some (if still_assigned a w = 0 then r\<lparr>ag_status := Disabled\<rparr> else r)"
    using assms by (auto simp: finish_drain_def run_simps Let_def find_set_agents)
  then show ?thesis using that by blast
qed

lemma still_assigned_summary: "still_assigned a w = 0 \<longleftrightarrow> Some a \<notin> (fst \<circ> snd) ` set (summary w)"
  by (auto simp: still_assigned_def summary_def filter_empty_conv image_iff)

text \<open>Who is left with the agent: exactly the stranded ones.\<close>

lemma left_behind:
  assumes "mset (map fst moves @ map fst left) = mset (map fst (filter (\<lambda>(i, x, g). x = Some a) S))"
    and "distinct (map fst S)" "a \<notin> snd ` set moves"
  shows "Some a \<in> (fst \<circ> snd) ` set (relocate moves S) \<longleftrightarrow> left \<noteq> []"
proof -
  have ids: "set (map fst moves) \<union> set (map fst left) = set (map fst (filter (\<lambda>(i, x, g). x = Some a) S))"
    using mset_eq_setD [OF assms(1)] by simp
  have "distinct (map fst (filter (\<lambda>(i, x, g). x = Some a) S))" using assms(2) by (rule distinct_map_filter)
  then have apart: "distinct (map fst moves @ map fst left)"
    using mset_eq_imp_distinct_iff [OF assms(1)] by blast
  have outside: "(\<exists>i \<in> A \<union> B. i \<notin> A) \<longleftrightarrow> B \<noteq> {}" if "A \<inter> B = {}" for A B :: "string set"
    using that by blast
  have mine: "i \<in> set (map fst (filter (\<lambda>(i, x, g). x = Some a) S)) \<longleftrightarrow> (\<exists>g. (i, Some a, g) \<in> set S)" for i
  proof
    assume "i \<in> set (map fst (filter (\<lambda>(i, x, g). x = Some a) S))"
    then obtain p where "p \<in> set S" "case p of (i, x, g) \<Rightarrow> x = Some a" "fst p = i" by auto
    then show "\<exists>g. (i, Some a, g) \<in> set S" by (cases p) auto
  next
    assume "\<exists>g. (i, Some a, g) \<in> set S"
    then obtain g where "(i, Some a, g) \<in> set (filter (\<lambda>(i, x, g). x = Some a) S)" by auto
    then show "i \<in> set (map fst (filter (\<lambda>(i, x, g). x = Some a) S))" unfolding set_map by (metis fst_conv image_eqI)
  qed
  have "Some a \<in> (fst \<circ> snd) ` set (relocate moves S) \<longleftrightarrow> (\<exists>i g. (i, Some a, g) \<in> set S \<and> map_of moves i = None)"
  proof
    assume "Some a \<in> (fst \<circ> snd) ` set (relocate moves S)"
    then obtain i x g where "(i, x, g) \<in> set S"
        "fst (snd (case map_of moves i of None \<Rightarrow> (i, x, g) | Some t \<Rightarrow> (i, Some t, g + 1))) = Some a"
      by (auto simp: relocate_def)
    moreover have "map_of moves i \<noteq> Some a"
      using assms(3) by (metis image_eqI map_of_SomeD snd_conv)
    ultimately show "\<exists>i g. (i, Some a, g) \<in> set S \<and> map_of moves i = None"
      by (cases "map_of moves i") auto
  next
    assume "\<exists>i g. (i, Some a, g) \<in> set S \<and> map_of moves i = None"
    then obtain i g where i: "(i, Some a, g) \<in> set S" "map_of moves i = None" by blast
    let ?f = "\<lambda>(i, x, g). case map_of moves i of None \<Rightarrow> (i, x, g) | Some t \<Rightarrow> (i, Some t, g + 1)"
    have "?f (i, Some a, g) \<in> set (relocate moves S)" unfolding relocate_def set_map using i(1) by (rule imageI)
    with i(2) have "(i, Some a, g) \<in> set (relocate moves S)" by simp
    then show "Some a \<in> (fst \<circ> snd) ` set (relocate moves S)" by (metis comp_apply fst_conv image_eqI snd_conv)
  qed
  also have "\<dots> \<longleftrightarrow> (\<exists>i \<in> set (map fst (filter (\<lambda>(i, x, g). x = Some a) S)). i \<notin> set (map fst moves))"
    unfolding Bex_def mine map_of_eq_None_iff set_map [of fst moves] by blast
  also have "\<dots> \<longleftrightarrow> (\<exists>i \<in> set (map fst moves) \<union> set (map fst left). i \<notin> set (map fst moves))" unfolding ids ..
  also have "\<dots> \<longleftrightarrow> set (map fst left) \<noteq> {}" by (rule outside) (use apart in simp)
  also have "\<dots> \<longleftrightarrow> left \<noteq> []" by simp
  finally show ?thesis .
qed

text \<open>
  C30: a drain accounts for every workload of the agent. Run against an environment that does not get
  in its way, it returns, and of the workloads assigned to the agent at the start each is listed exactly once: as
  relocated, never back to the drained agent, and then the database has it assigned to just that
  other agent under the next generation; or as stranded for want of an eligible agent, and then it is
  assigned to the drained agent as before. No other workload is reassigned. The result says "fully drained",
  and the agent is disabled, exactly when nothing was stranded. (For every environment, and an unknown
  agent: \<open>drain_lists_every_workload\<close>, \<open>drain_unknown_agent\<close>.)
\<close>
theorem drain_accounts_for_everything:
  assumes "w_redis w" "find_agent a w \<noteq> None" "distinct (map wl_id (w_workloads w))"
    and "fresh_uuids pf (9 * length (filter (\<lambda>r. wl_assignedAgentId r = Some a) (w_workloads w))) w"
    and "\<forall>r \<in> set (w_workloads w). int4 (wl_generation r) \<and> int4 (wl_generation r + 1)"
    and "considerate pf a env"
  shows "\<exists>res w'. drainAgent pf env a actor w = (Inr res, w')
    \<and> mset (map fst (dr_relocated res) @ map fst (dr_stranded res)) =
        mset (map wl_id (filter (\<lambda>r. wl_assignedAgentId r = Some a) (w_workloads w)))
    \<and> a \<notin> snd ` set (dr_relocated res) \<and> snd ` set (dr_stranded res) \<subseteq> {''no eligible agent found''}
    \<and> map (\<lambda>r. (wl_id r, wl_assignedAgentId r, wl_generation r)) (w_workloads w') =
        map (\<lambda>r. case map_of (dr_relocated res) (wl_id r) of
            None \<Rightarrow> (wl_id r, wl_assignedAgentId r, wl_generation r)
          | Some t \<Rightarrow> (wl_id r, Some t, wl_generation r + 1)) (w_workloads w)
    \<and> dr_fullyDrained res = (dr_stranded res = [])
    \<and> (map_option ag_status (find_agent a w') = Some Disabled) = (dr_stranded res = [])"
proof -
  let ?go = "\<lparr>dr_relocated = [], dr_stranded = [], dr_fullyDrained = False\<rparr>"
  let ?mine = "filter (\<lambda>r. wl_assignedAgentId r = Some a) (w_workloads w)"
  obtain r where r: "find_agent a w = Some r" using assms(2) by auto
  let ?w1 = "snd (writeAuditLog (Some actor) ''agent.drain_started'' ''agent'' a (Some (JObj []))
      (set_agents a (\<lambda>r. r\<lparr>ag_status := Draining\<rparr>) w))"
  have w1: "drainAgent pf env a actor w =
      andThen (forEach (workloads_to_move a ?w1) ?go (drain_one pf env a actor)) (finish_drain a actor) ?w1"
    "w_workloads ?w1 = w_workloads w" "find_agent a ?w1 = Some (r\<lparr>ag_status := Draining\<rparr>)"
    using r by (simp_all add: drainAgent_def run_simps find_set_agents)
  have rows: "map fst (workloads_to_move a ?w1) = ?mine" using w1(2) by (simp add: workloads_to_move_def comp_def)
  have "w_redis ?w1" "fresh_uuids pf (9 * length ?mine) ?w1"
    using assms(1,4) by (simp_all add: run_simps fresh_uuids_def find_command_def set_agents_def)
  then have "evacuating pf (9 * length (workloads_to_move a ?w1)) a ?w1"
    using w1(3) arg_cong [OF rows, of length] by (simp add: evacuating_def)
  moreover have "distinct (map fst (summary ?w1))" using assms(3) w1(2) by (simp add: summary_ids)
  moreover have "distinct (map (wl_id \<circ> fst) (workloads_to_move a ?w1))"
    using distinct_map_filter [OF assms(3)] by (simp add: map_map [symmetric] rows del: map_map)
  moreover have "\<forall>wc \<in> set (workloads_to_move a ?w1). (wl_id (fst wc), Some a, wl_generation (fst wc)) \<in> set (summary ?w1)
      \<and> int4 (wl_generation (fst wc)) \<and> int4 (wl_generation (fst wc) + 1)"
    using assms(5) w1(2) by (force simp: workloads_to_move_def summary_def)
  ultimately obtain moves left w2 where
      loop: "forEach (workloads_to_move a ?w1) ?go (drain_one pf env a actor) ?w1 = (Inr (?go\<lparr>dr_relocated := moves, dr_stranded := left\<rparr>), w2)"
    and w2: "evacuating pf 0 a w2" "summary w2 = relocate moves (summary ?w1)" "snd ` set left \<subseteq> {''no eligible agent found''}"
    using drain_loop_considerate [OF assms(6), of "workloads_to_move a ?w1" ?w1 ?go actor] by auto
  obtain r2 where r2: "find_agent a w2 = Some r2" "ag_status r2 \<noteq> Disabled" using w2(1) by (auto simp: evacuating_def)
  obtain w' where fin: "finish_drain a actor (?go\<lparr>dr_relocated := moves, dr_stranded := left\<rparr>) w2 =
      (Inr (?go\<lparr>dr_relocated := moves, dr_stranded := left, dr_fullyDrained := (still_assigned a w2 = 0)\<rparr>), w')"
    "w_workloads w' = w_workloads w2" "find_agent a w' = Some (if still_assigned a w2 = 0 then r2\<lparr>ag_status := Disabled\<rparr> else r2)"
    using finish_drain_run [OF r2(1), of actor "?go\<lparr>dr_relocated := moves, dr_stranded := left\<rparr>"] by auto
  let ?res = "?go\<lparr>dr_relocated := moves, dr_stranded := left, dr_fullyDrained := (still_assigned a w2 = 0)\<rparr>"
  have run: "drainAgent pf env a actor w = (Inr ?res, w')" unfolding w1(1) using loop fin(1) by (simp add: andThen_def)
  have listed: "mset (map fst moves @ map fst left) = mset (map wl_id ?mine)" "a \<notin> snd ` set moves"
    using drain_lists_every_workload(1,2) [OF run] by simp_all
  have "map wl_id ?mine = map fst (filter (\<lambda>(i, x, g). x = Some a) (summary w))"
    by (simp add: summary_def filter_map comp_def)
  with listed(1) have "mset (map fst moves @ map fst left) = mset (map fst (filter (\<lambda>(i, x, g). x = Some a) (summary w)))"
    by metis
  then have "still_assigned a w2 = 0 \<longleftrightarrow> left = []"
    using left_behind [of moves left a "summary w"] assms(3) listed(2) w2(2) summary_same [OF w1(2)]
    by (auto simp: still_assigned_summary summary_ids)
  moreover have "summary w' = relocate moves (summary w)"
    using w2(2) summary_same [OF fin(2)] summary_same [OF w1(2)] by simp
  then have "map (\<lambda>r. (wl_id r, wl_assignedAgentId r, wl_generation r)) (w_workloads w') =
      map (\<lambda>r. case map_of moves (wl_id r) of None \<Rightarrow> (wl_id r, wl_assignedAgentId r, wl_generation r)
        | Some t \<Rightarrow> (wl_id r, Some t, wl_generation r + 1)) (w_workloads w)"
    by (simp add: summary_def relocate_def comp_def)
  ultimately show ?thesis
    using run listed w2(3) fin(3) r2(2) by (intro exI [of _ ?res] exI [of _ w']) simp
qed

theorem drain_accounts_for_everything_witness:
  "\<exists>res w'. drainAgent sample_platform quiet ''a1'' ''u'' sample_world = (Inr res, w')
     \<and> map fst (dr_relocated res) @ map fst (dr_stranded res) = [''w1'']
     \<and> (map_option ag_status (find_agent ''a1'' w') = Some Disabled) = (dr_stranded res = [])"
proof -
  have "considerate sample_platform ''a1'' quiet"
    by (auto simp: considerate_def evacuating_def quiet_def fresh_uuids_def find_command_def find_agent_def summary_def)
  moreover have "inj_on (pf_randomUUID sample_platform) {0..<9}"
    by (auto simp: inj_on_def sample_platform_def)
  then have "fresh_uuids sample_platform 9 sample_world" by (simp add: fresh_uuids_def)
  ultimately obtain res w' where "drainAgent sample_platform quiet ''a1'' ''u'' sample_world = (Inr res, w')"
      "mset (map fst (dr_relocated res) @ map fst (dr_stranded res)) = mset [''w1'']"
      "(map_option ag_status (find_agent ''a1'' w') = Some Disabled) = (dr_stranded res = [])"
    using drain_accounts_for_everything [of sample_world "''a1''" sample_platform quiet "''u''"] by auto
  then show ?thesis by (metis mset_single_iff mset_zero_iff_right mset.simps mset_eq_length length_Cons mset_single_iff_right)
qed

end
