(* ===== verification/Workload_Api.thy ===== *)
theory Workload_Api
  imports Sessions Bot_Api Agent_Drain Enrollment
begin

text \<open>
  The administrator's routes about agents and workloads (\<open>app/api/admin/agents\<close>,
  \<open>app/api/admin/workloads\<close>): they work on the agent side of the database, the record \<open>world\<close>, and
  hand the request to the functions of \<open>Workloads\<close>, \<open>Scheduling\<close>, \<open>Agent_Drain\<close>, \<open>Reconciliation\<close> and
  \<open>Enrollment\<close>. The session is the one \<open>auth()\<close> returned; \<open>flatten\<close> renders the issues of a body.
\<close>

subsection \<open>Reading the request\<close>

text \<open>\<open>await request.json().catch(() => ({}))\<close>: a body that is not JSON is the empty object.\<close>

definition json_or_empty :: "json option \<Rightarrow> json" where
  "json_or_empty body = (case body of None \<Rightarrow> JObj [] | Some j \<Rightarrow> j)"

definition with_body ::
  "platform \<Rightarrow> (issue list \<Rightarrow> json) \<Rightarrow> schema \<Rightarrow> json option \<Rightarrow> (json option \<Rightarrow> response act) \<Rightarrow> response act" where
  "with_body pf flatten schema body k = parsed_body (pf_safeParse pf) flatten schema (json_or_empty body) k"

definition ok_json :: response where
  "ok_json = reply_json 200 [(''ok'', JBool True)]"

subsection \<open>Enrollment tokens\<close>

definition createTokenSchema :: schema where
  "createTokenSchema = SObj
     [Field ''environment'' (SOpt (SStr [AtMost 64] AnyText)), Field ''requiredLabels'' (SOpt (SRec (SStr [] AnyText))),
      Field ''ttlMinutes'' (SDefault (SNum [IsInt, Positive, MaxNum 1440]) (JNum 30))] None"

definition restrictions_of :: "json option \<Rightarrow> enrollment_restrictions option" where
  "restrictions_of data =
     (let environment = as_string (propOf ''environment'' data);
          requiredLabels = map_option (\<lambda>v. as_entries (Some v)) (propOf ''requiredLabels'' data)
      in if truthy environment \<noteq> None \<or> requiredLabels \<noteq> None
         then Some \<lparr>er_environment = environment, er_requiredLabels = requiredLabels\<rparr> else None)"

definition postEnrollmentTokens ::
  "platform \<Rightarrow> (issue list \<Rightarrow> json) \<Rightarrow> session option \<Rightarrow> json option \<Rightarrow> response act" where
  "postEnrollmentTokens pf flatten sess body = guarded (requireAdmin sess) (\<lambda>ss.
     with_body pf flatten createTokenSchema body (\<lambda>data.
       andThen (createEnrollmentToken pf (ss_userId ss) (restrictions_of data) (Some (int_of ''ttlMinutes'' data * 60 * 1000))) (\<lambda>token.
         ret (reply_json 201 [(''token'', JStr (ct_plaintextToken token)), (''tokenId'', JStr (ct_id token)),
           (''expiresAt'', JStr (pf_isoString pf (ct_expiresAt token)))]))))"

subsection \<open>Workloads\<close>

definition createWorkloadSchema :: schema where
  "createWorkloadSchema = SObj [Field ''botId'' (SStr [AtLeast 1] AnyText), Field ''specification'' SUnknown] None"

text \<open>A body without \<open>specification\<close> hands \<open>undefined\<close> to the validator.\<close>

definition create_from :: "platform \<Rightarrow> string \<Rightarrow> json option \<Rightarrow> string \<Rightarrow> create_result act" where
  "create_from pf botId specification actor = (case specification of
     Some spec \<Rightarrow> createWorkload pf botId spec actor
   | None \<Rightarrow> (case pf_safeParse pf workloadSpecSchema None of
       Inl problems \<Rightarrow> ret (CreateIssues (map issue_text problems))
     | Inr d \<Rightarrow> createWorkload pf botId (case d of None \<Rightarrow> JNull | Some v \<Rightarrow> v) actor))"

definition postWorkloads :: "platform \<Rightarrow> (issue list \<Rightarrow> json) \<Rightarrow> session option \<Rightarrow> json option \<Rightarrow> response act" where
  "postWorkloads pf flatten sess body = guarded (requireAdmin sess) (\<lambda>ss.
     with_body pf flatten createWorkloadSchema body (\<lambda>data.
       andThen (create_from pf (str_of ''botId'' data) (propOf ''specification'' data) (ss_userId ss)) (\<lambda>result. case result of
         CreateIssues problems \<Rightarrow> ret (reply_json 400
           [(''error'', JStr ''Invalid workload specification''), (''issues'', JArr (map JStr problems))])
       | Created i \<Rightarrow> ret (reply_json 201 [(''workloadId'', JStr i)]))))"

definition assignSchema :: schema where
  "assignSchema = SObj [Field ''agentId'' (SStr [AtLeast 1] AnyText)] None"

definition postAssign :: "platform \<Rightarrow> (issue list \<Rightarrow> json) \<Rightarrow> session option \<Rightarrow> string \<Rightarrow> json option \<Rightarrow> response act" where
  "postAssign pf flatten sess i body = guarded (requireAdmin sess) (\<lambda>ss.
     with_body pf flatten assignSchema body (\<lambda>data.
       andThen (assignWorkloadToAgent pf i (str_of ''agentId'' data) (ss_userId ss)) (\<lambda>result. case result of
         Refused reason \<Rightarrow> ret (error_json 404 reason)
       | Done \<Rightarrow> ret ok_json)))"

definition commandSchema :: schema where
  "commandSchema = SObj [Field ''command'' (SEnum (map command_name [CtStart, CtStop, CtRestart]))] None"

definition postCommand :: "platform \<Rightarrow> (issue list \<Rightarrow> json) \<Rightarrow> session option \<Rightarrow> string \<Rightarrow> json option \<Rightarrow> response act" where
  "postCommand pf flatten sess i body = guarded (requireAdmin sess) (\<lambda>ss.
     with_body pf flatten commandSchema body (\<lambda>data.
       andThen (sendWorkloadCommand pf i (enum_of command_name [CtStart, CtStop, CtRestart] (as_string (propOf ''command'' data)))
           (Some (ss_userId ss))) (\<lambda>result. case result of
         Refused reason \<Rightarrow> ret (error_json 409 reason)
       | Done \<Rightarrow> ret ok_json)))"

definition postClearFailure :: "session option \<Rightarrow> string \<Rightarrow> response act" where
  "postClearFailure sess i = guarded (requireAdmin sess) (\<lambda>ss.
     andThen (clearReconciliationFailure i) (\<lambda>_.
       andThen (writeAuditLog (Some (ss_userId ss)) ''workload.clear_reconciliation_failure'' ''workload'' i (Some (JObj []))) (\<lambda>_.
         ret ok_json)))"

text \<open>An absent \<open>ineligibleReason\<close> is \<open>undefined\<close>, which JSON leaves out.\<close>

definition score_entry_json :: "score_entry \<Rightarrow> json" where
  "score_entry_json e = JObj [(''label'', JStr (se_label e)), (''points'', JNum (of_int (se_points e)))]"

definition candidate_json :: "candidate_score \<Rightarrow> json" where
  "candidate_json c = JObj ([(''agentId'', JStr (cs_agentId c)), (''agentName'', JStr (cs_agentName c)), (''eligible'', JBool (cs_eligible c))]
     @ (case cs_ineligibleReason c of None \<Rightarrow> [] | Some r \<Rightarrow> [(''ineligibleReason'', JStr r)])
     @ [(''breakdown'', JArr (map score_entry_json (cs_breakdown c))), (''totalScore'', JNum (of_int (cs_totalScore c)))])"

definition decision_json :: "placement_decision \<Rightarrow> json" where
  "decision_json d = JObj [(''workloadId'', JStr (pd_workloadId d)), (''candidates'', JArr (map candidate_json (pd_candidates d))),
     (''selectedAgentId'', nullable JStr (pd_selectedAgentId d)), (''reason'', JStr (pd_reason d))]"

definition postSchedule :: "platform \<Rightarrow> session option \<Rightarrow> string \<Rightarrow> response act" where
  "postSchedule pf sess i = guarded (requireAdmin sess) (\<lambda>_.
     andThen (computeSchedulingRecommendation pf i) (\<lambda>result. case result of
       Inl reason \<Rightarrow> ret (error_json 404 reason)
     | Inr decision \<Rightarrow> ret (reply_json 200 [(''decision'', decision_json decision)])))"

subsection \<open>Draining an agent\<close>

definition postAgentDrain :: "platform \<Rightarrow> environment \<Rightarrow> session option \<Rightarrow> string \<Rightarrow> response act" where
  "postAgentDrain pf env sess i = guarded (requireAdmin sess) (\<lambda>ss w. case drainAgent pf env i (ss_userId ss) w of
     (Inl (AgentNotFoundError _), v) \<Rightarrow> (Inr (error_json 404 ''Agent not found''), v)
   | (Inl e, v) \<Rightarrow> (Inl e, v)
   | (Inr result, v) \<Rightarrow> (Inr \<lparr>rs_status = 200, rs_body = drain_metadata result\<rparr>, v))"

subsection \<open>A token that is handed out\<close>

lemma token_created:
  assumes "createEnrollmentToken pf actor rs (Some ttl) w = (Inr token, v)" and "tokens_ok w"
  shows "ct_plaintextToken token = pf_randomToken pf (w_seq w) \<and> ct_expiresAt token = w_now w + ttl \<and> tokens_ok v
    \<and> (\<exists>row. find_token (hashToken pf (ct_plaintextToken token)) v = Some row \<and> tk_id row = ct_id token
        \<and> tk_restrictionsJson row = rs \<and> tk_usedAt row = None \<and> tk_expiresAt row = w_now w + ttl)"
proof -
  have found: "findBy tk_tokenHash h (rows @ [r]) = Some r" if "tk_tokenHash r = h" "h \<notin> tk_tokenHash ` set rows" for h rows r
  proof -
    have "findBy tk_tokenHash h rows = None" using that(2) by (simp only: findBy_None not_False_eq_True)
    then show ?thesis using that(1) by (simp add: findBy_append)
  qed
  show ?thesis
    using assms
    by (auto simp: createEnrollmentToken_def Let_def run_simps find_token_def found tokens_ok_def split: if_splits)
qed

text \<open>
  C16: The token an administrator is handed works, and only as asked for: within its lifetime whoever presents it
  first redeems it under exactly the restrictions of the request, presenting it again is refused, and
  once the lifetime is over it is refused as expired. Nothing of the plaintext is stored: the
  table holds its hash.
\<close>

theorem issued_token_enrolls_once:
  assumes "tokens_ok w" and "pf_safeParse pf createTokenSchema (Some (json_or_empty body)) = Inr data"
    and "postEnrollmentTokens pf flatten sess body w = (Inr resp, v)" and "rs_status resp = 201"
    and "w_tokens u = w_tokens v"
  shows "\<exists>p row. propOf ''token'' (Some (rs_body resp)) = Some (JStr p)
    \<and> w_tokens v = w_tokens w @ [row] \<and> tk_tokenHash row = pf_sha256 pf p
    \<and> (if w_now u < w_now w + int_of ''ttlMinutes'' data * 60000
       then \<exists>u'. consumeEnrollmentToken pf p a u = (Inr (Consumed (tk_id row) (restrictions_of data)), u')
            \<and> consumeEnrollmentToken pf p a' u' = (Inr (NotConsumed AlreadyUsed), u')
       else consumeEnrollmentToken pf p a u = (Inr (NotConsumed Expired), u))"
proof -
  obtain ss where ss: "requireAdmin sess = Inr ss"
    using assms(3,4) by (cases "requireAdmin sess")
      (auto simp: postEnrollmentTokens_def guarded_def ret_def elim: requireAdmin.elims simp: error_json_def reply_json_def split: if_splits)
  let ?ttl = "int_of ''ttlMinutes'' data * 60 * 1000"
  obtain token where token: "createEnrollmentToken pf (ss_userId ss) (restrictions_of data) (Some ?ttl) w = (Inr token, v)"
    and resp: "propOf ''token'' (Some (rs_body resp)) = Some (JStr (ct_plaintextToken token))"
    using assms(3)
    by (auto simp: postEnrollmentTokens_def guarded_def ss with_body_def parsed_body_def assms(2) ret_def reply_json_def elim!: andThen_InrE)
  let ?p = "ct_plaintextToken token"
  obtain row where row: "find_token (hashToken pf ?p) v = Some row" "tk_restrictionsJson row = restrictions_of data"
    "tk_usedAt row = None" "tk_expiresAt row = w_now w + ?ttl" and ok: "tokens_ok v"
    using token_created [OF token assms(1)] by blast
  have "\<exists>row. w_tokens v = w_tokens w @ [row] \<and> tk_tokenHash row = hashToken pf ?p"
    using token by (auto simp: createEnrollmentToken_def Let_def run_simps split: if_splits)
  then obtain row' where row': "w_tokens v = w_tokens w @ [row']" "tk_tokenHash row' = hashToken pf ?p" by blast
  have "find_token (hashToken pf ?p) v = Some row'"
    using findBy_Some_distinct [of tk_tokenHash "w_tokens v" row'] ok row' by (simp add: tokens_ok_def find_token_def)
  then have same: "row' = row" using row(1) by simp
  have find: "find_token (hashToken pf ?p) u = Some row" and oku: "tokens_ok u"
    using row(1) ok assms(5) by (simp_all add: find_token_def tokens_ok_def)
  show ?thesis
  proof (cases "w_now u < w_now w + int_of ''ttlMinutes'' data * 60000")
    case True
    then obtain u' where u': "consumeEnrollmentToken pf ?p a u = (Inr (Consumed (tk_id row) (restrictions_of data)), u')"
      "find_token (hashToken pf ?p) u' = Some (claim_row (w_now u) a row)" "tokens_ok u'"
      using consume_effect [OF oku, of pf ?p a] find row by auto
    have "consumeEnrollmentToken pf ?p a' u' = (Inr (NotConsumed AlreadyUsed), u')"
      using consume_effect [OF u'(3), of pf ?p a'] u'(2) by (simp add: claim_row_def)
    then show ?thesis using True resp row' u'(1) same by (auto simp: hashToken_def)
  next
    case False
    then have "consumeEnrollmentToken pf ?p a u = (Inr (NotConsumed Expired), u)"
      using consume_effect [OF oku, of pf ?p a] find row by simp
    then show ?thesis using False resp row' same by (auto simp: hashToken_def)
  qed
qed

subsection \<open>A concrete request\<close>

definition token_body :: json where
  "token_body = JObj [(''environment'', JStr ''prod'')]"

definition token_session :: session where
  "token_session = \<lparr>ss_userId = ''u1'', ss_role = RoleOwner, ss_discordUserId = None\<rparr>"

lemma token_body_parses:
  "pf_safeParse sample_platform createTokenSchema (Some token_body) =
     Inr (Some (JObj [(''environment'', JStr ''prod''), (''ttlMinutes'', JNum 30)]))"
  by (simp add: sample_platform_def plain_validator_def createTokenSchema_def token_body_def any_format_def)

lemma token_request_answers:
  "\<exists>resp v. postEnrollmentTokens sample_platform (\<lambda>_. JNull) (Some token_session) (Some token_body) sample_world = (Inr resp, v)
     \<and> rs_status resp = 201"
proof -
  have none: "w_tokens sample_world = []" by (simp add: sample_world_def)
  have admin: "requireAdmin (Some token_session) = Inr token_session" by (simp add: token_session_def)
  obtain token v where run: "createEnrollmentToken sample_platform (ss_userId token_session)
      (restrictions_of (Some (JObj [(''environment'', JStr ''prod''), (''ttlMinutes'', JNum 30)])))
      (Some (int_of ''ttlMinutes'' (Some (JObj [(''environment'', JStr ''prod''), (''ttlMinutes'', JNum 30)])) * 60 * 1000))
      sample_world = (Inr token, v)"
    by (simp add: createEnrollmentToken_def Let_def run_simps none)
  show ?thesis
    by (simp only: postEnrollmentTokens_def guarded_def admin with_body_def parsed_body_def json_or_empty_def token_body_parses
        option.case sum.case andThen_def run prod.case)
      (simp add: ret_def reply_json_def)
qed

theorem issued_token_enrolls_once_witness:
  "\<exists>p u v w'. consumeEnrollmentToken sample_platform p ''a1'' u = (Inr (Consumed v (Some \<lparr>er_environment = Some ''prod'',
       er_requiredLabels = None\<rparr>)), w')
     \<and> consumeEnrollmentToken sample_platform p ''a2'' w' = (Inr (NotConsumed AlreadyUsed), w')"
proof -
  obtain resp v where run: "postEnrollmentTokens sample_platform (\<lambda>_. JNull) (Some token_session) (Some token_body) sample_world
      = (Inr resp, v)" "rs_status resp = 201"
    using token_request_answers by blast
  have ok: "tokens_ok sample_world" by (simp add: tokens_ok_def sample_world_def)
  let ?d = "Some (JObj [(''environment'', JStr ''prod''), (''ttlMinutes'', JNum 30)])"
  have parse: "pf_safeParse sample_platform createTokenSchema (Some (json_or_empty (Some token_body))) = Inr ?d"
    by (simp add: json_or_empty_def token_body_parses)
  let ?u = "v\<lparr>w_now := 0\<rparr>"
  have now: "w_now ?u < w_now sample_world + int_of ''ttlMinutes'' ?d * 60000"
    by (simp add: sample_world_def int_of_def)
  have rs: "restrictions_of ?d = Some \<lparr>er_environment = Some ''prod'', er_requiredLabels = None\<rparr>"
    by (simp add: restrictions_of_def)
  show ?thesis
    using issued_token_enrolls_once [OF ok parse run, of ?u "''a1''" "''a2''"] now rs by (auto split: if_splits)
qed

end
