(* ===== verification/Pages.thy ===== *)
theory Pages
  imports Admin_Api
begin

text \<open>
  What the server decides for the pages (\<open>app/page.tsx\<close>, \<open>app/login\<close>, \<open>app/setup\<close>, \<open>app/status\<close>,
  \<open>app/admin/layout.tsx\<close>, \<open>app/admin/page.tsx\<close>, \<open>components/status.ts\<close>): whom a page lets in, where it
  redirects, and the facts it shows. Markup and styling are left out. The state of the database, which the
  pages probe by running a query, is an argument.
\<close>

datatype database = DbDown | DbUnmigrated | DbReady

subsection \<open>Badges\<close>

datatype badge_variant = Success | Neutral | Info | Danger | Warning

definition lookup_variant :: "(string \<times> badge_variant) list \<Rightarrow> string \<Rightarrow> badge_variant" where
  "lookup_variant table status = (case map_of table status of None \<Rightarrow> Neutral | Some v \<Rightarrow> v)"

definition BOT_STATUS_VARIANT :: "(string \<times> badge_variant) list" where
  "BOT_STATUS_VARIANT = [(''online'', Success), (''offline'', Neutral), (''starting'', Info), (''stopping'', Info), (''failed'', Danger),
     (''disabled'', Neutral), (''expired'', Warning), (''rate_limited'', Warning)]"

definition WORKER_STATUS_VARIANT :: "(string \<times> badge_variant) list" where
  "WORKER_STATUS_VARIANT = [(''online'', Success), (''offline'', Neutral), (''overloaded'', Warning), (''failed'', Danger),
     (''draining'', Info)]"

definition SHARD_STATUS_VARIANT :: "(string \<times> badge_variant) list" where
  "SHARD_STATUS_VARIANT = [(''connected'', Success), (''connecting'', Info), (''disconnected'', Neutral), (''reconnecting'', Warning)]"

definition ALERT_SEVERITY_VARIANT :: "(string \<times> badge_variant) list" where
  "ALERT_SEVERITY_VARIANT = [(''info'', Info), (''warning'', Warning), (''error'', Danger), (''critical'', Danger)]"

definition AGENT_STATUS_VARIANT :: "(string \<times> badge_variant) list" where
  "AGENT_STATUS_VARIANT = [(''enrolling'', Info), (''online'', Success), (''degraded'', Warning), (''disconnected'', Neutral),
     (''draining'', Info), (''maintenance'', Warning), (''disabled'', Neutral)]"

definition botStatusVariant :: "string \<Rightarrow> badge_variant" where
  "botStatusVariant status = lookup_variant BOT_STATUS_VARIANT status"

definition workerStatusVariant :: "string \<Rightarrow> badge_variant" where
  "workerStatusVariant status = lookup_variant WORKER_STATUS_VARIANT status"

definition shardStatusVariant :: "string \<Rightarrow> badge_variant" where
  "shardStatusVariant status = lookup_variant SHARD_STATUS_VARIANT status"

definition alertSeverityVariant :: "string \<Rightarrow> badge_variant" where
  "alertSeverityVariant status = lookup_variant ALERT_SEVERITY_VARIANT status"

definition agentStatusVariant :: "string \<Rightarrow> badge_variant" where
  "agentStatusVariant status = lookup_variant AGENT_STATUS_VARIANT status"

definition formatStatusLabel :: "string \<Rightarrow> string" where
  "formatStatusLabel status = map (\<lambda>c. if c = CHR ''_'' then CHR '' '' else c) status"

subsection \<open>The public status page\<close>

record status_page =
  sp_variant :: badge_variant
  sp_banner :: string
  sp_fleetOperational :: bool
  sp_workersOperational :: bool
  sp_incidents :: "(string \<times> int \<times> string) list"

definition serious :: "alert_row \<Rightarrow> bool" where
  "serious a \<longleftrightarrow> al_severity a = SevError \<or> al_severity a = SevCritical"

lemma serious_by_rank: "serious a \<longleftrightarrow> SevError \<le> al_severity a"
  by (cases "al_severity a") (simp_all add: serious_def less_eq_alert_severity_def)

definition publicStatusPage :: "panel \<Rightarrow> status_page" where
  "publicStatusPage s =
     (let maintenanceMode = isMaintenanceModeEnabled s;
          failedBots = length (filter (\<lambda>b. bo_status b = BsFailed) (pn_bots s));
          offlineWorkers = length (filter (\<lambda>w. wk_status w = WkFailed) (pn_workers s));
          totalWorkers = length (pn_workers s);
          openIncidents = length (filter (\<lambda>a. al_status a = AlOpen \<and> serious a) (pn_alerts s));
          recentAlerts = prisma_take 10 (newest_first al_createdAt (filter serious (pn_alerts s)));
          fleetOperational = (failedBots = 0);
          workersOperational = (offlineWorkers = 0 \<or> totalWorkers = 0);
          overallOperational = (\<not> maintenanceMode \<and> fleetOperational \<and> workersOperational \<and> openIncidents = 0)
      in \<lparr>sp_variant = (if maintenanceMode then Warning else if overallOperational then Success else Danger),
          sp_banner = (if maintenanceMode then ''Scheduled maintenance''
            else if overallOperational then ''All systems operational'' else ''Degraded performance''),
          sp_fleetOperational = fleetOperational, sp_workersOperational = workersOperational,
          sp_incidents = map (\<lambda>a. (al_title a, al_createdAt a, al_message a)) recentAlerts\<rparr>)"

subsection \<open>The setup page\<close>

record setup_step =
  su_title :: string
  su_done :: bool
  su_detail :: string
  su_action :: "(string \<times> string) option"

definition checklist_step :: "string \<Rightarrow> bool \<Rightarrow> string \<Rightarrow> string \<Rightarrow> (string \<times> string) option \<Rightarrow> setup_step" where
  "checklist_step title ok yes no action =
     \<lparr>su_title = title, su_done = ok, su_detail = (if ok then yes else no), su_action = action\<rparr>"

definition setup_steps :: "panel_platform \<Rightarrow> bool \<Rightarrow> nat \<Rightarrow> nat \<Rightarrow> nat \<Rightarrow> setup_step list" where
  "setup_steps pp dbOk ownerCount botCount workerCount =
     (let encryptionOk = isEncryptionKeyConfigured (pp_crypto pp) (pp_encryptionKey pp);
          oauthOk = (env_set pp ''AUTH_DISCORD_ID'' \<and> env_set pp ''AUTH_DISCORD_SECRET'');
          authSecretOk = env_set pp ''AUTH_SECRET'';
          adminAllowlistOk = env_set pp ''BOTFLEET_ADMIN_DISCORD_IDS'';
          whenOwned = (\<lambda>action. if 0 < ownerCount then Some action else None)
      in [checklist_step ''1. Configure the database'' dbOk ''Connected.''
            ''Set DATABASE_URL in .env and run `npx prisma migrate deploy`.'' None,
          checklist_step ''2. Configure the encryption key'' encryptionOk ''BOTFLEET_ENCRYPTION_KEY is set.''
            ''Set BOTFLEET_ENCRYPTION_KEY - generate with: openssl rand -base64 32'' None,
          checklist_step ''3. Configure Discord OAuth'' (oauthOk \<and> authSecretOk) ''AUTH_DISCORD_ID/SECRET and AUTH_SECRET are set.''
            ''Create a Discord app, set AUTH_DISCORD_ID/AUTH_DISCORD_SECRET, and AUTH_SECRET (openssl rand -base64 32).'' None,
          checklist_step ''4. Allowlist your Discord user ID as owner'' adminAllowlistOk ''BOTFLEET_ADMIN_DISCORD_IDS is set.''
            ''Set BOTFLEET_ADMIN_DISCORD_IDS to your Discord user ID (comma-separated for more than one).'' None,
          checklist_step ''5. Create your admin account'' (0 < ownerCount) (show_nat ownerCount @ '' owner account(s) exist.'')
            ''Sign in with Discord - the first allowlisted user is promoted automatically.''
            (if ownerCount = 0 \<and> dbOk \<and> oauthOk \<and> authSecretOk then Some (''/login'', ''Sign in'') else None),
          checklist_step ''6. Choose a runner mode (PM2 or Docker)'' (0 < workerCount) (show_nat workerCount @ '' worker(s) configured.'')
            ''Picked per-worker when you create one - no global setting needed.'' (whenOwned (''/admin/workers'', ''Add a worker'')),
          checklist_step ''7. Add your first bot'' (0 < botCount) (show_nat botCount @ '' bot(s) registered.'')
            ''Add a bot and its token (encrypted at rest).'' (whenOwned (''/admin/bots'', ''Add a bot'')),
          checklist_step ''8. Verify health'' False []
            ''Check the Fleet Overview and Security Center once everything above is done.'' (whenOwned (''/admin'', ''Open dashboard''))])"

definition setupPage :: "panel_platform \<Rightarrow> database \<Rightarrow> panel \<Rightarrow> setup_step list" where
  "setupPage pp db s =
     (if db = DbReady then setup_steps pp True (count_owners s) (length (pn_bots s)) (length (pn_workers s))
      else setup_steps pp (db \<noteq> DbDown) 0 0 0)"

subsection \<open>Redirects\<close>

datatype page = RedirectTo string | SetupPage | LoginForm | AdminArea bool | StatusPage | NotFound

definition home :: "database \<Rightarrow> session option \<Rightarrow> panel \<Rightarrow> page" where
  "home db sess s =
     (let dbOk = (db = DbReady); ownerCount = (if dbOk then count_owners s else 0)
      in if \<not> dbOk \<or> ownerCount = 0 then RedirectTo ''/setup''
         else RedirectTo (if sess \<noteq> None then ''/admin'' else ''/login''))"

definition loginPage :: "session option \<Rightarrow> page" where
  "loginPage sess = (if sess \<noteq> None then RedirectTo ''/admin'' else LoginForm)"

text \<open>The layout around every page under \<open>/admin\<close>; the flag is the maintenance banner.\<close>

definition adminLayout :: "session option \<Rightarrow> panel \<Rightarrow> page" where
  "adminLayout sess s = (case sess of
     None \<Rightarrow> RedirectTo ''/login''
   | Some ss \<Rightarrow> if ss_role ss \<noteq> RoleAdmin \<and> ss_role ss \<noteq> RoleOwner then RedirectTo ''/login?error=not-authorized''
       else AdminArea (isMaintenanceModeEnabled s))"

text \<open>Which page a path leads to; the query is not part of the route.\<close>

definition pathname :: "string \<Rightarrow> string" where
  "pathname = takeWhile (\<lambda>c. c \<noteq> CHR ''?'')"

definition visit :: "database \<Rightarrow> session option \<Rightarrow> panel \<Rightarrow> string \<Rightarrow> page" where
  "visit db sess s url = (let path = pathname url in
     if path = ''/'' then home db sess s
     else if path = ''/login'' then loginPage sess
     else if path = ''/setup'' then SetupPage
     else if path = ''/status'' then StatusPage
     else if path = ''/admin'' then adminLayout sess s
     else NotFound)"

text \<open>A browser follows at most \<open>n\<close> redirects; \<open>None\<close> is a browser that gives up.\<close>

fun follow :: "database \<Rightarrow> session option \<Rightarrow> panel \<Rightarrow> nat \<Rightarrow> string \<Rightarrow> page option" where
  "follow db sess s n url = (case visit db sess s url of
     RedirectTo target \<Rightarrow> (case n of 0 \<Rightarrow> None | Suc m \<Rightarrow> follow db sess s m target)
   | page \<Rightarrow> Some page)"

declare follow.simps [simp del]

definition is_member :: "session option \<Rightarrow> bool" where
  "is_member sess \<longleftrightarrow> (case sess of None \<Rightarrow> False | Some ss \<Rightarrow> ss_role ss = RoleMember)"

lemma visits [simp]:
  "visit db sess s ''/'' = home db sess s"
  "visit db sess s ''/login'' = loginPage sess"
  "visit db sess s ''/login?error=not-authorized'' = loginPage sess"
  "visit db sess s ''/setup'' = SetupPage"
  "visit db sess s ''/admin'' = adminLayout sess s"
  by (simp_all add: visit_def pathname_def)

lemma member_layout: "is_member sess \<Longrightarrow> adminLayout sess s = RedirectTo ''/login?error=not-authorized''"
  by (auto simp: is_member_def adminLayout_def split: option.splits)

lemma member_login: "is_member sess \<Longrightarrow> loginPage sess = RedirectTo ''/admin''"
  by (auto simp: is_member_def loginPage_def split: option.splits)

lemma layout_admits:
  assumes "\<not> is_member (Some ss)"
  shows "adminLayout (Some ss) s = AdminArea (isMaintenanceModeEnabled s)" and "requireAdmin (Some ss) = Inr ss"
  using assms by (cases "ss_role ss"; simp add: is_member_def adminLayout_def)+

lemma follow_page:
  assumes "visit db sess s url = page" and "\<not> (\<exists>target. page = RedirectTo target)"
  shows "follow db sess s n url = Some page"
  using assms by (cases page) (simp_all add: follow.simps [of db sess s n url])

lemma follow_hop:
  assumes "visit db sess s url = RedirectTo target"
  shows "follow db sess s 0 url = None" and "follow db sess s (Suc n) url = follow db sess s n target"
  using assms by (simp_all add: follow.simps [of db sess s _ url])

lemma member_loops:
  assumes "is_member sess"
  shows "follow db sess s n ''/login'' = None \<and> follow db sess s n ''/login?error=not-authorized'' = None
    \<and> follow db sess s n ''/admin'' = None"
proof (induction n)
  case 0
  then show ?case by (simp add: follow_hop(1) member_layout member_login assms)
next
  case (Suc n)
  then show ?case by (simp add: follow_hop(2) member_layout member_login assms)
qed

lemma member_start:
  assumes "is_member sess" and "db = DbReady" and "count_owners s \<noteq> 0"
  shows "follow db sess s n ''/'' = None"
proof -
  have "visit db sess s ''/'' = RedirectTo ''/admin''"
    using assms by (simp add: home_def Let_def is_member_def split: option.splits)
  then show ?thesis using member_loops [OF assms(1)] by (cases n) (simp_all add: follow_hop)
qed

text \<open>
  C32: Navigation ends, except for one kind of user. From the start page, the login page and the
  administration a browser arrives at a page after at most two redirects, and at the administration only with
  a session that passes the guard of the administrators' routes. A signed-in member without an
  administrator's role is sent from the administration to the login page and from there back, for ever.
\<close>

theorem navigation_ends_unless_member:
  assumes "url = ''/'' \<or> url = ''/login'' \<or> url = ''/admin''"
  shows "if is_member sess \<and> (url = ''/'' \<longrightarrow> db = DbReady \<and> count_owners s \<noteq> 0)
    then \<forall>n. follow db sess s n url = None
    else \<exists>page. (\<forall>n. follow db sess s (n + 2) url = Some page)
      \<and> (page = SetupPage \<or> page = LoginForm
         \<or> page = AdminArea (isMaintenanceModeEnabled s) \<and> (\<exists>ss. sess = Some ss \<and> requireAdmin sess = Inr ss))"
proof (cases "url = ''/'' \<and> (db \<noteq> DbReady \<or> count_owners s = 0)")
  case True
  then have "follow db sess s (n + 2) url = Some SetupPage" for n
    using follow_hop(2) [of db sess s url "''/setup''" "Suc n"] follow_page [of db sess s "''/setup''" SetupPage "Suc n"]
    by (auto simp: home_def Let_def)
  with True show ?thesis by auto
next
  case ready: False
  show ?thesis
  proof (cases sess)
    case None
    have login: "follow db sess s n ''/login'' = Some LoginForm" for n
      by (rule follow_page) (simp_all add: None loginPage_def)
    have "follow db sess s (n + 2) url = Some LoginForm" for n
      using assms ready login follow_hop(2) [of db sess s url "''/login''" "Suc n"]
      by (auto simp: None home_def Let_def adminLayout_def)
    then show ?thesis by (simp add: None is_member_def)
  next
    case (Some ss)
    show ?thesis
    proof (cases "is_member sess")
      case True
      then show ?thesis using assms ready member_loops [OF True] member_start [OF True] by auto
    next
      case False
      note admits = layout_admits [OF False [unfolded Some]]
      have area: "follow db sess s n ''/admin'' = Some (AdminArea (isMaintenanceModeEnabled s))" for n
        by (rule follow_page) (simp_all add: Some admits)
      have "follow db sess s (n + 2) url = Some (AdminArea (isMaintenanceModeEnabled s))" for n
        using assms ready area follow_hop(2) [of db sess s url "''/admin''" "Suc n"]
        by (auto simp: Some home_def Let_def loginPage_def)
      then show ?thesis using False admits(2) Some by auto
    qed
  qed
qed

definition member_session :: session where
  "member_session = \<lparr>ss_userId = ''u3'', ss_role = RoleMember, ss_discordUserId = None\<rparr>"

theorem navigation_ends_unless_member_witness:
  "follow DbReady (Some member_session) owned_panel 100 ''/login'' = None
    \<and> (\<exists>page. follow DbReady None owned_panel 2 ''/admin'' = Some page)"
proof -
  have member: "is_member (Some member_session)" by (simp add: is_member_def member_session_def)
  have stranger: "\<not> is_member None" by (simp add: is_member_def)
  have "\<forall>n. follow DbReady (Some member_session) owned_panel n ''/login'' = None"
    using navigation_ends_unless_member [of "''/login''" "Some member_session" DbReady owned_panel] member by simp
  moreover have "\<exists>page. \<forall>n. follow DbReady None owned_panel (n + 2) ''/admin'' = Some page"
    using navigation_ends_unless_member [of "''/admin''" None DbReady owned_panel] stranger by auto
  then obtain page where "\<And>n. follow DbReady None owned_panel (n + 2) ''/admin'' = Some page" by blast
  then have "follow DbReady None owned_panel 2 ''/admin'' = Some page" by (metis add_0)
  ultimately show ?thesis by blast
qed

subsection \<open>What the pages show\<close>

record stat_card =
  sc_label :: string
  sc_value :: json
  sc_tone :: "badge_variant option"

text \<open>The cards of the overview; those of the plugins are appended as they were rendered.\<close>

definition overview_cards :: "stat_card list \<Rightarrow> panel \<Rightarrow> stat_card list" where
  "overview_cards pluginCards s =
     (let since24h = hoursAgo 24 s;
          card = (\<lambda>label n tone. \<lparr>sc_label = label, sc_value = JNum (of_int n), sc_tone = tone\<rparr>);
          failedBots = bots_with BsFailed s;
          errors24h = int (length (filter (\<lambda>a. since24h \<le> al_createdAt a
            \<and> (al_severity a = SevError \<or> al_severity a = SevCritical)) (pn_alerts s)))
      in [card ''Total bots'' (int (length (pn_bots s))) None,
          card ''Online'' (bots_with BsOnline s) (Some Success),
          card ''Failed'' failedBots (Some (if 0 < failedBots then Danger else Neutral)),
          card ''Disabled'' (bots_with BsDisabled s) None,
          card ''Total guilds'' (sum_list (map bh_guildCount (pn_health s))) None,
          card ''Total shards'' (int (length (pn_shards s))) None,
          card ''Active workers'' (int (length (filter (\<lambda>w. wk_status w = WkOnline) (pn_workers s)))) (Some Success),
          card ''Memory (MB)'' (sum_list (map (\<lambda>w. case wk_memoryMb w of None \<Rightarrow> 0 | Some m \<Rightarrow> m) (pn_workers s))) None,
          card ''Restart count'' (sum_list (map bh_restartCount (pn_health s))) None,
          card ''Errors (24h)'' errors24h (Some (if 0 < errors24h then Danger else Success))] @ pluginCards)"

text \<open>
  The overview page and the route for the overview compute their figures separately, and they agree: the
  first ten cards show, in order, exactly the values that the route answers to an administrator.
\<close>

theorem overview_agrees_with_route:
  assumes "requireAdmin sess = Inr ss"
  shows "\<exists>fields. getFleetOverview sess s = (Inr (reply_json 200 fields), s)
    \<and> map snd fields = map sc_value (take 10 (overview_cards pluginCards s))"
  by (simp add: getFleetOverview_def guarded_def assms gets_def overview_cards_def Let_def reply_json_def)

theorem overview_agrees_with_route_witness:
  "\<exists>fields. getFleetOverview (Some \<lparr>ss_userId = ''u1'', ss_role = RoleAdmin, ss_discordUserId = None\<rparr>) owned_panel
      = (Inr (reply_json 200 fields), owned_panel)
    \<and> map snd fields = map sc_value (take 10 (overview_cards [] owned_panel))"
  by (rule overview_agrees_with_route) simp

text \<open>
  The public status page discloses nothing but the statuses of bots and workers, as counts, the maintenance
  switch and the serious alerts: two panels that agree on these show the same page. It reports all
  systems operational exactly when maintenance is off, no bot and no worker has failed and no serious
  alert is open; workers that are merely offline do not matter. It lists at most ten incidents.
\<close>

theorem public_status_discloses_little:
  assumes "mset (map bo_status (pn_bots s)) = mset (map bo_status (pn_bots t))"
    and "mset (map wk_status (pn_workers s)) = mset (map wk_status (pn_workers t))"
    and "isMaintenanceModeEnabled s = isMaintenanceModeEnabled t"
    and "filter serious (pn_alerts s) = filter serious (pn_alerts t)"
  shows "publicStatusPage s = publicStatusPage t
    \<and> (sp_banner (publicStatusPage s) = ''All systems operational'' \<longleftrightarrow>
        \<not> isMaintenanceModeEnabled s \<and> BsFailed \<notin> bo_status ` set (pn_bots s) \<and> WkFailed \<notin> wk_status ` set (pn_workers s)
        \<and> \<not> (\<exists>a \<in> set (pn_alerts s). al_status a = AlOpen \<and> serious a))
    \<and> length (sp_incidents (publicStatusPage s)) \<le> 10"
proof -
  have count: "length (filter (\<lambda>x. f x = v) xs) = count (mset (map f xs)) v" for f v and xs :: "'a list"
    by (induction xs) auto
  have opened: "filter (\<lambda>a. al_status a = AlOpen \<and> serious a) xs = filter (\<lambda>a. al_status a = AlOpen) (filter serious xs)" for xs
    by (induction xs) auto
  have same: "publicStatusPage s = publicStatusPage t"
  proof -
    have "pn_workers s = [] \<longleftrightarrow> pn_workers t = []" using arg_cong [OF assms(2), of size] by auto
    then show ?thesis
      by (simp only: publicStatusPage_def Let_def count opened assms length_0_conv)
  qed
  have "length (prisma_take 10 xs) \<le> 10" for xs :: "alert_row list" by (simp add: prisma_take_def)
  then have short: "length (sp_incidents (publicStatusPage s)) \<le> 10" by (simp add: publicStatusPage_def Let_def)
  have absent: "v \<notin> f ` A \<longleftrightarrow> (\<forall>x \<in> A. f x \<noteq> v)" for v and f :: "'a \<Rightarrow> 'b" and A by auto
  have "sp_banner (publicStatusPage s) = ''All systems operational'' \<longleftrightarrow>
        \<not> isMaintenanceModeEnabled s \<and> BsFailed \<notin> bo_status ` set (pn_bots s) \<and> WkFailed \<notin> wk_status ` set (pn_workers s)
        \<and> \<not> (\<exists>a \<in> set (pn_alerts s). al_status a = AlOpen \<and> serious a)"
    unfolding absent by (auto simp: publicStatusPage_def Let_def filter_empty_conv)
  with same short show ?thesis by blast
qed

theorem public_status_discloses_little_witness:
  "publicStatusPage owned_panel = publicStatusPage (owned_panel\<lparr>pn_users := []\<rparr>)"
  using public_status_discloses_little [of owned_panel "owned_panel\<lparr>pn_users := []\<rparr>"]
  by (simp add: isMaintenanceModeEnabled_def)

lemma plugin_check_status: "c \<in> set (getAllHealthChecks builtinPlugins) \<Longrightarrow> ck_status (hc_run c pp) \<noteq> CheckFail"
  by (auto simp: getAllHealthChecks_def builtinPlugins_def redisStatusPlugin_def pm2RunnerPlugin_def dockerRunnerPlugin_def
      alertRulesPlugin_def botTemplatesPlugin_def nodeVersionCheckPlugin_def node_version_check_def or_none_def Let_def)

lemma some_admin: "0 < count_admins s \<longleftrightarrow> (\<exists>u \<in> set (pn_users s). requireAdmin (Some (session_of u)) = Inr (session_of u))"
  by (auto simp: count_admins_def session_of_def filter_empty_conv)

lemma some_owner: "0 < count_owners s \<longleftrightarrow> (\<exists>u \<in> set (pn_users s). requireOwner (Some (session_of u)) = Inr (session_of u))"
  by (auto simp: count_owners_def session_of_def filter_empty_conv)

text \<open>
  The setup page and the security report agree. With a database that answers, the report with the built-in
  plugins requires no action exactly when the steps for the encryption key and for Discord are done and some
  user passes the administrators' guard; the step for the admin account is done exactly when some user
  passes the owners' guard. The link to sign in is offered exactly while there is no owner and signing in can
  work.
\<close>

theorem setup_agrees_with_security:
  "(sr_actionRequired (runSecurityChecks pp builtinPlugins (Some (count_admins s))) = [] \<longleftrightarrow>
      su_done (setupPage pp DbReady s ! 1) \<and> su_done (setupPage pp DbReady s ! 2)
      \<and> (\<exists>u \<in> set (pn_users s). requireAdmin (Some (session_of u)) = Inr (session_of u)))
    \<and> (su_done (setupPage pp DbReady s ! 4) \<longleftrightarrow>
      (\<exists>u \<in> set (pn_users s). requireOwner (Some (session_of u)) = Inr (session_of u)))
    \<and> (su_action (setupPage pp DbReady s ! 4) = Some (''/login'', ''Sign in'') \<longleftrightarrow>
      su_done (setupPage pp DbReady s ! 2) \<and> \<not> su_done (setupPage pp DbReady s ! 4))"
proof -
  have report: "sr_actionRequired (runSecurityChecks pp builtinPlugins (Some (count_admins s))) = [] \<longleftrightarrow>
      isEncryptionKeyConfigured (pp_crypto pp) (pp_encryptionKey pp) \<and> 0 < count_admins s
      \<and> env_set pp ''AUTH_DISCORD_ID'' \<and> env_set pp ''AUTH_DISCORD_SECRET'' \<and> env_set pp ''AUTH_SECRET''"
    using plugin_check_status [of _ pp]
    by (auto simp: runSecurityChecks_def report_of_def with_status_def filter_empty_conv builtin_checks_def check_def Let_def
        encryption_check_def admin_check_def oauth_check_def auth_secret_check_def no_eval_check_def backups_check_def
        backup_encryption_check_def tokens_check_def csp_check_def json_errors_check_def redacted_check_def split: if_splits)
  have steps: "su_done (setupPage pp DbReady s ! 1) \<longleftrightarrow> isEncryptionKeyConfigured (pp_crypto pp) (pp_encryptionKey pp)"
    "su_done (setupPage pp DbReady s ! 2) \<longleftrightarrow> env_set pp ''AUTH_DISCORD_ID'' \<and> env_set pp ''AUTH_DISCORD_SECRET'' \<and> env_set pp ''AUTH_SECRET''"
    "su_done (setupPage pp DbReady s ! 4) \<longleftrightarrow> 0 < count_owners s"
    "su_action (setupPage pp DbReady s ! 4) = Some (''/login'', ''Sign in'') \<longleftrightarrow> count_owners s = 0
      \<and> env_set pp ''AUTH_DISCORD_ID'' \<and> env_set pp ''AUTH_DISCORD_SECRET'' \<and> env_set pp ''AUTH_SECRET''"
    by (simp_all add: setupPage_def setup_steps_def checklist_step_def Let_def)
  show ?thesis using report steps some_admin [of s] some_owner [of s] by (metis neq0_conv)
qed

end
