(* ===== verification/Seed.thy ===== *)
theory Seed
  imports Panel_Api
begin

text \<open>
  The demonstration data (\<open>prisma/seed.ts\<close>): one owner, three customers, two workers and four bots with
  their health, assignments and shards, alerts and a deployment. The random numbers of the script are the
  parameters \<open>rnd\<close> (the \<open>k\<close>-th draw below a bound) and \<open>uuid\<close>.
\<close>

subsection \<open>The script\<close>

definition seed_email :: string where
  "seed_email = ''seed-owner@example.invalid''"

text \<open>\<open>upsert\<close> with an empty update: an existing user with this address is left alone.\<close>

definition seed_user :: "panel_platform \<Rightarrow> string pact" where
  "seed_user pp = (\<lambda>s. case find (\<lambda>u. us_email u = Some seed_email) (pn_users s) of
     Some u \<Rightarrow> (Inr (us_id u), s)
   | None \<Rightarrow> andThen (panel_cuid pp) (\<lambda>i s.
       if i \<in> us_id ` set (pn_users s) \<or> Some ''000000000000000001'' \<in> us_discordUserId ` set (pn_users s) then (Inl UniqueViolation, s)
       else (Inr i, s\<lparr>pn_users := pn_users s @ [\<lparr>us_id = i, us_name = Some ''Seed Owner'', us_email = Some seed_email,
              us_discordUserId = Some ''000000000000000001'', us_role = RoleOwner, us_createdAt = pn_now s\<rparr>]\<rparr>)) s)"

definition customerDefs :: "(string \<times> plan_tier) list" where
  "customerDefs = [(''Nova Community'', PlanPro), (''Aegis Moderation Co.'', PlanStarter), (''Solo Dev - Kess'', PlanFree)]"

definition seed_customer :: "panel_platform \<Rightarrow> string \<Rightarrow> string \<times> plan_tier \<Rightarrow> string list \<Rightarrow> string list pact" where
  "seed_customer pp owner d ids = andThen (panel_cuid pp) (\<lambda>i s.
     andThen (insert_customer \<lparr>cu_id = i, cu_ownerUserId = owner, cu_name = fst d, cu_plan = snd d, cu_createdAt = pn_now s\<rparr>)
       (\<lambda>_. ret (ids @ [i])) s)"

definition seed_worker :: "panel_platform \<Rightarrow> string \<Rightarrow> worker_mode \<Rightarrow> string \<Rightarrow> int \<Rightarrow> int \<Rightarrow> string pact" where
  "seed_worker pp name mode host currentBots memoryMb = andThen (panel_cuid pp) (\<lambda>i s.
     andThen (insert_worker \<lparr>wk_id = i, wk_name = name, wk_mode = mode, wk_status = WkOnline, wk_host = Some host, wk_maxBots = 5,
         wk_currentBots = currentBots, wk_memoryMb = Some memoryMb, wk_createdAt = pn_now s\<rparr>) (\<lambda>_. ret i) s)"

record bot_def =
  bd_customer :: string
  bd_name :: string
  bd_plan :: plan_tier
  bd_status :: bot_status
  bd_guildCount :: int
  bd_shardCount :: nat
  bd_worker :: "string option"

definition botDefs :: "string list \<Rightarrow> string \<Rightarrow> string \<Rightarrow> bot_def list" where
  "botDefs customers worker1 worker2 =
     [\<lparr>bd_customer = customers ! 0, bd_name = ''Nova Guardian'', bd_plan = PlanPro, bd_status = BsOnline, bd_guildCount = 1840,
       bd_shardCount = 2, bd_worker = Some worker1\<rparr>,
      \<lparr>bd_customer = customers ! 0, bd_name = ''Nova Support Bot'', bd_plan = PlanPro, bd_status = BsOnline, bd_guildCount = 412,
       bd_shardCount = 1, bd_worker = Some worker1\<rparr>,
      \<lparr>bd_customer = customers ! 1, bd_name = ''Aegis Sentinel'', bd_plan = PlanStarter, bd_status = BsFailed, bd_guildCount = 88,
       bd_shardCount = 1, bd_worker = Some worker2\<rparr>,
      \<lparr>bd_customer = customers ! 2, bd_name = ''Kess's Helper'', bd_plan = PlanFree, bd_status = BsOffline, bd_guildCount = 12,
       bd_shardCount = 1, bd_worker = None\<rparr>]"

text \<open>\<open>padStart(17, "0")\<close>.\<close>

definition padStart17 :: "string \<Rightarrow> string" where
  "padStart17 t = replicate (17 - length t) CHR ''0'' @ t"

definition seed_bot_row :: "(nat \<Rightarrow> nat \<Rightarrow> nat) \<Rightarrow> nat \<Rightarrow> bot_def \<Rightarrow> string \<Rightarrow> string \<Rightarrow> int \<Rightarrow> bot_row" where
  "seed_bot_row rnd k d i tokenEncrypted now =
     (let seen = (if bd_status d = BsOnline then Some now else None) in
      \<lparr>bo_id = i, bo_customerId = bd_customer d, bo_name = bd_name d, bo_clientId = CHR ''1'' # padStart17 (show_nat (rnd (2 * k) (10 ^ 17))),
       bo_tokenEncrypted = tokenEncrypted, bo_publicKey = None, bo_plan = bd_plan d, bo_status = bd_status d,
       bo_guildLimit = (if bd_plan d = PlanFree then 50 else if bd_plan d = PlanStarter then 250 else 2500),
       bo_shardCount = int (bd_shardCount d), bo_workerGroupId = bd_worker d, bo_lastReadyAt = seen, bo_lastHeartbeatAt = seen,
       bo_createdAt = now\<rparr>)"

definition seed_health :: "(nat \<Rightarrow> nat \<Rightarrow> nat) \<Rightarrow> nat \<Rightarrow> bot_def \<Rightarrow> string \<Rightarrow> health_row" where
  "seed_health rnd k d i =
     \<lparr>bh_botId = i, bh_status = bd_status d, bh_guildCount = bd_guildCount d,
      bh_restartCount = (if bd_status d = BsFailed then 4 else int (rnd (2 * k + 1) 2)),
      bh_lastErrorSafe = (if bd_status d = BsFailed then Some ''Discord gateway closed with code 4004 (invalid token)'' else None)\<rparr>"

definition insert_health :: "health_row \<Rightarrow> unit pact" where
  "insert_health h = (\<lambda>s. if findBy bh_botId (bh_botId h) (pn_health s) \<noteq> None then (Inl UniqueViolation, s)
     else (Inr (), s\<lparr>pn_health := pn_health s @ [h]\<rparr>))"

definition seed_assignment :: "bot_def \<Rightarrow> string \<Rightarrow> unit pact" where
  "seed_assignment d i = (case bd_worker d of None \<Rightarrow> ret ()
   | Some w \<Rightarrow> modify (\<lambda>s. s\<lparr>pn_assignments := pn_assignments s @ [\<lparr>as_workerId = w, as_botId = i, as_status = AsActive\<rparr>]\<rparr>))"

definition insert_shard :: "shard_row \<Rightarrow> unit pact" where
  "insert_shard r = (\<lambda>s. if list_ex (\<lambda>q. sh_botId q = sh_botId r \<and> sh_shardId q = sh_shardId r) (pn_shards s) then (Inl UniqueViolation, s)
     else (Inr (), s\<lparr>pn_shards := pn_shards s @ [r]\<rparr>))"

definition seed_shard :: "bot_def \<Rightarrow> string \<Rightarrow> nat \<Rightarrow> shard_row" where
  "seed_shard d i k = \<lparr>sh_botId = i, sh_shardId = int k, sh_status = (if bd_status d = BsOnline then ShConnected else ShDisconnected)\<rparr>"

definition mock_token :: "(nat \<Rightarrow> string) \<Rightarrow> nat \<Rightarrow> string" where
  "mock_token uuid k = ''mock-token-'' @ uuid k"

definition seed_bot :: "panel_platform \<Rightarrow> (nat \<Rightarrow> nat \<Rightarrow> nat) \<Rightarrow> (nat \<Rightarrow> string) \<Rightarrow> string \<Rightarrow> nat \<times> bot_def \<Rightarrow> unit pact" where
  "seed_bot pp rnd uuid owner kd = (let k = fst kd; d = snd kd in
     andThen (encrypt_run pp (mock_token uuid k)) (\<lambda>tokenEncrypted.
       andThen (panel_cuid pp) (\<lambda>i s.
         andThen (insert_bot (seed_bot_row rnd k d i tokenEncrypted (pn_now s))) (\<lambda>_.
           andThen (insert_health (seed_health rnd k d i)) (\<lambda>_.
             andThen (seed_assignment d i) (\<lambda>_.
               andThen (forEach [0..<bd_shardCount d] () (\<lambda>j _. insert_shard (seed_shard d i j))) (\<lambda>_.
                 panel_audit (Some owner) ''bot.create'' ''bot'' i
                   (Some (JObj [(''name'', JStr (bd_name d)), (''seed'', JBool True)])))))) s)))"

definition seed_alerts :: "int \<Rightarrow> alert_row list" where
  "seed_alerts now =
     [\<lparr>al_eventType = ''bot.start_failed'', al_severity = SevCritical, al_title = ''Aegis Sentinel failed to start'',
       al_message = ''Discord gateway closed with code 4004 (invalid token). Token rotation required.'', al_status = AlOpen, al_createdAt = now\<rparr>,
      \<lparr>al_eventType = ''guild_limit.reached'', al_severity = SevWarning, al_title = ''Nova Guardian approaching guild limit'',
       al_message = ''1840 / 2500 guilds on the Pro plan.'', al_status = AlOpen, al_createdAt = now\<rparr>,
      \<lparr>al_eventType = ''worker.crashed'', al_severity = SevInfo, al_title = ''worker-2 restarted'',
       al_message = ''Routine restart completed successfully.'', al_status = AlResolved, al_createdAt = now\<rparr>]"

definition seed_deployment :: "string \<Rightarrow> string \<Rightarrow> int \<Rightarrow> deployment_row" where
  "seed_deployment i owner now = \<lparr>dp_id = i, dp_version = ''0.1.0'', dp_commitSha = replicate 40 CHR ''0'', dp_status = DepSuccess,
     dp_deployedById = Some owner, dp_startedAt = Some (now - 60 * 60 * 1000), dp_finishedAt = Some (now - 58 * 60 * 1000),
     dp_notes = Some ''Initial seed deployment record.''\<rparr>"

definition seed_main :: "panel_platform \<Rightarrow> (nat \<Rightarrow> nat \<Rightarrow> nat) \<Rightarrow> (nat \<Rightarrow> string) \<Rightarrow> unit pact" where
  "seed_main pp rnd uuid =
     andThen (seed_user pp) (\<lambda>owner.
       andThen (forEach customerDefs [] (seed_customer pp owner)) (\<lambda>customers.
         andThen (seed_worker pp ''worker-1'' ModePm2 ''worker-1.internal'' 2 340) (\<lambda>worker1.
           andThen (seed_worker pp ''worker-2'' ModeDocker ''worker-2.internal'' 1 210) (\<lambda>worker2.
             andThen (forEach (enumerate 0 (botDefs customers worker1 worker2)) () (\<lambda>kd _. seed_bot pp rnd uuid owner kd)) (\<lambda>_.
               andThen (modify (\<lambda>s. s\<lparr>pn_alerts := pn_alerts s @ seed_alerts (pn_now s)\<rparr>)) (\<lambda>_.
                 andThen (panel_cuid pp) (\<lambda>i s. insert_deployment (seed_deployment i owner (pn_now s)) s)))))))"

subsection \<open>The seeded panel\<close>

lemma seed_shards_run:
  assumes "distinct ks" and "\<And>k. k \<in> set ks \<Longrightarrow> \<not> list_ex (\<lambda>q. sh_botId q = i \<and> sh_shardId q = int k) (pn_shards s)"
  shows "forEach ks () (\<lambda>k _. insert_shard (seed_shard d i k)) s = (Inr (), s\<lparr>pn_shards := pn_shards s @ map (seed_shard d i) ks\<rparr>)"
  using assms
proof (induction ks arbitrary: s)
  case (Cons k ks)
  let ?s1 = "s\<lparr>pn_shards := pn_shards s @ [seed_shard d i k]\<rparr>"
  have "insert_shard (seed_shard d i k) s = (Inr (), ?s1)"
    using Cons.prems(2) [of k] by (simp add: insert_shard_def seed_shard_def)
  moreover have "\<not> list_ex (\<lambda>q. sh_botId q = i \<and> sh_shardId q = int j) (pn_shards ?s1)" if "j \<in> set ks" for j
    using Cons.prems(1) Cons.prems(2) [of j] that by (auto simp: seed_shard_def)
  ultimately show ?case using Cons.IH [of ?s1] Cons.prems(1) by (simp add: andThen_def)
qed (simp add: ret_def)

definition seeded_assignments :: "bot_def \<Rightarrow> string \<Rightarrow> assignment_row list" where
  "seeded_assignments d i = (case bd_worker d of None \<Rightarrow> [] | Some w \<Rightarrow> [\<lparr>as_workerId = w, as_botId = i, as_status = AsActive\<rparr>])"

lemma seed_bot_run:
  assumes "\<And>n t. encryptSecret (pp_crypto pp) (pp_encryptionKey pp) n t = Inr (enc n t)" and "i = pp_cuid pp (Suc (pn_seq s))"
    and "i \<notin> bo_id ` set (pn_bots s)" and "i \<notin> bh_botId ` set (pn_health s)" and "i \<notin> sh_botId ` set (pn_shards s)"
  shows "\<exists>es. seed_bot pp rnd uuid owner (k, d) s = (Inr (), s\<lparr>pn_seq := Suc (Suc (pn_seq s)),
      pn_bots := pn_bots s @ [seed_bot_row rnd k d i (enc (pn_seq s) (mock_token uuid k)) (pn_now s)],
      pn_health := pn_health s @ [seed_health rnd k d i], pn_assignments := pn_assignments s @ seeded_assignments d i,
      pn_shards := pn_shards s @ map (seed_shard d i) [0..<bd_shardCount d], pn_audit := pn_audit s @ es\<rparr>)"
proof -
  let ?b = "seed_bot_row rnd k d i (enc (pn_seq s) (mock_token uuid k)) (pn_now s)"
  let ?s1 = "s\<lparr>pn_seq := Suc (Suc (pn_seq s))\<rparr>"
  have enc: "encrypt_run pp (mock_token uuid k) s = (Inr (enc (pn_seq s) (mock_token uuid k)), s\<lparr>pn_seq := Suc (pn_seq s)\<rparr>)"
    by (simp add: encrypt_run_def assms(1))
  have cuid: "panel_cuid pp (s\<lparr>pn_seq := Suc (pn_seq s)\<rparr>) = (Inr i, ?s1)" by (simp add: panel_cuid_def assms(2))
  let ?s2 = "?s1\<lparr>pn_bots := pn_bots s @ [?b]\<rparr>"
  have bot: "insert_bot ?b ?s1 = (Inr (), ?s2)" using assms(3) by (simp add: insert_bot_def seed_bot_row_def Let_def)
  have "findBy bh_botId i (pn_health s) = None" using assms(4) by (simp only: findBy_None not_False_eq_True)
  then have health: "insert_health (seed_health rnd k d i) ?s2 = (Inr (), ?s2\<lparr>pn_health := pn_health s @ [seed_health rnd k d i]\<rparr>)"
    by (simp add: insert_health_def seed_health_def)
  let ?s3 = "?s2\<lparr>pn_health := pn_health s @ [seed_health rnd k d i]\<rparr>"
  let ?s4 = "?s3\<lparr>pn_assignments := pn_assignments s @ seeded_assignments d i\<rparr>"
  have assignment: "seed_assignment d i ?s3 = (Inr (), ?s4)"
    by (simp add: seed_assignment_def seeded_assignments_def modify_def ret_def split: option.splits)
  have "\<not> list_ex (\<lambda>q. sh_botId q = i \<and> sh_shardId q = int j) (pn_shards ?s4)" for j
    using assms(5) by (auto simp: list_ex_iff)
  then have shards: "forEach [0..<bd_shardCount d] () (\<lambda>k _. insert_shard (seed_shard d i k)) ?s4 =
      (Inr (), ?s4\<lparr>pn_shards := pn_shards s @ map (seed_shard d i) [0..<bd_shardCount d]\<rparr>)"
    using seed_shards_run [of "[0..<bd_shardCount d]" i ?s4 d] by simp
  show ?thesis
    by (rule exI [of _ "[audit_entry (Some owner) ''bot.create'' ''bot'' i (Some (JObj [(''name'', JStr (bd_name d)), (''seed'', JBool True)])) s]"])
      (simp add: seed_bot_def andThen_def audit_entry_def enc cuid bot health assignment shards panel_audit_run)
qed

text \<open>Ids of the rows that belong to bots come from earlier calls of \<open>cuid\<close>.\<close>

definition ids_drawn :: "panel_platform \<Rightarrow> panel \<Rightarrow> bool" where
  "ids_drawn pp s \<longleftrightarrow> bo_id ` set (pn_bots s) \<union> bh_botId ` set (pn_health s) \<union> sh_botId ` set (pn_shards s) \<subseteq> pp_cuid pp ` {..<pn_seq s}"

lemma seed_bot_effect:
  assumes "\<And>n t. encryptSecret (pp_crypto pp) (pp_encryptionKey pp) n t = Inr (enc n t)" and "inj (pp_cuid pp)" and "ids_drawn pp s"
  shows "\<exists>t row. seed_bot pp rnd uuid owner (k, d) s = (Inr (), t) \<and> ids_drawn pp t \<and> pn_seq t = Suc (Suc (pn_seq s))
    \<and> pn_bots t = pn_bots s @ [row] \<and> bo_id row = pp_cuid pp (Suc (pn_seq s)) \<and> bo_workerGroupId row = bd_worker d
    \<and> pn_assignments t = pn_assignments s @ seeded_assignments d (bo_id row)
    \<and> pn_workers t = pn_workers s \<and> pn_users t = pn_users s \<and> pn_deployments t = pn_deployments s"
proof -
  let ?i = "pp_cuid pp (Suc (pn_seq s))"
  have "?i \<notin> pp_cuid pp ` {..<pn_seq s}" using assms(2) by (auto dest: injD)
  then have fresh: "?i \<notin> bo_id ` set (pn_bots s)" "?i \<notin> bh_botId ` set (pn_health s)" "?i \<notin> sh_botId ` set (pn_shards s)"
    using assms(3) unfolding ids_drawn_def by blast+
  have more: "pp_cuid pp ` {..<pn_seq s} \<subseteq> pp_cuid pp ` {..<Suc (Suc (pn_seq s))}" by auto
  obtain es where run: "seed_bot pp rnd uuid owner (k, d) s = (Inr (), s\<lparr>pn_seq := Suc (Suc (pn_seq s)),
      pn_bots := pn_bots s @ [seed_bot_row rnd k d ?i (enc (pn_seq s) (mock_token uuid k)) (pn_now s)],
      pn_health := pn_health s @ [seed_health rnd k d ?i], pn_assignments := pn_assignments s @ seeded_assignments d ?i,
      pn_shards := pn_shards s @ map (seed_shard d ?i) [0..<bd_shardCount d], pn_audit := pn_audit s @ es\<rparr>)"
    (is "_ = (Inr (), ?t)") using seed_bot_run [OF assms(1) refl fresh] by blast
  have "ids_drawn pp ?t"
    using assms(3) more by (auto simp: ids_drawn_def seed_bot_row_def seed_health_def seed_shard_def Let_def)
  then show ?thesis
    by (intro exI [of _ ?t] exI [of _ "seed_bot_row rnd k d ?i (enc (pn_seq s) (mock_token uuid k)) (pn_now s)"])
      (simp add: run seed_bot_row_def Let_def)
qed

lemma seed_start:
  assumes "inj (pp_cuid pp)"
    and "pn_users s = []" "pn_customers s = []" "pn_bots s = []" "pn_health s = []" "pn_workers s = []" "pn_assignments s = []"
      "pn_shards s = []" "pn_deployments s = []"
  defines "n \<equiv> pn_seq s"
  obtains s1 s2 s3 s4 w1 w2 customers where "seed_user pp s = (Inr (pp_cuid pp n), s1)"
    and "forEach customerDefs [] (seed_customer pp (pp_cuid pp n)) s1 = (Inr customers, s2)"
    and "seed_worker pp ''worker-1'' ModePm2 ''worker-1.internal'' 2 340 s2 = (Inr (wk_id w1), s3)"
    and "seed_worker pp ''worker-2'' ModeDocker ''worker-2.internal'' 1 210 s3 = (Inr (wk_id w2), s4)"
    and "pn_seq s4 = 6 + n" "map us_id (pn_users s4) = [pp_cuid pp n]" "count_owners s4 = 1" "pn_bots s4 = []" "pn_health s4 = []"
      "pn_shards s4 = []" "pn_assignments s4 = []" "pn_deployments s4 = []"
    and "pn_workers s4 = [w1, w2]" "wk_id w1 = pp_cuid pp (4 + n)" "wk_currentBots w1 = 2" "wk_id w2 = pp_cuid pp (5 + n)" "wk_currentBots w2 = 1"
proof -
  have inj: "pp_cuid pp m = pp_cuid pp k \<longleftrightarrow> m = k" for m k using assms(1) by (rule inj_eq)
  let ?c = "\<lambda>k. pp_cuid pp (k + n)"
  obtain s1 where s1: "seed_user pp s = (Inr (pp_cuid pp n), s1)" "pn_seq s1 = 1 + n" "map us_id (pn_users s1) = [pp_cuid pp n]" "count_owners s1 = 1"
    "pn_customers s1 = []" "pn_bots s1 = []" "pn_health s1 = []" "pn_workers s1 = []" "pn_assignments s1 = []" "pn_shards s1 = []"
    "pn_deployments s1 = []"
    by (simp add: seed_user_def assms(2-) panel_cuid_def andThen_def n_def count_owners_def)
  have "findBy us_id (pp_cuid pp n) (pn_users s1) \<noteq> None"
  proof
    assume "findBy us_id (pp_cuid pp n) (pn_users s1) = None"
    then have "pp_cuid pp n \<notin> set (map us_id (pn_users s1))" by (simp add: findBy_None)
    then show False by (simp add: s1(3))
  qed
  then obtain s2 where s2: "forEach customerDefs [] (seed_customer pp (pp_cuid pp n)) s1 = (Inr [?c 1, ?c 2, ?c 3], s2)" "pn_seq s2 = 4 + n"
    "pn_users s2 = pn_users s1" "pn_bots s2 = []" "pn_health s2 = []" "pn_workers s2 = []" "pn_assignments s2 = []" "pn_shards s2 = []"
    "pn_deployments s2 = []"
    by (simp add: customerDefs_def seed_customer_def insert_customer_def panel_cuid_def andThen_def ret_def s1 inj)
  obtain s3 w1 where s3: "seed_worker pp ''worker-1'' ModePm2 ''worker-1.internal'' 2 340 s2 = (Inr (?c 4), s3)" "pn_seq s3 = 5 + n"
    "pn_workers s3 = [w1]" "wk_id w1 = ?c 4" "wk_currentBots w1 = 2"
    "pn_users s3 = pn_users s2" "pn_bots s3 = []" "pn_health s3 = []" "pn_assignments s3 = []" "pn_shards s3 = []" "pn_deployments s3 = []"
    by (simp add: seed_worker_def insert_worker_def panel_cuid_def andThen_def ret_def s2)
  obtain s4 w2 where s4: "seed_worker pp ''worker-2'' ModeDocker ''worker-2.internal'' 1 210 s3 = (Inr (?c 5), s4)" "pn_seq s4 = 6 + n"
    "pn_workers s4 = [w1, w2]" "wk_id w2 = ?c 5" "wk_currentBots w2 = 1"
    "pn_users s4 = pn_users s3" "pn_bots s4 = []" "pn_health s4 = []" "pn_assignments s4 = []" "pn_shards s4 = []" "pn_deployments s4 = []"
    by (simp add: seed_worker_def insert_worker_def panel_cuid_def andThen_def ret_def s3 inj)
  have "count_owners s4 = 1" using s1(4) by (simp add: count_owners_def s2 s3 s4)
  then show ?thesis
    by (rule that [of s1 "[?c 1, ?c 2, ?c 3]" s2 w1 s3 w2 s4, rotated 6]) (simp_all add: s1 s2 s3 s4)
qed

lemma seed_four_bots:
  assumes "\<And>k t. encryptSecret (pp_crypto pp) (pp_encryptionKey pp) k t = Inr (enc k t)" and "inj (pp_cuid pp)" and "\<And>k. pp_cuid pp k \<noteq> []"
    and s4: "pn_seq s4 = 6 + n" "pn_bots s4 = []" "pn_health s4 = []" "pn_shards s4 = []" "pn_assignments s4 = []" "pn_deployments s4 = []"
      "pn_workers s4 = [w1, w2]" "wk_id w1 = pp_cuid pp (4 + n)" "wk_currentBots w1 = 2" "wk_id w2 = pp_cuid pp (5 + n)" "wk_currentBots w2 = 1"
  obtains t where "forEach (enumerate 0 (botDefs customers (wk_id w1) (wk_id w2))) () (\<lambda>kd _. seed_bot pp rnd uuid owner kd) s4 = (Inr (), t)"
    and "fleet_ok t" "length (pn_bots t) = 4" "pn_workers t = [w1, w2]" "pn_users t = pn_users s4" "pn_deployments t = []"
proof -
  have inj: "pp_cuid pp m = pp_cuid pp k \<longleftrightarrow> m = k" for m k using assms(2) by (rule inj_eq)
  let ?c = "\<lambda>k. pp_cuid pp (k + n)"
  obtain d1 d2 d3 d4 where defs: "enumerate 0 (botDefs customers (wk_id w1) (wk_id w2)) = [(0, d1), (1, d2), (2, d3), (3, d4)]"
    "bd_worker d1 = Some (?c 4)" "bd_worker d2 = Some (?c 4)" "bd_worker d3 = Some (?c 5)" "bd_worker d4 = None"
    by (simp add: botDefs_def s4)
  have d4: "ids_drawn pp s4" by (simp add: ids_drawn_def s4)
  note effect = seed_bot_effect [OF assms(1) assms(2), of _ rnd uuid owner]
  obtain s5 b1 where s5: "seed_bot pp rnd uuid owner (0, d1) s4 = (Inr (), s5)" "ids_drawn pp s5" "pn_seq s5 = 8 + n"
    "pn_bots s5 = [b1]" "bo_id b1 = ?c 7" "bo_workerGroupId b1 = Some (?c 4)"
    "pn_assignments s5 = [\<lparr>as_workerId = ?c 4, as_botId = ?c 7, as_status = AsActive\<rparr>]"
    "pn_workers s5 = [w1, w2]" "pn_users s5 = pn_users s4" "pn_deployments s5 = []"
    using effect [OF d4, of 0 d1] by (auto simp: s4 defs seeded_assignments_def)
  obtain s6 b2 where s6: "seed_bot pp rnd uuid owner (1, d2) s5 = (Inr (), s6)" "ids_drawn pp s6" "pn_seq s6 = 10 + n"
    "pn_bots s6 = [b1, b2]" "bo_id b2 = ?c 9" "bo_workerGroupId b2 = Some (?c 4)"
    "pn_assignments s6 = pn_assignments s5 @ [\<lparr>as_workerId = ?c 4, as_botId = ?c 9, as_status = AsActive\<rparr>]"
    "pn_workers s6 = [w1, w2]" "pn_users s6 = pn_users s5" "pn_deployments s6 = []"
    using effect [OF s5(2), of 1 d2] by (auto simp: s5 defs seeded_assignments_def)
  obtain s7 b3 where s7: "seed_bot pp rnd uuid owner (2, d3) s6 = (Inr (), s7)" "ids_drawn pp s7" "pn_seq s7 = 12 + n"
    "pn_bots s7 = [b1, b2, b3]" "bo_id b3 = ?c 11" "bo_workerGroupId b3 = Some (?c 5)"
    "pn_assignments s7 = pn_assignments s6 @ [\<lparr>as_workerId = ?c 5, as_botId = ?c 11, as_status = AsActive\<rparr>]"
    "pn_workers s7 = [w1, w2]" "pn_users s7 = pn_users s6" "pn_deployments s7 = []"
    using effect [OF s6(2), of 2 d3] by (auto simp: s6 defs seeded_assignments_def)
  obtain s8 b4 where s8: "seed_bot pp rnd uuid owner (3, d4) s7 = (Inr (), s8)"
    "pn_bots s8 = [b1, b2, b3, b4]" "bo_id b4 = ?c 13" "bo_workerGroupId b4 = None" "pn_assignments s8 = pn_assignments s7"
    "pn_workers s8 = [w1, w2]" "pn_users s8 = pn_users s7" "pn_deployments s8 = []"
    using effect [OF s7(2), of 3 d4] by (auto simp: s7 defs seeded_assignments_def)
  have ok8: "fleet_ok s8"
    by (simp add: fleet_ok_def s8 s7 s6 s5 s4 group_list_def group_size_def active_workers_def inj assms(3) assms(3) [symmetric])
  show ?thesis
    by (rule that [of s8]) (simp_all del: One_nat_def add: defs andThen_def ret_def s5 s6 s7 s8 ok8)
qed

text \<open>
  Seeding a fresh database succeeds, and what it leaves is a consistent fleet of two workers and four
  bots with an owner: the counters written as literals are those of the bots that follow. From there
  on, whatever requests are served and jobs run, the fleet stays consistent and an owner remains.
\<close>

theorem seeded_panel_stays_consistent:
  assumes "isEncryptionKeyConfigured (pp_crypto pp) (pp_encryptionKey pp)" and "inj (pp_cuid pp)" and "\<And>n. pp_cuid pp n \<noteq> []"
    and "pn_users s = []" "pn_customers s = []" "pn_bots s = []" "pn_health s = []" "pn_workers s = []" "pn_assignments s = []"
      "pn_shards s = []" "pn_deployments s = []"
  shows "\<exists>t. seed_main pp rnd uuid s = (Inr (), t) \<and> length (pn_bots t) = 4 \<and> length (pn_workers t) = 2
    \<and> (\<forall>env u. ae_platform env = pp \<longrightarrow> panel_reachable env t u \<longrightarrow> fleet_ok u \<and> 0 < count_owners u)"
proof -
  have "\<exists>c. encryptSecret (pp_crypto pp) (pp_encryptionKey pp) n t = Inr c" for n t
    using assms(1) by (auto simp: isEncryptionKeyConfigured_def encryptSecret_def getMasterKey_def Let_def split: option.splits prod.splits)
  then obtain enc where enc: "\<And>n t. encryptSecret (pp_crypto pp) (pp_encryptionKey pp) n t = Inr (enc n t)" by metis
  define n where "n = pn_seq s"
  obtain s1 s2 s3 s4 w1 w2 customers where runs: "seed_user pp s = (Inr (pp_cuid pp n), s1)"
    "forEach customerDefs [] (seed_customer pp (pp_cuid pp n)) s1 = (Inr customers, s2)"
    "seed_worker pp ''worker-1'' ModePm2 ''worker-1.internal'' 2 340 s2 = (Inr (wk_id w1), s3)"
    "seed_worker pp ''worker-2'' ModeDocker ''worker-2.internal'' 1 210 s3 = (Inr (wk_id w2), s4)"
    and users: "map us_id (pn_users s4) = [pp_cuid pp n]" "count_owners s4 = 1"
    and s4: "pn_seq s4 = 6 + n" "pn_bots s4 = []" "pn_health s4 = []" "pn_shards s4 = []" "pn_assignments s4 = []" "pn_deployments s4 = []"
      "pn_workers s4 = [w1, w2]" "wk_id w1 = pp_cuid pp (4 + n)" "wk_currentBots w1 = 2" "wk_id w2 = pp_cuid pp (5 + n)" "wk_currentBots w2 = 1"
    unfolding n_def by (rule seed_start [OF assms(2) assms(4-)])
  obtain s8 where s8: "forEach (enumerate 0 (botDefs customers (wk_id w1) (wk_id w2))) ()
      (\<lambda>kd _. seed_bot pp rnd uuid (pp_cuid pp n) kd) s4 = (Inr (), s8)"
    and fleet: "fleet_ok s8" and sizes: "length (pn_bots s8) = 4" "pn_workers s8 = [w1, w2]" "pn_users s8 = pn_users s4" "pn_deployments s8 = []"
    by (rule seed_four_bots [OF enc assms(2,3) s4])
  let ?t = "s8\<lparr>pn_alerts := pn_alerts s8 @ seed_alerts (pn_now s8), pn_seq := Suc (pn_seq s8),
    pn_deployments := [seed_deployment (pp_cuid pp (pn_seq s8)) (pp_cuid pp n) (pn_now s8)]\<rparr>"
  have "findBy us_id (pp_cuid pp n) (pn_users s8) \<noteq> None"
  proof
    assume "findBy us_id (pp_cuid pp n) (pn_users s8) = None"
    then have "pp_cuid pp n \<notin> set (map us_id (pn_users s4))" by (simp add: findBy_None sizes)
    then show False by (simp add: users)
  qed
  then have run: "seed_main pp rnd uuid s = (Inr (), ?t)"
    by (simp del: One_nat_def add: seed_main_def andThen_def runs s8 modify_def panel_cuid_def insert_deployment_def seed_deployment_def sizes)
  have view: "panel_view ?t = panel_view s8" by (simp add: panel_view_def)
  have "fleet_ok ?t" using fleet by (simp add: fleet_ok_def)
  moreover have "owners_ok ?t" using users by (simp add: owners_ok_def count_owners_def sizes)
  ultimately have keeps: "fleet_ok u \<and> 0 < count_owners u" if "ae_platform env = pp" "panel_reachable env ?t u" for env u
    using fleet.reachable_keeps [OF that(2)] owners.reachable_keeps [OF that(2)] assms(3) that(1)
    by (simp add: owners_ok_def less_eq_Suc_le)
  show ?thesis
    by (intro exI [of _ ?t] conjI allI impI run) (simp_all add: sizes keeps)
qed

end
