(* ===== verification/Background.thy ===== *)
theory Background
  imports Panel_Api Workload_Api
begin

text \<open>
  The background process (\<open>lib/queue/ai-worker.ts\<close>) around the job functions: the connection to Redis
  (\<open>lib/queue/connection.ts\<close>), the recurring jobs (\<open>lib/queue/scheduler-queue.ts\<close>), what each of the
  three workers does with a job of a given name, and the route that answers the state of an explanation.
  The panel and the agent side of the database are the two components of the state. Parsing a URL is the
  parameter \<open>parse_url\<close>, \<open>None\<close> when \<open>new URL\<close> throws; the lock of a reconciliation tick is an argument.
\<close>

subsection \<open>The connection\<close>

record url_parts =
  ur_hostname :: string
  ur_port :: string
  ur_username :: string
  ur_password :: string

record queue_connection =
  qc_host :: string
  qc_port :: int
  qc_username :: "string option"
  qc_password :: "string option"

datatype connection_error = RedisUrlMissing | InvalidUrl

text \<open>The port of a parsed URL is empty or a decimal number.\<close>

definition getQueueConnection ::
  "(string \<Rightarrow> string option) \<Rightarrow> (string \<Rightarrow> url_parts option) \<Rightarrow> connection_error + queue_connection" where
  "getQueueConnection env parse_url = (case truthy (env ''REDIS_URL'') of
     None \<Rightarrow> Inl RedisUrlMissing
   | Some u \<Rightarrow> (case parse_url u of
       None \<Rightarrow> Inl InvalidUrl
     | Some url \<Rightarrow> Inr \<lparr>qc_host = ur_hostname url,
         qc_port = (if ur_port url = [] then 6379 else case digits_value 0 (ur_port url) of None \<Rightarrow> 0 | Some n \<Rightarrow> int n),
         qc_username = truthy (Some (ur_username url)), qc_password = truthy (Some (ur_password url))\<rparr>))"

subsection \<open>Recurring jobs\<close>

record repeat_job =
  rp_name :: string
  rp_every :: int
  rp_jobId :: string

definition EVALUATE_ALERTS_JOB_NAME :: string where
  "EVALUATE_ALERTS_JOB_NAME = ''evaluate-alerts''"

definition RECONCILE_WORKLOADS_JOB_NAME :: string where
  "RECONCILE_WORKLOADS_JOB_NAME = ''reconcile-workloads''"

definition EVALUATE_ALERTS_INTERVAL_MS :: int where
  "EVALUATE_ALERTS_INTERVAL_MS = 5 * 60 * 1000"

definition RECONCILE_WORKLOADS_INTERVAL_MS :: int where
  "RECONCILE_WORKLOADS_INTERVAL_MS = 30 * 1000"

text \<open>BullMQ keeps one repeatable job per key; adding one that is there changes nothing.\<close>

definition add_repeat :: "repeat_job \<Rightarrow> repeat_job list \<Rightarrow> repeat_job list" where
  "add_repeat job q = (if job \<in> set q then q else q @ [job])"

definition ensureAlertEvaluationScheduled :: "repeat_job list \<Rightarrow> repeat_job list" where
  "ensureAlertEvaluationScheduled = add_repeat
     \<lparr>rp_name = EVALUATE_ALERTS_JOB_NAME, rp_every = EVALUATE_ALERTS_INTERVAL_MS, rp_jobId = EVALUATE_ALERTS_JOB_NAME\<rparr>"

definition ensureReconciliationScheduled :: "repeat_job list \<Rightarrow> repeat_job list" where
  "ensureReconciliationScheduled = add_repeat
     \<lparr>rp_name = RECONCILE_WORKLOADS_JOB_NAME, rp_every = RECONCILE_WORKLOADS_INTERVAL_MS, rp_jobId = RECONCILE_WORKLOADS_JOB_NAME\<rparr>"

text \<open>
  Starting the process: the workers connect first, so without a usable \<open>REDIS_URL\<close> nothing is scheduled.
\<close>

definition start_workers ::
  "(string \<Rightarrow> string option) \<Rightarrow> (string \<Rightarrow> url_parts option) \<Rightarrow> repeat_job list \<Rightarrow> connection_error + repeat_job list" where
  "start_workers env parse_url q = (case getQueueConnection env parse_url of
     Inl e \<Rightarrow> Inl e | Inr _ \<Rightarrow> Inr (ensureReconciliationScheduled (ensureAlertEvaluationScheduled q)))"

subsection \<open>The workers\<close>

datatype job_error = UnknownJob string | PanelError panel_exn | WorldError exn

datatype job_result = Evaluated evaluate_result | Reconciled reconciliation_result | Explained crash_analysis | StaggeredRestart restart_result

type_synonym 'a job_run = "(panel \<times> world, job_error, 'a) run"

definition on_panel :: "'a pact \<Rightarrow> 'a job_run" where
  "on_panel m = (\<lambda>(s, w). case m s of (Inl e, t) \<Rightarrow> (Inl (PanelError e), (t, w)) | (Inr x, t) \<Rightarrow> (Inr x, (t, w)))"

definition on_fleet :: "'a act \<Rightarrow> 'a job_run" where
  "on_fleet m = (\<lambda>(s, w). case m w of (Inl e, v) \<Rightarrow> (Inl (WorldError e), (s, v)) | (Inr x, v) \<Rightarrow> (Inr x, (s, v)))"

definition aiWorker :: "string \<Rightarrow> explain_job \<Rightarrow> job_result job_run" where
  "aiWorker name job = (if name = ''explain-crash'' then andThen (on_panel (processExplainCrash job)) (\<lambda>r. ret (Explained r))
     else raise (UnknownJob (''Unknown AI job type: '' @ name)))"

definition schedulerWorker :: "platform \<Rightarrow> plugin list \<Rightarrow> bool \<Rightarrow> string \<Rightarrow> job_result job_run" where
  "schedulerWorker pf plugins locked name =
     (if name = EVALUATE_ALERTS_JOB_NAME then andThen (on_panel (evaluateAlertRules plugins None)) (\<lambda>r. ret (Evaluated r))
      else if name = RECONCILE_WORKLOADS_JOB_NAME then andThen (on_fleet (reconcileWorkloads pf locked None)) (\<lambda>r. ret (Reconciled r))
      else raise (UnknownJob (''Unknown scheduled job type: '' @ name)))"

definition restartWorker :: "panel_platform \<Rightarrow> string \<Rightarrow> restart_job \<Rightarrow> job_result job_run" where
  "restartWorker pp name job =
     (if name = ''staggered-restart'' then andThen (on_panel (processStaggeredRestart pp job)) (\<lambda>r. ret (StaggeredRestart r))
      else raise (UnknownJob (''Unknown restart job type: '' @ name)))"

subsection \<open>Asking for an explanation\<close>

text \<open>What BullMQ answers about a job: its state, its return value and the reason of its failure.\<close>

definition getAiJob ::
  "session option \<Rightarrow> (string \<Rightarrow> string \<times> json \<times> json) \<Rightarrow> explain_job list \<Rightarrow> string \<Rightarrow> response" where
  "getAiJob sess bull jobs jobId = (case requireAdmin sess of
     Inl refusal \<Rightarrow> refusal
   | Inr _ \<Rightarrow> (case getCrashExplanationJob jobId jobs of
       None \<Rightarrow> error_json 404 ''Job not found''
     | Some job \<Rightarrow> (case bull (ej_jobId job) of (state, returnvalue, failedReason) \<Rightarrow>
         reply_json 200 [(''id'', JStr (ej_jobId job)), (''state'', JStr state),
           (''result'', if state = ''completed'' then returnvalue else JNull),
           (''failedReason'', if state = ''failed'' then failedReason else JNull)])))"

subsection \<open>Properties\<close>

lemma add_repeat_twice: "add_repeat a (add_repeat a q) = add_repeat a q"
  by (simp add: add_repeat_def)

lemma add_repeat_keeps: "job \<in> set q \<Longrightarrow> job \<in> set (add_repeat a q)"
  by (simp add: add_repeat_def)

text \<open>
  However often the process is restarted, the queue holds each of the two recurring jobs once: alerts every five
  minutes, reconciliation every thirty seconds, in this order in a queue that was empty. Without a usable
  address of Redis nothing is scheduled.
\<close>

theorem restarts_do_not_reschedule:
  "(\<exists>e. start_workers env parse_url q = Inl e) \<and> (\<nexists>c. getQueueConnection env parse_url = Inr c)
    \<or> (\<exists>q1. start_workers env parse_url q = Inr q1 \<and> start_workers env parse_url q1 = Inr q1
        \<and> (distinct q1 \<longleftrightarrow> distinct q) \<and> set q \<subseteq> set q1
        \<and> (q = [] \<longrightarrow> map (\<lambda>j. (rp_name j, rp_every j)) q1 = [(''evaluate-alerts'', 300000), (''reconcile-workloads'', 30000)]))"
proof (cases "getQueueConnection env parse_url")
  case (Inl e)
  then show ?thesis by (simp add: start_workers_def)
next
  case (Inr c)
  then show ?thesis
    by (auto simp: start_workers_def ensureAlertEvaluationScheduled_def ensureReconciliationScheduled_def add_repeat_def
        EVALUATE_ALERTS_JOB_NAME_def RECONCILE_WORKLOADS_JOB_NAME_def EVALUATE_ALERTS_INTERVAL_MS_def RECONCILE_WORKLOADS_INTERVAL_MS_def)
qed

lemma on_panel_run: "on_panel m (s, w) = (case m s of (Inl e, t) \<Rightarrow> (Inl (PanelError e), (t, w)) | (Inr x, t) \<Rightarrow> (Inr x, (t, w)))"
  by (simp add: on_panel_def)

lemma on_panel_keeps:
  assumes "andThen (on_panel m) (\<lambda>x. ret (f x)) (s, w) = (r, (t, v))" and "keeps I m"
  shows "v = w \<and> (I s \<longrightarrow> I t) \<and> (\<nexists>n. r = Inl (UnknownJob n))"
  using assms(1) keepsD [OF assms(2), of s] by (auto simp: andThen_def on_panel_run ret_def split: prod.splits sum.splits)

text \<open>
  The background jobs keep to their side of the database: a reconciliation tick leaves the panel alone, every
  other job leaves the agents' side alone and keeps the fleet of the panel consistent; a job of an unknown
  name throws and changes nothing.
\<close>

theorem jobs_keep_to_their_side:
  assumes "m = aiWorker name crash \<or> m = schedulerWorker pf builtinPlugins locked name \<or> m = restartWorker pp name job"
    and "m (s, w) = (r, (t, v))"
  shows "if \<exists>n. r = Inl (UnknownJob n) then t = s \<and> v = w
    else if name = RECONCILE_WORKLOADS_JOB_NAME then t = s \<and> v = snd (reconcileWorkloads pf locked None w)
    else v = w \<and> (fleet_ok s \<longrightarrow> fleet_ok t)"
proof -
  have names: "RECONCILE_WORKLOADS_JOB_NAME \<noteq> ''explain-crash''" "RECONCILE_WORKLOADS_JOB_NAME \<noteq> ''staggered-restart''"
    "RECONCILE_WORKLOADS_JOB_NAME \<noteq> EVALUATE_ALERTS_JOB_NAME"
    by (simp_all add: RECONCILE_WORKLOADS_JOB_NAME_def EVALUATE_ALERTS_JOB_NAME_def)
  note keeps = on_panel_keeps [where s = s and w = w and t = t and v = v and r = r and I = fleet_ok]
  from assms(1) consider "m = aiWorker name crash" | "m = schedulerWorker pf builtinPlugins locked name" | "m = restartWorker pp name job" by blast
  then show ?thesis
  proof cases
    case 1
    then show ?thesis using assms(2) names keeps [where f = Explained, OF _ fleet.keeps_jobs(2) [of crash]]
      by (auto simp: aiWorker_def raise_def split: if_splits)
  next
    case 2
    have tick: "t = s \<and> v = snd (reconcileWorkloads pf locked None w) \<and> (\<nexists>n. r = Inl (UnknownJob n))"
      if "andThen (on_fleet (reconcileWorkloads pf locked None)) (\<lambda>r. ret (Reconciled r)) (s, w) = (r, (t, v))"
      using that by (auto simp: andThen_def on_fleet_def ret_def split: prod.splits sum.splits)
    show ?thesis using 2 assms(2) names tick keeps [where f = Evaluated, OF _ fleet.keeps_evaluate [of builtinPlugins None]]
      by (auto simp: schedulerWorker_def raise_def split: if_splits)
  next
    case 3
    then show ?thesis using assms(2) names keeps [where f = StaggeredRestart, OF _ fleet.keeps_jobs(1) [of pp job]]
      by (auto simp: restartWorker_def raise_def split: if_splits)
  qed
qed

end
