(* ===== verification/Dialogs.thy ===== *)
theory Dialogs
  imports Background
begin

text \<open>
  The browser's side of the administration (\<open>components/*Dialog.tsx\<close>, \<open>ExplainCrashButton.tsx\<close>,
  \<open>MaintenanceModeToggle.tsx\<close>): the state of a dialog, the request body that a submission sends, and what
  is done with the answer. The answer comes from the modelled routes. Markup is left out; \<open>fetch\<close> is
  assumed to reach the server.
\<close>

subsection \<open>A dialog\<close>

record 'f dialog =
  dg_open :: bool
  dg_pending :: bool
  dg_error :: "string option"
  dg_form :: 'f

definition res_ok :: "response \<Rightarrow> bool" where
  "res_ok r \<longleftrightarrow> 200 \<le> rs_status r \<and> rs_status r \<le> 299"

text \<open>\<open>body.error ?? fallback\<close>.\<close>

definition error_of :: "string \<Rightarrow> response \<Rightarrow> string" where
  "error_of fallback r = (case as_string (propOf ''error'' (Some (rs_body r))) of None \<Rightarrow> fallback | Some e \<Rightarrow> e)"

definition start_submit :: "'f dialog \<Rightarrow> 'f dialog" where
  "start_submit d = d\<lparr>dg_pending := True, dg_error := None\<rparr>"

definition finish_submit :: "string \<Rightarrow> ('f \<Rightarrow> 'f) \<Rightarrow> response \<Rightarrow> 'f dialog \<Rightarrow> 'f dialog" where
  "finish_submit fallback reset res d = (let d = d\<lparr>dg_pending := False\<rparr> in
     if \<not> res_ok res then d\<lparr>dg_error := Some (error_of fallback res)\<rparr>
     else d\<lparr>dg_open := False, dg_form := reset (dg_form d)\<rparr>)"

text \<open>An exception that leaves the handler is the framework's 500, whose body is not JSON.\<close>

definition exchange :: "('s, 'e, response) run \<Rightarrow> 's \<Rightarrow> response \<times> 's" where
  "exchange m s = (case m s of (Inl _, t) \<Rightarrow> (reply_json 500 [], t) | (Inr r, t) \<Rightarrow> (r, t))"

subsection \<open>Forms\<close>

definition PLANS :: "plan_tier list" where
  "PLANS = [PlanFree, PlanStarter, PlanPro, PlanEnterprise]"

record bot_form =
  bf_customerId :: string
  bf_name :: string
  bf_clientId :: string
  bf_token :: string
  bf_plan :: plan_tier

definition bot_form_body :: "bot_form \<Rightarrow> json" where
  "bot_form_body f = JObj [(''customerId'', JStr (bf_customerId f)), (''name'', JStr (bf_name f)), (''clientId'', JStr (bf_clientId f)),
     (''token'', JStr (bf_token f)), (''plan'', JStr (plan_name (bf_plan f)))]"

definition reset_bot_form :: "bot_form \<Rightarrow> bot_form" where
  "reset_bot_form f = f\<lparr>bf_name := [], bf_clientId := [], bf_token := []\<rparr>"

definition submit_bot :: "panel_platform \<Rightarrow> session option \<Rightarrow> bot_form dialog \<Rightarrow> panel \<Rightarrow> bot_form dialog \<times> panel" where
  "submit_bot pp sess d s = (case exchange (postBots pp sess (Some (bot_form_body (dg_form d)))) s of
     (r, t) \<Rightarrow> (finish_submit ''Failed to create bot'' reset_bot_form r (start_submit d), t))"

record customer_form =
  cf_name :: string
  cf_plan :: plan_tier

definition customer_form_body :: "customer_form \<Rightarrow> json" where
  "customer_form_body f = JObj [(''name'', JStr (cf_name f)), (''plan'', JStr (plan_name (cf_plan f)))]"

definition submit_customer :: "panel_platform \<Rightarrow> session option \<Rightarrow> customer_form dialog \<Rightarrow> panel \<Rightarrow> customer_form dialog \<times> panel" where
  "submit_customer pp sess d s = (case exchange (postCustomers pp sess (Some (customer_form_body (dg_form d)))) s of
     (r, t) \<Rightarrow> (finish_submit ''Failed to create customer'' (\<lambda>f. f\<lparr>cf_name := []\<rparr>) r (start_submit d), t))"

record worker_form =
  wf_name :: string
  wf_mode :: worker_mode
  wf_maxBots :: int
  wf_host :: string

definition worker_form_body :: "worker_form \<Rightarrow> json" where
  "worker_form_body f = JObj [(''name'', JStr (wf_name f)), (''mode'', JStr (worker_mode_name (wf_mode f))),
     (''maxBots'', JNum (of_int (wf_maxBots f))), (''host'', JStr (wf_host f))]"

definition submit_worker :: "panel_platform \<Rightarrow> session option \<Rightarrow> worker_form dialog \<Rightarrow> panel \<Rightarrow> worker_form dialog \<times> panel" where
  "submit_worker pp sess d s = (case exchange (postWorkers pp sess (Some (worker_form_body (dg_form d)))) s of
     (r, t) \<Rightarrow> (finish_submit ''Failed to create worker'' (\<lambda>f. f\<lparr>wf_name := [], wf_host := []\<rparr>) r (start_submit d), t))"

record webhook_form =
  hf_name :: string
  hf_url :: string

definition webhook_form_body :: "webhook_form \<Rightarrow> json" where
  "webhook_form_body f = JObj [(''name'', JStr (hf_name f)), (''url'', JStr (hf_url f))]"

definition submit_webhook :: "panel_platform \<Rightarrow> session option \<Rightarrow> webhook_form dialog \<Rightarrow> panel \<Rightarrow> webhook_form dialog \<times> panel" where
  "submit_webhook pp sess d s = (case exchange (postWebhooks pp sess (Some (webhook_form_body (dg_form d)))) s of
     (r, t) \<Rightarrow> (finish_submit ''Failed to add webhook'' (\<lambda>_. \<lparr>hf_name = [], hf_url = []\<rparr>) r (start_submit d), t))"

text \<open>The deployment dialog closes after a failure too, and it shows the outcome outside the dialog.\<close>

record deployment_form =
  df_version :: string
  df_commitSha :: string
  df_notes :: string

definition deployment_form_body :: "deployment_form \<Rightarrow> json" where
  "deployment_form_body f = JObj [(''version'', JStr (df_version f)), (''commitSha'', JStr (df_commitSha f)), (''notes'', JStr (df_notes f))]"

definition deployment_result :: "response \<Rightarrow> string" where
  "deployment_result r = (case as_int (propOf ''restartsQueued'' (Some (rs_body r))) of
     Some n \<Rightarrow> if 0 < n then ''Deployed. Queued staggered restarts for '' @ show_int n @ '' online bot(s).''
       else ''Deployed. No restarts queued (no online bots, or maintenance mode is on).''
   | None \<Rightarrow> ''Deployed. No restarts queued (no online bots, or maintenance mode is on).'')"

definition finish_deploy :: "response \<Rightarrow> deployment_form dialog \<Rightarrow> deployment_form dialog \<times> string option" where
  "finish_deploy res d = (let d = d\<lparr>dg_pending := False, dg_open := False\<rparr> in
     if \<not> res_ok res
     then (d\<lparr>dg_error := Some (error_of ''Deployment failed - see /admin/logs for details.'' res)\<rparr>, None)
     else (d\<lparr>dg_form := \<lparr>df_version = [], df_commitSha = [], df_notes = []\<rparr>\<rparr>, Some (deployment_result res)))"

text \<open>What a dialog shows of its error: the message stands inside the dialog.\<close>

definition visible_error :: "'f dialog \<Rightarrow> string option" where
  "visible_error d = (if dg_open d then dg_error d else None)"

subsection \<open>Waiting for an explanation\<close>

datatype explanation = Explanation json | NoExplanation string

text \<open>\<open>answer k\<close> is the body of the \<open>k\<close>-th answer; the number of polls made is returned too.\<close>

fun poll_job :: "nat \<Rightarrow> (nat \<Rightarrow> json) \<Rightarrow> nat \<Rightarrow> explanation \<times> nat" where
  "poll_job 0 answer k = (NoExplanation ''Timed out waiting for the AI worker. Is `npm run worker:ai` running?'', k)"
| "poll_job (Suc n) answer k = (let body = Some (answer k) in
     if propOf ''state'' body = Some (JStr ''completed'')
     then (Explanation (case propOf ''result'' body of None \<Rightarrow> JNull | Some r \<Rightarrow> r), Suc k)
     else if propOf ''state'' body = Some (JStr ''failed'')
     then (NoExplanation (case as_string (propOf ''failedReason'' body) of None \<Rightarrow> ''Analysis failed.'' | Some r \<Rightarrow> r), Suc k)
     else poll_job n answer (Suc k))"

definition explain_crash :: "response \<Rightarrow> (nat \<Rightarrow> json) \<Rightarrow> explanation \<times> nat" where
  "explain_crash queued answer =
     (if \<not> res_ok queued then (NoExplanation (error_of ''Failed to queue crash explanation.'' queued), 0) else poll_job 15 answer 0)"

subsection \<open>The maintenance switch\<close>

definition toggle_maintenance :: "panel_platform \<Rightarrow> session option \<Rightarrow> bool \<Rightarrow> panel \<Rightarrow> bool \<times> string option \<times> panel" where
  "toggle_maintenance pp sess enabled s =
     (case exchange (patchSystemState pp sess (Some (JObj [(''maintenanceMode'', JBool (\<not> enabled))]))) s of (r, t) \<Rightarrow>
       if res_ok r then (propOf ''maintenanceMode'' (Some (rs_body r)) = Some (JBool True), None, t)
       else (enabled, Some (error_of ''Failed to update maintenance mode'' r), t))"

subsection \<open>The specification a new workload starts from\<close>

definition EXAMPLE_SPEC :: json where
  "EXAMPLE_SPEC = JObj
     [(''apiVersion'', JStr ''botfleet.io/v1''), (''kind'', JStr ''DiscordBot''), (''metadata'', JObj [(''name'', JStr ''example-bot'')]),
      (''spec'', JObj
         [(''runtime'', JObj [(''type'', JStr ''node''), (''command'', JStr ''node''), (''args'', JArr [JStr ''dist/index.js'']),
            (''workingDirectory'', JStr ''/opt/bots/example'')]),
          (''runner'', JObj [(''type'', JStr ''pm2'')]),
          (''health'', JObj [(''restartPolicy'', JStr ''on-failure''), (''maxRestartAttempts'', JNum 5)]),
          (''placement'', JObj [(''requiredLabels'', JObj [(''region'', JStr ''eu-central'')])])])]"

subsection \<open>What the dialogs promise\<close>

lemma finish_refused: "\<not> res_ok r \<Longrightarrow> finish_submit fallback reset r (start_submit d)
    = d\<lparr>dg_pending := False, dg_error := Some (error_of fallback r)\<rparr>"
  by (simp add: finish_submit_def start_submit_def Let_def)

lemma refusals_not_ok: "\<not> res_ok (error_json 401 m)" "\<not> res_ok (error_json 403 m)" "\<not> res_ok (error_json 404 m)"
  "\<not> res_ok (error_json 422 m)" "\<not> res_ok (invalid_request details)"
  by (simp_all add: res_ok_def error_json_def reply_json_def invalid_request_def)

lemma bot_form_parses:
  assumes "zod (pp_safeParse pp) F" and "pp_safeParse pp createBotSchema (Some (bot_form_body f)) = Inr data"
  shows "bot_input_of data = \<lparr>bi_customerId = bf_customerId f, bi_name = bf_name f, bi_clientId = bf_clientId f, bi_token = bf_token f,
    bi_publicKey = None, bi_plan = bf_plan f, bi_guildLimit = 100, bi_shardCount = 1, bi_workerGroupId = None\<rparr>"
proof -
  have "data = parsed createBotSchema (Some (bot_form_body f))"
    using zod.parse_ok_iff [OF assms(1)] assms(2) by blast
  moreover have "enum_of plan_name PLAN_TIERS (Some (plan_name (bf_plan f))) = bf_plan f"
    by (cases "bf_plan f") (simp_all add: enum_of_def PLAN_TIERS_def)
  ultimately show ?thesis
    by (simp add: createBotSchema_def bot_form_body_def planSchema_def positiveInt_def bot_input_of_def str_of_def int_of_def)
qed

text \<open>
  The dialog for a new bot preselects the free plan and sends no guild limit; the route fills in 100, which
  is above the cap of 50 of that plan. So a submission with the free plan never adds a bot: the panel
  stays as it was and the dialog stays open with an error, whatever is typed into it.
\<close>

theorem free_plan_dialog_never_succeeds:
  assumes "zod (pp_safeParse pp) F" and "bf_plan (dg_form d) = PlanFree"
  shows "snd (submit_bot pp sess d s) = s
    \<and> (\<exists>message. fst (submit_bot pp sess d s) = d\<lparr>dg_pending := False, dg_error := Some message\<rparr>)"
proof -
  have "\<exists>r. postBots pp sess (Some (bot_form_body (dg_form d))) s = (Inr r, s) \<and> \<not> res_ok r"
  proof (cases "requireAdmin sess")
    case (Inl r)
    then show ?thesis by (cases sess) (auto simp: postBots_def guarded_def ret_def refusals_not_ok split: if_splits)
  next
    case (Inr ss)
    show ?thesis
    proof (cases "pp_safeParse pp createBotSchema (Some (bot_form_body (dg_form d)))")
      case (Inl issues)
      with Inr show ?thesis
        by (simp add: postBots_def guarded_def ret_def request_json_def andThen_def parsed_body_def refusals_not_ok)
    next
      case (Inr data)
      note input = bot_form_parses [OF assms(1) Inr]
      have "plan_refusal (bot_input_of data) s \<noteq> None" using assms(2) by (simp add: plan_refusal_None input)
      then show ?thesis using \<open>requireAdmin sess = Inr ss\<close> Inr
        by (auto simp: postBots_def guarded_def ret_def request_json_def andThen_def parsed_body_def Let_def refusals_not_ok)
    qed
  qed
  then show ?thesis by (auto simp: submit_bot_def exchange_def finish_refused)
qed

definition free_form :: "bot_form dialog" where
  "free_form = \<lparr>dg_open = True, dg_pending = False, dg_error = None,
     dg_form = \<lparr>bf_customerId = ''c1'', bf_name = ''B'', bf_clientId = ''9'', bf_token = ''tok'', bf_plan = PlanFree\<rparr>\<rparr>"

theorem free_plan_dialog_never_succeeds_witness:
  "\<exists>message. submit_bot api_platform (Some admin_session) free_form api_panel = (free_form\<lparr>dg_error := Some message\<rparr>, api_panel)"
proof -
  have "zod (pp_safeParse api_platform) (\<lambda>_ _. True)"
    by (simp add: api_platform_def refusing_platform_def plain.zod_axioms)
  moreover have "bf_plan (dg_form free_form) = PlanFree" by (simp add: free_form_def)
  ultimately have "snd (submit_bot api_platform (Some admin_session) free_form api_panel) = api_panel"
    and "\<exists>m. fst (submit_bot api_platform (Some admin_session) free_form api_panel) = free_form\<lparr>dg_pending := False, dg_error := Some m\<rparr>"
    by (blast dest: free_plan_dialog_never_succeeds)+
  then show ?thesis by (cases "submit_bot api_platform (Some admin_session) free_form api_panel") (auto simp: free_form_def)
qed

text \<open>The first final answer within the fifteen polls decides, and no poll follows it.\<close>

definition final_answer :: "json \<Rightarrow> bool" where
  "final_answer a \<longleftrightarrow> propOf ''state'' (Some a) \<in> {Some (JStr ''completed''), Some (JStr ''failed'')}"

definition explanation_of :: "json \<Rightarrow> explanation" where
  "explanation_of a = (if propOf ''state'' (Some a) = Some (JStr ''completed'')
     then Explanation (case propOf ''result'' (Some a) of None \<Rightarrow> JNull | Some r \<Rightarrow> r)
     else NoExplanation (case as_string (propOf ''failedReason'' (Some a)) of None \<Rightarrow> ''Analysis failed.'' | Some r \<Rightarrow> r))"

lemma poll_job_eq: "poll_job n answer k = (case find (\<lambda>i. final_answer (answer i)) [k..<k + n] of
    None \<Rightarrow> (NoExplanation ''Timed out waiting for the AI worker. Is `npm run worker:ai` running?'', k + n)
  | Some i \<Rightarrow> (explanation_of (answer i), Suc i))"
proof (induction n arbitrary: k)
  case (Suc n)
  have "[k..<k + Suc n] = k # [Suc k..<Suc k + n]" by (simp add: upt_conv_Cons del: upt_Suc)
  then show ?case
    by (simp add: Suc final_answer_def explanation_of_def Let_def del: upt_Suc cong: option.case_cong)
qed simp

text \<open>
  Asking for an explanation ends after at most fifteen polls; it shows the first completed or failed
  state among the answers, and the time-out message exactly when there is none. A refused request is not polled.
\<close>

theorem explain_crash_outcome: "explain_crash queued answer =
    (if \<not> res_ok queued then (NoExplanation (error_of ''Failed to queue crash explanation.'' queued), 0)
     else case find (\<lambda>i. final_answer (answer i)) [0..<15] of
       None \<Rightarrow> (NoExplanation ''Timed out waiting for the AI worker. Is `npm run worker:ai` running?'', 15)
     | Some i \<Rightarrow> (explanation_of (answer i), Suc i))"
  by (simp only: explain_crash_def poll_job_eq add_0)

text \<open>
  A deployment that fails is reported only by the message inside the dialog, which is closed in the
  same step: nothing of the failure is visible, and no result either.
\<close>

theorem failed_deployment_is_silent:
  assumes "\<not> res_ok r"
  shows "visible_error (fst (finish_deploy r d)) = None \<and> snd (finish_deploy r d) = None
    \<and> dg_error (fst (finish_deploy r d)) \<noteq> None"
  using assms by (simp add: finish_deploy_def visible_error_def Let_def)

text \<open>The specification that the dialog for a new workload starts from passes the schema.\<close>

theorem example_spec_is_valid: "conforms F workloadSpecSchema (Some EXAMPLE_SPEC)"
  by (simp add: EXAMPLE_SPEC_def spec_schemas)

end
