(* ===== verification/Row_Actions.thy ===== *)
theory Row_Actions
  imports Dialogs Agent_Runner
begin

text \<open>
  The buttons and selections of the administration's tables (\<open>components/*Button.tsx\<close>,
  \<open>BotActions.tsx\<close>, \<open>WorkloadActions.tsx\<close>, \<open>RoleSelect.tsx\<close>, \<open>WebhookRowActions.tsx\<close>, \<open>ChangeWorkerSelect.tsx\<close>)
  and the two dialogs on the agent side, \<open>CreateEnrollmentTokenDialog.tsx\<close> and \<open>CreateWorkloadDialog.tsx\<close>: which
  request an action sends to the modelled routes, and what it shows of the answer. The
  marks of a running action (\<open>pending\<close>) are set and reset within one step and are left out where
  nothing else is kept.
\<close>

subsection \<open>Reading an answer\<close>

text \<open>\<open>body.k.length\<close> for a member that is an array; reading it off an absent member throws.\<close>

definition length_of :: "string \<Rightarrow> response \<Rightarrow> nat option" where
  "length_of k r = (case propOf k (Some (rs_body r)) of Some (JArr xs) \<Rightarrow> Some (length xs) | _ \<Rightarrow> None)"

definition show_length :: "nat \<Rightarrow> string" where
  "show_length n = show_int (int n)"

text \<open>The line under a drain button; \<open>None\<close> when nothing is shown.\<close>

definition drain_status :: "string \<Rightarrow> string \<Rightarrow> string \<Rightarrow> string \<Rightarrow> string \<Rightarrow> response \<Rightarrow> string option" where
  "drain_status verb moved stranded whole fallback r =
     (if res_ok r then
        (case length_of moved r of None \<Rightarrow> None
         | Some m \<Rightarrow> (case length_of stranded r of
             Some (Suc n) \<Rightarrow> Some (verb @ '' '' @ show_length m @ '', '' @ show_length (Suc n) @ '' stranded (no capacity elsewhere)'')
           | _ \<Rightarrow> Some (verb @ '' '' @ show_length m @ whole)))
      else Some (error_of fallback r))"

definition drain_worker_click :: "session option \<Rightarrow> string \<Rightarrow> panel \<Rightarrow> string option \<times> panel" where
  "drain_worker_click sess i s = (case exchange (postWorkerDrain sess i) s of (r, t) \<Rightarrow>
     (drain_status ''Moved'' ''movedBotIds'' ''strandedBotIds'' '' bot(s), worker is now offline'' ''Failed to drain worker'' r, t))"

definition drain_agent_click :: "platform \<Rightarrow> environment \<Rightarrow> session option \<Rightarrow> string \<Rightarrow> world \<Rightarrow> string option \<times> world" where
  "drain_agent_click pf env sess i w = (case exchange (postAgentDrain pf env sess i) w of (r, v) \<Rightarrow>
     (drain_status ''Relocated'' ''relocated'' ''stranded'' '' workload(s), agent is now disabled'' ''Failed to drain agent'' r, v))"

subsection \<open>A bot's row\<close>

text \<open>\<open>ConfirmButton\<close>: it waits for the action, whatever comes of it, and closes.\<close>

record confirm_button =
  cb_open :: bool
  cb_pending :: bool

definition confirm_click :: "('s \<Rightarrow> 's) \<Rightarrow> confirm_button \<Rightarrow> 's \<Rightarrow> confirm_button \<times> 's" where
  "confirm_click onConfirm c s = (c\<lparr>cb_pending := False, cb_open := False\<rparr>, onConfirm s)"

definition callAction :: "(session option \<Rightarrow> string \<Rightarrow> response pact) \<Rightarrow> session option \<Rightarrow> string \<Rightarrow> panel \<Rightarrow> panel" where
  "callAction action sess botId s = snd (exchange (action sess botId) s)"

definition bot_action_click :: "panel_platform \<Rightarrow> session option \<Rightarrow> string \<Rightarrow> bot_action \<Rightarrow> confirm_button \<Rightarrow> panel \<Rightarrow> confirm_button \<times> panel" where
  "bot_action_click pp sess botId act = confirm_click (callAction (case act of
     ActStart \<Rightarrow> postBotStart pp | ActStop \<Rightarrow> postBotStop pp | ActRestart \<Rightarrow> postBotRestart pp) sess botId)"

definition submit_token :: "panel_platform \<Rightarrow> session option \<Rightarrow> string \<Rightarrow> string dialog \<Rightarrow> panel \<Rightarrow> string dialog \<times> panel" where
  "submit_token pp sess botId d s =
     (case exchange (postRotateToken pp sess botId (Some (JObj [(''token'', JStr (dg_form d))]))) s of
        (r, t) \<Rightarrow> (finish_submit ''Failed to rotate token'' (\<lambda>_. []) r (start_submit d), t))"

text \<open>The empty option of the selection stands for no worker.\<close>

definition change_worker :: "panel_platform \<Rightarrow> session option \<Rightarrow> string \<Rightarrow> string \<Rightarrow> panel \<Rightarrow> panel" where
  "change_worker pp sess botId chosen s =
     snd (exchange (patchBot pp sess botId (Some (JObj [(''workerGroupId'', nullable JStr (truthy (Some chosen)))]))) s)"

subsection \<open>Workers, users, webhooks, alert rules\<close>

definition restart_worker_click :: "panel_platform \<Rightarrow> session option \<Rightarrow> string \<Rightarrow> panel \<Rightarrow> panel" where
  "restart_worker_click pp sess i s = snd (exchange (postWorkerRestart pp sess i) s)"

definition select_role :: "panel_platform \<Rightarrow> session option \<Rightarrow> string \<Rightarrow> role \<Rightarrow> panel \<Rightarrow> string option \<times> panel" where
  "select_role pp sess userId chosen s = (case exchange (patchUser pp sess userId (Some (JObj [(''role'', JStr (role_name chosen))]))) s of
     (r, t) \<Rightarrow> (if res_ok r then None else Some (error_of ''Failed to update role'' r), t))"

definition evaluate_rules_click :: "plugin list \<Rightarrow> session option \<Rightarrow> panel \<Rightarrow> string option \<times> panel" where
  "evaluate_rules_click plugins sess s = (case exchange (postAlertsEvaluate plugins sess) s of (r, t) \<Rightarrow>
     (if res_ok r
      then (case (as_int (propOf ''rulesEvaluated'' (Some (rs_body r))), length_of ''alertsCreated'' r) of
              (Some n, Some m) \<Rightarrow> Some (''Evaluated '' @ show_int n @ '' rule(s), created '' @ show_length m @ '' alert(s).'')
            | _ \<Rightarrow> None)
      else Some ''Failed to evaluate alert rules.'', t))"

datatype delivery_status = DeliverySent | DeliveryFailed string

definition send_test_click :: "panel_platform \<Rightarrow> discord \<Rightarrow> session option \<Rightarrow> string \<Rightarrow> panel \<Rightarrow> delivery_status \<times> panel" where
  "send_test_click pp discord sess i s =
     (case exchange (postAlertTest pp discord sess (Some (JObj [(''webhookId'', JStr i)]))) s of (r, t) \<Rightarrow>
       (if propOf ''ok'' (Some (rs_body r)) = Some (JBool True) then DeliverySent
        else DeliveryFailed (case as_int (propOf ''status'' (Some (rs_body r))) of None \<Rightarrow> ''error'' | Some n \<Rightarrow> show_int n), t))"

definition remove_webhook_click :: "session option \<Rightarrow> string \<Rightarrow> panel \<Rightarrow> panel" where
  "remove_webhook_click sess i s = snd (exchange (deleteWebhook sess i) s)"

subsection \<open>A workload's row\<close>

record workload_view =
  wv_error :: "string option"
  wv_selectedAgent :: string
  wv_recommendation :: "json option"

definition initial_view :: "string option \<Rightarrow> string list \<Rightarrow> workload_view" where
  "initial_view assignedAgentId agents = \<lparr>wv_error = None,
     wv_selectedAgent = (case assignedAgentId of Some a \<Rightarrow> a | None \<Rightarrow> (case agents of [] \<Rightarrow> [] | a # _ \<Rightarrow> a)),
     wv_recommendation = None\<rparr>"

definition recommend :: "platform \<Rightarrow> session option \<Rightarrow> string \<Rightarrow> workload_view \<Rightarrow> world \<Rightarrow> workload_view \<times> world" where
  "recommend pf sess i v w = (case exchange (postSchedule pf sess i) w of (r, w') \<Rightarrow>
     let v = v\<lparr>wv_error := None, wv_recommendation := None\<rparr> in
     (if \<not> res_ok r then v\<lparr>wv_error := Some (error_of ''Failed to compute a recommendation'' r)\<rparr>
      else (let decision = propOf ''decision'' (Some (rs_body r)); v = v\<lparr>wv_recommendation := decision\<rparr> in
        case truthy (as_string (propOf ''selectedAgentId'' decision)) of None \<Rightarrow> v | Some a \<Rightarrow> v\<lparr>wv_selectedAgent := a\<rparr>), w'))"

definition runCommand ::
  "platform \<Rightarrow> (issue list \<Rightarrow> json) \<Rightarrow> session option \<Rightarrow> string \<Rightarrow> command_type \<Rightarrow> workload_view \<Rightarrow> world \<Rightarrow> workload_view \<times> world" where
  "runCommand pf flatten sess i command v w =
     (case exchange (postCommand pf flatten sess i (Some (JObj [(''command'', JStr (command_name command))]))) w of (r, w') \<Rightarrow>
       (v\<lparr>wv_error := (if res_ok r then None else Some (error_of (''Failed to '' @ command_name command) r))\<rparr>, w'))"

definition assign :: "platform \<Rightarrow> (issue list \<Rightarrow> json) \<Rightarrow> session option \<Rightarrow> string \<Rightarrow> workload_view \<Rightarrow> world \<Rightarrow> workload_view \<times> world" where
  "assign pf flatten sess i v w =
     (case exchange (postAssign pf flatten sess i (Some (JObj [(''agentId'', JStr (wv_selectedAgent v))]))) w of (r, w') \<Rightarrow>
       (v\<lparr>wv_error := (if res_ok r then None else Some (error_of ''Failed to assign'' r))\<rparr>, w'))"

definition clearFailure :: "session option \<Rightarrow> string \<Rightarrow> workload_view \<Rightarrow> world \<Rightarrow> workload_view \<times> world" where
  "clearFailure sess i v w = (case exchange (postClearFailure sess i) w of (r, w') \<Rightarrow>
     (v\<lparr>wv_error := (if res_ok r then None else Some (error_of ''Failed to clear'' r))\<rparr>, w'))"

subsection \<open>Dialogs on the agent side\<close>

record token_form =
  tf_environment :: string
  tf_ttlMinutes :: int

record token_dialog =
  td_dialog :: "token_form dialog"
  td_issued :: "(string \<times> string) option"

definition empty_token_form :: token_form where
  "empty_token_form = \<lparr>tf_environment = [], tf_ttlMinutes = 30\<rparr>"

text \<open>\<open>environment || undefined\<close>: an empty environment is left out of the body.\<close>

definition token_form_body :: "token_form \<Rightarrow> json" where
  "token_form_body f = JObj ((case truthy (Some (tf_environment f)) of None \<Rightarrow> [] | Some e \<Rightarrow> [(''environment'', JStr e)])
     @ [(''ttlMinutes'', JNum (of_int (tf_ttlMinutes f)))])"

definition issued_of :: "response \<Rightarrow> string \<times> string" where
  "issued_of r = (case (as_string (propOf ''token'' (Some (rs_body r))), as_string (propOf ''expiresAt'' (Some (rs_body r)))) of
     (Some t, Some e) \<Rightarrow> (t, e) | _ \<Rightarrow> ([], []))"

definition submit_enrollment ::
  "platform \<Rightarrow> (issue list \<Rightarrow> json) \<Rightarrow> session option \<Rightarrow> token_dialog \<Rightarrow> world \<Rightarrow> token_dialog \<times> world" where
  "submit_enrollment pf flatten sess td w = (let d = start_submit (td_dialog td) in
     case exchange (postEnrollmentTokens pf flatten sess (Some (token_form_body (dg_form d)))) w of (r, v) \<Rightarrow>
       (let d = d\<lparr>dg_pending := False\<rparr> in
        if \<not> res_ok r then td\<lparr>td_dialog := d\<lparr>dg_error := Some (error_of ''Failed to create enrollment token'' r)\<rparr>\<rparr>
        else td\<lparr>td_dialog := d, td_issued := Some (issued_of r)\<rparr>, v))"

definition close_enrollment :: "token_dialog \<Rightarrow> token_dialog" where
  "close_enrollment td = td\<lparr>td_dialog := (td_dialog td)\<lparr>dg_open := False, dg_form := empty_token_form, dg_error := None\<rparr>, td_issued := None\<rparr>"

record workload_form =
  lf_botId :: string
  lf_specText :: string

text \<open>\<open>body.issues?.join("; ") ?? body.error ?? fallback\<close>.\<close>

definition issues_or_error :: "string \<Rightarrow> response \<Rightarrow> string" where
  "issues_or_error fallback r = (case propOf ''issues'' (Some (rs_body r)) of
     Some (JArr xs) \<Rightarrow> join_issues (map (\<lambda>x. case as_string (Some x) of None \<Rightarrow> [] | Some t \<Rightarrow> t) xs)
   | _ \<Rightarrow> error_of fallback r)"

text \<open>\<open>parseJson\<close> is \<open>JSON.parse\<close>, with \<open>None\<close> when it throws.\<close>

definition submit_workload :: "(string \<Rightarrow> json option) \<Rightarrow> platform \<Rightarrow> (issue list \<Rightarrow> json) \<Rightarrow> session option
    \<Rightarrow> workload_form dialog \<Rightarrow> world \<Rightarrow> workload_form dialog \<times> world" where
  "submit_workload parseJson pf flatten sess d w = (let d = start_submit d in
     case parseJson (lf_specText (dg_form d)) of
       None \<Rightarrow> (d\<lparr>dg_error := Some ''Specification is not valid JSON'', dg_pending := False\<rparr>, w)
     | Some specification \<Rightarrow>
         (case exchange (postWorkloads pf flatten sess
             (Some (JObj [(''botId'', JStr (lf_botId (dg_form d))), (''specification'', specification)]))) w of (r, v) \<Rightarrow>
           (let d = d\<lparr>dg_pending := False\<rparr> in
            if \<not> res_ok r then (d\<lparr>dg_error := Some (issues_or_error ''Failed to create workload'' r)\<rparr>, v)
            else (d\<lparr>dg_open := False\<rparr>, v))))"

subsection \<open>From the recommendation to the assignment\<close>

lemma can_host_agent: "[a \<leftarrow> w_agents w. ag_id a = x \<and> can_host r a] \<noteq> [] \<Longrightarrow> find_agent x w \<noteq> None"
  by (auto simp: find_agent_def filter_empty_conv findBy_None)

lemma recommend_run:
  assumes "requireAdmin sess = Inr ss" and "find_workload i w = Some r" and "recommend pf sess i v w = (v', w')"
  shows "\<exists>d. w' = w\<lparr>w_placements := w_placements w @ [placement_of d]\<rparr> \<and> pd_workloadId d = i
    \<and> wv_error v' = None \<and> wv_recommendation v' = Some (decision_json d)
    \<and> wv_selectedAgent v' = (case truthy (pd_selectedAgentId d) of None \<Rightarrow> wv_selectedAgent v | Some a \<Rightarrow> a)
    \<and> (case pd_selectedAgentId d of
         Some x \<Rightarrow> [a \<leftarrow> w_agents w. ag_id a = x \<and> can_host r a] \<noteq> []
       | None \<Rightarrow> [a \<leftarrow> w_agents w. can_host r a] = [])"
proof -
  obtain d where d: "computeSchedulingRecommendation pf i w = (Inr (Inr d), w\<lparr>w_placements := w_placements w @ [placement_of d]\<rparr>)"
    and rest: "pd_workloadId d = i" "case pd_selectedAgentId d of
         Some x \<Rightarrow> [a \<leftarrow> w_agents w. ag_id a = x \<and> can_host r a] \<noteq> []
       | None \<Rightarrow> [a \<leftarrow> w_agents w. can_host r a] = []"
    using recommendation_is_sound [where i = i and w = w and pf = pf] assms(2) by auto
  have "exchange (postSchedule pf sess i) w
      = (reply_json 200 [(''decision'', decision_json d)], w\<lparr>w_placements := w_placements w @ [placement_of d]\<rparr>)"
    by (simp add: exchange_def postSchedule_def guarded_def assms(1) andThen_def d ret_def)
  moreover have "as_string (propOf ''selectedAgentId'' (Some (decision_json d))) = pd_selectedAgentId d"
    by (cases "pd_selectedAgentId d") (simp_all add: decision_json_def nullable_def)
  ultimately show ?thesis using assms(3) rest
    by (auto simp: recommend_def res_ok_def reply_json_def Let_def split: option.splits)
qed

lemma assign_click_run:
  assumes "requireAdmin sess = Inr ss" and "zod (pf_safeParse pf) F" and "wv_selectedAgent v \<noteq> []"
    and "assignWorkloadToAgent pf i (wv_selectedAgent v) (ss_userId ss) w = (Inr Done, w')"
  shows "assign pf flatten sess i v w = (v\<lparr>wv_error := None\<rparr>, w')"
proof -
  let ?body = "JObj [(''agentId'', JStr (wv_selectedAgent v))]"
  have "conforms F assignSchema (Some ?body)" and "parsed assignSchema (Some ?body) = Some ?body"
    using assms(3) by (simp_all add: assignSchema_def Suc_le_eq)
  then have "pf_safeParse pf assignSchema (Some ?body) = Inr (Some ?body)"
    using zod.accepts [OF assms(2)] by simp
  then have "exchange (postAssign pf flatten sess i (Some ?body)) w = (ok_json, w')"
    by (simp add: exchange_def postAssign_def guarded_def assms(1) with_body_def json_or_empty_def parsed_body_def str_of_def
        andThen_def assms(4) ret_def)
  then show ?thesis by (simp add: assign_def ok_json_def res_ok_def reply_json_def)
qed

text \<open>
  C28: Asking for a recommendation and then assigning puts the workload on the agent that the scorer selected:
  a recommendation that names an agent preselects it, the agent can host the workload, and the
  assignment succeeds and makes it the owner with the next generation. One that names nobody leaves the
  selection alone, and then no agent can host the workload.
\<close>

theorem recommended_agent_is_assigned:
  assumes "requireAdmin sess = Inr ss" and "zod (pf_safeParse pf) F" and "find_workload i w = Some r"
    and "w_redis w" and "uuid_unused pf w" and "int4 (wl_generation r + 1)"
    and "[] \<notin> ag_id ` set (w_agents w)" and "recommend pf sess i v w = (v', w')"
  shows "\<exists>d. wv_recommendation v' = Some (decision_json d) \<and> (case pd_selectedAgentId d of
      Some a \<Rightarrow> wv_selectedAgent v' = a \<and> [x \<leftarrow> w_agents w. ag_id x = a \<and> can_host r x] \<noteq> []
        \<and> (\<exists>w''. assign pf flatten sess i v' w' = (v', w'') \<and> find_workload i w'' = Some (assign_row a r))
    | None \<Rightarrow> wv_selectedAgent v' = wv_selectedAgent v \<and> [x \<leftarrow> w_agents w. can_host r x] = [])"
proof -
  obtain d where d: "w' = w\<lparr>w_placements := w_placements w @ [placement_of d]\<rparr>" "wv_error v' = None"
      "wv_recommendation v' = Some (decision_json d)"
      "wv_selectedAgent v' = (case truthy (pd_selectedAgentId d) of None \<Rightarrow> wv_selectedAgent v | Some a \<Rightarrow> a)"
      "case pd_selectedAgentId d of
         Some x \<Rightarrow> [a \<leftarrow> w_agents w. ag_id a = x \<and> can_host r a] \<noteq> []
       | None \<Rightarrow> [a \<leftarrow> w_agents w. can_host r a] = []"
    using recommend_run [OF assms(1,3,8)] by (elim exE conjE) (rule that)
  show ?thesis
  proof (cases "pd_selectedAgentId d")
    case None
    then show ?thesis using d by (intro exI [of _ d]) simp
  next
    case (Some a)
    then have host: "[x \<leftarrow> w_agents w. ag_id x = a \<and> can_host r x] \<noteq> []" using d(5) by simp
    then have "a \<in> ag_id ` set (w_agents w)" by (auto simp: filter_empty_conv)
    then have "a \<noteq> []" using assms(7) by metis
    then have sel: "truthy (pd_selectedAgentId d) = Some a" "a \<noteq> []" using Some by (simp_all add: truthy_Some)
    have wid: "find_workload i w' = Some r" and redis: "w_redis w'" and unused: "uuid_unused pf w'" and agents: "w_agents w' = w_agents w"
      using assms(3-5) d(1) by (simp_all add: world_lookups)
    have gen: "int4 (wl_generation x + 1)" if "find_workload i w' = Some x" for x using that wid assms(6) by simp
    have "find_agent a w' \<noteq> None" using can_host_agent [OF host] agents by (simp add: find_agent_def)
    then obtain w'' where run: "assignWorkloadToAgent pf i a (ss_userId ss) w' = (Inr Done, w'')"
        "w_workloads w'' = updateWhere (\<lambda>x. wl_id x = i) (assign_row a) (w_workloads w')"
      using assign_effect [where wid = i and aid = a and actor = "ss_userId ss", OF redis unused gen] wid by auto
    have "find_workload i w'' = Some (assign_row a r)"
      using run(2) wid find_set_workloads [where g = "assign_row a" and w = w'] by (simp add: find_workload_def set_workloads_def assign_row_def)
    moreover have "assign pf flatten sess i v' w' = (v'\<lparr>wv_error := None\<rparr>, w'')"
      using assign_click_run [OF assms(1,2), where v = v' and i = i and w = w' and w' = w''] run(1) d(4) sel by simp
    moreover have "v'\<lparr>wv_error := None\<rparr> = v'" using d(2) by simp
    ultimately show ?thesis using d(3,4) Some sel host by (intro exI [of _ d]) simp
  qed
qed

lemma sample_can_host: "can_host (sample_workload_row ''w1'' (Some ''a1'')) (sample_agent_row ''a1'')"
  by (simp add: can_host_def sample_defs spec_placement_def)

theorem recommended_agent_is_assigned_witness:
  "\<exists>v' w' a w''. recommend sample_platform (Some token_session) ''w1'' (initial_view (Some ''a1'') [''a1'', ''a2'']) sample_world = (v', w')
     \<and> wv_selectedAgent v' = a \<and> assign sample_platform (\<lambda>_. JNull) (Some token_session) ''w1'' v' w' = (v', w'')
     \<and> find_workload ''w1'' w'' = Some (assign_row a (sample_workload_row ''w1'' (Some ''a1'')))"
proof -
  let ?r = "sample_workload_row ''w1'' (Some ''a1'')"
  obtain v' w' where run: "recommend sample_platform (Some token_session) ''w1'' (initial_view (Some ''a1'') [''a1'', ''a2'']) sample_world
      = (v', w')" by fastforce
  have admin: "requireAdmin (Some token_session) = Inr token_session" by (simp add: token_session_def)
  have zod: "zod (pf_safeParse sample_platform) any_format" using sample_platform_formats by (simp add: platform_formats_def)
  have db: "find_workload ''w1'' sample_world = Some ?r" "w_redis sample_world" "uuid_unused sample_platform sample_world"
    "int4 (wl_generation ?r + 1)" by simp_all
  have ids: "[] \<notin> ag_id ` set (w_agents sample_world)" by (simp add: sample_world_def)
  obtain d :: placement_decision where d: "case pd_selectedAgentId d of
      Some a \<Rightarrow> wv_selectedAgent v' = a \<and> [x \<leftarrow> w_agents sample_world. ag_id x = a \<and> can_host ?r x] \<noteq> []
        \<and> (\<exists>w''. assign sample_platform (\<lambda>_. JNull) (Some token_session) ''w1'' v' w' = (v', w'')
             \<and> find_workload ''w1'' w'' = Some (assign_row a ?r))
    | None \<Rightarrow> wv_selectedAgent v' = wv_selectedAgent (initial_view (Some ''a1'') [''a1'', ''a2''])
        \<and> [x \<leftarrow> w_agents sample_world. can_host ?r x] = []"
    using recommended_agent_is_assigned [OF admin zod db ids run, of "\<lambda>_. JNull"] by (elim exE conjE) (rule that)
  have "[x \<leftarrow> w_agents sample_world. can_host ?r x] \<noteq> []"
    using sample_can_host by (simp add: sample_world_def)
  with d show ?thesis using run by (cases "pd_selectedAgentId d") auto
qed

end
