(* ===== verification/Command_Trip.thy ===== *)
theory Command_Trip
  imports Agent_Process
begin

text \<open>
  The trip of a command through the whole system: recorded and enqueued by the control plane
  (\<open>Workloads\<close>), delivered by the gateway (\<open>Gateway\<close>), executed and answered by the agent (\<open>Agent_Process\<close>,
  \<open>Agent_Runner\<close>), and recorded by the gateway (\<open>Reconciliation\<close>). Every step is the one the component
  theories define; a message is handed over as the parsed value that was sent.
\<close>

subsection \<open>What the gateway does with a fresh message\<close>

lemma handle_fresh:
  assumes "parseAgentToControlPlaneMessage (pf_safeParse pf) raw = ParseOk m"
    and "map_of m ''type'' = Some (JStr t)" "map_of m ''payload'' = Some (JObj kvs)" "map_of m ''messageId'' = Some (JStr mid)"
    and "gw_conns g s = Some c" "cn_authenticated c" "mid \<notin> fst ` set (rg_seenAt (gw_replay g))"
  shows "\<exists>rg. handleMessage pf s (Some raw) g =
      on_world (handleAuthenticated pf (cn_agentId c) t kvs)
        (set_conn s (\<lambda>c. c\<lparr>cn_lastHeartbeatAt := w_now (gw_world g)\<rparr>) (g\<lparr>gw_replay := rg\<rparr>))
    \<and> fst ` set (rg_seenAt rg) \<subseteq> insert mid (fst ` set (rg_seenAt (gw_replay g)))"
proof -
  let ?check = "checkAndRecord mid (w_now (gw_world g)) (gw_replay g)"
  have "mid \<notin> fst ` set (rg_seenAt (evictExpired (w_now (gw_world g)) (gw_replay g)))"
    using assms(7) by (auto simp: evictExpired_def)
  then obtain rg where fresh: "?check = (False, rg)"
    and seen: "fst ` set (rg_seenAt rg) \<subseteq> insert mid (fst ` set (rg_seenAt (gw_replay g)))"
    by (auto simp: checkAndRecord_def Let_def evictExpired_def)
  have "str_prop ''type'' m = t" "str_prop ''messageId'' m = mid" "entries_of (map_of m ''payload'') = kvs"
    using assms(2-4) by (simp_all add: str_prop_def)
  then have "handleMessage pf s (Some raw) g =
      on_world (handleAuthenticated pf (cn_agentId c) t kvs)
        (set_conn s (\<lambda>c. c\<lparr>cn_lastHeartbeatAt := w_now (gw_world g)\<rparr>) (g\<lparr>gw_replay := rg\<rparr>))"
    using assms(1,5,6) fresh by (simp add: handleMessage_def andThen_def gets_def modify_def Let_def)
  with seen show ?thesis by blast
qed

text \<open>Acknowledging a pending command, and recording the result of one whose agent still owns the workload.\<close>

lemma ack_accepts:
  assumes "find_command key w = Some cmd" "ac_status cmd = CmdPending" "str_prop ''idempotencyKey'' p = key"
  shows "\<exists>w'. handleAuthenticated pf agent ''agent.command_ack'' p w = (Inr (), w')
    \<and> find_command key w' = Some (cmd\<lparr>ac_status := CmdAccepted, ac_acceptedAt := Some (w_now w)\<rparr>)
    \<and> w_workloads w' = w_workloads w \<and> w_queue w' = w_queue w \<and> w_now w' = w_now w"
  using assms findBy_key [OF assms(1)[unfolded find_command_def]]
  by (simp add: handleAuthenticated_def handleCommandAck_def catching_def modify_def find_command_def
      findBy_updateWhere [where key = ac_idempotencyKey])

lemma result_recorded:
  assumes "find_command key w = Some cmd" "ac_workloadId cmd = Some wid" "wid \<noteq> []" "find_workload wid w = Some r"
    and "wl_assignedAgentId r = Some (ac_agentId cmd)" "observedStateFor (ac_commandType cmd) ok = Some obs"
    and "str_prop ''idempotencyKey'' p = key" "str_prop ''status'' p = (if ok then ''succeeded'' else ''failed'')"
  shows "\<exists>w'. handleAuthenticated pf agent ''agent.command_result'' p w = (Inr (), w')
    \<and> find_command key w' = Some (outcome_command ok (as_string (map_of p ''safeError'')) (w_now w) cmd)
    \<and> find_workload wid w' = Some (outcome_row ok obs (w_now w) r r) \<and> w_queue w' = w_queue w"
proof -
  have "truthy (Some wid) = Some wid" using assms(3) by (cases wid) auto
  with assms have counts: "counts_for cmd ok w = Some (r, obs)" by (simp add: counts_for_def)
  have wid: "wl_id r = wid" using assms(4) by (rule find_workload_id)
  have keep: "ac_idempotencyKey (outcome_command ok e t x) = ac_idempotencyKey x" for e t x by (simp add: outcome_command_def)
  have keep': "wl_id (outcome_row ok obs t r x) = wl_id x" for t x
    by (simp add: outcome_row_def success_row_def failure_row_def Let_def)
  have "(str_prop ''status'' p = ''succeeded'') = ok" using assms(8) by simp
  then have "handleAuthenticated pf agent ''agent.command_result'' p w = (Inr (), set_workloads wid (outcome_row ok obs (w_now w) r)
      (w\<lparr>w_commands := updateWhere (\<lambda>x. ac_id x = ac_id cmd)
         (outcome_command ok (as_string (map_of p ''safeError'')) (w_now w)) (w_commands w)\<rparr>))"
    using assms(1,7) counts wid by (simp add: handleAuthenticated_def handleCommandResult_def mark_run Let_def)
  moreover have "find_workload wid (set_workloads wid (outcome_row ok obs (w_now w) r) (w\<lparr>w_commands := cs\<rparr>))
      = Some (outcome_row ok obs (w_now w) r r)" for cs
    using assms(4) by (simp only: find_set_workloads [OF keep']) simp
  ultimately show ?thesis
    using assms(1) by (simp add: find_command_def set_workloads_def findBy_updateWhere [where key = ac_idempotencyKey, OF keep])
qed

subsection \<open>What the agent answers\<close>

text \<open>\<open>reads raw t kvs mid\<close>: the gateway's parser accepts \<open>raw\<close> and reads these from it.\<close>

definition reads :: "platform \<Rightarrow> json \<Rightarrow> string \<Rightarrow> (string \<times> json) list \<Rightarrow> string \<Rightarrow> bool" where
  "reads pf raw t kvs mid \<longleftrightarrow> (\<exists>m. parseAgentToControlPlaneMessage (pf_safeParse pf) raw = ParseOk m
     \<and> map_of m ''type'' = Some (JStr t) \<and> map_of m ''payload'' = Some (JObj kvs) \<and> map_of m ''messageId'' = Some (JStr mid))"

lemma agent_answers:
  assumes "platform_formats (ap_base ap) F" "pr_agentId p = Some a" "a \<noteq> []" "length a \<le> 256" "pr_ws p = WsOpen"
    and "execute ap t payload (pr_runner p) = (Settled res, q)"
    and "str_prop ''idempotencyKey'' payload = key" "key \<noteq> []" "length key \<le> 128"
    and "case rr_error res of None \<Rightarrow> True | Some e \<Rightarrow> length e \<le> 2000"
  shows "\<exists>ack answer k1 k2. pr_sent (handleWorkloadCommand ap t payload p) = pr_sent p @ [ack, answer]
    \<and> pr_runner (handleWorkloadCommand ap t payload p) = q
    \<and> reads (ap_base ap) ack ''agent.command_ack'' k1 (pf_randomUUID (ap_base ap) (pr_seq p))
    \<and> str_prop ''idempotencyKey'' k1 = key
    \<and> reads (ap_base ap) answer ''agent.command_result'' k2 (pf_randomUUID (ap_base ap) (Suc (pr_seq p)))
    \<and> str_prop ''idempotencyKey'' k2 = key \<and> str_prop ''status'' k2 = (if rr_ok res then ''succeeded'' else ''failed'')
    \<and> as_string (map_of k2 ''safeError'') = rr_error res"
proof -
  define k1 where "k1 = [(''agentId'', JStr a), (''commandId'', JStr key), (''idempotencyKey'', JStr key)]"
  define k2 where "k2 = k1 @ (''status'', JStr (if rr_ok res then ''succeeded'' else ''failed''))
      # (case rr_error res of None \<Rightarrow> [] | Some e \<Rightarrow> [(''safeError'', JStr e)])"
  have payloads: "ack_payload p key = JObj k1" "result_payload p' key res = JObj k2" if "pr_agentId p' = Some a" for p'
    using assms(2) that by (simp_all add: ack_payload_def result_payload_def agent_id_json_def k1_def k2_def)
  let ?msg = "\<lambda>n t kvs. JObj (create_message (pf_randomUUID (ap_base ap) n) (pf_isoString (ap_base ap) (pr_now p)) t (JObj kvs)
      \<lparr>ef_senderId = a, ef_correlationId = None\<rparr>)"
  have sent: "pr_sent (handleWorkloadCommand ap t payload p)
      = pr_sent p @ [?msg (pr_seq p) ''agent.command_ack'' k1, ?msg (Suc (pr_seq p)) ''agent.command_result'' k2]"
    "pr_runner (handleWorkloadCommand ap t payload p) = q"
    using assms(2,3,5,6,7) by (simp_all add: handleWorkloadCommand_def Let_def report_def forward_sends payloads)
  have a: "1 \<le> length a" using assms(3) by (simp add: Suc_le_eq)
  have shape: "conforms_fields F agentCommandAckPayload k1" "parsed_fields agentCommandAckPayload k1 = k1"
    "conforms_fields F agentCommandResultPayload k2" "parsed_fields agentCommandResultPayload k2 = k2"
    using assms(3,4,8,9,10)
    by (cases "rr_error res"; simp add: k1_def k2_def agentCommandAckPayload_def agentCommandResultPayload_def Suc_le_eq)+
  have cat: "map_of agentToControlPlaneCatalog ''agent.command_result'' = Some agentCommandResultPayload"
      "map_of agentToControlPlaneCatalog ''agent.command_ack'' = Some agentCommandAckPayload"
    by (simp_all add: agentToControlPlaneCatalog_def)
  have "reads (ap_base ap) (?msg (pr_seq p) ''agent.command_ack'' k1) ''agent.command_ack'' k1 (pf_randomUUID (ap_base ap) (pr_seq p))"
    using agent_message_parses [OF assms(1) a assms(4) _ cat(2) shape(1), of "pr_seq p" "pr_now p"] by (simp add: reads_def shape)
  moreover have "reads (ap_base ap) (?msg (Suc (pr_seq p)) ''agent.command_result'' k2) ''agent.command_result'' k2
      (pf_randomUUID (ap_base ap) (Suc (pr_seq p)))"
    using agent_message_parses [OF assms(1) a assms(4) _ cat(1) shape(3), of "Suc (pr_seq p)" "pr_now p"] by (simp add: reads_def shape)
  moreover have "str_prop ''idempotencyKey'' k1 = key" "str_prop ''idempotencyKey'' k2 = key"
    "str_prop ''status'' k2 = (if rr_ok res then ''succeeded'' else ''failed'')" "as_string (map_of k2 ''safeError'') = rr_error res"
    by (simp_all add: k1_def k2_def str_prop_def split: option.split)
  ultimately show ?thesis using sent by blast
qed

subsection \<open>Sending and delivering\<close>

lemma command_sent:
  assumes "platform_formats pf F" "w_redis w" "uuid_unused pf w"
    and "find_workload wid w = Some r" "wl_assignedAgentId r = Some a" "a \<noteq> []" "find_agent a w \<noteq> None"
    and "wid \<noteq> []" "wl_botId r \<noteq> []" "0 < wl_generation r" "int4 (wl_generation r)"
  shows "\<exists>w1 job m cmd. sendWorkloadCommand pf wid ct actor w = (Inr Done, w1)
     \<and> w_queue w1 = w_queue w @ [job] \<and> jb_agentId job = a
     \<and> parseControlPlaneToAgentMessage (pf_safeParse pf) (jb_message job) = ParseOk m
     \<and> map_of m ''type'' = Some (JStr (message_type ct))
     \<and> map_of m ''payload'' = Some (JObj (command_payload wid (wl_botId r) (wl_generation r) (pf_randomUUID pf (w_seq w))))
     \<and> find_command (pf_randomUUID pf (w_seq w)) w1 = Some cmd \<and> ac_agentId cmd = a \<and> ac_workloadId cmd = Some wid
     \<and> ac_commandType cmd = message_type ct \<and> ac_status cmd = CmdPending
     \<and> find_workload wid w1 = Some (r\<lparr>wl_desiredState := desired_after ct\<rparr>)"
proof -
  let ?key = "pf_randomUUID pf (w_seq w)"
  have owner: "truthy (wl_assignedAgentId r) = Some a" using assms(5,6) by (simp add: truthy_if)
  obtain w1 job m where sent: "sendWorkloadCommand pf wid ct actor w = (Inr Done, w1)" "w_queue w1 = w_queue w @ [job]" "jb_agentId job = a"
      "parseControlPlaneToAgentMessage (pf_safeParse pf) (jb_message job) = ParseOk m" "map_of m ''type'' = Some (JStr (message_type ct))"
      "map_of m ''payload'' = Some (JObj (command_payload wid (wl_botId r) (wl_generation r) ?key))"
    using sent_command_parses [OF assms(1-4) owner assms(7-11), of ct actor] by (elim exE conjE) (rule that)
  have "owner_ok wid w" using assms(4,7,11) owner by (simp add: owner_ok_def)
  from send_effect [OF assms(2,3) this, of ct actor] assms(4) owner sent(1)
  have rows: "w_workloads w1 = updateWhere (\<lambda>x. wl_id x = wid) (\<lambda>r. r\<lparr>wl_desiredState := desired_after ct\<rparr>) (w_workloads w)"
    and "issues w w1 a wid (message_type ct) (command_payload wid (wl_botId r) (wl_generation r) ?key) (wl_generation r) actor"
    by simp_all
  then obtain cmd where cmd: "w_commands w1 = w_commands w @ [cmd]" "ac_agentId cmd = a" "ac_workloadId cmd = Some wid"
      "ac_commandType cmd = message_type ct" "ac_status cmd = CmdPending" "ac_idempotencyKey cmd = ?key"
    by (auto simp: issues_def command_payload_def)
  have "find_command ?key w1 = Some cmd"
    using cmd(1,6) assms(3) by (simp add: find_command_def findBy_append)
  moreover have "find_workload wid w1 = Some (r\<lparr>wl_desiredState := desired_after ct\<rparr>)"
    using rows assms(4) find_workload_id [OF assms(4)]
    by (simp add: find_workload_def findBy_updateWhere [where key = wl_id])
  ultimately show ?thesis using sent cmd by blast
qed

text \<open>A job among the first five waiting for a connected agent reaches it.\<close>

lemma dispatch_delivers:
  assumes "w_queue (gw_world g) = q @ [job]" "length q < CONCURRENCY" "jb_agentId job = a"
    and "gw_live g a = Some s" "gw_conns g s = Some c" "cn_open c"
  shows "\<exists>g'. dispatchJob (length q) g = (Inr True, g')
    \<and> gw_conns g' s = Some (c\<lparr>cn_sent := cn_sent c @ [jb_message job]\<rparr>)
    \<and> gw_world g' = (gw_world g)\<lparr>w_queue := q\<rparr> \<and> gw_replay g' = gw_replay g"
  using assms
  by (simp add: dispatchJob_def deliver_def send_def andThen_def gets_def modify_def ret_def set_conn_def nth_append)

subsection \<open>The trip\<close>

text \<open>The gateway takes in a message it can read from the agent of an authenticated connection.\<close>

lemma handle_reads:
  assumes "reads pf raw t kvs mid" "gw_conns g s = Some c" "cn_authenticated c" "mid \<notin> fst ` set (rg_seenAt (gw_replay g))"
    and "handleAuthenticated pf (cn_agentId c) t kvs (gw_world g) = (Inr (), w')"
  shows "\<exists>g' c'. handleMessage pf s (Some raw) g = (Inr (), g') \<and> gw_world g' = w' \<and> gw_conns g' s = Some c'
    \<and> cn_authenticated c' \<and> cn_agentId c' = cn_agentId c
    \<and> fst ` set (rg_seenAt (gw_replay g')) \<subseteq> insert mid (fst ` set (rg_seenAt (gw_replay g)))"
proof -
  obtain m where m: "parseAgentToControlPlaneMessage (pf_safeParse pf) raw = ParseOk m" "map_of m ''type'' = Some (JStr t)"
      "map_of m ''payload'' = Some (JObj kvs)" "map_of m ''messageId'' = Some (JStr mid)"
    using assms(1) unfolding reads_def by blast
  obtain rg where "handleMessage pf s (Some raw) g = on_world (handleAuthenticated pf (cn_agentId c) t kvs)
        (set_conn s (\<lambda>c. c\<lparr>cn_lastHeartbeatAt := w_now (gw_world g)\<rparr>) (g\<lparr>gw_replay := rg\<rparr>))"
      and "fst ` set (rg_seenAt rg) \<subseteq> insert mid (fst ` set (rg_seenAt (gw_replay g)))"
    using handle_fresh [OF m assms(2-4)] by blast
  then show ?thesis using assms(2,3,5) by (simp add: on_world_run)
qed

lemma answers_recorded:
  assumes "reads pf ack ''agent.command_ack'' k1 u0" "str_prop ''idempotencyKey'' k1 = key"
    and "reads pf answer ''agent.command_result'' k2 u1" "str_prop ''idempotencyKey'' k2 = key"
    and "str_prop ''status'' k2 = (if rr_ok res then ''succeeded'' else ''failed'')" "as_string (map_of k2 ''safeError'') = rr_error res"
    and "gw_conns g s = Some c" "cn_authenticated c" "cn_agentId c = Some a"
    and "u0 \<noteq> u1" "{u0, u1} \<inter> fst ` set (rg_seenAt (gw_replay g)) = {}"
    and "find_command key (gw_world g) = Some cmd" "ac_status cmd = CmdPending" "ac_workloadId cmd = Some wid" "wid \<noteq> []"
    and "find_workload wid (gw_world g) = Some r" "wl_assignedAgentId r = Some (ac_agentId cmd)"
    and "observedStateFor (ac_commandType cmd) (rr_ok res) = Some obs"
  shows "\<exists>g' g''. handleMessage pf s (Some ack) g = (Inr (), g') \<and> handleMessage pf s (Some answer) g' = (Inr (), g'')
    \<and> w_queue (gw_world g'') = w_queue (gw_world g)
    \<and> find_command key (gw_world g'') = Some (outcome_command (rr_ok res) (rr_error res) (w_now (gw_world g))
         (cmd\<lparr>ac_status := CmdAccepted, ac_acceptedAt := Some (w_now (gw_world g))\<rparr>))
    \<and> find_workload wid (gw_world g'') = Some (outcome_row (rr_ok res) obs (w_now (gw_world g)) r r)"
proof -
  let ?cmd = "cmd\<lparr>ac_status := CmdAccepted, ac_acceptedAt := Some (w_now (gw_world g))\<rparr>"
  obtain w where w: "handleAuthenticated pf (Some a) ''agent.command_ack'' k1 (gw_world g) = (Inr (), w)"
      "find_command key w = Some ?cmd" "w_workloads w = w_workloads (gw_world g)" "w_queue w = w_queue (gw_world g)"
      "w_now w = w_now (gw_world g)"
    using ack_accepts [OF assms(12,13,2)] by blast
  obtain g' c' where g': "handleMessage pf s (Some ack) g = (Inr (), g')" "gw_world g' = w" "gw_conns g' s = Some c'"
      "cn_authenticated c'" "cn_agentId c' = Some a" "fst ` set (rg_seenAt (gw_replay g')) \<subseteq> insert u0 (fst ` set (rg_seenAt (gw_replay g)))"
    using handle_reads [OF assms(1,7,8), of w] w(1) assms(9,11) by auto
  have "find_workload wid w = Some r" using assms(16) w(3) by (simp add: find_workload_def)
  from result_recorded [OF w(2) _ assms(15) this _ _ assms(4,5), of obs pf "Some a"] assms(14,17,18)
  obtain w' where w': "handleAuthenticated pf (Some a) ''agent.command_result'' k2 w = (Inr (), w')"
      "find_command key w' = Some (outcome_command (rr_ok res) (rr_error res) (w_now (gw_world g)) ?cmd)"
      "find_workload wid w' = Some (outcome_row (rr_ok res) obs (w_now (gw_world g)) r r)" "w_queue w' = w_queue w"
    using assms(6) w(5) by auto
  have "u1 \<notin> fst ` set (rg_seenAt (gw_replay g'))" using g'(6) assms(10,11) by auto
  then obtain g'' where "handleMessage pf s (Some answer) g' = (Inr (), g'')" "gw_world g'' = w'"
    using handle_reads [OF assms(3) g'(3,4), of w'] w'(1) g'(2,5) by auto
  then show ?thesis using g'(1) w'(2-4) w(4) by (intro exI [of _ g'] exI [of _ g'']) simp
qed

text \<open>
  C1: A command makes its trip. An administrator's start, stop or restart of a workload is recorded once and
  enqueued; the gateway delivers it to the connected agent that owns the workload; the agent executes it and sends
  an acknowledgement and an answer; and with these two messages the gateway ends with the command
  marked as the agent's runner says, and the workload's desired and observed state, its generation and its retry
  bookkeeping updated accordingly. This holds for a command that the runner settles at once; its error text may have
  at most 2000 characters.
\<close>

theorem command_round_trip:
  assumes "platform_formats pf F" "platform_formats (ap_base ap) F" "pf_safeParse (ap_base ap) = pf_safeParse pf"
    and "w = gw_world g" "w_redis w" "uuid_unused pf w" "length (w_queue w) < CONCURRENCY"
    and "find_workload wid w = Some r" "wl_assignedAgentId r = Some a" "find_agent a w \<noteq> None"
    and "wid \<noteq> []" "wl_botId r \<noteq> []" "0 < wl_generation r" "int4 (wl_generation r)"
    and "gw_live g a = Some s" "gw_conns g s = Some c" "cn_open c" "cn_authenticated c" "cn_agentId c = Some a"
    and "pr_agentId p = Some a" "a \<noteq> []" "length a \<le> 256" "pr_ws p = WsOpen"
    and "u = (\<lambda>k. pf_randomUUID (ap_base ap) (pr_seq p + k))" "u 0 \<noteq> u 1" "{u 0, u 1} \<inter> fst ` set (rg_seenAt (gw_replay g)) = {}"
    and "key = pf_randomUUID pf (w_seq w)"
    and "execute ap (message_type ct) (command_payload wid (wl_botId r) (wl_generation r) key) (pr_runner p) = (Settled res, q)"
    and "case rr_error res of None \<Rightarrow> True | Some e \<Rightarrow> length e \<le> 2000"
  shows "\<exists>g1 g2 g3 g4 msg ack answer cmd now obs. on_world (sendWorkloadCommand pf wid ct actor) g = (Inr Done, g1)
    \<and> dispatchJob (length (w_queue w)) g1 = (Inr True, g2) \<and> gw_conns g2 s = Some (c\<lparr>cn_sent := cn_sent c @ [msg]\<rparr>)
    \<and> pr_sent (onMessage ap (Some msg) p) = pr_sent p @ [ack, answer] \<and> pr_runner (onMessage ap (Some msg) p) = q
    \<and> handleMessage pf s (Some ack) g2 = (Inr (), g3) \<and> handleMessage pf s (Some answer) g3 = (Inr (), g4)
    \<and> w_queue (gw_world g4) = w_queue w \<and> find_command key (gw_world g4) = Some cmd
    \<and> ac_status cmd = (if rr_ok res then CmdSucceeded else CmdFailed) \<and> ac_acceptedAt cmd = Some now
    \<and> observedStateFor (message_type ct) (rr_ok res) = Some obs
    \<and> find_workload wid (gw_world g4) = Some (outcome_row (rr_ok res) obs now r (r\<lparr>wl_desiredState := desired_after ct\<rparr>))"
proof -
  obtain w1 job m cmd where sent: "sendWorkloadCommand pf wid ct actor w = (Inr Done, w1)" "w_queue w1 = w_queue w @ [job]" "jb_agentId job = a"
      "parseControlPlaneToAgentMessage (pf_safeParse pf) (jb_message job) = ParseOk m" "map_of m ''type'' = Some (JStr (message_type ct))"
      "map_of m ''payload'' = Some (JObj (command_payload wid (wl_botId r) (wl_generation r) key))"
    and row: "find_command key w1 = Some cmd" "ac_agentId cmd = a" "ac_workloadId cmd = Some wid"
      "ac_commandType cmd = message_type ct" "ac_status cmd = CmdPending"
      "find_workload wid w1 = Some (r\<lparr>wl_desiredState := desired_after ct\<rparr>)"
    using command_sent [OF assms(1,5,6,8,9,21,10-14), of ct actor, folded assms(27)] by (elim exE conjE) (rule that)
  let ?r = "r\<lparr>wl_desiredState := desired_after ct\<rparr>" and ?g1 = "g\<lparr>gw_world := w1\<rparr>"
  have step1: "on_world (sendWorkloadCommand pf wid ct actor) g = (Inr Done, ?g1)"
    using sent(1) assms(4) by (simp add: on_world_run)
  obtain g2 where step2: "dispatchJob (length (w_queue w)) ?g1 = (Inr True, g2)"
      "gw_conns g2 s = Some (c\<lparr>cn_sent := cn_sent c @ [jb_message job]\<rparr>)" "gw_world g2 = w1\<lparr>w_queue := w_queue w\<rparr>"
      "gw_replay g2 = gw_replay g"
    using dispatch_delivers [of ?g1 "w_queue w" job a s c] sent(2,3) assms(7,15-17) by auto
  have command: "onMessage ap (Some (jb_message job)) p = handleWorkloadCommand ap (message_type ct)
      (command_payload wid (wl_botId r) (wl_generation r) key) p"
    using sent(4-6) assms(3) by (cases ct) (simp_all add: onMessage_def str_prop_def Let_def)
  have "str_prop ''idempotencyKey'' (command_payload wid (wl_botId r) (wl_generation r) key) = key"
    by (simp add: command_payload_def str_prop_def)
  moreover have "key \<noteq> []" "length key \<le> 128" using assms(1,27) by (simp_all add: platform_formats_def)
  ultimately obtain ack answer k1 k2 where step3: "pr_sent (onMessage ap (Some (jb_message job)) p) = pr_sent p @ [ack, answer]"
      "pr_runner (onMessage ap (Some (jb_message job)) p) = q"
    and ack: "reads pf ack ''agent.command_ack'' k1 (u 0)" "str_prop ''idempotencyKey'' k1 = key"
    and answer: "reads pf answer ''agent.command_result'' k2 (u 1)" "str_prop ''idempotencyKey'' k2 = key"
      "str_prop ''status'' k2 = (if rr_ok res then ''succeeded'' else ''failed'')" "as_string (map_of k2 ''safeError'') = rr_error res"
    using agent_answers [OF assms(2,20-23,28) _ _ _ assms(29)] assms(3,24) unfolding command reads_def by auto
  have w2: "find_command key (gw_world g2) = Some cmd" "find_workload wid (gw_world g2) = Some ?r" "w_queue (gw_world g2) = w_queue w"
    using row(1,6) step2(3) by (simp_all add: find_command_def)
  obtain obs where obs: "observedStateFor (message_type ct) (rr_ok res) = Some obs"
    by (cases ct; cases "rr_ok res") (simp_all add: observedStateFor_def)
  have own: "wl_assignedAgentId ?r = Some (ac_agentId cmd)" "observedStateFor (ac_commandType cmd) (rr_ok res) = Some obs"
    "{u 0, u 1} \<inter> fst ` set (rg_seenAt (gw_replay g2)) = {}" "cn_authenticated (c\<lparr>cn_sent := cn_sent c @ [jb_message job]\<rparr>)"
    "cn_agentId (c\<lparr>cn_sent := cn_sent c @ [jb_message job]\<rparr>) = Some a"
    using row(2,4) obs assms(9,18,19,26) step2(4) by simp_all
  obtain g3 g4 where step4: "handleMessage pf s (Some ack) g2 = (Inr (), g3)" "handleMessage pf s (Some answer) g3 = (Inr (), g4)"
      "w_queue (gw_world g4) = w_queue w"
      "find_command key (gw_world g4) = Some (outcome_command (rr_ok res) (rr_error res) (w_now (gw_world g2))
         (cmd\<lparr>ac_status := CmdAccepted, ac_acceptedAt := Some (w_now (gw_world g2))\<rparr>))"
      "find_workload wid (gw_world g4) = Some (outcome_row (rr_ok res) obs (w_now (gw_world g2)) ?r ?r)"
    using answers_recorded [OF ack answer step2(2) own(4,5) assms(25) own(3) w2(1) row(5,3) assms(11) w2(2) own(1,2)] w2(3) by auto
  have "outcome_row (rr_ok res) obs t ?r ?r = outcome_row (rr_ok res) obs t r ?r" for t
    by (simp add: outcome_row_def)
  then show ?thesis
    using step1 step2(1,2) step3 step4 obs
    by (intro exI [of _ ?g1] exI [of _ g2] exI [of _ g3] exI [of _ g4] exI [of _ "jb_message job"] exI [of _ ack] exI [of _ answer]
        exI [of _ "outcome_command (rr_ok res) (rr_error res) (w_now (gw_world g2))
          (cmd\<lparr>ac_status := CmdAccepted, ac_acceptedAt := Some (w_now (gw_world g2))\<rparr>)"]
        exI [of _ "w_now (gw_world g2)"] exI [of _ obs]) (simp add: outcome_command_def)
qed

subsection \<open>A concrete trip\<close>

definition trip_gateway :: gateway where
  "trip_gateway = \<lparr>gw_world = sample_world, gw_replay = newReplayGuard None, gw_live = [''a1'' \<mapsto> 7],
     gw_conns = [7 \<mapsto> new_connection (Some ''a1'') 0]\<rparr>"

definition trip_runner :: runner where
  "trip_runner = \<lparr>rn_store = [\<lparr>en_botId = ''b1'', en_spec = sample_node_spec, en_process = None, en_generation = 1\<rparr>],
     rn_workloads = [(''w1'', 0)], rn_children = [], rn_environment = []\<rparr>"

lemma trip_executes:
  "\<exists>q. execute sample_ap ''bot.start'' (command_payload ''w1'' ''b1'' 1 key) trip_runner = (Settled succeeded, q)"
  by (simp add: execute_def command_payload_def str_prop_def Let_def startWorkload_def trackGeneration_def trip_runner_def set_entry_def
      has_process_def spec_of_def sample_node_spec_def as_text_def)

theorem command_round_trip_witness:
  "\<exists>g1 g2 g3 g4 msg ack answer cmd r. on_world (sendWorkloadCommand sample_platform ''w1'' CtStart None) trip_gateway = (Inr Done, g1)
    \<and> dispatchJob 0 g1 = (Inr True, g2)
    \<and> pr_sent (onMessage sample_ap (Some msg) (sample_process\<lparr>pr_runner := trip_runner\<rparr>)) = [ack, answer]
    \<and> handleMessage sample_platform 7 (Some ack) g2 = (Inr (), g3) \<and> handleMessage sample_platform 7 (Some answer) g3 = (Inr (), g4)
    \<and> find_command ''u'' (gw_world g4) = Some cmd \<and> ac_status cmd = CmdSucceeded
    \<and> find_workload ''w1'' (gw_world g4) = Some r \<and> wl_observedState r = ObsRunning \<and> wl_desiredState r = DesiredRunning"
proof -
  let ?p = "sample_process\<lparr>pr_runner := trip_runner\<rparr>" and ?r = "sample_workload_row ''w1'' (Some ''a1'')"
  let ?c = "new_connection (Some ''a1'') 0" and ?u = "\<lambda>k. pf_randomUUID sample_platform (0 + k)"
  obtain q where run: "execute sample_ap (message_type CtStart) (command_payload ''w1'' (wl_botId ?r) (wl_generation ?r) ''u'') (pr_runner ?p)
      = (Settled succeeded, q)"
    using trip_executes by auto
  have formats: "platform_formats (ap_base sample_ap) any_format" "pf_safeParse (ap_base sample_ap) = pf_safeParse sample_platform"
    by (simp_all add: sample_platform_formats)
  have world: "sample_world = gw_world trip_gateway" "w_redis sample_world" "uuid_unused sample_platform sample_world"
    "length (w_queue sample_world) < CONCURRENCY" "find_workload ''w1'' sample_world = Some ?r" "wl_assignedAgentId ?r = Some ''a1''"
    "find_agent ''a1'' sample_world \<noteq> None" "''w1'' \<noteq> []" "wl_botId ?r \<noteq> []" "0 < wl_generation ?r" "int4 (wl_generation ?r)"
    by (simp_all add: trip_gateway_def CONCURRENCY_def)
  have conn: "gw_live trip_gateway ''a1'' = Some 7" "gw_conns trip_gateway 7 = Some ?c" "cn_open ?c" "cn_authenticated ?c"
    "cn_agentId ?c = Some ''a1''" by (simp_all add: trip_gateway_def new_connection_def)
  have agent: "pr_agentId ?p = Some ''a1''" "''a1'' \<noteq> []" "length ''a1'' \<le> 256" "pr_ws ?p = WsOpen" by simp_all
  have ids: "?u = (\<lambda>k. pf_randomUUID (ap_base sample_ap) (pr_seq ?p + k))" by simp
  have fresh: "?u 0 \<noteq> ?u 1" "{?u 0, ?u 1} \<inter> fst ` set (rg_seenAt (gw_replay trip_gateway)) = {}"
    "''u'' = pf_randomUUID sample_platform (w_seq sample_world)"
    by (simp_all add: sample_platform_def trip_gateway_def newReplayGuard_def)
  have fits: "case rr_error succeeded of None \<Rightarrow> True | Some e \<Rightarrow> length e \<le> 2000" by (simp add: succeeded_def)
  have queue: "length (w_queue sample_world) = 0" "pr_sent ?p = []" by simp_all
  obtain g1 g2 g3 g4 msg ack answer cmd now obs where trip:
      "on_world (sendWorkloadCommand sample_platform ''w1'' CtStart None) trip_gateway = (Inr Done, g1)"
      "dispatchJob 0 g1 = (Inr True, g2)" "pr_sent (onMessage sample_ap (Some msg) ?p) = [ack, answer]"
      "handleMessage sample_platform 7 (Some ack) g2 = (Inr (), g3)" "handleMessage sample_platform 7 (Some answer) g3 = (Inr (), g4)"
      "find_command ''u'' (gw_world g4) = Some cmd" "ac_status cmd = (if rr_ok succeeded then CmdSucceeded else CmdFailed)"
      "observedStateFor (message_type CtStart) (rr_ok succeeded) = Some obs"
      "find_workload ''w1'' (gw_world g4) = Some (outcome_row (rr_ok succeeded) obs now ?r (?r\<lparr>wl_desiredState := desired_after CtStart\<rparr>))"
    using command_round_trip [OF sample_platform_formats formats world conn agent ids fresh run fits, of None, unfolded queue append_Nil]
    by (elim exE conjE) (rule that)
  have "obs = ObsRunning" "rr_ok succeeded" using trip(8) by (simp_all add: observedStateFor_def succeeded_def)
  then show ?thesis using trip
    by (intro exI [of _ g1] exI [of _ g2] exI [of _ g3] exI [of _ g4] exI [of _ msg] exI [of _ ack] exI [of _ answer] exI [of _ cmd]
        exI [of _ "outcome_row True ObsRunning now ?r (?r\<lparr>wl_desiredState := DesiredRunning\<rparr>)"])
      (simp add: outcome_row_def success_row_def)
qed

end
