(* ===== verification/Joining.thy ===== *)
theory Joining
  imports Command_Trip Gateway_Invariant
begin

text \<open>
  How an agent joins the fleet and comes back: the enrollment exchange between the agent's process
  (\<open>Agent_Process\<close>) and the gateway (\<open>Gateway\<close>, \<open>Enrollment\<close>), the credential the agent stores, and the connection
  it makes with it after its socket was closed.
\<close>

subsection \<open>The agent introduces itself\<close>

abbreviation hello_of :: "agent_platform \<Rightarrow> agent_config \<Rightarrow> string \<Rightarrow> (string \<times> json) list" where
  "hello_of ap cf token \<equiv> parsed_fields agentEnrollPayload (enroll_payload ap cf token)"

lemma hello_sent:
  assumes "platform_formats (ap_base ap) F" "pr_state p = None" "truthy (cf_enrollmentToken cf) = Some token"
    and "1 \<le> length (cf_agentName cf)" "length (cf_agentName cf) \<le> 256"
    and "conforms_fields F agentEnrollPayload (enroll_payload ap cf token)"
  shows "\<exists>hello. pr_sent (onOpen ap cf p) = pr_sent p @ [hello] \<and> pr_ws (onOpen ap cf p) = WsOpen
    \<and> pr_shuttingDown (onOpen ap cf p) = pr_shuttingDown p
    \<and> reads (ap_base ap) hello ''agent.enroll'' (hello_of ap cf token) (pf_randomUUID (ap_base ap) (pr_seq p))"
proof -
  have "map_of agentToControlPlaneCatalog ''agent.enroll'' = Some agentEnrollPayload"
    by (simp add: agentToControlPlaneCatalog_def)
  from agent_message_parses [OF assms(1,4,5) _ this assms(6), of "pr_seq p" "pr_now p"]
  show ?thesis
    using assms(2,3) by (simp add: onOpen_def transmit_def reads_def createAgentToControlPlaneMessage_def)
qed

lemma gateway_enrolls:
  assumes "reads pf raw ''agent.enroll'' kvs mid" "gw_conns g s = Some c" "\<not> cn_authenticated c"
    and "mid \<notin> fst ` set (rg_seenAt (gw_replay g))"
  shows "\<exists>rg. handleMessage pf s (Some raw) g = handleEnroll pf s kvs (g\<lparr>gw_replay := rg\<rparr>)"
proof -
  obtain m where m: "parseAgentToControlPlaneMessage (pf_safeParse pf) raw = ParseOk m" "str_prop ''type'' m = ''agent.enroll''"
      "entries_of (map_of m ''payload'') = kvs" "str_prop ''messageId'' m = mid"
    using assms(1) by (auto simp: reads_def str_prop_def)
  have "mid \<notin> fst ` set (rg_seenAt (evictExpired (w_now (gw_world g)) (gw_replay g)))"
    using assms(4) by (auto simp: evictExpired_def)
  then obtain rg where "checkAndRecord mid (w_now (gw_world g)) (gw_replay g) = (False, rg)"
    by (simp add: checkAndRecord_def Let_def)
  with m assms(2,3) have "handleMessage pf s (Some raw) g = handleEnroll pf s kvs (g\<lparr>gw_replay := rg\<rparr>)"
    by (simp add: handleMessage_def andThen_def gets_def modify_def Let_def)
  then show ?thesis ..
qed

subsection \<open>The agent is accepted\<close>

lemma welcome_taken:
  assumes "platform_formats pf F" "pf_safeParse (ap_base ap) = pf_safeParse pf" "i \<noteq> []" "is_secret cred \<noteq> []" "is_fingerprint cred \<noteq> []"
  shows "onMessage ap (Some (JObj (createControlPlaneToAgentMessage (pf_randomUUID pf n) (pf_isoString pf t) ''agent.accepted''
      (JObj (accepted_payload i cred)) control_plane_sender))) p = onAccepted ap (accepted_payload i cred) p"
proof -
  have z: "zod (pf_safeParse pf) F" and u: "F Uuid (pf_randomUUID pf n)" and iso: "F IsoDatetime (pf_isoString pf t)"
    using assms(1) by (simp_all add: platform_formats_def)
  have env: "conforms_fields F envelopeFields (create_message (pf_randomUUID pf n) (pf_isoString pf t) ''agent.accepted''
      (JObj (accepted_payload i cred)) control_plane_sender)"
    using u iso by (intro conforms_created) (simp_all add: control_plane_sender_def)
  have cat: "map_of controlPlaneToAgentCatalog ''agent.accepted'' = Some agentAcceptedPayload"
    by (simp add: controlPlaneToAgentCatalog_def)
  have fits: "conforms_fields F agentAcceptedPayload (accepted_payload i cred)"
    and same: "parsed_fields agentAcceptedPayload (accepted_payload i cred) = accepted_payload i cred"
    using assms(3-5) by (simp_all add: agentAcceptedPayload_def accepted_payload_def HEARTBEAT_INTERVAL_MS_def Suc_le_eq)
  obtain m where "parseControlPlaneToAgentMessage (pf_safeParse pf) (JObj (createControlPlaneToAgentMessage (pf_randomUUID pf n)
      (pf_isoString pf t) ''agent.accepted'' (JObj (accepted_payload i cred)) control_plane_sender)) = ParseOk m"
      "map_of m ''type'' = Some (JStr ''agent.accepted'')" "map_of m ''payload'' = Some (JObj (accepted_payload i cred))"
    using created_message_answer [OF zod.parse_message_answer [OF z] env cat fits]
    unfolding parseControlPlaneToAgentMessage_def createControlPlaneToAgentMessage_def same by blast
  then show ?thesis using assms(2) by (simp add: onMessage_def str_prop_def Let_def)
qed

lemma accepted_state:
  assumes "json_codec ap" "i \<noteq> []" "secret \<noteq> []" "CHR '':'' \<notin> set i" "CHR '':'' \<notin> set secret" "is_secret cred = secret"
  shows "pr_agentId (onAccepted ap (accepted_payload i cred) p) = Some i" "pr_heartbeatTimer (onAccepted ap (accepted_payload i cred) p)"
    and "pr_sent (onAccepted ap (accepted_payload i cred) p) = pr_sent p"
    and "pr_shuttingDown (onAccepted ap (accepted_payload i cred) p) = pr_shuttingDown p"
    and "loadState ap (pr_file (onAccepted ap (accepted_payload i cred) p)) = Some \<lparr>ls_agentId = i, ls_credentialSecret = secret\<rparr>"
    and "parse_bearer (Some (bearer_header \<lparr>ls_agentId = i, ls_credentialSecret = secret\<rparr>)) = Some (i, secret)"
proof -
  have payload: "str_prop ''agentId'' (accepted_payload i cred) = i"
    "map_of (accepted_payload i cred) ''credentialSecret'' = Some (JStr secret)"
    using assms(6) by (simp_all add: accepted_payload_def str_prop_def)
  show "pr_agentId (onAccepted ap (accepted_payload i cred) p) = Some i" "pr_heartbeatTimer (onAccepted ap (accepted_payload i cred) p)"
    "pr_sent (onAccepted ap (accepted_payload i cred) p) = pr_sent p"
    "pr_shuttingDown (onAccepted ap (accepted_payload i cred) p) = pr_shuttingDown p"
    using payload by (simp_all add: onAccepted_def Let_def startHeartbeatLoop_def split: option.split)
  have both: "loadState ap (pr_file (onAccepted ap (accepted_payload i cred) p)) = Some \<lparr>ls_agentId = i, ls_credentialSecret = secret\<rparr>
    \<and> parse_bearer (pr_header (boot ap [] (pr_file (onAccepted ap (accepted_payload i cred) p)) 0)) = Some (i, secret)"
    by (rule credential_survives_restart [OF assms(1) payload assms(2-5)])
  then show load: "loadState ap (pr_file (onAccepted ap (accepted_payload i cred) p))
      = Some \<lparr>ls_agentId = i, ls_credentialSecret = secret\<rparr>" by (rule conjunct1)
  show "parse_bearer (Some (bearer_header \<lparr>ls_agentId = i, ls_credentialSecret = secret\<rparr>)) = Some (i, secret)"
    using conjunct2 [OF both] by (simp add: boot_def connect_def load)
qed

subsection \<open>The agent comes back\<close>

lemma closed_keeps_credential:
  assumes "gw_conns g s = Some c" "cn_agentId c = Some i" "find_agent i (gw_world g) \<noteq> None"
  shows "\<exists>g'. onClose s g = (Inr (), g') \<and> verifyCredential pf i secret (gw_world g') = verifyCredential pf i secret (gw_world g)
    \<and> find_agent i (gw_world g') \<noteq> None \<and> w_now (gw_world g') = w_now (gw_world g)"
proof -
  obtain r where r: "find_agent i (gw_world g) = Some r" using assms(3) by blast
  have found: "find_agent i (set_agents i (set_status Disconnected) (gw_world g)) \<noteq> None"
    using r by (simp add: find_set_agents set_status_def)
  have frame: "w_credentials (set_agents i f w) = w_credentials w" "w_now (set_agents i f w) = w_now w" for f w
    by (simp_all add: set_agents_def)
  show ?thesis using assms(1,2) r found
    by (simp add: onClose_def run_simps catching_def verifyCredential_def find_credential_def frame cong: option.case_cong)
qed

lemma comes_back:
  assumes "loadState ap (pr_file p) = Some \<lparr>ls_agentId = i, ls_credentialSecret = secret\<rparr>" "\<not> pr_shuttingDown p"
    and "parse_bearer (Some (bearer_header \<lparr>ls_agentId = i, ls_credentialSecret = secret\<rparr>)) = Some (i, secret)"
    and "verifyCredential pf i secret (gw_world g)" "find_agent i (gw_world g) = Some row"
    and "q = onReconnectTimer ap (onSocketClose random p)"
  shows "\<exists>g'. onUpgrade pf s (pr_header q) g = (Inr (), g') \<and> gw_conns g' s = Some (new_connection (Some i) (w_now (gw_world g)))
    \<and> gw_live g' i = Some s \<and> find_agent i (gw_world g') = Some (row\<lparr>ag_status := Online\<rparr>)
    \<and> pr_agentId (onOpen ap cf q) = Some i \<and> pr_heartbeatTimer (onOpen ap cf q) \<and> pr_sent (onOpen ap cf q) = pr_sent p"
proof -
  have q: "pr_header q = Some (bearer_header \<lparr>ls_agentId = i, ls_credentialSecret = secret\<rparr>)"
    "pr_state q = Some \<lparr>ls_agentId = i, ls_credentialSecret = secret\<rparr>" "pr_agentId q = Some i" "pr_sent q = pr_sent p"
    using assms(1,2,6) by (simp_all add: onReconnectTimer_def onSocketClose_def connect_def stopHeartbeatLoop_def Let_def)
  have "find_agent i (set_agents i (set_status Online) (gw_world g)) = Some (row\<lparr>ag_status := Online\<rparr>)"
    using assms(5) by (simp add: find_set_agents set_status_def)
  with upgrade_run [OF assms(3-5), of s] q show ?thesis
    by (simp add: connected_def onOpen_def startHeartbeatLoop_def Let_def)
qed

lemma hello_enrolls:
  assumes "reads pf hello ''agent.enroll'' q mid" "gw_conns g s = Some c" "cn_open c" "\<not> cn_authenticated c"
    and "mid \<notin> fst ` set (rg_seenAt (gw_replay g))"
    and "i = pf_cuid pf (w_seq (gw_world g))" "secret = pf_randomToken pf (Suc (w_seq (gw_world g)))"
    and "enroll_ready i (gw_world g)" "enroll_refusal pf q (gw_world g) = None"
    and "hashToken pf secret \<notin> cr_fingerprint ` set (w_credentials (gw_world g))"
  shows "\<exists>g1 c1 n t. handleMessage pf s (Some hello) g = (Inr (), g1) \<and> gw_conns g1 s = Some c1
    \<and> cn_sent c1 = cn_sent c @ [JObj (createControlPlaneToAgentMessage (pf_randomUUID pf n) (pf_isoString pf t) ''agent.accepted''
        (JObj (accepted_payload i \<lparr>is_secret = secret, is_fingerprint = hashToken pf secret\<rparr>)) control_plane_sender)]
    \<and> cn_authenticated c1 \<and> cn_agentId c1 = Some i \<and> gw_live g1 i = Some s \<and> verifyCredential pf i secret (gw_world g1)
    \<and> token_refused (hashToken pf (str_prop ''enrollmentToken'' q)) (gw_world g1) = Some AlreadyUsed
    \<and> find_agent i (gw_world g1) \<noteq> None"
proof -
  obtain rg where handle: "handleMessage pf s (Some hello) g = handleEnroll pf s q (g\<lparr>gw_replay := rg\<rparr>)"
    using gateway_enrolls [OF assms(1,2,4,5)] by blast
  obtain g1 where g1: "handleMessage pf s (Some hello) g = (Inr (), g1)"
      "w_agents (gw_world g1) = w_agents (gw_world g) @ [(new_agent i q)\<lparr>ag_status := Online, ag_lastHeartbeatAt := Some (w_now (gw_world g))\<rparr>]"
      "verifyCredential pf i secret (gw_world g1)"
      "token_refused (hashToken pf (str_prop ''enrollmentToken'' q)) (gw_world g1) = Some AlreadyUsed"
      "gw_conns g1 s = Some (c\<lparr>cn_agentId := Some i, cn_authenticated := True, cn_lastHeartbeatAt := w_now (gw_world g),
         cn_sent := cn_sent c @ [JObj (createControlPlaneToAgentMessage (pf_randomUUID pf (Suc (Suc (Suc (w_seq (gw_world g))))))
           (pf_isoString pf (w_now (gw_world g))) ''agent.accepted''
           (JObj (accepted_payload i \<lparr>is_secret = secret, is_fingerprint = hashToken pf secret\<rparr>)) control_plane_sender)]\<rparr>)"
      "gw_live g1 i = Some s"
    using enrollment_succeeds [of i "g\<lparr>gw_replay := rg\<rparr>" s c pf secret q] assms(2,3,6-10) by (auto simp: handle)
  have "i \<notin> ag_id ` set (w_agents (gw_world g))" using assms(8) by (simp add: enroll_ready_def)
  then have "find_agent i (gw_world g1) \<noteq> None" by (simp add: find_agent_def g1(2) findBy_append split: option.split)
  with g1 show ?thesis
    by (intro exI [of _ g1] exI [of _ "c\<lparr>cn_agentId := Some i, cn_authenticated := True, cn_lastHeartbeatAt := w_now (gw_world g),
         cn_sent := cn_sent c @ [JObj (createControlPlaneToAgentMessage (pf_randomUUID pf (Suc (Suc (Suc (w_seq (gw_world g))))))
           (pf_isoString pf (w_now (gw_world g))) ''agent.accepted''
           (JObj (accepted_payload i \<lparr>is_secret = secret, is_fingerprint = hashToken pf secret\<rparr>)) control_plane_sender)]\<rparr>"]
        exI [of _ "Suc (Suc (Suc (w_seq (gw_world g))))"] exI [of _ "w_now (gw_world g)"]) simp
qed

subsection \<open>Joining\<close>

text \<open>
  C2: An agent joins once and comes back for ever. A process without a stored credential that is configured with a valid
  enrollment token sends \<open>agent.enroll\<close>; the gateway makes it the agent \<open>i\<close>, registers its connection as the live
  one and uses the token up; the process takes the answer, stores the credential and starts its heartbeats. When its
  socket is closed and the reconnect timer fires, the credential it stored is what it presents: the
  gateway takes the new connection for the same agent, online again, and the process starts its
  heartbeats without enrolling a second time.
\<close>

theorem agent_joins:
  assumes "platform_formats pf F" "platform_formats (ap_base ap) F" "pf_safeParse (ap_base ap) = pf_safeParse pf" "json_codec ap"
    and "pr_state p = None" "\<not> pr_shuttingDown p" "truthy (cf_enrollmentToken cf) = Some token"
    and "1 \<le> length (cf_agentName cf)" "length (cf_agentName cf) \<le> 256" "conforms_fields F agentEnrollPayload (enroll_payload ap cf token)"
    and "gw_conns g s = Some c" "cn_open c" "\<not> cn_authenticated c"
    and "pf_randomUUID (ap_base ap) (pr_seq p) \<notin> fst ` set (rg_seenAt (gw_replay g))"
    and "i = pf_cuid pf (w_seq (gw_world g))" "secret = pf_randomToken pf (Suc (w_seq (gw_world g)))"
    and "enroll_ready i (gw_world g)" "enroll_refusal pf (hello_of ap cf token) (gw_world g) = None"
    and "hashToken pf secret \<notin> cr_fingerprint ` set (w_credentials (gw_world g))" "hashToken pf secret \<noteq> []"
    and "i \<noteq> []" "secret \<noteq> []" "CHR '':'' \<notin> set i" "CHR '':'' \<notin> set secret"
  shows "\<exists>hello g1 c1 greeting p1 p2 g2 g3 row. pr_sent (onOpen ap cf p) = pr_sent p @ [hello]
    \<and> handleMessage pf s (Some hello) g = (Inr (), g1) \<and> gw_conns g1 s = Some c1 \<and> cn_sent c1 = cn_sent c @ [greeting]
    \<and> cn_authenticated c1 \<and> cn_agentId c1 = Some i \<and> gw_live g1 i = Some s
    \<and> token_refused (hashToken pf (str_prop ''enrollmentToken'' (hello_of ap cf token))) (gw_world g1) = Some AlreadyUsed
    \<and> p1 = onMessage ap (Some greeting) (onOpen ap cf p) \<and> pr_agentId p1 = Some i \<and> pr_heartbeatTimer p1
    \<and> onClose s g1 = (Inr (), g2) \<and> p2 = onReconnectTimer ap (onSocketClose random p1)
    \<and> onUpgrade pf s' (pr_header p2) g2 = (Inr (), g3)
    \<and> gw_conns g3 s' = Some (new_connection (Some i) (w_now (gw_world g2))) \<and> gw_live g3 i = Some s'
    \<and> find_agent i (gw_world g3) = Some row \<and> ag_status row = Online
    \<and> pr_agentId (onOpen ap cf p2) = Some i \<and> pr_heartbeatTimer (onOpen ap cf p2) \<and> pr_sent (onOpen ap cf p2) = pr_sent p @ [hello]"
proof -
  obtain hello where hello: "pr_sent (onOpen ap cf p) = pr_sent p @ [hello]" "pr_shuttingDown (onOpen ap cf p) = pr_shuttingDown p"
      "reads pf hello ''agent.enroll'' (hello_of ap cf token) (pf_randomUUID (ap_base ap) (pr_seq p))"
    using hello_sent [OF assms(2,5,7-10)] assms(3) by (auto simp: reads_def)
  let ?cred = "\<lparr>is_secret = secret, is_fingerprint = hashToken pf secret\<rparr>"
  obtain g1 c1 n t where g1: "handleMessage pf s (Some hello) g = (Inr (), g1)" "gw_conns g1 s = Some c1"
      "cn_sent c1 = cn_sent c @ [JObj (createControlPlaneToAgentMessage (pf_randomUUID pf n) (pf_isoString pf t) ''agent.accepted''
        (JObj (accepted_payload i ?cred)) control_plane_sender)]"
      "cn_authenticated c1" "cn_agentId c1 = Some i" "gw_live g1 i = Some s" "verifyCredential pf i secret (gw_world g1)"
      "token_refused (hashToken pf (str_prop ''enrollmentToken'' (hello_of ap cf token))) (gw_world g1) = Some AlreadyUsed"
      "find_agent i (gw_world g1) \<noteq> None"
    using hello_enrolls [OF hello(3) assms(11-19)] by (elim exE conjE) (rule that)
  define greeting where "greeting = JObj (createControlPlaneToAgentMessage (pf_randomUUID pf n) (pf_isoString pf t) ''agent.accepted''
    (JObj (accepted_payload i ?cred)) control_plane_sender)"
  have greeted: "cn_sent c1 = cn_sent c @ [greeting]" using g1(3) by (simp only: greeting_def)
  define p1 where "p1 = onMessage ap (Some greeting) (onOpen ap cf p)"
  have taken: "p1 = onAccepted ap (accepted_payload i ?cred) (onOpen ap cf p)"
    unfolding p1_def greeting_def by (rule welcome_taken [OF assms(1,3,21)]) (simp_all add: assms(20,22))
  have p1: "pr_agentId p1 = Some i" "pr_heartbeatTimer p1" "pr_sent p1 = pr_sent p @ [hello]" "\<not> pr_shuttingDown p1"
      "loadState ap (pr_file p1) = Some \<lparr>ls_agentId = i, ls_credentialSecret = secret\<rparr>"
      "parse_bearer (Some (bearer_header \<lparr>ls_agentId = i, ls_credentialSecret = secret\<rparr>)) = Some (i, secret)"
    using accepted_state [OF assms(4,21-24), where cred = ?cred] hello(1,2) assms(6) by (simp_all add: taken)
  obtain g2 row where g2: "onClose s g1 = (Inr (), g2)" "verifyCredential pf i secret (gw_world g2)" "find_agent i (gw_world g2) = Some row"
    using closed_keeps_credential [OF g1(2,5,9), of pf secret] g1(7) by auto
  define p2 where "p2 = onReconnectTimer ap (onSocketClose random p1)"
  obtain g3 where g3: "onUpgrade pf s' (pr_header p2) g2 = (Inr (), g3)"
      "gw_conns g3 s' = Some (new_connection (Some i) (w_now (gw_world g2)))" "gw_live g3 i = Some s'"
      "find_agent i (gw_world g3) = Some (row\<lparr>ag_status := Online\<rparr>)"
      "pr_agentId (onOpen ap cf p2) = Some i" "pr_heartbeatTimer (onOpen ap cf p2)" "pr_sent (onOpen ap cf p2) = pr_sent p1"
    using comes_back [OF p1(5,4,6) g2(2,3) p2_def, where s = s' and cf = cf] by (elim exE conjE) (rule that)
  have sent: "pr_sent (onOpen ap cf p2) = pr_sent p @ [hello]" using g3(7) p1(3) by simp
  have online: "ag_status (row\<lparr>ag_status := Online\<rparr>) = Online" by simp
  show ?thesis
    by (intro exI conjI) (fact hello(1) g1(1,2) greeted g1(4-6,8) p1_def p1(1,2) g2(1) p2_def g3(1-6) online sent)+
qed

subsection \<open>A concrete agent joins\<close>

definition joining_config :: agent_config where
  "joining_config = \<lparr>cf_controlPlaneUrl = [], cf_enrollmentToken = Some ''secret'', cf_agentName = ''n'', cf_labels = [],
     cf_capabilities = [''pm2''], cf_stateFilePath = [], cf_localSocketPath = [], cf_agentVersion = ''1''\<rparr>"

theorem agent_joins_witness:
  "\<exists>hello g1 p1 g2 g3. pr_sent (onOpen codec_ap joining_config (boot codec_ap [] None 0)) = [hello]
    \<and> handleMessage sample_platform 7 (Some hello) token_gateway = (Inr (), g1) \<and> gw_live g1 ''c'' = Some 7
    \<and> pr_agentId p1 = Some ''c'' \<and> onClose 7 g1 = (Inr (), g2)
    \<and> onUpgrade sample_platform 8 (pr_header (onReconnectTimer codec_ap (onSocketClose 0 p1))) g2 = (Inr (), g3)
    \<and> gw_live g3 ''c'' = Some 8"
proof -
  let ?p = "boot codec_ap [] None 0" and ?c = "new_connection None 0"
  have ap: "platform_formats (ap_base codec_ap) any_format" "pf_safeParse (ap_base codec_ap) = pf_safeParse sample_platform"
    by (simp_all add: codec_ap_def sample_platform_formats)
  have agent: "pr_state ?p = None" "\<not> pr_shuttingDown ?p" "truthy (cf_enrollmentToken joining_config) = Some ''secret''"
    "1 \<le> length (cf_agentName joining_config)" "length (cf_agentName joining_config) \<le> 256" "pr_sent ?p = []"
    by (simp_all add: boot_def connect_def loadState_def joining_config_def)
  have shape: "conforms_fields any_format agentEnrollPayload (enroll_payload codec_ap joining_config ''secret'')"
    and hello: "hello_of codec_ap joining_config ''secret'' = enroll_payload codec_ap joining_config ''secret''"
    by (simp_all add: enroll_payload_def joining_config_def codec_ap_def sample_ap_def agentEnrollPayload_def agentCapabilitySchema_def
        agentLabelsSchema_def)
  have conn: "gw_conns token_gateway 7 = Some ?c" "cn_open ?c" "\<not> cn_authenticated ?c"
    "pf_randomUUID (ap_base codec_ap) (pr_seq ?p) \<notin> fst ` set (rg_seenAt (gw_replay token_gateway))"
    by (simp_all add: new_connection_def token_gateway_def idle_gateway_def newReplayGuard_def)
  have ids: "''c'' = pf_cuid sample_platform (w_seq (gw_world token_gateway))"
    "''tt'' = pf_randomToken sample_platform (Suc (w_seq (gw_world token_gateway)))"
    by (simp_all add: sample_platform_def sample_token_world_def sample_world_def)
  have ready: "enroll_ready ''c'' (gw_world token_gateway)" unfolding ids(1) by simp
  have token: "str_prop ''enrollmentToken'' (enroll_payload codec_ap joining_config ''secret'') = ''secret''"
    by (simp add: enroll_payload_def str_prop_def)
  have fresh: "enroll_refusal sample_platform (hello_of codec_ap joining_config ''secret'') (gw_world token_gateway) = None"
    unfolding hello by (simp add: enroll_refusal_def token_refused_def Let_def restrictionsSatisfied_def token)
  have cred: "hashToken sample_platform ''tt'' \<notin> cr_fingerprint ` set (w_credentials (gw_world token_gateway))"
    "hashToken sample_platform ''tt'' \<noteq> []"
    by (simp_all add: sample_token_world_def sample_world_def hashToken_def sample_platform_def)
  have words: "''c'' \<noteq> []" "''tt'' \<noteq> []" "CHR '':'' \<notin> set ''c''" "CHR '':'' \<notin> set ''tt''" by simp_all
  obtain hello g1 p1 p2 g2 g3 where "pr_sent (onOpen codec_ap joining_config ?p) = [hello]"
      "handleMessage sample_platform 7 (Some hello) token_gateway = (Inr (), g1)" "gw_live g1 ''c'' = Some 7" "pr_agentId p1 = Some ''c''"
      "onClose 7 g1 = (Inr (), g2)" and p2: "p2 = onReconnectTimer codec_ap (onSocketClose 0 p1)"
      and "onUpgrade sample_platform 8 (pr_header p2) g2 = (Inr (), g3)" "gw_live g3 ''c'' = Some 8"
    using agent_joins [where s' = 8 and random = 0, OF sample_platform_formats ap codec_ok agent(1-5) shape conn ids ready fresh cred words,
        unfolded agent(6) append_Nil] by (elim exE conjE) (rule that)
  then show ?thesis unfolding p2 by blast
qed

end
