(* ===== verification/Spec2Isabelle.thy ===== *)
theory Spec2Isabelle
  imports Replay_Guard Gateway_Invariant Workload_Spec Bot_Adapters Agent_Process Local_Ipc Rebalance Secrets Fleet Ai_Queue Plugins Security
    Panel_Api Workload_Api Pages Seed Background Dialogs Row_Actions Command_Trip Joining
begin

text \<open>
  Verification development of BotFleet, a control plane for fleets of Discord bots.

  \<^bold>\<open>The program.\<close> Three kinds of process work together. The control plane (\<open>apps/control-plane\<close>) is a
  web application with an HTTP API and an administration panel over one PostgreSQL database, a WebSocket
  gateway to which agents connect, and a background process with Redis queues and recurring jobs. An agent
  (\<open>apps/agent\<close>) runs on each machine: it enrolls once, keeps a connection to the gateway, runs the bots'
  processes and forwards what they report on a local socket. A bot reports through \<open>packages/runtime-sdk\<close>,
  usually by an adapter for discord.js or Eris. \<open>packages/protocol\<close>, \<open>packages/workload-spec\<close> and
  \<open>packages/scheduler\<close> hold the wire protocol, the workload format and the placement scorer.

  \<^bold>\<open>How the state is modelled.\<close> The database has two sides that no function of the program mixes, and each is
  a record whose fields are tables, a table being the list of its rows. \<open>world\<close> (theory \<open>Store\<close>) is the side
  of agents, workloads, commands, enrollment tokens, credentials and placements, with the command queue,
  the clock and the supply of fresh identifiers. \<open>panel\<close> (theory \<open>Panel\<close>) is the side of users, customers,
  bots, workers, assignments, alerts, deployments, webhooks and the audit log, with the restart and explanation
  queues and the record of what was asked of PM2 and Docker. The gateway's memory (\<open>gateway\<close>), the
  agent's (\<open>agent\<close>, \<open>runner\<close>), the SDK's and an adapter's are records of their own. A function of the
  source is a computation \<open>('s, 'e, 'a) run\<close> (theory \<open>Prelude\<close>): it takes the state and gives a value or an
  exception with the state at that moment, so that what was written before an exception stays written, and
  \<open>transaction\<close> undoes it where the source opens one. Columns that no modelled function reads or writes and
  \<open>updatedAt\<close> are left out.

  \<^bold>\<open>Foundations.\<close>
  \<^item> \<open>Prelude\<close>: computations, the frame rules \<open>keeps\<close> and \<open>leads\<close>, table operations, decimal printing.
  \<^item> \<open>Stable_Sort\<close>: \<open>Array.prototype.sort\<close>; the locale \<open>comparison\<close> is what a comparator owes, the comparators of
    the scheduler and of the rebalancer are its interpretations.
  \<^item> \<open>Doubles\<close>: IEEE division, \<open>Math.round\<close>, \<open>toFixed\<close>; the locale \<open>rounding\<close> is what the scorers rely on.
  \<^item> \<open>Zod\<close>: JSON and schemas as data; the locale \<open>zod\<close> is the documented meaning of the validator.

  \<^bold>\<open>Protocol and agents.\<close>
  \<^item> \<open>Protocol\<close>, \<open>Replay_Guard\<close>, \<open>Workload_Spec\<close>: \<open>packages/protocol/src\<close>, \<open>packages/workload-spec/src\<close>. Parsers
    answer the first check that fails; constructed messages parse; a replayed message is rejected
    within the window.
  \<^item> \<open>Scheduler\<close>, \<open>Scheduling\<close>: \<open>packages/scheduler/src\<close>, \<open>lib/scheduling.ts\<close>. The best eligible agent is
    selected, whatever the order of the input; a recommendation is a recorded dry run.
  \<^item> \<open>Store\<close>, \<open>Workloads\<close>, \<open>Reconciliation\<close>: the tables, \<open>lib/workloads.ts\<close>, \<open>lib/reconciliation.ts\<close>,
    \<open>command-outcomes.ts\<close>. Stale results are ignored, a tick sends exactly what is due, retries back off and
    suspend.
  \<^item> \<open>Enrollment\<close>, \<open>Gateway\<close>, \<open>Gateway_Invariant\<close>: \<open>lib/agents/enrollment.ts\<close>, \<open>credential.ts\<close>,
    \<open>lib/agent-gateway/server.ts\<close>. \<open>Gateway\<close> has the handlers and what each does when nothing comes in between.
    The gateway does not wait for a handler before it takes the next message, so in \<open>Gateway_Invariant\<close> an
    enrollment and an upgrade are tasks cut at their awaits, \<open>node_step\<close> runs the stages of all tasks in flight in
    any order among the other events, and the invariant of the reachable states is proved by rule
    induction. \<open>enroll_uninterrupted\<close>, \<open>message_uninterrupted\<close> and \<open>upgrade_uninterrupted\<close> say that the tasks, run
    without interruption, are the handlers of \<open>Gateway\<close>; two theorems show what the window between two awaits lets
    through.
  \<^item> \<open>Agent_Drain\<close>: \<open>lib/agents/drain.ts\<close>, with the rest of the system acting during every sleep. The hand-over
    and the health check hold whatever it does, the balance of a whole drain if it leaves agents and assignments alone.
  \<^item> \<open>Agent_Runner\<close>, \<open>Local_Ipc\<close>, \<open>Agent_Process\<close>: \<open>apps/agent/src\<close>. Entries are shared objects in a store, child
    processes capture addresses; a runner used in order keeps an exact inventory; each chunk of a socket is decoded
    as UTF-8 on its own, and the chunks refine the lines of the whole stream when none ends inside a character;
    commands are acknowledged and, once their process exits, answered while the agent is connected.
  \<^item> \<open>Command_Trip\<close>: a command from the administrator through queue, gateway, agent and runner and its answer back
    into the database, as one theorem over the definitions of these theories. \<open>Joining\<close>: enrollment, the stored
    credential and the reconnect, likewise.
  \<^item> \<open>Runtime_Sdk\<close>, \<open>Bot_Adapters\<close>: \<open>packages/runtime-sdk/src\<close>, \<open>packages/adapter-discordjs\<close>, \<open>packages/adapter-eris\<close>.

  \<^bold>\<open>Panel.\<close>
  \<^item> \<open>Panel\<close>, \<open>Fleet\<close>, \<open>Rebalance\<close>: plans, maintenance mode, \<open>lib/worker-assignment.ts\<close>, \<open>lib/workers/drain.ts\<close>,
    \<open>lib/rebalance.ts\<close>. Counters and assignments agree with the bots' worker groups (\<open>fleet_ok\<close>); a plan
    respects the capacities.
  \<^item> \<open>Bot_Actions\<close>, \<open>Ai_Queue\<close>, \<open>Background\<close>: \<open>lib/bot-actions.ts\<close>, \<open>lib/runner\<close>, \<open>lib/queue\<close>.
  \<^item> \<open>Secrets\<close>, \<open>Sessions\<close>, \<open>Security\<close>: \<open>lib/crypto.ts\<close>, \<open>auth.ts\<close>, the guards, \<open>lib/serialize.ts\<close>,
    \<open>lib/security-checks.ts\<close>. Roles and severities are linear orders; the guards compare ranks.
  \<^item> \<open>Bot_Api\<close>, \<open>Admin_Api\<close>, \<open>Deployments\<close>, \<open>Webhooks\<close>, \<open>Workload_Api\<close>: the handlers of \<open>app/api\<close>.
    \<open>Panel_Api\<close> takes the panel's handlers together as one interface, \<open>handle\<close>, and its requests and jobs as a
    step relation \<open>panel_step\<close>; the locales \<open>panel_frame\<close> and \<open>panel_invariant\<close> carry an invariant from the
    operations to all of them, and are interpreted for the fleet, the owners and the roles.
  \<^item> \<open>Plugins\<close>: \<open>lib/plugins\<close>, \<open>lib/alerts/evaluate-rules.ts\<close>. \<open>Seed\<close>: \<open>prisma/seed.ts\<close>.
  \<^item> \<open>Pages\<close>, \<open>Dialogs\<close>, \<open>Row_Actions\<close>: what the pages decide (\<open>app\<close>) and what the browser's components
    send to the routes and show of the answers (\<open>components\<close>).

  \<^bold>\<open>Bounds and fuel.\<close> Loops of the source that are bounded are modelled with the bound of the source: five looks of
    the drain's health check, fifteen polls for an explanation, at most \<open>maxQueueSize\<close> (100) queued reports.
    \<open>follow\<close> takes the number of redirects a browser follows: two are enough for everyone but a signed-in member, whom
    no number is enough for, and both are proved. Recursive routines whose argument does not shrink
    structurally (the lines of a socket's buffer, printing of numbers, the double's exponent) are proved to terminate.
    Nothing else needs fuel.

  \<^bold>\<open>Parameters.\<close> Code outside the repository is an argument of the definitions that use it: the zod validator
  (locale \<open>zod\<close>), AES-GCM, SHA-256 and the random generators (\<open>crypto_laws\<close>, \<open>platform\<close>), \<open>localeCompare\<close>
  (locale \<open>collation\<close>), \<open>JSON.parse\<close>, URL parsing, PM2, Docker, the Discord API, identifiers. Each set of laws has
  a concrete instance on which the witnesses run.

  \<^bold>\<open>Not modelled.\<close> Handlers and jobs are atomic, the awaits of two of them are not interleaved, except for the
  gateway's enrollments and upgrades, cut at every await, and a drain, whose sleeps admit any other activity. In
  particular two role changes at the same time are two requests one after the other, and the database
  calls of one message of an enrolled agent are one stage. The database answers whenever it is asked; that it can be
  down is modelled only where the code handles it. Logging, the gateway's HTTP health
  endpoint, file permissions, the reading of PM2 process lists, the lists \<open>GET /api/admin/agents\<close> and
  \<open>GET /api/admin/workloads\<close> (ordered by a column that is left out), the texts of bot templates, the values of
  dashboard cards, markup and styles, the tables of the list pages, the demonstration script, the example bots, and
  the framework's glue (Auth.js handlers, Prisma client, configuration).
\<close>

end
